(* ===== verification/Prelude.thy ===== *)
theory Prelude
  imports Complex_Main "HOL-Library.AList"
begin

text \<open>
  Shared vocabulary of the development: JavaScript strings as lists of UTF-16 code units,
  the few string and number operations the web client uses, the "seen set" loop that several
  components share, and generic lemmas on lists and relations.
\<close>

named_theorems canvas_simps \<open>rewrite rules of the canvas model\<close>
named_theorems wf_intros \<open>introduction rules for the well-formedness invariants\<close>

section \<open>JavaScript strings\<close>

text \<open>A JavaScript string is a sequence of 16-bit code units; equality and
  concatenation are those of lists. \<open>js ''abc''\<close> is an ASCII literal; the Chinese texts
  of the client are written as explicit code units.\<close>

type_synonym jsstr = "nat list"

definition js :: "string \<Rightarrow> jsstr" where
  "js s = map of_char s"

lemma js_inject [simp]: "js s = js t \<longleftrightarrow> s = t"
proof
  assume "js s = js t"
  then show "s = t"
    unfolding js_def by (rule map_injective) (auto intro: injI)
qed simp

lemma js_Nil [simp]: "js [] = []" and js_Nil_iff [simp]: "js s = [] \<longleftrightarrow> s = []"
  and js_Nil_iff' [simp]: "[] = js s \<longleftrightarrow> s = []"
  by (auto simp: js_def)

lemma length_js [simp]: "length (js s) = length s"
  by (simp add: js_def)

text \<open>\<open>s.startsWith(p)\<close> and \<open>s.includes(p)\<close>.\<close>

fun startsWith :: "jsstr \<Rightarrow> jsstr \<Rightarrow> bool" where
  "startsWith s [] = True"
| "startsWith [] (p # ps) = False"
| "startsWith (c # s) (p # ps) = (c = p \<and> startsWith s ps)"

fun str_includes :: "jsstr \<Rightarrow> jsstr \<Rightarrow> bool" where
  "str_includes [] p = (p = [])"
| "str_includes (c # s) p = (startsWith (c # s) p \<or> str_includes s p)"

lemma startsWith_iff: "startsWith s p \<longleftrightarrow> (\<exists>r. s = p @ r)"
  by (induction s p rule: startsWith.induct) auto

lemma startsWith_append [simp]: "startsWith (p @ r) p"
  by (auto simp: startsWith_iff)

lemma startsWith_drop: "startsWith s p \<Longrightarrow> p @ drop (length p) s = s"
  by (auto simp: startsWith_iff)

lemma includes_iff: "str_includes s p \<longleftrightarrow> (\<exists>a b. s = a @ p @ b)"
proof (induction s)
  case Nil
  then show ?case by simp
next
  case (Cons c s)
  have "(\<exists>a b. c # s = a @ p @ b) \<longleftrightarrow> (\<exists>b. c # s = p @ b) \<or> (\<exists>a b. s = a @ p @ b)"
    by (metis append_Cons append_Nil list.exhaust_sel list.inject)
  with Cons.IH show ?case by (simp add: startsWith_iff)
qed

text \<open>\<open>s.trim()\<close>: the white space and line terminators of ECMAScript.\<close>

definition is_ws :: "nat \<Rightarrow> bool" where
  "is_ws c \<longleftrightarrow> c \<in> {9, 10, 11, 12, 13, 32, 160, 0x1680, 0x2028, 0x2029, 0x202F, 0x205F, 0x3000, 0xFEFF}
     \<or> (0x2000 \<le> c \<and> c \<le> 0x200A)"

definition trim :: "jsstr \<Rightarrow> jsstr" where
  "trim s = rev (dropWhile is_ws (rev (dropWhile is_ws s)))"

lemma trim_Nil [simp]: "trim [] = []"
  by (simp add: trim_def)

lemma trim_eq_Nil_iff: "trim s = [] \<longleftrightarrow> (\<forall>c \<in> set s. is_ws c)"
proof -
  have "trim s = [] \<longleftrightarrow> (\<forall>c \<in> set (dropWhile is_ws s). is_ws c)"
    by (simp add: trim_def)
  also have "\<dots> \<longleftrightarrow> dropWhile is_ws s = []"
    by (metis dropWhile_eq_Nil_conv hd_dropWhile hd_in_set empty_iff list.set(1))
  also have "\<dots> \<longleftrightarrow> (\<forall>c \<in> set s. is_ws c)"
    by simp
  finally show ?thesis .
qed

text \<open>Truthiness of an optional string: present and not empty.\<close>

definition truthy :: "jsstr option \<Rightarrow> bool" where
  "truthy v \<longleftrightarrow> (case v of None \<Rightarrow> False | Some s \<Rightarrow> s \<noteq> [])"

lemma truthy_simps [simp]: "\<not> truthy None" "truthy (Some s) \<longleftrightarrow> s \<noteq> []"
  by (simp_all add: truthy_def)

text \<open>\<open>v ?? d\<close>.\<close>

definition nullish :: "'a option \<Rightarrow> 'a \<Rightarrow> 'a" where
  "nullish v d = (case v of None \<Rightarrow> d | Some x \<Rightarrow> x)"

lemma nullish_simps [simp]: "nullish None d = d" "nullish (Some x) d = x"
  by (simp_all add: nullish_def)

section \<open>Numbers in strings\<close>

text \<open>The decimal digits of a template literal \<open>${i}\<close> with a natural number \<open>i\<close>.\<close>

fun dec :: "nat \<Rightarrow> jsstr" where
  "dec n = (if n < 10 then [48 + n] else dec (n div 10) @ [48 + n mod 10])"

declare dec.simps [simp del]

definition undec :: "jsstr \<Rightarrow> nat" where
  "undec = foldl (\<lambda>a c. 10 * a + (c - 48)) 0"

lemma undec_dec: "undec (dec n) = n"
proof (induction n rule: dec.induct)
  case (1 n)
  show ?case
  proof (cases "n < 10")
    case True
    then show ?thesis by (simp add: dec.simps [of n] undec_def)
  next
    case False
    with 1 have "undec (dec (n div 10)) = n div 10" by simp
    with False show ?thesis by (simp add: dec.simps [of n] undec_def)
  qed
qed

lemma dec_inject [simp]: "dec m = dec n \<longleftrightarrow> m = n"
  by (metis undec_dec)

lemma dec_digits: "c \<in> set (dec n) \<Longrightarrow> 48 \<le> c \<and> c \<le> 57"
proof (induction n rule: dec.induct)
  case (1 n)
  then show ?case
    by (cases "n < 10") (auto simp: dec.simps [of n])
qed

lemma dec_not_Nil [simp]: "dec n \<noteq> []"
  by (subst dec.simps) simp

text \<open>\<open>Math.round\<close>: half up.\<close>

definition math_round :: "rat \<Rightarrow> rat" where
  "math_round v = of_int \<lfloor>v + 1 / 2\<rfloor>"

lemma math_round_of_int [simp]: "math_round (of_int z) = of_int z"
proof -
  have "\<lfloor>(of_int z :: rat) + 1 / 2\<rfloor> = z"
    by (rule floor_unique) simp_all
  then show ?thesis by (simp add: math_round_def)
qed

lemma math_round_idem [simp]: "math_round (math_round v) = math_round v"
  by (simp add: math_round_def [of v])

lemma math_round_of_nat [simp]: "math_round (of_nat n) = of_nat n"
  using math_round_of_int [of "int n"] by simp

section \<open>The "seen set" loop\<close>

text \<open>
  Several routines walk a list, skip an element whose key was met before, and push the
  others: the event log, the asset pages, the template variables and the table of custom
  types. \<open>dedupe_by key seen xs\<close> is the list such a loop pushes when it starts with the
  keys \<open>seen\<close>.
\<close>

fun dedupe_by :: "('a \<Rightarrow> 'k) \<Rightarrow> 'k list \<Rightarrow> 'a list \<Rightarrow> 'a list" where
  "dedupe_by key seen [] = []"
| "dedupe_by key seen (x # xs) =
     (if key x \<in> set seen then dedupe_by key seen xs
      else x # dedupe_by key (key x # seen) xs)"

lemma dedupe_by_cong_seen:
  "set seen = set seen' \<Longrightarrow> dedupe_by key seen xs = dedupe_by key seen' xs"
proof (induction xs arbitrary: seen seen')
  case Nil
  then show ?case by simp
next
  case (Cons x xs)
  from Cons.prems have "set (key x # seen) = set (key x # seen')" by simp
  then have "dedupe_by key (key x # seen) xs = dedupe_by key (key x # seen') xs"
    by (rule Cons.IH)
  moreover have "dedupe_by key seen xs = dedupe_by key seen' xs"
    using Cons.prems by (rule Cons.IH)
  ultimately show ?case using Cons.prems by simp
qed

lemma dedupe_by_keys:
  "key ` set (dedupe_by key seen xs) = key ` set xs - set seen"
  by (induction xs arbitrary: seen) auto

lemma dedupe_by_distinct:
  "distinct (map key (dedupe_by key seen xs))"
proof (induction xs arbitrary: seen)
  case Nil
  then show ?case by simp
next
  case (Cons x xs)
  have "key x \<notin> key ` set (dedupe_by key (key x # seen) xs)"
    by (simp add: dedupe_by_keys)
  with Cons.IH show ?case by simp
qed

lemma dedupe_by_subset: "set (dedupe_by key seen xs) \<subseteq> set xs"
  by (induction xs arbitrary: seen) auto

lemma dedupe_by_disjoint: "x \<in> set (dedupe_by key seen xs) \<Longrightarrow> key x \<notin> set seen"
  using dedupe_by_keys [of key seen xs] by blast

lemma dedupe_by_append:
  "dedupe_by key seen (xs @ ys) =
     dedupe_by key seen xs @ dedupe_by key (map key (dedupe_by key seen xs) @ seen) ys"
proof (induction xs arbitrary: seen)
  case Nil
  then show ?case by simp
next
  case (Cons x xs)
  show ?case
  proof (cases "key x \<in> set seen")
    case True
    with Cons.IH show ?thesis by simp
  next
    case False
    let ?d = "dedupe_by key (key x # seen) xs"
    have "dedupe_by key (map key ?d @ key x # seen) ys =
        dedupe_by key (map key (x # ?d) @ seen) ys"
      by (rule dedupe_by_cong_seen) auto
    with False show ?thesis by (simp add: Cons.IH)
  qed
qed

lemma dedupe_by_all_seen:
  "key ` set xs \<subseteq> set seen \<Longrightarrow> dedupe_by key seen xs = []"
  by (induction xs) auto

lemma dedupe_by_id:
  "distinct (map key xs) \<Longrightarrow> key ` set xs \<inter> set seen = {} \<Longrightarrow> dedupe_by key seen xs = xs"
  by (induction xs arbitrary: seen) auto

text \<open>Each kept element is the first of its key.\<close>

lemma dedupe_by_first:
  assumes "x \<in> set (dedupe_by key seen xs)"
  shows "find (\<lambda>y. key y = key x) xs = Some x"
  using assms
proof (induction xs arbitrary: seen)
  case Nil
  then show ?case by simp
next
  case (Cons y ys)
  show ?case
  proof (cases "key y \<in> set seen")
    case True
    with Cons.prems have x: "x \<in> set (dedupe_by key seen ys)" by simp
    then have "key x \<notin> set seen" by (rule dedupe_by_disjoint)
    with True have "key y \<noteq> key x" by auto
    with Cons.IH [OF x] show ?thesis by simp
  next
    case False
    show ?thesis
    proof (cases "x = y")
      case False
      with \<open>key y \<notin> set seen\<close> Cons.prems
      have x: "x \<in> set (dedupe_by key (key y # seen) ys)" by simp
      then have "key x \<notin> set (key y # seen)" by (rule dedupe_by_disjoint)
      then have "key y \<noteq> key x" by auto
      with Cons.IH [OF x] show ?thesis by simp
    qed simp
  qed
qed

section \<open>Generic lemmas on lists and relations\<close>

lemma find_SomeD: "find P xs = Some x \<Longrightarrow> x \<in> set xs \<and> P x"
  by (auto simp: find_Some_iff)

lemma find_None_iff_ball: "find P xs = None \<longleftrightarrow> (\<forall>x \<in> set xs. \<not> P x)"
  by (auto simp: find_None_iff)

lemma find_append:
  "find P (xs @ ys) = (case find P xs of None \<Rightarrow> find P ys | Some x \<Rightarrow> Some x)"
  by (induction xs) auto

lemma find_distinct_key:
  "distinct (map f xs) \<Longrightarrow> x \<in> set xs \<Longrightarrow> find (\<lambda>y. f y = f x) xs = Some x"
  by (induction xs) (auto simp: image_iff)

lemma map_of_distinct_key:
  "distinct (map f xs) \<Longrightarrow> x \<in> set xs \<Longrightarrow> map_of (map (\<lambda>y. (f y, g y)) xs) (f x) = Some (g x)"
  by (induction xs) (auto simp: image_iff)

lemma acyclic_finite_wf:
  fixes r :: "('a \<times> 'a) set"
  assumes "finite r" and "acyclic r"
  shows "wf (r\<inverse>)"
  using assms by (simp add: finite_acyclic_wf_converse)

end
