(* ===== verification/Wire_Types.thy ===== *)
theory Wire_Types
  imports Prelude
begin

text \<open>
  The data that crosses the wire (\<open>web/src/lib/types.ts\<close>) and the authoritative run state
  (\<open>web/src/lib/projectState.ts\<close>). Interfaces are records, string unions are datatypes, an
  optional property \<open>p?: T\<close> is an \<open>option\<close>, \<open>unknown\<close> is a JSON value, and an object used
  as a dictionary is an association list in insertion order. A record field carries the
  abbreviated interface name as prefix, then the source's property name.
\<close>

section \<open>JSON values\<close>

datatype json = JNull | JBool bool | JNum rat | JStr jsstr | JArr "json list" | JObj "(jsstr \<times> json) list"

section \<open>Workflow model\<close>

record xy =
  px :: rat
  py :: rat

record var_binding =
  vb_name :: jsstr
  vb_sourceNodeId :: jsstr
  vb_sourceField :: "jsstr option"

text \<open>\<open>wn_unknown\<close> holds the keys the client does not know: it copies nodes with the spread
  operator, which keeps them.\<close>

record workflow_node =
  wn_id :: jsstr
  wn_type :: jsstr
  wn_promptId :: jsstr
  wn_promptText :: "jsstr option"
  wn_dependsOn :: "jsstr list"
  wn_position :: "xy option"
  wn_label :: "jsstr option"
  wn_color :: "jsstr option"
  wn_typeId :: "jsstr option"
  wn_varBindings :: "var_binding list option"
  wn_parameters :: "(jsstr \<times> json) list option"
  wn_typeVersion :: "int option"
  wn_unknown :: "(jsstr \<times> json) list"

datatype input_field_type = IT_text | IT_textarea | IT_number | IT_select

datatype input_field_target =
  TG_variable | TG_brief | TG_contentType | TG_targetPlatform | TG_style

record input_field_option =
  io_value :: jsstr
  io_label :: "jsstr option"

record input_field =
  if_name :: jsstr
  if_label :: "jsstr option"
  if_type :: input_field_type
  if_target :: input_field_target
  if_options :: "input_field_option list option"
  if_default :: "jsstr option"
  if_required :: "bool option"

record workflow_settings =
  ws_style :: "jsstr option"
  ws_contentType :: "jsstr option"
  ws_targetPlatform :: "jsstr option"

record create_workflow_input =
  cw_name :: jsstr
  cw_nodes :: "workflow_node list"
  cw_inputsSchema :: "input_field list option"
  cw_settings :: "workflow_settings option"
  cw_version :: "int option"

record prompt =
  pr_id :: jsstr
  pr_orgId :: jsstr
  pr_name :: jsstr
  pr_content :: jsstr
  pr_style :: jsstr
  pr_kind :: jsstr
  pr_isDefault :: bool
  pr_createdAt :: jsstr
  pr_updatedAt :: jsstr

section \<open>Events\<close>

text \<open>\<open>StudioEvent\<close> (replayed) has an optional \<open>todoId\<close>; \<open>SseFrame\<close> (live) always has one.\<close>

record studio_event =
  ev_seq :: int
  ev_kind :: jsstr
  ev_todoId :: "jsstr option"
  ev_payload :: "json option"

record sse_frame =
  fr_seq :: int
  fr_kind :: jsstr
  fr_todoId :: jsstr
  fr_payload :: "json option"

section \<open>Project state\<close>

datatype project_status =
  PS_draft | PS_planning | PS_running | PS_review | PS_completed | PS_failed | PS_canceled

datatype stage_role = SR_planner | SR_script | SR_storyboard | SR_asset | SR_review

datatype stage_status = S_blocked | S_pending | S_running | S_done | S_failed

datatype run_status = R_idle | R_running | R_done

datatype pip_status = PP_idle | PP_running | PP_done | PP_failed

datatype output_format = OF_text | OF_json | OF_http_status

record stage_state =
  st_role :: stage_role
  st_status :: stage_status
  st_todoId :: "jsstr option"

record pip_state =
  pp_todoId :: jsstr
  pp_status :: pip_status
  pp_assetId :: "jsstr option"

type_synonym graph_node_status = stage_status

record binary_ref =
  br_assetId :: jsstr
  br_mimeType :: jsstr
  br_kind :: jsstr
  br_status :: "jsstr option"

record inspector_item =
  ii_json :: json
  ii_binary :: "(jsstr \<times> binary_ref) list option"

record graph_node =
  gn_id :: jsstr
  gn_label :: jsstr
  gn_type :: jsstr
  gn_status :: graph_node_status
  gn_assetId :: "jsstr option"
  gn_output :: "jsstr option"
  gn_outputFormat :: "output_format option"
  gn_items :: "inspector_item list option"

record graph_edge =
  ge_from :: jsstr
  ge_to :: jsstr

record assets_state =
  as_total :: nat
  as_done :: nat
  as_failed :: "nat option"
  as_pending :: nat

record problem_error =
  pe_todoId :: jsstr
  pe_role :: "jsstr option"
  pe_message :: jsstr

record plan_state =
  pl_planId :: jsstr
  pl_valid :: bool
  pl_fallbackUsed :: bool

record project_state =
  ps_projectId :: jsstr
  ps_version :: int
  ps_status :: project_status
  ps_runStatus :: run_status
  ps_plan :: "plan_state option"
  ps_stages :: "stage_state list"
  ps_pips :: "pip_state list"
  ps_assets :: assets_state
  ps_error :: "problem_error option"
  ps_nodes :: "graph_node list"
  ps_edges :: "graph_edge list"
  ps_isCustom :: bool

section \<open>Helpers for building records\<close>

text \<open>A node or graph node with only the mandatory properties set, as an object literal
  \<open>{ id, type, promptId, dependsOn }\<close> or \<open>{ id, label, type, status }\<close> builds it.\<close>

definition basic_node :: "jsstr \<Rightarrow> jsstr \<Rightarrow> jsstr \<Rightarrow> jsstr list \<Rightarrow> workflow_node" where
  "basic_node i t p ds = \<lparr>wn_id = i, wn_type = t, wn_promptId = p, wn_promptText = None,
     wn_dependsOn = ds, wn_position = None, wn_label = None, wn_color = None, wn_typeId = None,
     wn_varBindings = None, wn_parameters = None, wn_typeVersion = None, wn_unknown = []\<rparr>"

definition basic_graph_node :: "jsstr \<Rightarrow> jsstr \<Rightarrow> jsstr \<Rightarrow> graph_node_status \<Rightarrow> graph_node" where
  "basic_graph_node i l t s = \<lparr>gn_id = i, gn_label = l, gn_type = t, gn_status = s,
     gn_assetId = None, gn_output = None, gn_outputFormat = None, gn_items = None\<rparr>"

lemma basic_node_simps [simp]:
  "wn_id (basic_node i t p ds) = i" "wn_type (basic_node i t p ds) = t"
  "wn_promptId (basic_node i t p ds) = p" "wn_dependsOn (basic_node i t p ds) = ds"
  "wn_position (basic_node i t p ds) = None" "wn_promptText (basic_node i t p ds) = None"
  "wn_typeId (basic_node i t p ds) = None"
  by (simp_all add: basic_node_def)

lemma basic_graph_node_simps [simp]:
  "gn_id (basic_graph_node i l t s) = i" "gn_label (basic_graph_node i l t s) = l"
  "gn_type (basic_graph_node i l t s) = t" "gn_status (basic_graph_node i l t s) = s"
  by (simp_all add: basic_graph_node_def)

end
