(* ===== verification/Node_Color.thy ===== *)
theory Node_Color
  imports Wire_Types
begin

text \<open>
  Node type names, labels and colours: \<open>web/src/features/workflow-canvas/nodeColor.ts\<close>.
  A \<open>Record<string, string>\<close> table is a function to \<open>option\<close> over its own keys.
\<close>

fun lookup_table :: "(jsstr \<times> 'v) list \<Rightarrow> jsstr \<Rightarrow> 'v option" where
  "lookup_table t k = map_of t k"

definition NODE_COLOR :: "(jsstr \<times> jsstr) list" where
  "NODE_COLOR = [(js ''script'', js ''var(--script)''), (js ''storyboard'', js ''var(--board)''),
     (js ''asset'', js ''var(--asset)''), (js ''prescreen'', js ''var(--review)'')]"

definition TYPE_LABEL :: "(jsstr \<times> jsstr) list" where
  "TYPE_LABEL = [(js ''script'', [0x5267, 0x672c]), (js ''storyboard'', [0x5206, 0x955c]),
     (js ''asset'', [0x8d44, 0x4ea7]), (js ''prescreen'', [0x9884, 0x5ba1])]"

definition BUILTIN_DESC_TYPE :: "(jsstr \<times> jsstr) list" where
  "BUILTIN_DESC_TYPE = [(js ''script'', js ''studio.script''),
     (js ''storyboard'', js ''studio.storyboard''), (js ''asset'', js ''studio.asset''),
     (js ''prescreen'', js ''studio.prescreen'')]"

definition descTypeFor :: "jsstr \<Rightarrow> jsstr" where
  "descTypeFor t = nullish (lookup_table BUILTIN_DESC_TYPE t) t"

definition CUSTOM_PREFIX :: jsstr where "CUSTOM_PREFIX = js ''custom:''"

definition isCustomType :: "jsstr \<Rightarrow> bool" where
  "isCustomType t \<longleftrightarrow> startsWith t CUSTOM_PREFIX \<and> length t > length CUSTOM_PREFIX"

definition CUSTOM_PALETTE :: "jsstr list" where
  "CUSTOM_PALETTE = map js [''#7c93ff'', ''#22b8a6'', ''#e0795b'', ''#c879e0'',
     ''#5b9be0'', ''#e0b84a'', ''#6bbf59'', ''#e05b8a'']"

definition DEFAULT_CUSTOM_COLOR :: jsstr where "DEFAULT_CUSTOM_COLOR = js ''#8a8f98''"

record node_display =
  nd_label :: jsstr
  nd_color :: jsstr

text \<open>\<open>a || b\<close> on an optional string.\<close>

definition or_else :: "jsstr option \<Rightarrow> jsstr \<Rightarrow> jsstr" where
  "or_else v d = (if truthy v then the v else d)"

definition nodeDisplay :: "jsstr \<Rightarrow> jsstr option \<Rightarrow> jsstr option \<Rightarrow> node_display" where
  "nodeDisplay t lbl col =
     (if isCustomType t
      then \<lparr>nd_label = or_else lbl (drop (length CUSTOM_PREFIX) t),
             nd_color = or_else col DEFAULT_CUSTOM_COLOR\<rparr>
      else \<lparr>nd_label = nullish (lookup_table TYPE_LABEL t) t,
             nd_color = nullish (lookup_table NODE_COLOR t) (js ''var(--line)'')\<rparr>)"

definition todoTypeLabel :: "jsstr \<Rightarrow> jsstr" where
  "todoTypeLabel t =
     (if isCustomType t then drop (length CUSTOM_PREFIX) t
      else nullish (lookup_table TYPE_LABEL t) t)"

section \<open>slugify\<close>

text \<open>The units that the final \<open>replace\<close> keeps: \<open>[a-z0-9\-_]\<close> and U+4E00 to U+9FA5.\<close>

definition slug_unit :: "nat \<Rightarrow> bool" where
  "slug_unit c \<longleftrightarrow> (97 \<le> c \<and> c \<le> 122) \<or> (48 \<le> c \<and> c \<le> 57) \<or> c = 45 \<or> c = 95 \<or> (0x4e00 \<le> c \<and> c \<le> 0x9fa5)"

text \<open>\<open>toLowerCase\<close> on one unit, for the units whose lower-case form holds a kept unit: the
  ASCII capitals, the Kelvin sign and the dotted capital I. Every other unit with a lower-case
  form maps outside the kept units and is itself outside them, so leaving it alone gives the
  same slug.\<close>

definition lower_unit :: "nat \<Rightarrow> jsstr" where
  "lower_unit c = (if 65 \<le> c \<and> c \<le> 90 then [c + 32] else if c = 0x212a then [107]
     else if c = 0x130 then [105, 0x307] else [c])"

definition toLowerCase :: "jsstr \<Rightarrow> jsstr" where
  "toLowerCase s = concat (map lower_unit s)"

text \<open>\<open>replace(/\s+/g, "-")\<close>\<close>

function dash_runs :: "jsstr \<Rightarrow> jsstr" where
  "dash_runs [] = []"
| "dash_runs (c # s) = (if is_ws c then 45 # dash_runs (dropWhile is_ws s) else c # dash_runs s)"
  by pat_completeness auto
termination
  by (relation "measure length") (auto simp: less_Suc_eq_le length_dropWhile_le)

definition slugify :: "jsstr \<Rightarrow> jsstr" where
  "slugify label =
     (let s = filter slug_unit (dash_runs (toLowerCase (trim label)))
      in if s \<noteq> [] then s else js ''type'')"

lemma slug_unit_type: "list_all slug_unit (js ''type'')"
  by (simp add: js_def slug_unit_def)

lemma slugify_units: "slugify label \<noteq> [] \<and> list_all slug_unit (slugify label)"
  using slug_unit_type by (auto simp: slugify_def Let_def list_all_iff)

lemma slug_unit_not_ws: "slug_unit c \<Longrightarrow> \<not> is_ws c"
  by (auto simp: slug_unit_def is_ws_def)

lemma slug_unit_lower: "slug_unit c \<Longrightarrow> lower_unit c = [c]"
  by (auto simp: slug_unit_def lower_unit_def)

lemma dash_runs_id: "list_all slug_unit s \<Longrightarrow> dash_runs s = s"
  by (induction s) (auto simp: slug_unit_not_ws)

lemma toLowerCase_id: "list_all slug_unit s \<Longrightarrow> toLowerCase s = s"
  by (induction s) (auto simp: toLowerCase_def slug_unit_lower)

lemma trim_slug: "list_all slug_unit s \<Longrightarrow> trim s = s"
proof -
  assume s: "list_all slug_unit s"
  have id: "dropWhile is_ws t = t" if "list_all slug_unit t" for t
    using that by (cases t) (auto simp: slug_unit_not_ws)
  have "list_all slug_unit (rev s)" using s by (simp add: list_all_iff)
  with s show ?thesis by (simp add: trim_def id)
qed

lemma slugify_fixed: "s \<noteq> [] \<Longrightarrow> list_all slug_unit s \<Longrightarrow> slugify s = s"
  by (simp add: slugify_def trim_slug toLowerCase_id dash_runs_id filter_True list_all_iff)

lemma isCustomType_append [simp]: "isCustomType (CUSTOM_PREFIX @ s) \<longleftrightarrow> s \<noteq> []"
  by (simp add: isCustomType_def)

lemma isCustomType_iff: "isCustomType t \<longleftrightarrow> (\<exists>s. s \<noteq> [] \<and> t = CUSTOM_PREFIX @ s)"
  by (auto simp: isCustomType_def startsWith_iff)

section \<open>Properties\<close>

text \<open>a slug is never empty, holds only the allowed units, is a fixed point of \<open>slugify\<close>,
  and \<open>custom:\<close> in front of it is a custom type whose display name falls back to the slug.\<close>

theorem slugify_correct:
  "slugify label \<noteq> [] \<and> list_all slug_unit (slugify label) \<and> slugify (slugify label) = slugify label \<and>
   isCustomType (CUSTOM_PREFIX @ slugify label) \<and>
   nd_label (nodeDisplay (CUSTOM_PREFIX @ slugify label) None col) = slugify label \<and>
   todoTypeLabel (CUSTOM_PREFIX @ slugify label) = slugify label"
  using slugify_units [of label]
  by (simp add: slugify_fixed nodeDisplay_def todoTypeLabel_def or_else_def)

end
