(* ===== verification/Dag.thy ===== *)
theory Dag
  imports Prelude
begin

text \<open>
  Finite acyclic relations: the length of the longest path that starts at a point, with its
  recursion equation and its bound. It is the abstract specification of the layered layout.
\<close>

definition path_lengths :: "('a \<times> 'a) set \<Rightarrow> 'a \<Rightarrow> nat set" where
  "path_lengths r x = {k. \<exists>y. (x, y) \<in> r ^^ k}"

definition longest :: "('a \<times> 'a) set \<Rightarrow> 'a \<Rightarrow> nat" where
  "longest r x = Max (path_lengths r x)"

lemma path_lengths_0 [simp]: "0 \<in> path_lengths r x"
  by (simp add: path_lengths_def)

lemma path_lengths_Suc: "Suc k \<in> path_lengths r x \<longleftrightarrow> (\<exists>d. (x, d) \<in> r \<and> k \<in> path_lengths r d)"
proof -
  have "(\<exists>y. (x, y) \<in> r ^^ Suc k) \<longleftrightarrow> (\<exists>d. (x, d) \<in> r \<and> (\<exists>y. (d, y) \<in> r ^^ k))"
    by (meson relpow_Suc_D2 relpow_Suc_I2)
  then show ?thesis by (simp only: path_lengths_def mem_Collect_eq)
qed

lemma path_lengths_eq:
  "path_lengths r x = insert 0 (\<Union>d \<in> r `` {x}. Suc ` path_lengths r d)"
proof (rule set_eqI)
  fix k
  show "k \<in> path_lengths r x \<longleftrightarrow> k \<in> insert 0 (\<Union>d \<in> r `` {x}. Suc ` path_lengths r d)"
    by (cases k) (auto simp: path_lengths_Suc)
qed

lemma succs_shrink:
  assumes "finite r" "acyclic r" "(x, d) \<in> r"
  shows "card (r\<^sup>+ `` {d}) < card (r\<^sup>+ `` {x})"
proof (rule psubset_card_mono)
  show "finite (r\<^sup>+ `` {x})"
    using assms(1) by (meson finite_Image finite_trancl)
  have "d \<notin> r\<^sup>+ `` {d}" using assms(2) by (auto simp: acyclic_def)
  moreover have "d \<in> r\<^sup>+ `` {x}" using assms(3) by auto
  moreover have "r\<^sup>+ `` {d} \<subseteq> r\<^sup>+ `` {x}" using assms(3) by (auto intro: trancl_into_trancl2)
  ultimately show "r\<^sup>+ `` {d} \<subset> r\<^sup>+ `` {x}" by blast
qed

lemma path_length_bound:
  assumes "finite r" "acyclic r"
  shows "k \<in> path_lengths r x \<Longrightarrow> k \<le> card (r\<^sup>+ `` {x})"
proof (induction k arbitrary: x)
  case 0
  then show ?case by simp
next
  case (Suc k)
  then obtain d where d: "(x, d) \<in> r" "k \<in> path_lengths r d"
    by (auto simp: path_lengths_Suc)
  then have "k \<le> card (r\<^sup>+ `` {d})" by (blast intro: Suc.IH)
  also have "\<dots> < card (r\<^sup>+ `` {x})" using assms d(1) by (rule succs_shrink)
  finally show ?case by simp
qed

lemma finite_path_lengths:
  assumes "finite r" "acyclic r"
  shows "finite (path_lengths r x)"
  using path_length_bound [OF assms] by (meson finite_nat_set_iff_bounded_le)

lemma longest_ge:
  assumes "finite r" "acyclic r" "k \<in> path_lengths r x"
  shows "k \<le> longest r x"
  unfolding longest_def using finite_path_lengths [OF assms(1,2)] assms(3) by (rule Max_ge)

lemma longest_mem:
  assumes "finite r" "acyclic r"
  shows "longest r x \<in> path_lengths r x"
  unfolding longest_def
  by (rule Max_in [OF finite_path_lengths [OF assms]]) (metis empty_iff path_lengths_0)

lemma longest_succ:
  assumes "finite r" "acyclic r" "(x, d) \<in> r"
  shows "longest r d < longest r x"
proof -
  have "Suc (longest r d) \<in> path_lengths r x"
    using assms(3) longest_mem [OF assms(1,2), of d] by (auto simp: path_lengths_Suc)
  then have "Suc (longest r d) \<le> longest r x" by (rule longest_ge [OF assms(1,2)])
  then show ?thesis by simp
qed

lemma longest_rec:
  assumes "finite r" "acyclic r"
  shows "longest r x = Max (insert 0 ((\<lambda>d. Suc (longest r d)) ` (r `` {x})))"
proof (rule sym, rule Max_eqI)
  show "finite (insert 0 ((\<lambda>d. Suc (longest r d)) ` (r `` {x})))"
    using assms(1) by (simp add: finite_Image)
next
  fix k
  assume "k \<in> insert 0 ((\<lambda>d. Suc (longest r d)) ` (r `` {x}))"
  then show "k \<le> longest r x"
    using longest_succ [OF assms] by (auto simp: Suc_le_eq)
next
  show "longest r x \<in> insert 0 ((\<lambda>d. Suc (longest r d)) ` (r `` {x}))"
  proof (cases "longest r x")
    case 0
    then show ?thesis by simp
  next
    case (Suc k)
    then have "Suc k \<in> path_lengths r x" using longest_mem [OF assms, of x] by simp
    then obtain d where d: "(x, d) \<in> r" "k \<in> path_lengths r d" by (auto simp: path_lengths_Suc)
    have "k \<le> longest r d" using assms d(2) by (rule longest_ge)
    moreover have "longest r d < longest r x" using assms d(1) by (rule longest_succ)
    ultimately have "longest r x = Suc (longest r d)" using Suc by simp
    with d(1) show ?thesis by blast
  qed
qed

lemma longest_bound:
  assumes "finite r" "acyclic r" "finite A" "r \<subseteq> A \<times> A" "x \<in> A"
  shows "longest r x < card A"
proof -
  have "r\<^sup>+ `` {x} \<subseteq> A" using trancl_subset_Sigma [OF assms(4)] by blast
  moreover have "x \<notin> r\<^sup>+ `` {x}" using assms(2) by (auto simp: acyclic_def)
  ultimately have "card (r\<^sup>+ `` {x}) < card A"
    using assms(3,5) by (metis psubsetI psubset_card_mono)
  moreover have "longest r x \<le> card (r\<^sup>+ `` {x})"
    using path_length_bound [OF assms(1,2)] longest_mem [OF assms(1,2)] by blast
  ultimately show ?thesis by simp
qed

text \<open>Every smaller level is reached by a path.\<close>

lemma longest_pred:
  assumes "finite r" "acyclic r" "longest r x = Suc k"
  shows "\<exists>d. (x, d) \<in> r \<and> longest r d = k"
proof -
  let ?M = "insert 0 ((\<lambda>d. Suc (longest r d)) ` (r `` {x}))"
  have "finite ?M" using assms(1) by (simp add: finite_Image)
  then have "Max ?M \<in> ?M" by (rule Max_in) simp
  then have "longest r x \<in> ?M" by (rule back_subst) (rule longest_rec [OF assms(1,2), symmetric])
  with assms(3) show ?thesis by auto
qed

lemma acyclic_measure:
  fixes f :: "'a \<Rightarrow> nat"
  assumes "\<And>a b. (a, b) \<in> r \<Longrightarrow> f b < f a"
  shows "acyclic r"
proof -
  have "r\<inverse> \<subseteq> measure f" using assms by auto
  then have "wf (r\<inverse>)" using wf_measure wf_subset by blast
  then show ?thesis by (metis acyclic_converse wf_acyclic)
qed

lemma acyclic_insert_top:
  assumes "acyclic r" and "x \<notin> Range r" and "s \<subseteq> r \<union> {x} \<times> A" and "x \<notin> A"
  shows "acyclic s"
proof -
  have "(a, b) \<in> s\<^sup>+ \<Longrightarrow> b \<noteq> x \<and> (a \<noteq> x \<longrightarrow> (a, b) \<in> r\<^sup>+)" for a b
  proof (induction rule: trancl_induct)
    case (base b)
    with assms show ?case by auto
  next
    case (step b c)
    with assms(2-4) have "(b, c) \<in> r" "c \<noteq> x" by auto
    with step.IH show ?case by (auto intro: trancl_into_trancl)
  qed
  with assms(1) show ?thesis unfolding acyclic_def by blast
qed

text \<open>Renaming the vertices injectively keeps a graph acyclic.\<close>

lemma trancl_map_prod:
  assumes "inj_on f (Field r)" and "(x, y) \<in> (map_prod f f ` r)\<^sup>+"
  shows "\<exists>a b. x = f a \<and> y = f b \<and> (a, b) \<in> r\<^sup>+"
  using assms(2)
proof (induction rule: trancl_induct)
  case (base y)
  then show ?case by auto
next
  case (step y z)
  then obtain a b c d where "x = f a" "y = f b" "(a, b) \<in> r\<^sup>+" "(c, d) \<in> r" "y = f c" "z = f d"
    by auto
  moreover from this have "b = c"
    by (intro inj_onD [OF assms(1)]) (auto dest: tranclD2 intro: FieldI1 FieldI2)
  ultimately show ?case by (metis trancl.trancl_into_trancl)
qed

lemma acyclic_map_prod:
  assumes "inj_on f (Field r)" and "acyclic r"
  shows "acyclic (map_prod f f ` r)"
proof (unfold acyclic_def, intro allI notI)
  fix x
  assume "(x, x) \<in> (map_prod f f ` r)\<^sup>+"
  from trancl_map_prod [OF assms(1) this] obtain a b where
    ab: "x = f a" "x = f b" "(a, b) \<in> r\<^sup>+" by blast
  from ab(3) have "a \<in> Field r" "b \<in> Field r"
    by (auto dest: tranclD tranclD2 intro: FieldI1 FieldI2)
  with ab assms(1) have "a = b" by (metis inj_onD)
  with ab assms(2) show False by (simp add: acyclic_def)
qed

text \<open>Splitting an edge \<open>s \<rightarrow> t\<close> by a new vertex \<open>n\<close> keeps reachability between the old
  vertices, and so keeps the graph acyclic.\<close>

lemma subdivide_back:
  assumes R: "R \<subseteq> r" and e: "(s, t) \<in> r" and n: "n \<notin> Field r" and "a \<noteq> n"
    and "(a, b) \<in> (R \<union> {(s, n), (n, t)})\<^sup>+"
  shows "if b = n then (a, s) \<in> r\<^sup>* else (a, b) \<in> r\<^sup>+"
  using assms(5)
proof (induction rule: trancl_induct)
  case (base b)
  then show ?case using R \<open>a \<noteq> n\<close> n by (auto intro: FieldI2)
next
  case (step b c)
  have "s \<noteq> n" "t \<noteq> n" using e n by (auto intro: FieldI1 FieldI2)
  from step(2) consider "(b, c) \<in> R" | "b = s" "c = n" | "b = n" "c = t" by auto
  then show ?case
  proof cases
    case 1
    then have "(b, c) \<in> r" "b \<noteq> n" "c \<noteq> n" using R n by (auto intro: FieldI1 FieldI2)
    with step.IH show ?thesis by (auto intro: trancl_into_trancl)
  next
    case 2
    with step.IH \<open>s \<noteq> n\<close> show ?thesis by (auto intro: trancl_into_rtrancl)
  next
    case 3
    with step.IH \<open>t \<noteq> n\<close> e show ?thesis by (auto intro: rtrancl_into_trancl1)
  qed
qed

lemma subdivide_reach:
  assumes R: "R \<subseteq> r" "r \<subseteq> insert (s, t) R" and e: "(s, t) \<in> r" and n: "n \<notin> Field r"
    and a: "a \<noteq> n" and b: "b \<noteq> n"
  shows "(a, b) \<in> (R \<union> {(s, n), (n, t)})\<^sup>+ \<longleftrightarrow> (a, b) \<in> r\<^sup>+"
proof
  assume "(a, b) \<in> (R \<union> {(s, n), (n, t)})\<^sup>+"
  with subdivide_back [OF R(1) e n a] b show "(a, b) \<in> r\<^sup>+" by metis
next
  let ?r = "(R \<union> {(s, n), (n, t)})"
  have "(s, t) \<in> ?r\<^sup>+" by (meson UnI2 insertI1 insertI2 r_into_trancl' trancl_into_trancl)
  with R(2) have "r \<subseteq> ?r\<^sup>+" by (auto intro: r_into_trancl')
  then have "r\<^sup>+ \<subseteq> (?r\<^sup>+)\<^sup>+" by (metis trancl_mono_subset)
  also assume "(a, b) \<in> r\<^sup>+"
  finally show "(a, b) \<in> ?r\<^sup>+" by simp
qed

lemma subdivide_acyclic:
  assumes R: "R \<subseteq> r" and e: "(s, t) \<in> r" and n: "n \<notin> Field r" and "acyclic r"
  shows "acyclic (R \<union> {(s, n), (n, t)})"
proof (unfold acyclic_def, intro allI notI)
  fix x
  let ?r = "(R \<union> {(s, n), (n, t)})"
  assume x: "(x, x) \<in> ?r\<^sup>+"
  show False
  proof (cases "x = n")
    case False
    with subdivide_back [OF R e n False x] \<open>acyclic r\<close> show False by (simp add: acyclic_def)
  next
    case True
    have "t \<noteq> n" "s \<noteq> n" using e n by (auto intro: FieldI1 FieldI2)
    from x True obtain y where "(n, y) \<in> ?r" "(y, n) \<in> ?r\<^sup>*" by (metis tranclD)
    moreover from this(1) have "y = t" using R n \<open>s \<noteq> n\<close> by (auto intro: FieldI1)
    ultimately have "(t, n) \<in> ?r\<^sup>+" using \<open>t \<noteq> n\<close> by (metis rtranclD)
    with subdivide_back [OF R e n \<open>t \<noteq> n\<close>] have "(t, s) \<in> r\<^sup>*" by metis
    with e have "(t, t) \<in> r\<^sup>+" by (meson rtrancl_into_trancl1)
    with \<open>acyclic r\<close> show False by (simp add: acyclic_def)
  qed
qed

text \<open>Two acyclic graphs with no edge from the first into the second.\<close>

lemma acyclic_union_disjoint:
  assumes "acyclic r" and "acyclic s" and "Domain s \<inter> Range r = {}"
  shows "acyclic (r \<union> s)"
proof -
  have "(x, y) \<in> s\<^sup>+ \<or> (\<exists>z. (x, z) \<in> s\<^sup>* \<and> (z, y) \<in> r\<^sup>+)" if "(x, y) \<in> (r \<union> s)\<^sup>+" for x y
    using that
  proof (induction rule: trancl_induct)
    case (base y)
    then show ?case by blast
  next
    case (step y z)
    consider "(y, z) \<in> r" | "(y, z) \<in> s" using step.hyps(2) by blast
    then show ?case
    proof cases
      case 1
      from step.IH show ?thesis
      proof
        assume "(x, y) \<in> s\<^sup>+"
        then have "(x, y) \<in> s\<^sup>*" by (rule trancl_into_rtrancl)
        with 1 show ?thesis by blast
      next
        assume "\<exists>u. (x, u) \<in> s\<^sup>* \<and> (u, y) \<in> r\<^sup>+"
        with 1 show ?thesis by (meson trancl_into_trancl)
      qed
    next
      case 2
      have "\<not> (\<exists>u. (u, y) \<in> r\<^sup>+)" using 2 assms(3) by (metis DomainI RangeI disjoint_iff tranclD2)
      with step.IH 2 show ?thesis by (meson trancl_into_trancl)
    qed
  qed
  moreover have False if "(x, z) \<in> s\<^sup>*" "(z, x) \<in> r\<^sup>+" for x z
  proof (cases "x = z")
    case True
    with that(2) assms(1) show False by (simp add: acyclic_def)
  next
    case False
    with that(1) have "x \<in> Domain s" by (auto elim: converse_rtranclE)
    moreover have "x \<in> Range r" using that(2) by (auto dest: tranclD2)
    ultimately show False using assms(3) by blast
  qed
  ultimately show ?thesis using assms(2) unfolding acyclic_def by blast
qed

lemma map_prod_image_subset:
  assumes "r \<subseteq> A \<times> A"
  shows "map_prod f f ` r \<subseteq> f ` A \<times> f ` A"
  using assms by fastforce

end
