(* ===== verification/Graph_Layout.thy ===== *)
theory Graph_Layout
  imports Wire_Types Dag "HOL-Library.Multiset"
begin

text \<open>
  Layered layout: \<open>web/src/lib/graphLayout.ts\<close> (\<open>layerize\<close>) and
  \<open>web/src/lib/autoLayout.ts\<close> (\<open>autoLayout\<close>). The relaxation loop runs under a guard of
  \<open>nodes.length + 1\<close> passes; on an acyclic graph the guard is shown to be enough for the
  loop to reach its fixed point, which is the longest dependency path of each node.
\<close>

section \<open>layerize\<close>

text \<open>\<open>prereqs\<close>: for each known node the targets of its edges, in edge order, where both ends
  are known. (\<open>Map.get\<close> on a key that was never set does not occur: the loop only asks for
  ids of \<open>nodes\<close>.)\<close>

definition prereqs :: "graph_node list \<Rightarrow> graph_edge list \<Rightarrow> jsstr \<Rightarrow> jsstr list" where
  "prereqs nodes edges = (\<lambda>i. [ge_to e. e \<leftarrow> edges,
     ge_from e \<in> set (map gn_id nodes) \<and> ge_to e \<in> set (map gn_id nodes) \<and> ge_from e = i])"

type_synonym layer_map = "jsstr \<rightharpoonup> nat"

definition layer_get :: "layer_map \<Rightarrow> jsstr \<Rightarrow> nat" where
  "layer_get L i = nullish (L i) 0"

definition want :: "(jsstr \<Rightarrow> jsstr list) \<Rightarrow> layer_map \<Rightarrow> jsstr \<Rightarrow> nat" where
  "want pre L i = fold (\<lambda>d w. max w (layer_get L d + 1)) (pre i) 0"

text \<open>One pass over the nodes (the body of the \<open>while\<close> loop): the layer map is updated in
  place, so later nodes of the same pass see earlier updates.\<close>

fun layer_pass :: "(jsstr \<Rightarrow> jsstr list) \<Rightarrow> jsstr list \<Rightarrow> layer_map \<times> bool \<Rightarrow> layer_map \<times> bool" where
  "layer_pass pre [] (L, changed) = (L, changed)"
| "layer_pass pre (x # xs) (L, changed) =
     (let w = want pre L x
      in if Some w \<noteq> L x then layer_pass pre xs (L(x \<mapsto> w), True)
         else layer_pass pre xs (L, changed))"

text \<open>\<open>while (changed && guard-- > 0) { changed = false; ... }\<close>\<close>

fun layer_loop :: "(jsstr \<Rightarrow> jsstr list) \<Rightarrow> jsstr list \<Rightarrow> nat \<Rightarrow> bool \<Rightarrow> layer_map \<Rightarrow> layer_map" where
  "layer_loop pre ids 0 changed L = L"
| "layer_loop pre ids (Suc guard) changed L =
     (if changed
      then (case layer_pass pre ids (L, False) of (L', c) \<Rightarrow> layer_loop pre ids guard c L')
      else L)"

definition init_layer :: "jsstr list \<Rightarrow> layer_map" where
  "init_layer ids = fold (\<lambda>x L. L(x \<mapsto> 0)) ids Map.empty"

definition final_layer :: "graph_node list \<Rightarrow> graph_edge list \<Rightarrow> layer_map" where
  "final_layer nodes edges =
     layer_loop (prereqs nodes edges) (map gn_id nodes) (length nodes + 1) True
       (init_layer (map gn_id nodes))"

definition push_at :: "layer_map \<Rightarrow> graph_node \<Rightarrow> graph_node list list \<Rightarrow> graph_node list list" where
  "push_at L x out = (let l = layer_get L (gn_id x) in out[l := out ! l @ [x]])"

definition layerize :: "graph_node list \<Rightarrow> graph_edge list \<Rightarrow> graph_node list list" where
  "layerize nodes edges =
     (if nodes = [] then []
      else let L = final_layer nodes edges;
               maxLayer = Max (set (0 # map (\<lambda>x. layer_get L (gn_id x)) nodes));
               out = fold (push_at L) nodes (replicate (maxLayer + 1) [])
           in filter (\<lambda>l. 0 < length l) out)"

section \<open>autoLayout\<close>

datatype layout_direction = TB | LR

definition PRIMARY :: nat where "PRIMARY = 140"
definition CROSS :: nat where "CROSS = 240"

definition layout_graph_nodes :: "workflow_node list \<Rightarrow> graph_node list" where
  "layout_graph_nodes nodes = map (\<lambda>n. basic_graph_node (wn_id n) (wn_id n) (wn_type n) S_pending) nodes"

definition layout_edges :: "workflow_node list \<Rightarrow> graph_edge list" where
  "layout_edges nodes = [\<lparr>ge_from = wn_id n, ge_to = dep\<rparr>. n \<leftarrow> nodes, dep \<leftarrow> wn_dependsOn n]"

definition cell_position :: "layout_direction \<Rightarrow> nat \<Rightarrow> nat \<Rightarrow> xy" where
  "cell_position dir i j =
     (case dir of
        TB \<Rightarrow> \<lparr>px = of_nat (j * CROSS), py = of_nat (i * PRIMARY)\<rparr>
      | LR \<Rightarrow> \<lparr>px = of_nat (i * CROSS), py = of_nat (j * PRIMARY)\<rparr>)"

fun place_layer :: "layout_direction \<Rightarrow> nat \<Rightarrow> nat \<Rightarrow> graph_node list \<Rightarrow> (jsstr \<rightharpoonup> xy) \<Rightarrow> (jsstr \<rightharpoonup> xy)" where
  "place_layer dir i j [] out = out"
| "place_layer dir i j (gn # gns) out =
     place_layer dir i (Suc j) gns (out(gn_id gn \<mapsto> cell_position dir i j))"

fun place_layers :: "layout_direction \<Rightarrow> nat \<Rightarrow> graph_node list list \<Rightarrow> (jsstr \<rightharpoonup> xy) \<Rightarrow> (jsstr \<rightharpoonup> xy)" where
  "place_layers dir i [] out = out"
| "place_layers dir i (l # ls) out = place_layers dir (Suc i) ls (place_layer dir i 0 l out)"

definition autoLayout :: "workflow_node list \<Rightarrow> layout_direction \<Rightarrow> (jsstr \<rightharpoonup> xy)" where
  "autoLayout nodes direction =
     place_layers direction 0 (layerize (layout_graph_nodes nodes) (layout_edges nodes)) Map.empty"

section \<open>The relaxation loop computes longest dependency paths\<close>

text \<open>The dependency relation of the graph: \<open>from\<close> depends on \<open>to\<close>, both ends known.\<close>

definition dep_rel :: "graph_node list \<Rightarrow> graph_edge list \<Rightarrow> (jsstr \<times> jsstr) set" where
  "dep_rel nodes edges =
     (\<lambda>e. (ge_from e, ge_to e)) ` set edges \<inter> gn_id ` set nodes \<times> gn_id ` set nodes"

lemma set_prereqs: "set (prereqs nodes edges i) = dep_rel nodes edges `` {i}"
proof -
  have "set [ge_to e. e \<leftarrow> edges, ge_from e \<in> I \<and> ge_to e \<in> I \<and> ge_from e = i] =
      ((\<lambda>e. (ge_from e, ge_to e)) ` set edges \<inter> I \<times> I) `` {i}" for I
    by auto
  then show ?thesis by (simp only: prereqs_def dep_rel_def set_map)
qed

lemma dep_rel_ids: "dep_rel nodes edges \<subseteq> gn_id ` set nodes \<times> gn_id ` set nodes"
  by (auto simp: dep_rel_def)

lemma finite_dep_rel [simp]: "finite (dep_rel nodes edges)"
  by (rule finite_subset [OF dep_rel_ids]) simp

lemma fold_max:
  fixes f :: "'a \<Rightarrow> nat"
  shows "fold (\<lambda>d w. max w (f d)) ds a = Max (insert a (f ` set ds))"
proof (induction ds arbitrary: a)
  case Nil
  then show ?case by simp
next
  case (Cons d ds)
  have "insert a (f ` set (d # ds)) = insert a (insert (f d) (f ` set ds))" by auto
  then have "Max (insert a (f ` set (d # ds))) = max (max a (f d)) (Max (insert (max a (f d)) (f ` set ds)))"
    by (cases "ds = []") (simp_all add: max.assoc max.left_commute)
  also have "\<dots> = Max (insert (max a (f d)) (f ` set ds))"
    by (rule max_absorb2, rule Max_ge) simp_all
  finally show ?case by (simp add: Cons.IH)
qed

lemma want_Max: "want pre L i = Max (insert 0 ((\<lambda>d. Suc (layer_get L d)) ` set (pre i)))"
  by (simp add: want_def fold_max)

text \<open>A pass that reports no change found a fixed point.\<close>

lemma layer_pass_changed: "layer_pass pre xs (L, True) = (L', c) \<Longrightarrow> c"
  by (induction xs arbitrary: L) (auto simp: Let_def split: if_splits)

lemma layer_pass_unchanged:
  "layer_pass pre xs (L, False) = (L', False) \<Longrightarrow> L' = L \<and> (\<forall>x \<in> set xs. L x = Some (want pre L x))"
proof (induction xs)
  case Nil
  then show ?case by simp
next
  case (Cons x xs)
  then have *: "Some (want pre L x) = L x"
    using layer_pass_changed by (auto simp: Let_def split: if_splits)
  with Cons show ?case by simp
qed

text \<open>\<open>D\<close> satisfies the longest-path recursion on a set of ids closed under \<open>pre\<close>.\<close>

definition is_rank :: "(jsstr \<Rightarrow> jsstr list) \<Rightarrow> jsstr set \<Rightarrow> (jsstr \<Rightarrow> nat) \<Rightarrow> bool" where
  "is_rank pre ids D \<longleftrightarrow> (\<forall>x \<in> ids. set (pre x) \<subseteq> ids \<and>
     D x = Max (insert 0 ((\<lambda>d. Suc (D d)) ` set (pre x))))"

lemma pre_closed: "is_rank pre ids D \<Longrightarrow> x \<in> ids \<Longrightarrow> set (pre x) \<subseteq> ids"
  and rank_rec: "is_rank pre ids D \<Longrightarrow> x \<in> ids \<Longrightarrow>
    D x = Max (insert 0 ((\<lambda>d. Suc (D d)) ` set (pre x)))"
  by (simp_all add: is_rank_def)

lemma rank_less: "is_rank pre ids D \<Longrightarrow> x \<in> ids \<Longrightarrow> d \<in> set (pre x) \<Longrightarrow> D d < D x"
  by (subst rank_rec [of pre ids D x]) (auto simp: less_Suc_eq_le Suc_le_eq [symmetric] intro!: Max_ge)

lemma want_rank:
  assumes rk: "is_rank pre ids D" and "x \<in> ids" and "\<And>d. d \<in> set (pre x) \<Longrightarrow> L d = Some (D d)"
  shows "want pre L x = D x"
proof -
  have "(\<lambda>d. Suc (layer_get L d)) ` set (pre x) = (\<lambda>d. Suc (D d)) ` set (pre x)"
    using assms(3) by (auto simp: layer_get_def intro!: image_cong)
  then show ?thesis using rank_rec [OF rk assms(2)] by (simp only: want_Max)
qed

lemma fixpoint_rank:
  assumes rk: "is_rank pre ids D" and stable: "\<And>x. x \<in> ids \<Longrightarrow> L x = Some (want pre L x)"
  shows "x \<in> ids \<Longrightarrow> L x = Some (D x)"
proof (induction "D x" arbitrary: x rule: less_induct)
  case less
  have "L d = Some (D d)" if "d \<in> set (pre x)" for d
    using that less.prems pre_closed [OF rk] rank_less [OF rk] by (blast intro: less.hyps)
  then have "want pre L x = D x" by (rule want_rank [OF rk less.prems])
  with stable less.prems show ?case by simp
qed

lemma pass_progress:
  assumes rk: "is_rank pre ids D" and "layer_pass pre xs (L, c) = (L', c')" and "set xs \<subseteq> ids" and "done \<subseteq> ids"
    and "\<And>x. x \<in> ids \<Longrightarrow> D x \<le> k \<Longrightarrow> L x = Some (D x)"
    and "\<And>x. x \<in> done \<Longrightarrow> D x \<le> Suc k \<Longrightarrow> L x = Some (D x)"
    and "x \<in> done \<union> set xs" and "D x \<le> Suc k"
  shows "L' x = Some (D x)"
  using assms(2-)
proof (induction xs arbitrary: L c "done")
  case Nil
  then show ?case by auto
next
  case (Cons y ys)
  let ?L = "L(y \<mapsto> want pre L y)"
  have y: "y \<in> ids" using Cons.prems(2) by simp
  have want_y: "want pre L y = D y" if "D y \<le> Suc k"
  proof (rule want_rank [OF rk y])
    fix d
    assume "d \<in> set (pre y)"
    with y that show "L d = Some (D d)"
      using pre_closed [OF rk] rank_less [OF rk y] by (intro Cons.prems(4)) force+
  qed
  obtain c2 where pass: "layer_pass pre ys (?L, c2) = (L', c')"
  proof (cases "Some (want pre L y) = L y")
    case True
    then have "?L = L" by auto
    with True Cons.prems(1) that show ?thesis by simp
  next
    case False
    with Cons.prems(1) that show ?thesis by (simp add: Let_def)
  qed
  show ?case
  proof (rule Cons.IH [OF pass, of "insert y done"])
    show "set ys \<subseteq> ids" and "insert y done \<subseteq> ids" using Cons.prems(2,3) by auto
    show "?L x = Some (D x)" if "x \<in> ids" "D x \<le> k" for x
      using Cons.prems(4) that want_y by auto
    show "?L x = Some (D x)" if "x \<in> insert y done" "D x \<le> Suc k" for x
      using Cons.prems(5) that want_y by auto
    show "x \<in> insert y done \<union> set ys" and "D x \<le> Suc k" using Cons.prems(6,7) by auto
  qed
qed

lemma loop_rank:
  assumes rk: "is_rank pre ids D" and "set xs = ids" and "\<And>x. x \<in> ids \<Longrightarrow> D x \<le> k + g"
    and "\<And>x. x \<in> ids \<Longrightarrow> D x \<le> k \<Longrightarrow> L x = Some (D x)"
    and "\<not> c \<Longrightarrow> \<forall>x \<in> ids. L x = Some (D x)"
    and "x \<in> ids"
  shows "layer_loop pre xs g c L x = Some (D x)"
  using assms(2-)
proof (induction g arbitrary: k c L)
  case 0
  then show ?case by simp
next
  case (Suc g)
  show ?case
  proof (cases c)
    case False
    with Suc.prems show ?thesis by simp
  next
    case True
    obtain L' c' where pass: "layer_pass pre xs (L, False) = (L', c')" by fastforce
    have "layer_loop pre xs g c' L' x = Some (D x)"
    proof (rule Suc.IH [of "Suc k"])
      show "set xs = ids" and "x \<in> ids" by fact+
      show "D x \<le> Suc k + g" if "x \<in> ids" for x using Suc.prems(2) [OF that] by simp
      show "L' x = Some (D x)" if "x \<in> ids" "D x \<le> Suc k" for x
        using pass_progress [OF rk pass, of "{}" k x] Suc.prems(1,3) that by auto
      show "\<forall>x \<in> ids. L' x = Some (D x)" if "\<not> c'"
      proof -
        from pass that have "L' = L \<and> (\<forall>x \<in> set xs. L x = Some (want pre L x))"
          by (intro layer_pass_unchanged) simp
        with Suc.prems(1) show ?thesis using fixpoint_rank [OF rk, of L] by auto
      qed
    qed
    with True pass show ?thesis by simp
  qed
qed

lemma init_layer: "init_layer ids x = (if x \<in> set ids then Some 0 else None)"
proof -
  have "fold (\<lambda>x L. L(x \<mapsto> 0)) ids L x = (if x \<in> set ids then Some 0 else L x)" for L :: layer_map
    by (induction ids arbitrary: L) auto
  then show ?thesis by (simp add: init_layer_def)
qed

lemma longest_is_rank:
  assumes "acyclic (dep_rel nodes edges)"
  shows "is_rank (prereqs nodes edges) (gn_id ` set nodes) (longest (dep_rel nodes edges))"
  unfolding is_rank_def set_prereqs
  using dep_rel_ids [of nodes edges] longest_rec [OF finite_dep_rel assms] by blast

text \<open>The guard is enough: on an acyclic graph the loop ends with the longest path lengths.\<close>

lemma final_layer_longest:
  assumes "acyclic (dep_rel nodes edges)" and "x \<in> gn_id ` set nodes"
  shows "final_layer nodes edges x = Some (longest (dep_rel nodes edges) x)"
proof -
  let ?D = "longest (dep_rel nodes edges)"
  have bound: "?D y \<le> 0 + (length nodes + 1)" if "y \<in> gn_id ` set nodes" for y
  proof -
    have "?D y < card (gn_id ` set nodes)"
      by (rule longest_bound [OF _ assms(1) _ dep_rel_ids that]) simp_all
    also have "\<dots> \<le> length nodes" using card_length [of "map gn_id nodes"] by simp
    finally show ?thesis by simp
  qed
  show ?thesis
    unfolding final_layer_def
    by (rule loop_rank [OF longest_is_rank [OF assms(1)], where k = 0])
      (use bound assms(2) in \<open>auto simp: init_layer\<close>)
qed

section \<open>The buckets\<close>

lemma length_push [simp]: "length (push_at L x out) = length out"
  by (simp add: push_at_def Let_def)

lemma fold_push:
  assumes "\<And>x. x \<in> set xs \<Longrightarrow> layer_get L (gn_id x) < length out"
  shows "fold (push_at L) xs out =
    map (\<lambda>i. out ! i @ filter (\<lambda>x. layer_get L (gn_id x) = i) xs) [0..<length out]"
  using assms
proof (induction xs arbitrary: out)
  case Nil
  then show ?case by (simp add: map_nth)
next
  case (Cons x xs)
  then have "fold (push_at L) (x # xs) out = map (\<lambda>i. push_at L x out ! i
      @ filter (\<lambda>x. layer_get L (gn_id x) = i) xs) [0..<length out]"
    by simp
  also have "\<dots> = map (\<lambda>i. out ! i @ filter (\<lambda>x. layer_get L (gn_id x) = i) (x # xs)) [0..<length out]"
    by (rule map_cong) (auto simp: push_at_def Let_def nth_list_update)
  finally show ?case .
qed

definition max_layer :: "layer_map \<Rightarrow> graph_node list \<Rightarrow> nat" where
  "max_layer L nodes = Max (set (0 # map (\<lambda>x. layer_get L (gn_id x)) nodes))"

lemma layer_le_max: "x \<in> set nodes \<Longrightarrow> layer_get L (gn_id x) \<le> max_layer L nodes"
  unfolding max_layer_def by (rule Max_ge) auto

definition bucket :: "layer_map \<Rightarrow> graph_node list \<Rightarrow> nat \<Rightarrow> graph_node list" where
  "bucket L nodes i = filter (\<lambda>x. layer_get L (gn_id x) = i) nodes"

lemma layerize_buckets:
  "nodes \<noteq> [] \<Longrightarrow> layerize nodes edges = filter (\<lambda>l. l \<noteq> [])
     (map (bucket (final_layer nodes edges) nodes) [0..<Suc (max_layer (final_layer nodes edges) nodes)])"
proof -
  let ?L = "final_layer nodes edges"
  let ?m = "max_layer ?L nodes"
  assume "nodes \<noteq> []"
  have "fold (push_at ?L) nodes (replicate (?m + 1) []) = map (bucket ?L nodes) [0..<Suc ?m]"
    by (subst fold_push)
      (auto simp: bucket_def less_Suc_eq_le layer_le_max simp del: upt_Suc replicate_Suc intro!: map_cong)
  with \<open>nodes \<noteq> []\<close> show ?thesis
    by (simp add: layerize_def Let_def max_layer_def del: upt_Suc replicate_Suc)
qed

lemma mset_buckets:
  assumes "\<And>x. x \<in> set xs \<Longrightarrow> f x < (n::nat)"
  shows "mset (concat (map (\<lambda>i. filter (\<lambda>x. f x = i) xs) [0..<n])) = mset xs"
  using assms
proof (induction xs)
  case Nil
  then show ?case by (simp add: mset_concat o_def)
next
  case (Cons x xs)
  have "(\<Sum>i\<leftarrow>[0..<n]. mset (filter (\<lambda>y. f y = i) (x # xs))) =
      (\<Sum>i\<leftarrow>[0..<n]. if f x = i then {#x#} else {#}) + (\<Sum>i\<leftarrow>[0..<n]. mset (filter (\<lambda>y. f y = i) xs))"
    by (simp add: sum_list_addf [symmetric] if_distrib cong: if_cong) (intro arg_cong [where f = sum_list] map_cong, auto)
  also have "(\<Sum>i\<leftarrow>[0..<n]. if f x = i then {#x#} else {#}) = {#x#}"
    using Cons.prems by (simp add: sum_list_distinct_conv_sum_set sum.delta')
  finally show ?case using Cons by (simp add: mset_concat o_def)
qed

lemma concat_filter_Nil: "concat (filter (\<lambda>l. l \<noteq> []) xss) = concat xss"
  by (induction xss) auto

text \<open>Every node is placed in exactly one layer and no layer is empty, also on cyclic graphs.\<close>

lemma layerize_mset:
  "mset (concat (layerize nodes edges)) = mset nodes \<and> [] \<notin> set (layerize nodes edges)"
proof (cases "nodes = []")
  case True
  then show ?thesis by (simp add: layerize_def)
next
  case False
  show ?thesis
    unfolding layerize_buckets [OF False] concat_filter_Nil
    using mset_buckets [of nodes "\<lambda>x. layer_get (final_layer nodes edges) (gn_id x)"
        "Suc (max_layer (final_layer nodes edges) nodes)"]
    by (auto simp: bucket_def less_Suc_eq_le layer_le_max simp del: upt_Suc cong: map_cong)
qed

lemma bucket_nonempty:
  assumes "acyclic (dep_rel nodes edges)" and "nodes \<noteq> []"
    and "i \<le> max_layer (final_layer nodes edges) nodes"
  shows "bucket (final_layer nodes edges) nodes i \<noteq> []"
proof -
  let ?L = "final_layer nodes edges" and ?R = "dep_rel nodes edges"
  have get: "layer_get ?L y = longest ?R y" if "y \<in> gn_id ` set nodes" for y
    using final_layer_longest [OF assms(1) that] by (simp add: layer_get_def)
  have down: "\<exists>y \<in> gn_id ` set nodes. longest ?R y = k"
    if "x \<in> gn_id ` set nodes" "longest ?R x = k + j" for x k j
    using that
  proof (induction j arbitrary: x)
    case 0
    then show ?case by auto
  next
    case (Suc j)
    then obtain d where d: "(x, d) \<in> ?R" "longest ?R d = k + j"
      using longest_pred [OF finite_dep_rel assms(1), of x "k + j"] by auto
    then have "d \<in> gn_id ` set nodes" using dep_rel_ids by blast
    then show ?case using d(2) by (rule Suc.IH)
  qed
  have "max_layer ?L nodes \<in> set (0 # map (\<lambda>x. layer_get ?L (gn_id x)) nodes)"
    unfolding max_layer_def by (rule Max_in) simp_all
  then consider "max_layer ?L nodes = 0"
    | x where "x \<in> set nodes" "max_layer ?L nodes = layer_get ?L (gn_id x)"
    by auto
  then obtain x where "x \<in> set nodes" "layer_get ?L (gn_id x) = max_layer ?L nodes"
  proof cases
    case 1
    with assms(2) have "hd nodes \<in> set nodes" "layer_get ?L (gn_id (hd nodes)) = max_layer ?L nodes"
      using layer_le_max [of "hd nodes" nodes ?L] by auto
    then show ?thesis by (rule that)
  qed (use that in simp)
  with assms(3) have "longest ?R (gn_id x) = i + (max_layer ?L nodes - i)"
    by (simp add: get)
  then obtain y where "y \<in> set nodes" "longest ?R (gn_id y) = i"
    using down [of "gn_id x"] \<open>x \<in> set nodes\<close> by blast
  then have "y \<in> set (bucket ?L nodes i)" by (simp add: bucket_def get)
  then show ?thesis by (metis empty_iff list.set(1))
qed

lemma layerize_levels:
  assumes "acyclic (dep_rel nodes edges)" and "nodes \<noteq> []"
  shows "layerize nodes edges =
    map (\<lambda>i. filter (\<lambda>x. longest (dep_rel nodes edges) (gn_id x) = i) nodes)
      [0..<Suc (Max ((\<lambda>x. longest (dep_rel nodes edges) (gn_id x)) ` set nodes))]"
proof -
  let ?L = "final_layer nodes edges" and ?R = "dep_rel nodes edges"
  have get: "layer_get ?L (gn_id x) = longest ?R (gn_id x)" if "x \<in> set nodes" for x
    using final_layer_longest [OF assms(1)] that by (simp add: layer_get_def)
  have "max_layer ?L nodes = Max (insert 0 ((\<lambda>x. longest ?R (gn_id x)) ` set nodes))"
    by (simp add: max_layer_def get cong: image_cong)
  also have "\<dots> = Max ((\<lambda>x. longest ?R (gn_id x)) ` set nodes)"
    using assms(2) by (subst Max_insert) simp_all
  finally have m: "max_layer ?L nodes = Max ((\<lambda>x. longest ?R (gn_id x)) ` set nodes)" .
  have "layerize nodes edges = map (bucket ?L nodes) [0..<Suc (max_layer ?L nodes)]"
    unfolding layerize_buckets [OF assms(2)]
    by (rule filter_True) (auto simp: bucket_nonempty [OF assms] less_Suc_eq_le simp del: upt_Suc)
  also have "\<dots> = map (\<lambda>i. filter (\<lambda>x. longest ?R (gn_id x) = i) nodes) [0..<Suc (max_layer ?L nodes)]"
    by (simp add: bucket_def get cong: filter_cong)
  finally show ?thesis unfolding m .
qed

section \<open>Coordinates\<close>

lemma dom_place_layer: "dom (place_layer dir i j gns out) = gn_id ` set gns \<union> dom out"
  by (induction gns arbitrary: j out) auto

lemma dom_place_layers: "dom (place_layers dir i ls out) = gn_id ` set (concat ls) \<union> dom out"
  by (induction ls arbitrary: i out) (auto simp: dom_place_layer)

lemma place_layer_sound:
  "place_layer dir i j gns out k = Some p \<Longrightarrow> out k = Some p \<or>
    (\<exists>c < length gns. gn_id (gns ! c) = k \<and> p = cell_position dir i (j + c))"
proof (induction gns arbitrary: j out)
  case Nil
  then show ?case by simp
next
  case (Cons gn gns)
  from Cons.prems have "place_layer dir i (Suc j) gns (out(gn_id gn \<mapsto> cell_position dir i j)) k = Some p"
    by simp
  then have "(out(gn_id gn \<mapsto> cell_position dir i j)) k = Some p \<or>
      (\<exists>c < length gns. gn_id (gns ! c) = k \<and> p = cell_position dir i (Suc j + c))"
    by (rule Cons.IH)
  then show ?case
  proof
    assume "(out(gn_id gn \<mapsto> cell_position dir i j)) k = Some p"
    then show ?thesis by (auto split: if_splits)
  next
    assume "\<exists>c < length gns. gn_id (gns ! c) = k \<and> p = cell_position dir i (Suc j + c)"
    then obtain c where "c < length gns" "gn_id (gns ! c) = k" "p = cell_position dir i (j + Suc c)"
      by auto
    then show ?thesis by (intro disjI2 exI [of _ "Suc c"]) simp
  qed
qed

lemma place_layers_sound:
  "place_layers dir i ls out k = Some p \<Longrightarrow> out k = Some p \<or>
    (\<exists>r < length ls. \<exists>c < length (ls ! r). gn_id (ls ! r ! c) = k \<and> p = cell_position dir (i + r) c)"
proof (induction ls arbitrary: i out)
  case Nil
  then show ?case by simp
next
  case (Cons l ls)
  from Cons.prems have "place_layers dir (Suc i) ls (place_layer dir i 0 l out) k = Some p" by simp
  then have "place_layer dir i 0 l out k = Some p \<or> (\<exists>r < length ls. \<exists>c < length (ls ! r).
      gn_id (ls ! r ! c) = k \<and> p = cell_position dir (Suc i + r) c)"
    by (rule Cons.IH)
  then show ?case
  proof
    assume "place_layer dir i 0 l out k = Some p"
    from place_layer_sound [OF this] show ?thesis by fastforce
  next
    assume "\<exists>r < length ls. \<exists>c < length (ls ! r). gn_id (ls ! r ! c) = k
      \<and> p = cell_position dir (Suc i + r) c"
    then obtain r c where "r < length ls" "c < length (ls ! r)" "gn_id (ls ! r ! c) = k"
      "p = cell_position dir (i + Suc r) c" by auto
    then show ?thesis by (intro disjI2 exI [of _ "Suc r"]) auto
  qed
qed

definition node_deps :: "workflow_node list \<Rightarrow> (jsstr \<times> jsstr) set" where
  "node_deps nodes = (\<Union>n \<in> set nodes. {wn_id n} \<times> set (wn_dependsOn n))"

lemma layout_nodes_ids [simp]: "gn_id ` set (layout_graph_nodes nodes) = wn_id ` set nodes"
  by (simp add: layout_graph_nodes_def image_image)

lemma layout_nodes_Nil [simp]: "layout_graph_nodes nodes = [] \<longleftrightarrow> nodes = []"
  by (simp add: layout_graph_nodes_def)

lemma layout_dep_rel:
  "dep_rel (layout_graph_nodes nodes) (layout_edges nodes) = {(a, b) \<in> node_deps nodes. b \<in> wn_id ` set nodes}"
proof -
  have "(\<lambda>e. (ge_from e, ge_to e)) ` set (layout_edges nodes) = node_deps nodes"
    by (auto simp: layout_edges_def node_deps_def image_UN image_image)
  then show ?thesis by (auto simp: dep_rel_def node_deps_def)
qed

lemma layout_acyclic:
  "acyclic (node_deps nodes) \<Longrightarrow> acyclic (dep_rel (layout_graph_nodes nodes) (layout_edges nodes))"
  unfolding layout_dep_rel by (rule acyclic_subset) auto

text \<open>Every node gets a coordinate, so the \<open>seeded.get(n.id)!\<close> of the callers never fails.\<close>

lemma dom_autoLayout: "dom (autoLayout nodes dir) = wn_id ` set nodes"
proof -
  have "set (concat (layerize (layout_graph_nodes nodes) (layout_edges nodes))) = set (layout_graph_nodes nodes)"
    using layerize_mset [of "layout_graph_nodes nodes" "layout_edges nodes"]
    by (metis set_mset_mset)
  then have "gn_id ` set (concat (layerize (layout_graph_nodes nodes) (layout_edges nodes))) = wn_id ` set nodes"
    by (simp only: layout_nodes_ids)
  then show ?thesis by (simp add: autoLayout_def dom_place_layers del: set_concat)
qed

lemma autoLayout_cell:
  assumes "acyclic (node_deps nodes)" and "autoLayout nodes dir k = Some p"
  shows "\<exists>c. p = cell_position dir (longest (dep_rel (layout_graph_nodes nodes) (layout_edges nodes)) k) c
    \<and> c < length (layerize (layout_graph_nodes nodes) (layout_edges nodes)
         ! longest (dep_rel (layout_graph_nodes nodes) (layout_edges nodes)) k)
    \<and> gn_id (layerize (layout_graph_nodes nodes) (layout_edges nodes)
         ! longest (dep_rel (layout_graph_nodes nodes) (layout_edges nodes)) k ! c) = k"
proof -
  let ?g = "layout_graph_nodes nodes" and ?e = "layout_edges nodes"
  let ?ls = "layerize ?g ?e"
  from assms(2) obtain r c where rc: "r < length ?ls" "c < length (?ls ! r)"
    "gn_id (?ls ! r ! c) = k" "p = cell_position dir r c"
    using place_layers_sound [of dir 0 ?ls Map.empty k p] by (auto simp: autoLayout_def)
  then have "?g \<noteq> []" by (auto simp: layerize_def)
  from layerize_levels [OF layout_acyclic [OF assms(1)] this] rc(1)
  have "?ls ! r = filter (\<lambda>x. longest (dep_rel ?g ?e) (gn_id x) = r) ?g"
    by (metis (no_types, lifting) add_0 diff_zero length_map length_upt nth_map nth_upt)
  with rc(2,3) have "longest (dep_rel ?g ?e) k = r"
    by (metis (mono_tags, lifting) mem_Collect_eq nth_mem set_filter)
  with rc show ?thesis by auto
qed

lemma autoLayout_row_above:
  assumes "acyclic (node_deps nodes)" and "(a, b) \<in> node_deps nodes" and "b \<in> wn_id ` set nodes"
    and "autoLayout nodes TB a = Some p" and "autoLayout nodes TB b = Some q"
  shows "py q + of_nat PRIMARY \<le> py p"
proof -
  let ?r = "dep_rel (layout_graph_nodes nodes) (layout_edges nodes)"
  have "(a, b) \<in> ?r" using assms(2,3) by (simp add: layout_dep_rel)
  then have "longest ?r b < longest ?r a"
    by (rule longest_succ [OF finite_dep_rel layout_acyclic [OF assms(1)]])
  then have "(longest ?r b + 1) * PRIMARY \<le> longest ?r a * PRIMARY" by (intro mult_le_mono1) simp
  then have "longest ?r b * PRIMARY + PRIMARY \<le> longest ?r a * PRIMARY" by simp
  then have "(of_nat (longest ?r b * PRIMARY + PRIMARY) :: rat) \<le> of_nat (longest ?r a * PRIMARY)"
    by (simp only: of_nat_le_iff)
  moreover have "py p = of_nat (longest ?r a * PRIMARY)" "py q = of_nat (longest ?r b * PRIMARY)"
    using autoLayout_cell [OF assms(1,4)] autoLayout_cell [OF assms(1,5)]
    by (auto simp: cell_position_def)
  ultimately show ?thesis by (simp only: of_nat_add)
qed

lemma autoLayout_distinct:
  assumes "acyclic (node_deps nodes)" and "a \<noteq> b"
    and "autoLayout nodes dir a = Some p" and "autoLayout nodes dir b = Some q"
  shows "p \<noteq> q"
proof
  assume "p = q"
  let ?r = "dep_rel (layout_graph_nodes nodes) (layout_edges nodes)"
  have cell: "cell_position dir i j = cell_position dir i' j' \<Longrightarrow> i = i' \<and> j = j'" for i j i' j'
    by (cases dir) (simp_all add: cell_position_def PRIMARY_def CROSS_def del: of_nat_mult)
  from \<open>p = q\<close> autoLayout_cell [OF assms(1,3)] autoLayout_cell [OF assms(1,4)]
  have "a = b" using cell by metis
  with assms(2) show False by simp
qed

section \<open>Properties\<close>

text \<open>C25: on an acyclic graph layer \<open>i\<close> of \<open>layerize\<close> holds, in input order, exactly the nodes
  whose longest dependency path has length \<open>i\<close>: the guard of \<open>nodes.length + 1\<close> passes never
  cuts the relaxation short.\<close>

theorem layerize_longest_path:
  assumes "acyclic (dep_rel nodes edges)" and "nodes \<noteq> []"
  shows "layerize nodes edges =
    map (\<lambda>i. filter (\<lambda>x. longest (dep_rel nodes edges) (gn_id x) = i) nodes)
      [0..<Suc (Max ((\<lambda>x. longest (dep_rel nodes edges) (gn_id x)) ` set nodes))]"
  by (rule layerize_levels [OF assms])

definition example_graph :: "graph_node list \<times> graph_edge list" where
  "example_graph =
     (map (\<lambda>i. basic_graph_node i i (js ''script'') S_pending) [js ''a'', js ''b'', js ''c''],
      [\<lparr>ge_from = js ''c'', ge_to = js ''b''\<rparr>, \<lparr>ge_from = js ''b'', ge_to = js ''a''\<rparr>])"

theorem layerize_longest_path_witness:
  "layerize (fst example_graph) (snd example_graph) =
     map (\<lambda>i. filter (\<lambda>x. longest (dep_rel (fst example_graph) (snd example_graph)) (gn_id x) = i)
        (fst example_graph))
      [0..<Suc (Max ((\<lambda>x. longest (dep_rel (fst example_graph) (snd example_graph)) (gn_id x))
        ` set (fst example_graph)))]"
proof (rule layerize_longest_path)
  show "acyclic (dep_rel (fst example_graph) (snd example_graph))"
    by (rule acyclic_measure [where f = "\<lambda>i. if i = js ''c'' then 2 else if i = js ''b'' then 1 else 0"])
      (auto simp: example_graph_def dep_rel_def)
  show "fst example_graph \<noteq> []" by (simp add: example_graph_def)
qed

text \<open>on every graph, cyclic ones included, \<open>layerize\<close> loses and repeats no node and
  returns no empty layer.\<close>

theorem layerize_partition:
  "mset (concat (layerize nodes edges)) = mset nodes \<and> [] \<notin> set (layerize nodes edges)"
  by (rule layerize_mset)

text \<open>\<open>autoLayout\<close> gives every node a coordinate; on an acyclic workflow two different nodes
  never share one, and in the top-down direction a node lies at least one row (140) below each of
  its dependencies.\<close>

theorem autoLayout_correct:
  assumes "acyclic (node_deps nodes)"
  shows "dom (autoLayout nodes dir) = wn_id ` set nodes \<and> inj_on (autoLayout nodes dir) (wn_id ` set nodes) \<and>
    (\<forall>(a, b) \<in> node_deps nodes. b \<in> wn_id ` set nodes \<longrightarrow>
       py (the (autoLayout nodes TB b)) + of_nat PRIMARY \<le> py (the (autoLayout nodes TB a)))"
proof (intro conjI)
  show dom: "dom (autoLayout nodes dir) = wn_id ` set nodes" for dir by (rule dom_autoLayout)
  show "inj_on (autoLayout nodes dir) (wn_id ` set nodes)"
  proof (rule inj_onI, rule ccontr)
    fix a b
    assume ab: "a \<in> wn_id ` set nodes" "b \<in> wn_id ` set nodes"
      "autoLayout nodes dir a = autoLayout nodes dir b" "a \<noteq> b"
    from ab(1) have "a \<in> dom (autoLayout nodes dir)" by (simp only: dom)
    then obtain p where p: "autoLayout nodes dir a = Some p" by (meson domD)
    with ab(3) have "autoLayout nodes dir b = Some p" by simp
    from autoLayout_distinct [OF assms ab(4) p this] show False by simp
  qed
  show "\<forall>(a, b) \<in> node_deps nodes. b \<in> wn_id ` set nodes \<longrightarrow>
      py (the (autoLayout nodes TB b)) + of_nat PRIMARY \<le> py (the (autoLayout nodes TB a))"
  proof (clarify)
    fix a n
    assume e: "(a, wn_id n) \<in> node_deps nodes" and n: "n \<in> set nodes"
    then have "a \<in> wn_id ` set nodes" "wn_id n \<in> wn_id ` set nodes" by (auto simp: node_deps_def)
    then have "a \<in> dom (autoLayout nodes TB)" "wn_id n \<in> dom (autoLayout nodes TB)"
      by (simp_all only: dom)
    then obtain p q where "autoLayout nodes TB a = Some p" "autoLayout nodes TB (wn_id n) = Some q"
      by (meson domD)
    with autoLayout_row_above [OF assms e _ this] n
    show "py (the (autoLayout nodes TB (wn_id n))) + of_nat PRIMARY \<le> py (the (autoLayout nodes TB a))"
      by simp
  qed
qed

theorem autoLayout_correct_witness:
  "acyclic (node_deps [basic_node (js ''a'') (js ''script'') [] [], basic_node (js ''b'') (js ''asset'') [] [js ''a'']]) \<and>
   py (the (autoLayout [basic_node (js ''a'') (js ''script'') [] [],
       basic_node (js ''b'') (js ''asset'') [] [js ''a'']] TB (js ''a''))) + of_nat PRIMARY
   \<le> py (the (autoLayout [basic_node (js ''a'') (js ''script'') [] [],
       basic_node (js ''b'') (js ''asset'') [] [js ''a'']] TB (js ''b'')))"
proof -
  let ?n = "[basic_node (js ''a'') (js ''script'') [] [], basic_node (js ''b'') (js ''asset'') [] [js ''a'']]"
  have ac: "acyclic (node_deps ?n)"
    by (rule acyclic_measure [where f = "\<lambda>i. if i = js ''b'' then 1 else 0"]) (auto simp: node_deps_def)
  have e: "(js ''b'', js ''a'') \<in> node_deps ?n" by (simp add: node_deps_def)
  from bspec [OF autoLayout_correct [OF ac, of TB, THEN conjunct2, THEN conjunct2] e]
  show ?thesis using ac by simp
qed

end
