(* ===== verification/Graph_Check.thy ===== *)
theory Graph_Check
  imports Wire_Types Dag
begin

text \<open>
  The graph validation of \<open>web/src/features/projects/WorkflowDialog.schema.ts\<close>:
  \<open>findGraphError\<close> (unknown dependencies, then a depth-first search with three colours) and
  the form schema \<open>workflowFormSchema\<close> built on it. The search is a total function: its
  termination proof counts the white nodes.
\<close>

section \<open>findGraphError\<close>

text \<open>The argument type \<open>{ id, dependsOn }[]\<close> is a list of pairs.\<close>

type_synonym graph_input = "(jsstr \<times> jsstr list) list"

datatype graph_error = MissingDep jsstr jsstr | CycleAt jsstr jsstr

text \<open>The texts of the two messages, with the interpolated ids.\<close>

fun graph_error_message :: "graph_error \<Rightarrow> jsstr" where
  "graph_error_message (MissingDep n dep) =
     [0x8282, 0x70b9, 0x300c] @ n @ [0x300d, 0x4f9d, 0x8d56, 0x4e86, 0x4e0d, 0x5b58, 0x5728, 0x7684, 0x8282, 0x70b9, 0x300c]
       @ dep @ [0x300d]"
| "graph_error_message (CycleAt i dep) =
     [0x5de5, 0x4f5c, 0x6d41, 0x5b58, 0x5728, 0x5faa, 0x73af, 0x4f9d, 0x8d56, 58, 0x300c] @ i @ [0x300d, 0x2192, 0x300c]
       @ dep @ [0x300d]"

fun find_missing :: "jsstr set \<Rightarrow> graph_input \<Rightarrow> graph_error option" where
  "find_missing ids [] = None"
| "find_missing ids ((n, ds) # ns) =
     (case find (\<lambda>dep. dep \<notin> ids) ds of
        Some dep \<Rightarrow> Some (MissingDep n dep)
      | None \<Rightarrow> find_missing ids ns)"

text \<open>\<open>new Map(nodes.map(...))\<close>: the last entry of an id wins; \<open>deps.get(id) ?? []\<close>.\<close>

definition deps_get :: "graph_input \<Rightarrow> jsstr \<Rightarrow> jsstr list" where
  "deps_get G i = nullish (map_of (rev G) i) []"

type_synonym colours = "jsstr \<rightharpoonup> int"

text \<open>\<open>color.set(id, v)\<close> and \<open>color.get(id) ?? 0\<close>.\<close>

definition paint :: "colours \<Rightarrow> jsstr \<Rightarrow> int \<Rightarrow> colours" where
  "paint c i v = c(i \<mapsto> v)"

definition colour :: "colours \<Rightarrow> jsstr \<Rightarrow> int" where
  "colour c i = nullish (c i) 0"

text \<open>\<open>scan G id ds c\<close> is the \<open>for\<close> loop of \<open>visit(id)\<close> over the remaining dependencies \<open>ds\<close>,
  with the recursive \<open>visit(dep)\<close> written in place: colour \<open>dep\<close> gray, scan its dependencies,
  colour it black when no cycle was met. The result is the edge that closes a cycle, if any,
  and the colours.\<close>

function (sequential) scan ::
  "graph_input \<Rightarrow> jsstr \<Rightarrow> jsstr list \<Rightarrow> colours \<Rightarrow> (jsstr \<times> jsstr) option \<times> colours" where
  "scan G i [] c = (None, c)"
| "scan G i (dep # ds) c =
     (if colour c dep = 1 then (Some (i, dep), c)
      else if colour c dep = 0 then
        (case scan G dep (deps_get G dep) (paint c dep 1) of
           (Some e, c') \<Rightarrow> (Some e, c')
         | (None, c') \<Rightarrow> scan G i ds (paint c' dep 2))
      else scan G i ds c)"
  by pat_completeness auto

definition white :: "graph_input \<Rightarrow> colours \<Rightarrow> jsstr set" where
  "white G c = {i \<in> fst ` set G. colour c i = 0}"

lemma finite_white [simp]: "finite (white G c)"
  by (simp add: white_def)

lemma colour_upd [simp]: "colour (paint c i v) j = (if j = i then v else colour c j)"
  by (simp add: colour_def paint_def)

lemma deps_get_unknown: "i \<notin> fst ` set G \<Longrightarrow> deps_get G i = []"
  by (simp add: deps_get_def map_of_eq_None_iff [THEN iffD2])

lemma scan_white_shrinks:
  "scan_dom (G, i, ds, c) \<Longrightarrow> white G (snd (scan G i ds c)) \<subseteq> white G c"
proof (induction G i ds c rule: scan.pinduct)
  case (1 G i c)
  then show ?case by (simp add: scan.psimps)
next
  case (2 G i dep ds c)
  obtain r c' where s: "scan G dep (deps_get G dep) (paint c dep 1) = (r, c')" by fastforce
  have sub: "white G (paint c dep v) \<subseteq> white G c" if "v \<noteq> 0" for v c
    using that by (auto simp: white_def)
  show ?case
  proof (cases "colour c dep = 0")
    case False
    with 2 show ?thesis by (auto simp: scan.psimps)
  next
    case True
    with 2 s have c': "white G c' \<subseteq> white G (paint c dep 1)" by fastforce
    show ?thesis
    proof (cases r)
      case None
      with 2 s True have "white G (snd (scan G i ds (paint c' dep 2))) \<subseteq> white G (paint c' dep 2)"
        by fastforce
      also have "\<dots> \<subseteq> white G c" using c' sub [of 2 c'] sub [of 1 c] by simp
      finally show ?thesis using 2 s True None by (simp add: scan.psimps)
    next
      case (Some e)
      then show ?thesis using 2 s True c' sub [of 1 c] by (simp add: scan.psimps)
    qed
  qed
qed

termination scan
proof (relation "measures [\<lambda>(G, i, ds, c). card (white G c), \<lambda>(G, i, ds, c). length ds]", goal_cases)
  case 1
  show ?case by simp
next
  case (2 G i dep ds c)
  show ?case
  proof (cases "dep \<in> fst ` set G")
    case True
    with 2 have "dep \<in> white G c" "dep \<notin> white G (paint c dep 1)" by (auto simp: white_def)
    moreover have "white G (paint c dep 1) \<subseteq> white G c" by (auto simp: white_def)
    ultimately have "card (white G (paint c dep 1)) < card (white G c)"
      by (intro psubset_card_mono) auto
    then show ?thesis by simp
  next
    case False
    then have "white G (paint c dep 1) = white G c" by (auto simp: white_def)
    with False show ?thesis by (simp add: deps_get_unknown)
  qed
next
  case (3 G i dep ds c r c')
  then have "white G c' \<subseteq> white G (paint c dep 1)"
    using scan_white_shrinks [of G dep "deps_get G dep" "(paint c dep 1)"] by (metis snd_conv)
  then have "white G (paint c' dep 2) \<subseteq> white G c" by (auto simp: white_def split: if_splits)
  then have "card (white G (paint c' dep 2)) \<le> card (white G c)" by (intro card_mono) simp_all
  then show ?case by auto
next
  case (4 G i dep ds c)
  show ?case by simp
qed

text \<open>\<open>visit(id)\<close>, and the loop over all nodes.\<close>

definition visit :: "graph_input \<Rightarrow> jsstr \<Rightarrow> colours \<Rightarrow> (jsstr \<times> jsstr) option \<times> colours" where
  "visit G i c =
     (case scan G i (deps_get G i) (paint c i 1) of
        (Some e, c') \<Rightarrow> (Some e, c')
      | (None, c') \<Rightarrow> (None, (paint c' i 2)))"

fun visit_all :: "graph_input \<Rightarrow> jsstr list \<Rightarrow> colours \<Rightarrow> (jsstr \<times> jsstr) option" where
  "visit_all G [] c = None"
| "visit_all G (i # is) c =
     (if colour c i = 0
      then (case visit G i c of (Some e, c') \<Rightarrow> Some e | (None, c') \<Rightarrow> visit_all G is c')
      else visit_all G is c)"

definition findGraphError :: "graph_input \<Rightarrow> graph_error option" where
  "findGraphError nodes =
     (case find_missing (fst ` set nodes) nodes of
        Some e \<Rightarrow> Some e
      | None \<Rightarrow> map_option (\<lambda>(i, dep). CycleAt i dep) (visit_all nodes (map fst nodes) Map.empty))"

text \<open>The loop of \<open>visit\<close> in terms of \<open>visit\<close> itself, as the source has it.\<close>

lemma scan_visit:
  "scan G i (dep # ds) c =
     (if colour c dep = 1 then (Some (i, dep), c)
      else if colour c dep = 0 then
        (case visit G dep c of (Some e, c') \<Rightarrow> (Some e, c') | (None, c') \<Rightarrow> scan G i ds c')
      else scan G i ds c)"
  by (simp add: visit_def split: prod.splits option.splits)

section \<open>Correctness of the search\<close>

definition graph_rel :: "graph_input \<Rightarrow> (jsstr \<times> jsstr) set" where
  "graph_rel G = {(a, b). b \<in> set (deps_get G a)}"

definition gray :: "colours \<Rightarrow> jsstr set" where "gray c = {i. colour c i = 1}"
definition black :: "colours \<Rightarrow> jsstr set" where "black c = {i. colour c i \<notin> {0, 1}}"

text \<open>The black nodes are closed under dependencies and hold no cycle.\<close>

definition black_ok :: "graph_input \<Rightarrow> colours \<Rightarrow> bool" where
  "black_ok G c \<longleftrightarrow> graph_rel G `` black c \<subseteq> black c \<and> acyclic (Restr (graph_rel G) (black c))"

lemma gray_upd: "gray (paint c i 1) = insert i (gray c)" "gray (paint c i 2) = gray c - {i}"
  and black_upd: "black (paint c i 2) = insert i (black c)"
  by (auto simp: gray_def black_def)

lemma black_upd_white: "colour c i = 0 \<Longrightarrow> black (paint c i 1) = black c"
  by (auto simp: black_def)

lemma gray_not_black: "i \<in> gray c \<Longrightarrow> i \<notin> black c"
  by (simp add: gray_def black_def)

lemma finish_node:
  assumes "black_ok G c" "i \<in> gray c" "set (deps_get G i) \<subseteq> black c"
  shows "black_ok G (paint c i 2)"
  unfolding black_ok_def black_upd
proof
  show "graph_rel G `` insert i (black c) \<subseteq> insert i (black c)"
    using assms by (auto simp: black_ok_def graph_rel_def)
  have i: "i \<notin> black c" using assms(2) by (rule gray_not_black)
  show "acyclic (Restr (graph_rel G) (insert i (black c)))"
  proof (rule acyclic_insert_top)
    show "acyclic (Restr (graph_rel G) (black c))" using assms(1) by (simp add: black_ok_def)
    show "i \<notin> Range (Restr (graph_rel G) (black c))" using i by auto
    show "Restr (graph_rel G) (insert i (black c))
        \<subseteq> Restr (graph_rel G) (black c) \<union> {i} \<times> set (deps_get G i)"
      using assms(1) i by (auto simp: graph_rel_def black_ok_def)
    show "i \<notin> set (deps_get G i)" using assms(3) i by auto
  qed
qed

lemma scan_None:
  assumes "scan G i ds c = (None, c')" and "black_ok G c"
  shows "black_ok G c' \<and> gray c' = gray c \<and> black c \<subseteq> black c' \<and> set ds \<subseteq> black c'"
  using assms
proof (induction G i ds c arbitrary: c' rule: scan.induct)
  case (1 G i c)
  then show ?case by simp
next
  case (2 G i dep ds c)
  consider "colour c dep = 0" | "dep \<in> black c"
    using "2.prems"(1) by (auto simp: black_def split: if_splits)
  then show ?case
  proof cases
    case 1
    obtain c1 where s1: "scan G dep (deps_get G dep) (paint c dep 1) = (None, c1)"
      and s2: "scan G i ds (paint c1 dep 2) = (None, c')"
      using "2.prems"(1) 1 by (auto split: prod.splits option.splits)
    have "black_ok G (paint c dep 1)"
      using "2.prems"(2) 1 by (simp add: black_ok_def black_upd_white)
    with "2.IH"(1) [OF _ 1 s1] 1 have c1: "black_ok G c1" "gray c1 = insert dep (gray c)"
      "black c \<subseteq> black c1" "set (deps_get G dep) \<subseteq> black c1"
      by (auto simp: gray_upd black_upd_white)
    then have "black_ok G (paint c1 dep 2)" by (intro finish_node) auto
    with "2.IH"(2) [OF _ 1 s1 [symmetric] refl s2] 1 have "black_ok G c'" "gray c' = gray c1 - {dep}"
      "insert dep (black c1) \<subseteq> black c'" "set ds \<subseteq> black c'"
      by (auto simp: gray_upd black_upd)
    moreover have "dep \<notin> gray c" using 1 by (simp add: gray_def)
    ultimately show ?thesis using c1 by auto
  next
    case 2
    then have "scan G i ds c = (None, c')" using "2.prems"(1) by (auto simp: black_def)
    with "2.IH"(3) 2 "2.prems"(2) show ?thesis by (auto simp: black_def)
  qed
qed

lemma scan_gray: "scan G i ds c = (None, c') \<Longrightarrow> gray c' = gray c"
proof (induction G i ds c arbitrary: c' rule: scan.induct)
  case (1 G i c)
  then show ?case by simp
next
  case (2 G i dep ds c)
  show ?case
  proof (cases "colour c dep = 0")
    case True
    then obtain c1 where s1: "scan G dep (deps_get G dep) (paint c dep 1) = (None, c1)"
      and s2: "scan G i ds (paint c1 dep 2) = (None, c')"
      using "2.prems" by (auto split: prod.splits option.splits)
    have "gray c1 = insert dep (gray c)" using "2.IH"(1) [OF _ True s1] True by (simp add: gray_upd)
    moreover have "gray c' = gray c1 - {dep}"
      using "2.IH"(2) [OF _ True s1 [symmetric] refl s2] True by (simp add: gray_upd)
    moreover have "dep \<notin> gray c" using True by (simp add: gray_def)
    ultimately show ?thesis by auto
  next
    case False
    with 2 show ?thesis by (auto split: if_splits)
  qed
qed

lemma scan_Some:
  assumes "scan G i ds c = (Some (a, b), c')"
    and "\<And>g. g \<in> gray c \<Longrightarrow> (g, i) \<in> (graph_rel G)\<^sup>*" and "set ds \<subseteq> set (deps_get G i)"
  shows "(a, b) \<in> graph_rel G \<and> (b, a) \<in> (graph_rel G)\<^sup>*"
  using assms
proof (induction G i ds c arbitrary: c' rule: scan.induct)
  case (1 G i c)
  then show ?case by simp
next
  case (2 G i dep ds c)
  have edge: "(i, dep) \<in> graph_rel G" using "2.prems"(3) by (simp add: graph_rel_def)
  consider "colour c dep = 1" | "colour c dep = 0" | "colour c dep \<notin> {0, 1}" by auto
  then show ?case
  proof cases
    case 1
    with "2.prems"(1) have "a = i" "b = dep" by simp_all
    with 1 edge "2.prems"(2) show ?thesis by (simp add: gray_def)
  next
    case 2
    have reach: "(g, dep) \<in> (graph_rel G)\<^sup>*" if "g \<in> gray (paint c dep 1)" for g
      using that "2.prems"(2) edge by (auto simp: gray_upd intro: rtrancl_into_rtrancl)
    obtain r c1 where s1: "scan G dep (deps_get G dep) (paint c dep 1) = (r, c1)" by fastforce
    show ?thesis
    proof (cases r)
      case (Some e)
      with s1 2 "2.prems"(1) have "scan G dep (deps_get G dep) (paint c dep 1) = (Some (a, b), c1)"
        by simp
      from "2.IH"(1) [OF _ 2 this reach] 2 show ?thesis by simp
    next
      case None
      then have s2: "scan G i ds (paint c1 dep 2) = (Some (a, b), c')" using s1 2 "2.prems"(1) by simp
      have "gray (paint c1 dep 2) \<subseteq> gray c"
        using scan_gray s1 None by (auto simp: gray_upd)
      with "2.IH"(2) [OF _ 2 s1 [symmetric, unfolded None] refl s2] 2 "2.prems"(2,3) show ?thesis by auto
    qed
  next
    case 3
    with 2 show ?thesis by auto
  qed
qed

lemma visit_all_None:
  assumes "visit_all G is c = None" and "black_ok G c" and "gray c = {}"
  shows "\<exists>c'. black_ok G c' \<and> black c \<union> set is \<subseteq> black c'"
  using assms
proof (induction "is" arbitrary: c)
  case Nil
  then show ?case by auto
next
  case (Cons i "is")
  show ?case
  proof (cases "colour c i = 0")
    case True
    with Cons.prems(1) obtain c1 where s: "scan G i (deps_get G i) (paint c i 1) = (None, c1)"
      and all: "visit_all G is (paint c1 i 2) = None"
      by (auto simp: visit_def split: prod.splits option.splits)
    have "black_ok G (paint c i 1)" using Cons.prems(2) True by (simp add: black_ok_def black_upd_white)
    from scan_None [OF s this] Cons.prems(3) True
    have c1: "black_ok G c1" "gray c1 = {i}" "black c \<subseteq> black c1" "set (deps_get G i) \<subseteq> black c1"
      by (auto simp: gray_upd black_upd_white)
    then have "black_ok G (paint c1 i 2)" "gray (paint c1 i 2) = {}"
      by (auto intro: finish_node simp: gray_upd)
    from Cons.IH [OF all this] c1(3) show ?thesis by (auto simp: black_upd)
  next
    case False
    then have "i \<in> black c" using Cons.prems(3) by (auto simp: black_def gray_def)
    have "visit_all G is c = None" using Cons.prems(1) False by simp
    from Cons.IH [OF this Cons.prems(2,3)] \<open>i \<in> black c\<close> show ?thesis by auto
  qed
qed

lemma visit_all_Some:
  assumes "visit_all G is c = Some (a, b)" and "gray c = {}"
  shows "(a, b) \<in> graph_rel G \<and> (b, a) \<in> (graph_rel G)\<^sup>*"
  using assms
proof (induction "is" arbitrary: c)
  case Nil
  then show ?case by simp
next
  case (Cons i "is")
  show ?case
  proof (cases "colour c i = 0")
    case True
    obtain r c1 where s: "scan G i (deps_get G i) (paint c i 1) = (r, c1)" by fastforce
    show ?thesis
    proof (cases r)
      case None
      then have "visit_all G is (paint c1 i 2) = Some (a, b)"
        using True s Cons.prems(1) by (simp add: visit_def)
      moreover have "gray (paint c1 i 2) = {}"
        using scan_gray s None Cons.prems(2) by (auto simp: gray_upd)
      ultimately show ?thesis by (rule Cons.IH)
    next
      case (Some e)
      with s True Cons.prems(1) have "scan G i (deps_get G i) (paint c i 1) = (Some (a, b), c1)"
        by (simp add: visit_def)
      then show ?thesis
        by (rule scan_Some) (use Cons.prems(2) in \<open>auto simp: gray_upd\<close>)
    qed
  next
    case False
    with Cons show ?thesis by simp
  qed
qed

lemma find_missing_None_iff:
  "find_missing ids G = None \<longleftrightarrow> (\<forall>(n, ds) \<in> set G. set ds \<subseteq> ids)"
  by (induction G) (auto simp: find_None_iff split: option.splits dest: find_SomeD)

lemma find_missing_Some:
  "find_missing ids G = Some e \<Longrightarrow> \<exists>n ds dep. e = MissingDep n dep \<and> (n, ds) \<in> set G \<and> dep \<in> set ds \<and> dep \<notin> ids"
proof (induction G)
  case Nil
  then show ?case by simp
next
  case (Cons nd G)
  obtain n ds where nd: "nd = (n, ds)" by fastforce
  show ?case
  proof (cases "find (\<lambda>dep. dep \<notin> ids) ds")
    case None
    with Cons nd show ?thesis by fastforce
  next
    case (Some dep)
    with Cons.prems nd show ?thesis by (auto dest: find_SomeD)
  qed
qed

lemma colour_empty [simp]: "colour Map.empty i = 0"
  by (simp add: colour_def)

lemma black_ok_empty: "black_ok G Map.empty" "gray Map.empty = {}"
  by (simp_all add: black_ok_def black_def gray_def acyclic_def)

lemma findGraphError_None:
  "findGraphError G = None \<longleftrightarrow> (\<forall>(n, ds) \<in> set G. set ds \<subseteq> fst ` set G) \<and> acyclic (graph_rel G)"
proof (cases "find_missing (fst ` set G) G")
  case (Some e)
  then have "\<not> (\<forall>(n, ds) \<in> set G. set ds \<subseteq> fst ` set G)"
    by (metis find_missing_None_iff option.distinct(1))
  with Some show ?thesis by (simp add: findGraphError_def)
next
  case None
  then have closed: "\<forall>(n, ds) \<in> set G. set ds \<subseteq> fst ` set G" by (simp add: find_missing_None_iff)
  have "visit_all G (map fst G) Map.empty = None \<longleftrightarrow> acyclic (graph_rel G)"
  proof
    assume "visit_all G (map fst G) Map.empty = None"
    from visit_all_None [OF this black_ok_empty] obtain c where
      c: "black_ok G c" "fst ` set G \<subseteq> black c" by auto
    have "graph_rel G \<subseteq> Restr (graph_rel G) (black c)"
    proof (rule subrelI)
      fix a b
      assume ab: "(a, b) \<in> graph_rel G"
      then have "a \<in> fst ` set G" using deps_get_unknown [of a G] by (force simp: graph_rel_def)
      with ab c show "(a, b) \<in> Restr (graph_rel G) (black c)" by (auto simp: black_ok_def)
    qed
    then show "acyclic (graph_rel G)" using c(1) by (auto simp: black_ok_def intro: acyclic_subset)
  next
    assume ac: "acyclic (graph_rel G)"
    show "visit_all G (map fst G) Map.empty = None"
    proof (rule ccontr)
      assume "visit_all G (map fst G) Map.empty \<noteq> None"
      then obtain a b where "visit_all G (map fst G) Map.empty = Some (a, b)" by auto
      from visit_all_Some [OF this black_ok_empty(2)] have "(a, a) \<in> (graph_rel G)\<^sup>+"
        by (auto intro: rtrancl_into_trancl2)
      with ac show False by (auto simp: acyclic_def)
    qed
  qed
  with None closed show ?thesis by (simp add: findGraphError_def)
qed

text \<open>With distinct ids the map of dependencies is the list itself.\<close>

lemma deps_get_distinct:
  assumes "distinct (map fst G)"
  shows "(n, ds) \<in> set G \<Longrightarrow> deps_get G n = ds"
  using assms by (simp add: deps_get_def map_of_is_SomeI [of "rev G" n ds] rev_map [symmetric])

lemma graph_rel_distinct:
  assumes "distinct (map fst G)"
  shows "graph_rel G = (\<Union>(n, ds) \<in> set G. {n} \<times> set ds)"
proof (rule subset_antisym; rule subrelI)
  fix a b
  assume "(a, b) \<in> graph_rel G"
  then have b: "b \<in> set (deps_get G a)" by (simp add: graph_rel_def)
  then have "a \<in> fst ` set G" using deps_get_unknown [of a G] by (cases "a \<in> fst ` set G") auto
  then obtain ds where ds: "(a, ds) \<in> set G" by auto
  with b have "b \<in> set ds" using deps_get_distinct [OF assms ds] by simp
  with ds show "(a, b) \<in> (\<Union>(n, ds) \<in> set G. {n} \<times> set ds)" by blast
next
  fix a b
  assume "(a, b) \<in> (\<Union>(n, ds) \<in> set G. {n} \<times> set ds)"
  then obtain ds where "(a, ds) \<in> set G" "b \<in> set ds" by auto
  then show "(a, b) \<in> graph_rel G" using deps_get_distinct [OF assms] by (simp add: graph_rel_def)
qed

section \<open>The workflow form schema\<close>

text \<open>The issues \<open>superRefine\<close> adds, with the path and the reason; the schema reports the
  first one only.\<close>

datatype form_issue =
  NameRequired          \<comment> \<open>path \<open>["name"]\<close>\<close>
| NodesRequired         \<comment> \<open>path \<open>["nodes"]\<close>, as all below\<close>
| EmptyNodeId
| DuplicateNodeId jsstr
| GraphIssue graph_error

record form_node =
  fn_id :: jsstr
  fn_type :: jsstr
  fn_promptId :: jsstr
  fn_promptText :: "jsstr option"
  fn_dependsOn :: "jsstr list"

record workflow_form =
  wf_name :: jsstr
  wf_nodes :: "form_node list"

fun check_ids :: "jsstr list \<Rightarrow> form_node list \<Rightarrow> form_issue option" where
  "check_ids ids [] = None"
| "check_ids ids (n # ns) =
     (if fn_id n = [] then Some EmptyNodeId
      else if fn_id n \<in> set ids then Some (DuplicateNodeId (fn_id n))
      else check_ids (fn_id n # ids) ns)"

definition workflowFormSchema :: "workflow_form \<Rightarrow> form_issue option" where
  "workflowFormSchema v =
     (if trim (wf_name v) = [] then Some NameRequired
      else if length (wf_nodes v) = 0 then Some NodesRequired
      else case check_ids [] (wf_nodes v) of
        Some i \<Rightarrow> Some i
      | None \<Rightarrow> map_option GraphIssue (findGraphError (map (\<lambda>n. (fn_id n, fn_dependsOn n)) (wf_nodes v))))"

lemma check_ids_None_iff:
  "check_ids ids ns = None \<longleftrightarrow> [] \<notin> fn_id ` set ns \<and> distinct (map fn_id ns) \<and> fn_id ` set ns \<inter> set ids = {}"
  by (induction ns arbitrary: ids) auto

section \<open>Properties\<close>

text \<open>C3: \<open>findGraphError\<close> accepts a graph exactly when every dependency names a node and the
  dependency relation has no cycle. The search always ends (it is a total function).\<close>

theorem findGraphError_accepts_iff:
  "findGraphError G = None \<longleftrightarrow>
     (\<Union>(n, ds) \<in> set G. set ds) \<subseteq> fst ` set G \<and> acyclic (graph_rel G)"
  by (auto simp: findGraphError_None)

text \<open>a reported error is real: a missing dependency is listed by the named node and is no
  node, and a reported cycle edge lies on a cycle of the graph.\<close>

theorem findGraphError_reports_real:
  "findGraphError G = Some e \<Longrightarrow>
     (case e of
        MissingDep n dep \<Rightarrow> (\<exists>ds. (n, ds) \<in> set G \<and> dep \<in> set ds) \<and> dep \<notin> fst ` set G
      | CycleAt i dep \<Rightarrow> (i, dep) \<in> graph_rel G \<and> (dep, i) \<in> (graph_rel G)\<^sup>*)"
  using visit_all_Some [OF _ black_ok_empty(2)]
  by (auto simp: findGraphError_def split: option.splits dest!: find_missing_Some)

theorem findGraphError_reports_real_witness:
  "findGraphError [(js ''a'', [js ''b'']), (js ''b'', [js ''a''])] = Some (CycleAt (js ''b'') (js ''a'')) \<and>
   (js ''b'', js ''a'') \<in> graph_rel [(js ''a'', [js ''b'']), (js ''b'', [js ''a''])] \<and>
   (js ''a'', js ''b'') \<in> (graph_rel [(js ''a'', [js ''b'']), (js ''b'', [js ''a''])])\<^sup>*"
proof -
  have e: "findGraphError [(js ''a'', [js ''b'']), (js ''b'', [js ''a''])]
      = Some (CycleAt (js ''b'') (js ''a''))"
    by (simp add: findGraphError_def visit_def deps_get_def)
  from findGraphError_reports_real [OF e] e show ?thesis by simp
qed

text \<open>the form schema accepts exactly the workflows with a non-blank name and at least one
  node, whose ids are non-empty and distinct, whose dependencies are nodes, and whose graph is
  acyclic.\<close>

theorem workflowFormSchema_accepts_iff:
  "workflowFormSchema v = None \<longleftrightarrow>
     (\<exists>c \<in> set (wf_name v). \<not> is_ws c) \<and> wf_nodes v \<noteq> [] \<and>
     [] \<notin> fn_id ` set (wf_nodes v) \<and> distinct (map fn_id (wf_nodes v)) \<and>
     (\<Union>n \<in> set (wf_nodes v). set (fn_dependsOn n)) \<subseteq> fn_id ` set (wf_nodes v) \<and>
     acyclic (\<Union>n \<in> set (wf_nodes v). {fn_id n} \<times> set (fn_dependsOn n))"
proof (cases "check_ids [] (wf_nodes v)")
  case (Some i)
  then show ?thesis
    using check_ids_None_iff [of "[]" "wf_nodes v"]
    by (auto simp: workflowFormSchema_def trim_eq_Nil_iff)
next
  case None
  let ?G = "map (\<lambda>n. (fn_id n, fn_dependsOn n)) (wf_nodes v)"
  have ids: "[] \<notin> fn_id ` set (wf_nodes v) \<and> distinct (map fn_id (wf_nodes v))"
    using None by (simp add: check_ids_None_iff)
  then have "graph_rel ?G = (\<Union>n \<in> set (wf_nodes v). {fn_id n} \<times> set (fn_dependsOn n))"
    by (subst graph_rel_distinct) (simp_all add: o_def)
  then have "findGraphError ?G = None \<longleftrightarrow>
      (\<Union>n \<in> set (wf_nodes v). set (fn_dependsOn n)) \<subseteq> fn_id ` set (wf_nodes v) \<and>
      acyclic (\<Union>n \<in> set (wf_nodes v). {fn_id n} \<times> set (fn_dependsOn n))"
    by (simp add: findGraphError_None image_image UN_subset_iff)
  with ids None show ?thesis by (auto simp: workflowFormSchema_def trim_eq_Nil_iff)
qed

end
