(* ===== verification/Canvas_Model.thy ===== *)
theory Canvas_Model
  imports Node_Color Graph_Layout Graph_Check
begin

text \<open>
  The pure model of the workflow canvas:
  \<open>web/src/features/workflow-canvas/canvasModel.ts\<close>. The edges are the only source of
  \<open>dependsOn\<close>; every operation returns new lists of nodes and edges. Coordinates are exact
  rationals in place of IEEE doubles.
\<close>

section \<open>State\<close>

text \<open>What the run view attaches to a node (\<open>RunNodeStatus\<close> of \<open>runOverlay.ts\<close>,
  \<open>NodeTiming\<close> of \<open>useNodeTiming.ts\<close>).\<close>

record run_node_status =
  rs_status :: graph_node_status
  rs_assetId :: "jsstr option"
  rs_todoId :: "jsstr option"
  rs_output :: "jsstr option"
  rs_outputFormat :: "output_format option"
  rs_items :: "inspector_item list option"

record node_timing =
  nt_startedAt :: int
  nt_finishedAt :: "int option"
  nt_elapsedMs :: int

text \<open>A ReactFlow node with \<open>StudioNodeData\<close>: \<open>rn_node\<close> is \<open>data.node\<close>.\<close>

record rf_node =
  rn_id :: jsstr
  rn_type :: jsstr
  rn_position :: xy
  rn_selected :: "bool option"
  rn_width :: "rat option"
  rn_height :: "rat option"
  rn_measured :: "(rat option \<times> rat option) option"
  rn_node :: workflow_node
  rn_run :: "run_node_status option"
  rn_timing :: "node_timing option"
  rn_highlightFailed :: "bool option"

record rf_edge =
  re_id :: jsstr
  re_source :: jsstr
  re_target :: jsstr
  re_sourceHandle :: "jsstr option"
  re_targetHandle :: "jsstr option"
  re_type :: "jsstr option"
  re_active :: "bool option"

record display_opts =
  do_label :: "jsstr option"
  do_color :: "jsstr option"
  do_typeId :: "jsstr option"

text \<open>The object literals \<open>{ id, type: "studio", position, data: { node } }\<close> and
  \<open>{ id: `${s}->${t}`, source: s, target: t, type: "studio" }\<close>.\<close>

definition studio_node :: "jsstr \<Rightarrow> xy \<Rightarrow> workflow_node \<Rightarrow> rf_node" where
  "studio_node i pos n = \<lparr>rn_id = i, rn_type = js ''studio'', rn_position = pos, rn_selected = None,
     rn_width = None, rn_height = None, rn_measured = None, rn_node = n, rn_run = None,
     rn_timing = None, rn_highlightFailed = None\<rparr>"

definition edge_id :: "jsstr \<Rightarrow> jsstr \<Rightarrow> jsstr" where
  "edge_id s t = s @ js ''->'' @ t"

definition studio_edge :: "jsstr \<Rightarrow> jsstr \<Rightarrow> rf_edge" where
  "studio_edge s t = \<lparr>re_id = edge_id s t, re_source = s, re_target = t, re_sourceHandle = None,
     re_targetHandle = None, re_type = Some (js ''studio''), re_active = None\<rparr>"

lemma studio_node_simps [simp]:
  "rn_id (studio_node i p n) = i" "rn_position (studio_node i p n) = p"
  "rn_node (studio_node i p n) = n" "rn_selected (studio_node i p n) = None"
  by (simp_all add: studio_node_def)

lemma studio_edge_simps [simp]:
  "re_id (studio_edge s t) = edge_id s t" "re_source (studio_edge s t) = s"
  "re_target (studio_edge s t) = t"
  by (simp_all add: studio_edge_def)

section \<open>Conversion\<close>

definition seedPositions :: "workflow_node list \<Rightarrow> (jsstr \<rightharpoonup> xy)" where
  "seedPositions nodes = autoLayout nodes TB"

definition toReactFlow :: "workflow_node list \<Rightarrow> rf_node list \<times> rf_edge list" where
  "toReactFlow nodes =
     (let seeded = seedPositions nodes
      in (map (\<lambda>n. studio_node (wn_id n) (nullish (wn_position n) (the (seeded (wn_id n)))) n) nodes,
          [studio_edge dep (wn_id n). n \<leftarrow> nodes, dep \<leftarrow> wn_dependsOn n]))"

definition directUpstreamIds :: "rf_edge list \<Rightarrow> jsstr \<Rightarrow> jsstr list" where
  "directUpstreamIds rfEdges nodeId = map re_source (filter (\<lambda>e. re_target e = nodeId) rfEdges)"

definition round_xy :: "xy \<Rightarrow> xy" where
  "round_xy p = \<lparr>px = math_round (px p), py = math_round (py p)\<rparr>"

definition drop_empty_text :: "workflow_node \<Rightarrow> workflow_node" where
  "drop_empty_text n = (if truthy (wn_promptText n) then n else n\<lparr>wn_promptText := None\<rparr>)"

definition toStudioNode :: "rf_edge list \<Rightarrow> rf_node \<Rightarrow> workflow_node" where
  "toStudioNode rfEdges rf = drop_empty_text ((rn_node rf)\<lparr>wn_id := rn_id rf,
     wn_dependsOn := directUpstreamIds rfEdges (rn_id rf),
     wn_position := Some (round_xy (rn_position rf))\<rparr>)"

definition toStudioNodes :: "rf_node list \<Rightarrow> rf_edge list \<Rightarrow> workflow_node list" where
  "toStudioNodes rfNodes rfEdges = map (toStudioNode rfEdges) rfNodes"

section \<open>New nodes\<close>

definition defaultPromptIdFor :: "prompt list option \<Rightarrow> jsstr \<Rightarrow> jsstr" where
  "defaultPromptIdFor prompts kind =
     (case prompts of None \<Rightarrow> []
      | Some ps \<Rightarrow> (case find (\<lambda>p. pr_kind p = kind \<and> pr_isDefault p) ps of
          None \<Rightarrow> [] | Some p \<Rightarrow> pr_id p))"

definition standardPipeline :: "prompt list option \<Rightarrow> workflow_node list" where
  "standardPipeline prompts =
     (let base = [basic_node (js ''script-1'') (js ''script'') (defaultPromptIdFor prompts (js ''script'')) [],
                  basic_node (js ''storyboard-1'') (js ''storyboard'')
                    (defaultPromptIdFor prompts (js ''storyboard'')) [js ''script-1'']];
          seeded = seedPositions base
      in map (\<lambda>n. n\<lparr>wn_position := Some (the (seeded (wn_id n)))\<rparr>) base)"

text \<open>\<open>nextNodeId\<close>: the first \<open>node-i\<close>, counting from 1, that is not taken. The loop ends
  because only finitely many ids are taken.\<close>

definition numbered_id :: "nat \<Rightarrow> jsstr" where
  "numbered_id i = js ''node-'' @ dec i"

lemma numbered_id_inject [simp]: "numbered_id i = numbered_id j \<longleftrightarrow> i = j"
  by (simp add: numbered_id_def)

definition taken_from :: "jsstr list \<Rightarrow> nat \<Rightarrow> nat set" where
  "taken_from existing i = {j. i \<le> j \<and> numbered_id j \<in> set existing}"

lemma finite_taken [simp]: "finite (taken_from existing i)"
proof -
  have "numbered_id ` taken_from existing i \<subseteq> set existing" by (auto simp: taken_from_def)
  then have "finite (numbered_id ` taken_from existing i)" by (rule finite_subset) simp
  then show ?thesis by (rule finite_imageD) (simp add: inj_on_def)
qed

function free_index :: "jsstr list \<Rightarrow> nat \<Rightarrow> nat" where
  "free_index existing i = (if numbered_id i \<in> set existing then free_index existing (i + 1) else i)"
  by pat_completeness auto
termination
proof (relation "measure (\<lambda>(existing, i). card (taken_from existing i))", goal_cases)
  case 1
  show ?case by simp
next
  case (2 existing i)
  have "taken_from existing (i + 1) \<subset> taken_from existing i"
  proof
    show "taken_from existing (i + 1) \<subseteq> taken_from existing i" by (auto simp: taken_from_def)
    have "i \<in> taken_from existing i" "i \<notin> taken_from existing (i + 1)"
      using 2 by (simp_all add: taken_from_def)
    then show "taken_from existing (i + 1) \<noteq> taken_from existing i" by metis
  qed
  then have "card (taken_from existing (i + 1)) < card (taken_from existing i)"
    by (rule psubset_card_mono [OF finite_taken])
  then show ?case by simp
qed

declare free_index.simps [simp del]

definition nextNodeId :: "rf_node list \<Rightarrow> jsstr" where
  "nextNodeId rfNodes = numbered_id (free_index (map rn_id rfNodes) 1)"

definition opt_truthy :: "jsstr option \<Rightarrow> jsstr option" where
  "opt_truthy v = (if truthy v then v else None)"

definition make_node :: "jsstr \<Rightarrow> jsstr \<Rightarrow> xy \<Rightarrow> prompt list option \<Rightarrow> display_opts option \<Rightarrow> workflow_node" where
  "make_node i t pos prompts display =
     (basic_node i t (defaultPromptIdFor prompts t) [])\<lparr>wn_promptText := Some [], wn_position := Some pos,
        wn_label := Option.bind display (opt_truthy \<circ> do_label),
        wn_color := Option.bind display (opt_truthy \<circ> do_color),
        wn_typeId := Option.bind display (opt_truthy \<circ> do_typeId)\<rparr>"

definition addNodeAt :: "rf_node list \<Rightarrow> jsstr \<Rightarrow> xy \<Rightarrow> prompt list option \<Rightarrow> jsstr option
    \<Rightarrow> display_opts option \<Rightarrow> rf_node list" where
  "addNodeAt rfNodes t pos prompts i display =
     (let nodeId = nullish i (nextNodeId rfNodes)
      in rfNodes @ [studio_node nodeId pos (make_node nodeId t pos prompts display)])"

definition shift_xy :: "xy \<Rightarrow> xy \<Rightarrow> xy" where
  "shift_xy p d = \<lparr>px = px p + px d, py = py p + py d\<rparr>"

definition duplicateNode :: "rf_node list \<Rightarrow> jsstr \<Rightarrow> rf_node list \<times> jsstr" where
  "duplicateNode rfNodes i =
     (case find (\<lambda>n. rn_id n = i) rfNodes of
        None \<Rightarrow> (rfNodes, i)
      | Some src \<Rightarrow>
          let newId = nextNodeId rfNodes;
              pos = shift_xy (rn_position src) \<lparr>px = 40, py = 40\<rparr>;
              clonedNode = (rn_node src)\<lparr>wn_id := newId, wn_dependsOn := [], wn_position := Some pos\<rparr>
          in (rfNodes @ [studio_node newId pos clonedNode], newId))"

text \<open>The loop of \<open>cloneSelection\<close> that allocates the new ids: each one is put into
  \<open>working\<close> as a placeholder node, so the next search avoids it.\<close>

fun clone_ids :: "rf_node list \<Rightarrow> rf_node list \<Rightarrow> (jsstr \<rightharpoonup> jsstr) \<Rightarrow> (jsstr \<rightharpoonup> jsstr)" where
  "clone_ids working [] idMap = idMap"
| "clone_ids working (n # ns) idMap =
     (let newId = nextNodeId working
      in clone_ids (working @ [studio_node newId \<lparr>px = 0, py = 0\<rparr>
             (basic_node newId (wn_type (rn_node n)) [] [])]) ns (idMap(rn_id n \<mapsto> newId)))"

definition cloneSelection :: "rf_node list \<Rightarrow> rf_edge list \<Rightarrow> jsstr set \<Rightarrow> xy \<Rightarrow> rf_node list option
    \<Rightarrow> rf_node list \<times> rf_edge list" where
  "cloneSelection rfNodes rfEdges selectedIds offset existing =
     (let selected = filter (\<lambda>n. rn_id n \<in> selectedIds) rfNodes;
          working = nullish existing [] @ selected;
          idMap = clone_ids working selected Map.empty;
          nodes = map (\<lambda>n. let newId = the (idMap (rn_id n))
             in (studio_node newId (shift_xy (rn_position n) offset) ((rn_node n)\<lparr>wn_id := newId\<rparr>))
                  \<lparr>rn_selected := Some True\<rparr>) selected;
          edges = map (\<lambda>e. studio_edge (the (idMap (re_source e))) (the (idMap (re_target e))))
             (filter (\<lambda>e. re_source e \<in> selectedIds \<and> re_target e \<in> selectedIds) rfEdges)
      in (nodes, edges))"

section \<open>Helper lines\<close>

definition DEFAULT_NODE_W :: rat where "DEFAULT_NODE_W = 180"
definition DEFAULT_NODE_H :: rat where "DEFAULT_NODE_H = 64"

definition nodeSize :: "rf_node \<Rightarrow> rat \<times> rat" where
  "nodeSize n =
     (nullish (rn_width n) (nullish (Option.bind (rn_measured n) fst) DEFAULT_NODE_W),
      nullish (rn_height n) (nullish (Option.bind (rn_measured n) snd) DEFAULT_NODE_H))"

record axis_best =
  ab_dist :: rat
  ab_line :: "rat option"
  ab_snap :: "rat option"

text \<open>One comparison of a reference line of the dragged node with a line of another node, on
  one axis.\<close>

definition try_line :: "rat \<times> rat \<Rightarrow> rat \<Rightarrow> axis_best \<Rightarrow> axis_best" where
  "try_line d t b =
     (let dist = \<bar>fst d - t\<bar>
      in if dist < ab_dist b
         then \<lparr>ab_dist = dist, ab_line = Some t, ab_snap = Some (snd d + (t - fst d))\<rparr>
         else b)"

definition try_axis :: "(rat \<times> rat) list \<Rightarrow> rat list \<Rightarrow> axis_best \<Rightarrow> axis_best" where
  "try_axis ds ts b = fold (\<lambda>d. fold (try_line d) ts) ds b"

record helper_lines =
  hl_horizontal :: "rat option"
  hl_vertical :: "rat option"
  hl_snapX :: "rat option"
  hl_snapY :: "rat option"

definition refs :: "rat \<Rightarrow> rat \<Rightarrow> (rat \<times> rat) list" where
  "refs c len = [(c, c), (c + len / 2, c), (c + len, c)]"

fun scan_helper :: "rf_node \<Rightarrow> rf_node list \<Rightarrow> axis_best \<Rightarrow> axis_best \<Rightarrow> axis_best \<times> axis_best" where
  "scan_helper dragged [] bx by = (bx, by)"
| "scan_helper dragged (other # ns) bx by =
     (if rn_id other = rn_id dragged then scan_helper dragged ns bx by
      else
        let dx = px (rn_position dragged); dy = py (rn_position dragged);
            ox = px (rn_position other); oy = py (rn_position other)
        in scan_helper dragged ns
             (try_axis (refs dx (fst (nodeSize dragged))) (map fst (refs ox (fst (nodeSize other)))) bx)
             (try_axis (refs dy (snd (nodeSize dragged))) (map fst (refs oy (snd (nodeSize other)))) by))"

definition getHelperLines :: "rf_node \<Rightarrow> rf_node list \<Rightarrow> rat \<Rightarrow> helper_lines" where
  "getHelperLines dragged nodes threshold =
     (let b0 = \<lparr>ab_dist = threshold, ab_line = None, ab_snap = None\<rparr>;
          (bx, by) = scan_helper dragged nodes b0 b0
      in \<lparr>hl_horizontal = ab_line by, hl_vertical = ab_line bx, hl_snapX = ab_snap bx, hl_snapY = ab_snap by\<rparr>)"

section \<open>Edges and types\<close>

definition insertNodeOnEdge :: "rf_node list \<Rightarrow> rf_edge list \<Rightarrow> jsstr \<Rightarrow> jsstr \<Rightarrow> xy
    \<Rightarrow> prompt list option \<Rightarrow> display_opts option \<Rightarrow> rf_node list \<times> rf_edge list \<times> jsstr" where
  "insertNodeOnEdge rfNodes rfEdges edgeId t midPos prompts display =
     (case find (\<lambda>e. re_id e = edgeId) rfEdges of
        None \<Rightarrow> (rfNodes, rfEdges, [])
      | Some edge \<Rightarrow>
          let newId = nextNodeId rfNodes;
              node = make_node newId t midPos prompts display
          in (rfNodes @ [studio_node newId midPos node],
              filter (\<lambda>e. re_id e \<noteq> edgeId) rfEdges @
                [studio_edge (re_source edge) newId, studio_edge newId (re_target edge)],
              newId))"

definition createNode :: "rf_node list \<Rightarrow> rf_edge list \<Rightarrow> jsstr \<Rightarrow> xy \<Rightarrow> prompt list option
    \<Rightarrow> jsstr option \<Rightarrow> display_opts option \<Rightarrow> rf_node list \<times> rf_edge list \<times> jsstr" where
  "createNode rfNodes rfEdges t pos prompts source display =
     (let newId = nextNodeId rfNodes;
          nodes = addNodeAt rfNodes t pos prompts (Some newId) display;
          edges = (if truthy source then rfEdges @ [studio_edge (the source) newId] else rfEdges)
      in (nodes, edges, newId))"

record custom_type_row =
  ct_type :: jsstr
  ct_label :: jsstr
  ct_color :: jsstr

fun collect_custom :: "(jsstr \<times> custom_type_row) list \<Rightarrow> rf_node list \<Rightarrow> (jsstr \<times> custom_type_row) list" where
  "collect_custom seen [] = seen"
| "collect_custom seen (n # ns) =
     (let t = wn_type (rn_node n)
      in if isCustomType t \<and> map_of seen t = None
         then let d = nodeDisplay t (wn_label (rn_node n)) (wn_color (rn_node n))
              in collect_custom (AList.update t \<lparr>ct_type = t, ct_label = nd_label d, ct_color = nd_color d\<rparr> seen) ns
         else collect_custom seen ns)"

definition collectCustomTypes :: "rf_node list \<Rightarrow> custom_type_row list" where
  "collectCustomTypes rfNodes = map snd (collect_custom [] rfNodes)"

definition applyTypeDisplay :: "rf_node list \<Rightarrow> jsstr \<Rightarrow> jsstr \<Rightarrow> jsstr \<Rightarrow> rf_node list" where
  "applyTypeDisplay rfNodes t label color = map (\<lambda>n.
     if wn_type (rn_node n) = t
     then n\<lparr>rn_node := (rn_node n)\<lparr>wn_label := Some label, wn_color := Some color\<rparr>\<rparr> else n) rfNodes"

definition hasUnboundCustomNode :: "rf_node list \<Rightarrow> bool" where
  "hasUnboundCustomNode rfNodes \<longleftrightarrow>
     list_ex (\<lambda>n. isCustomType (wn_type (rn_node n)) \<and> \<not> truthy (wn_typeId (rn_node n))) rfNodes"

definition reconnectEdge :: "rf_edge list \<Rightarrow> jsstr \<Rightarrow> jsstr \<Rightarrow> jsstr \<Rightarrow> rf_edge list" where
  "reconnectEdge rfEdges oldEdgeId source target =
     (let newId = edge_id source target
      in filter (\<lambda>e. re_id e \<noteq> oldEdgeId \<and> re_id e \<noteq> newId) rfEdges @ [studio_edge source target])"

end
