(* ===== verification/Canvas_Facts.thy ===== *)
theory Canvas_Facts
  imports Canvas_Model
begin

text \<open>
  Facts on the canvas model: allocation of node ids, the graph the edges denote and when
  \<open>findGraphError\<close> accepts it, the round trip between the stored workflow and the canvas,
  cloning, splitting an edge, and the helper lines.
\<close>

section \<open>Fresh names\<close>

text \<open>Contract of an allocator of names: \<open>fresh s\<close> is not taken in \<open>s\<close>, and \<open>add\<close> takes the
  given name. \<open>alloc_with\<close> is the loop that allocates one name per element.\<close>

fun alloc_with :: "('s \<Rightarrow> 'k) \<Rightarrow> ('s \<Rightarrow> 'k \<Rightarrow> 'x \<Rightarrow> 's) \<Rightarrow> 's \<Rightarrow> 'x list \<Rightarrow> 'k list" where
  "alloc_with fresh add s [] = []"
| "alloc_with fresh add s (x # xs) = fresh s # alloc_with fresh add (add s (fresh s) x) xs"

lemma length_alloc_with [simp]: "length (alloc_with fresh add s xs) = length xs"
  by (induction xs arbitrary: s) simp_all

locale fresh_names =
  fixes taken :: "'s \<Rightarrow> 'k set" and fresh :: "'s \<Rightarrow> 'k" and add :: "'s \<Rightarrow> 'k \<Rightarrow> 'x \<Rightarrow> 's"
  assumes fresh_not_taken: "fresh s \<notin> taken s"
    and taken_add: "taken (add s k x) = insert k (taken s)"
begin

lemma alloc_disjoint: "set (alloc_with fresh add s xs) \<inter> taken s = {}"
proof (induction xs arbitrary: s)
  case Nil
  then show ?case by simp
next
  case (Cons x xs)
  from Cons.IH [of "add s (fresh s) x"] fresh_not_taken [of s] show ?case by (auto simp: taken_add)
qed

lemma alloc_distinct: "distinct (alloc_with fresh add s xs)"
proof (induction xs arbitrary: s)
  case Nil
  then show ?case by simp
next
  case (Cons x xs)
  from alloc_disjoint [of "add s (fresh s) x" xs] Cons.IH show ?case by (auto simp: taken_add)
qed

end

text \<open>The numbering loop of \<open>nextNodeId\<close>: the first free index from \<open>i\<close> on.\<close>

lemma free_index_free: "numbered_id (free_index existing i) \<notin> set existing"
  by (induction existing i rule: free_index.induct) (subst free_index.simps, auto)

lemma free_index_ge: "i \<le> free_index existing i"
proof (induction existing i rule: free_index.induct)
  case (1 existing i)
  then show ?case by (subst free_index.simps) auto
qed

lemma free_index_least:
  "i \<le> j \<Longrightarrow> j < free_index existing i \<Longrightarrow> numbered_id j \<in> set existing"
proof (induction existing i rule: free_index.induct)
  case (1 existing i)
  show ?case
  proof (cases "numbered_id i \<in> set existing")
    case True
    with 1 show ?thesis by (cases "i = j") (auto simp: free_index.simps [of existing i])
  next
    case False
    with 1 show ?thesis by (simp add: free_index.simps [of existing i])
  qed
qed

lemma nextNodeId_fresh [simp]: "nextNodeId ns \<notin> rn_id ` set ns"
  using free_index_free [of "map rn_id ns" 1] by (simp add: nextNodeId_def)

text \<open>The placeholder \<open>cloneSelection\<close> pushes for each id it hands out.\<close>

definition placeholder :: "rf_node list \<Rightarrow> jsstr \<Rightarrow> rf_node \<Rightarrow> rf_node list" where
  "placeholder working newId n = working @ [studio_node newId \<lparr>px = 0, py = 0\<rparr>
     (basic_node newId (wn_type (rn_node n)) [] [])]"

interpretation node_ids: fresh_names "\<lambda>ns. rn_id ` set ns" nextNodeId placeholder
  by unfold_locales (simp_all add: placeholder_def)

lemma clone_ids_alloc:
  "clone_ids working ns idMap = idMap(map rn_id ns [\<mapsto>] alloc_with nextNodeId placeholder working ns)"
  by (induction ns arbitrary: working idMap) (simp_all add: Let_def placeholder_def)

lemma clone_ids_map:
  assumes "distinct (map rn_id ns)"
  shows "map (\<lambda>n. the (clone_ids working ns Map.empty (rn_id n))) ns = alloc_with nextNodeId placeholder working ns"
proof (rule nth_equalityI)
  show "length (map (\<lambda>n. the (clone_ids working ns Map.empty (rn_id n))) ns)
      = length (alloc_with nextNodeId placeholder working ns)" by simp
  fix i
  assume "i < length (map (\<lambda>n. the (clone_ids working ns Map.empty (rn_id n))) ns)"
  then have i: "i < length ns" by simp
  have "[map rn_id ns [\<mapsto>] ys] (map rn_id ns ! i) = Some (ys ! i)"
    if "length ys = length ns" for ys :: "jsstr list"
  proof -
    have "(map rn_id ns ! i, ys ! i) \<in> set (zip (map rn_id ns) ys)"
      using i that by (auto simp: in_set_zip intro!: exI [of _ i])
    then show ?thesis using assms that by (simp add: map_upds_def map_of_is_SomeI rev_map [symmetric])
  qed
  then show "map (\<lambda>n. the (clone_ids working ns Map.empty (rn_id n))) ns ! i
      = alloc_with nextNodeId placeholder working ns ! i"
    using i by (simp add: clone_ids_alloc)
qed

section \<open>The graph of a canvas\<close>

definition edge_rel :: "rf_edge list \<Rightarrow> (jsstr \<times> jsstr) set" where
  "edge_rel es = (\<lambda>e. (re_source e, re_target e)) ` set es"

lemma edge_rel_simps [simp]:
  "edge_rel [] = {}" "edge_rel (e # es) = insert (re_source e, re_target e) (edge_rel es)"
  "edge_rel (xs @ ys) = edge_rel xs \<union> edge_rel ys"
  by (auto simp: edge_rel_def)

lemma finite_edge_rel [simp]: "finite (edge_rel es)"
  by (simp add: edge_rel_def)

lemma edge_rel_filter: "edge_rel (filter P es) \<subseteq> edge_rel es"
  by (auto simp: edge_rel_def)

text \<open>The well-formedness of a canvas: distinct ids, edges between nodes, no cycle.\<close>

definition canvas_ok :: "rf_node list \<Rightarrow> rf_edge list \<Rightarrow> bool" where
  "canvas_ok ns es \<longleftrightarrow> distinct (map rn_id ns) \<and> edge_rel es \<subseteq> (rn_id ` set ns) \<times> (rn_id ` set ns) \<and>
     acyclic (edge_rel es)"

lemma canvas_okI [wf_intros]:
  "distinct (map rn_id ns) \<Longrightarrow> edge_rel es \<subseteq> (rn_id ` set ns) \<times> (rn_id ` set ns) \<Longrightarrow>
     acyclic (edge_rel es) \<Longrightarrow> canvas_ok ns es"
  by (simp add: canvas_ok_def)

lemma canvas_okD:
  assumes "canvas_ok ns es"
  shows "distinct (map rn_id ns)" "edge_rel es \<subseteq> (rn_id ` set ns) \<times> (rn_id ` set ns)" "acyclic (edge_rel es)"
  using assms by (simp_all add: canvas_ok_def)

text \<open>Dropping edges, or changing nodes without touching their ids, keeps it.\<close>

lemma canvas_ok_fewer_edges [wf_intros]:
  "canvas_ok ns es \<Longrightarrow> edge_rel es' \<subseteq> edge_rel es \<Longrightarrow> canvas_ok ns es'"
  by (auto simp: canvas_ok_def intro: acyclic_subset)

lemma canvas_ok_same_ids:
  "map rn_id ns' = map rn_id ns \<Longrightarrow> canvas_ok ns' es \<longleftrightarrow> canvas_ok ns es"
  by (metis canvas_ok_def list.set_map)

text \<open>The argument \<open>findGraphError\<close> reads off a workflow: \<open>id\<close> and \<open>dependsOn\<close> of each node.\<close>

definition graph_of :: "workflow_node list \<Rightarrow> graph_input" where
  "graph_of nodes = map (\<lambda>n. (wn_id n, wn_dependsOn n)) nodes"

lemma toStudioNode_simps [simp]:
  "wn_id (toStudioNode es n) = rn_id n"
  "wn_dependsOn (toStudioNode es n) = directUpstreamIds es (rn_id n)"
  "wn_position (toStudioNode es n) = Some (round_xy (rn_position n))"
  "wn_type (toStudioNode es n) = wn_type (rn_node n)"
  by (simp_all add: toStudioNode_def drop_empty_text_def)

lemma set_directUpstreamIds: "set (directUpstreamIds es i) = {s. (s, i) \<in> edge_rel es}"
  by (auto simp: directUpstreamIds_def edge_rel_def)

lemma graph_of_canvas:
  "graph_of (toStudioNodes ns es) = map (\<lambda>n. (rn_id n, directUpstreamIds es (rn_id n))) ns"
  by (simp add: graph_of_def toStudioNodes_def o_def)

lemma canvas_graph_rel:
  assumes "distinct (map rn_id ns)"
  shows "graph_rel (graph_of (toStudioNodes ns es)) = {(t, s). (s, t) \<in> edge_rel es \<and> t \<in> rn_id ` set ns}"
proof -
  have "distinct (map fst (graph_of (toStudioNodes ns es)))"
    using assms by (simp add: graph_of_canvas o_def)
  then show ?thesis
    by (subst graph_rel_distinct) (auto simp: graph_of_canvas set_directUpstreamIds)
qed

text \<open>The guard of every handler that draws an edge: when each edge ends at a node,
  \<open>findGraphError\<close> accepts exactly the well-formed canvases.\<close>

lemma canvas_guard:
  assumes "distinct (map rn_id ns)" and "Range (edge_rel es) \<subseteq> rn_id ` set ns"
  shows "findGraphError (graph_of (toStudioNodes ns es)) = None \<longleftrightarrow> canvas_ok ns es"
proof -
  have "graph_rel (graph_of (toStudioNodes ns es)) = (edge_rel es)\<inverse>"
    using assms(2) by (auto simp: canvas_graph_rel [OF assms(1)])
  moreover have "(\<forall>x \<in> set ns. {s. (s, rn_id x) \<in> edge_rel es} \<subseteq> rn_id ` set ns)
      \<longleftrightarrow> edge_rel es \<subseteq> (rn_id ` set ns) \<times> (rn_id ` set ns)" (is "?l \<longleftrightarrow> ?r")
  proof
    assume l: ?l
    show ?r
    proof (rule subrelI)
      fix s t
      assume st: "(s, t) \<in> edge_rel es"
      then obtain x where "x \<in> set ns" "t = rn_id x" using assms(2) by auto
      with l st show "(s, t) \<in> (rn_id ` set ns) \<times> (rn_id ` set ns)" by auto
    qed
  qed auto
  then have "(\<forall>(n, ds) \<in> set (graph_of (toStudioNodes ns es)). set ds \<subseteq> fst ` set (graph_of (toStudioNodes ns es)))
      \<longleftrightarrow> edge_rel es \<subseteq> (rn_id ` set ns) \<times> (rn_id ` set ns)"
    by (simp add: graph_of_canvas set_directUpstreamIds image_image)
  ultimately show ?thesis
    using assms(1) by (simp add: findGraphError_None canvas_ok_def)
qed

section \<open>The stored workflow and the canvas\<close>

lemma toReactFlow_ids: "map rn_id (fst (toReactFlow nodes)) = map wn_id nodes"
  by (simp add: toReactFlow_def Let_def o_def)

lemma toReactFlow_edges: "edge_rel (snd (toReactFlow nodes)) = (node_deps nodes)\<inverse>"
  by (auto simp: toReactFlow_def Let_def edge_rel_def node_deps_def image_UN image_image)

lemma toReactFlow_ok [wf_intros]:
  assumes "distinct (map wn_id nodes)" and "node_deps nodes \<subseteq> (wn_id ` set nodes) \<times> (wn_id ` set nodes)"
    and "acyclic (node_deps nodes)"
  shows "canvas_ok (fst (toReactFlow nodes)) (snd (toReactFlow nodes))"
proof (rule canvas_okI)
  have ids: "rn_id ` set (fst (toReactFlow nodes)) = wn_id ` set nodes"
    using toReactFlow_ids [of nodes] by (metis list.set_map)
  show "edge_rel (snd (toReactFlow nodes))
      \<subseteq> rn_id ` set (fst (toReactFlow nodes)) \<times> rn_id ` set (fst (toReactFlow nodes))"
    unfolding ids toReactFlow_edges using assms(2) by auto
qed (use assms in \<open>simp_all add: toReactFlow_ids toReactFlow_edges\<close>)

lemma directUpstream_toReactFlow:
  assumes "distinct (map wn_id nodes)" and "n \<in> set nodes"
  shows "directUpstreamIds (snd (toReactFlow nodes)) (wn_id n) = wn_dependsOn n"
  using assms
proof (induction nodes)
  case Nil
  then show ?case by simp
next
  case (Cons m ms)
  let ?es = "\<lambda>m. map (\<lambda>dep. studio_edge dep (wn_id m)) (wn_dependsOn m)"
  have up: "directUpstreamIds (?es m) i = (if i = wn_id m then wn_dependsOn m else [])" for m i
    by (simp add: directUpstreamIds_def filter_map o_def)
  have app: "directUpstreamIds (xs @ ys) i = directUpstreamIds xs i @ directUpstreamIds ys i" for xs ys i
    by (simp add: directUpstreamIds_def)
  have none: "directUpstreamIds (concat (map ?es ms)) i = []" if "i \<notin> wn_id ` set ms" for i ms
    using that by (induction ms) (auto simp: app up directUpstreamIds_def)
  have e: "snd (toReactFlow ns) = concat (map ?es ns)" for ns by (simp add: toReactFlow_def Let_def)
  show ?case
  proof (cases "n = m")
    case True
    with Cons.prems show ?thesis by (simp add: e app up none)
  next
    case False
    with Cons.prems have n: "n \<in> set ms" by simp
    then have "wn_id n \<in> wn_id ` set ms" by simp
    with Cons.prems(1) have "wn_id n \<noteq> wn_id m" by auto
    with n Cons show ?thesis by (simp add: e app up)
  qed
qed

text \<open>What a save after a load writes for one node: the coordinate the canvas shows, rounded,
  and no empty prompt text.\<close>

definition normal_node :: "(jsstr \<rightharpoonup> xy) \<Rightarrow> workflow_node \<Rightarrow> workflow_node" where
  "normal_node seeded n =
     drop_empty_text (n\<lparr>wn_position := Some (round_xy (nullish (wn_position n) (the (seeded (wn_id n)))))\<rparr>)"

lemma load_save:
  assumes "distinct (map wn_id nodes)"
  shows "toStudioNodes (fst (toReactFlow nodes)) (snd (toReactFlow nodes))
    = map (normal_node (seedPositions nodes)) nodes"
proof -
  have "toStudioNode (snd (toReactFlow nodes))
      (studio_node (wn_id n) (nullish (wn_position n) (the (seedPositions nodes (wn_id n)))) n)
      = normal_node (seedPositions nodes) n" if "n \<in> set nodes" for n
    using directUpstream_toReactFlow [OF assms that]
    by (simp add: toStudioNode_def normal_node_def)
  then show ?thesis
    by (simp add: toStudioNodes_def toReactFlow_def Let_def)
qed

section \<open>Adding and cloning nodes\<close>

lemma make_node_simps [simp]:
  "wn_id (make_node i t pos ps d) = i" "wn_dependsOn (make_node i t pos ps d) = []"
  "wn_type (make_node i t pos ps d) = t"
  by (simp_all add: make_node_def basic_node_def)

lemma addNodeAt_ids:
  "map rn_id (addNodeAt ns t pos ps i d) = map rn_id ns @ [nullish i (nextNodeId ns)]"
  by (simp add: addNodeAt_def Let_def)

lemma canvas_ok_add [wf_intros]:
  assumes "canvas_ok ns es" and "rn_id n \<notin> rn_id ` set ns"
  shows "canvas_ok (ns @ [n]) es"
  using assms by (auto simp: canvas_ok_def)

lemma duplicateNode_ok [wf_intros]:
  "canvas_ok ns es \<Longrightarrow> canvas_ok (fst (duplicateNode ns i)) es"
  by (simp add: duplicateNode_def Let_def canvas_ok_add split: option.split)

text \<open>Two canvases side by side.\<close>

lemma canvas_ok_union [wf_intros]:
  assumes a: "canvas_ok ns es" and b: "canvas_ok ns' es'"
    and disj: "rn_id ` set ns \<inter> rn_id ` set ns' = {}"
  shows "canvas_ok (ns @ ns') (es @ es')"
proof (rule canvas_okI)
  show "distinct (map rn_id (ns @ ns'))"
    using canvas_okD(1) [OF a] canvas_okD(1) [OF b] disj by auto
  show "edge_rel (es @ es') \<subseteq> rn_id ` set (ns @ ns') \<times> rn_id ` set (ns @ ns')"
    using canvas_okD(2) [OF a] canvas_okD(2) [OF b] by auto
  have "Range (edge_rel es) \<subseteq> rn_id ` set ns" "Domain (edge_rel es') \<subseteq> rn_id ` set ns'"
    using canvas_okD(2) [OF a] canvas_okD(2) [OF b] by auto
  with disj have "Domain (edge_rel es') \<inter> Range (edge_rel es) = {}" by blast
  then show "acyclic (edge_rel (es @ es'))"
    using canvas_okD(3) [OF a] canvas_okD(3) [OF b] by (simp add: acyclic_union_disjoint)
qed

text \<open>\<open>cloneSelection\<close>: the new ids are fresh and distinct, and the clone is the selected
  subgraph renamed.\<close>

definition clone_renaming :: "rf_node list \<Rightarrow> jsstr set \<Rightarrow> rf_node list option \<Rightarrow> jsstr \<Rightarrow> jsstr" where
  "clone_renaming ns sel existing i =
     (let selected = filter (\<lambda>n. rn_id n \<in> sel) ns
      in the (clone_ids (nullish existing [] @ selected) selected Map.empty i))"

lemma cloneSelection_edges:
  "edge_rel (snd (cloneSelection ns es sel off existing))
    = map_prod (clone_renaming ns sel existing) (clone_renaming ns sel existing) ` Restr (edge_rel es) sel"
proof -
  let ?f = "clone_renaming ns sel existing"
  let ?fes = "filter (\<lambda>e. re_source e \<in> sel \<and> re_target e \<in> sel) es"
  have "edge_rel (snd (cloneSelection ns es sel off existing))
      = (\<lambda>e. (?f (re_source e), ?f (re_target e))) ` set ?fes"
    by (simp add: cloneSelection_def clone_renaming_def Let_def edge_rel_def image_image)
  also have "\<dots> = map_prod ?f ?f ` edge_rel ?fes"
    by (simp add: edge_rel_def image_image)
  also have "edge_rel ?fes = Restr (edge_rel es) sel"
    by (auto simp: edge_rel_def)
  finally show ?thesis .
qed

lemma cloneSelection_ids:
  "map rn_id (fst (cloneSelection ns es sel off existing))
    = map (clone_renaming ns sel existing \<circ> rn_id) (filter (\<lambda>n. rn_id n \<in> sel) ns)"
  by (simp add: cloneSelection_def clone_renaming_def Let_def)

lemma cloneSelection_alloc:
  assumes "distinct (map rn_id ns)"
  shows "map rn_id (fst (cloneSelection ns es sel off existing))
    = alloc_with nextNodeId placeholder (nullish existing [] @ filter (\<lambda>n. rn_id n \<in> sel) ns) (filter (\<lambda>n. rn_id n \<in> sel) ns)"
proof -
  have "distinct (map rn_id (filter (\<lambda>n. rn_id n \<in> sel) ns))"
    using assms by (simp add: distinct_map_filter)
  from clone_ids_map [OF this] show ?thesis
    by (simp add: cloneSelection_ids clone_renaming_def Let_def comp_def)
qed

lemma cloneSelection_fresh:
  assumes "distinct (map rn_id ns)"
  shows "distinct (map rn_id (fst (cloneSelection ns es sel off existing)))"
    and "rn_id ` set (fst (cloneSelection ns es sel off existing)) \<inter> rn_id ` set (nullish existing []) = {}"
proof -
  let ?w = "nullish existing [] @ filter (\<lambda>n. rn_id n \<in> sel) ns"
  let ?c = "fst (cloneSelection ns es sel off existing)"
  show "distinct (map rn_id ?c)"
    unfolding cloneSelection_alloc [OF assms] by (rule node_ids.alloc_distinct)
  have "rn_id ` set ?c \<inter> rn_id ` set ?w = {}"
    using node_ids.alloc_disjoint [of ?w] cloneSelection_alloc [OF assms, of es sel off existing]
    by (metis list.set_map)
  then show "rn_id ` set ?c \<inter> rn_id ` set (nullish existing []) = {}" by auto
qed

lemma clone_renaming_inj:
  assumes "distinct (map rn_id ns)"
  shows "inj_on (clone_renaming ns sel existing) (rn_id ` set (filter (\<lambda>n. rn_id n \<in> sel) ns))"
proof -
  let ?s = "filter (\<lambda>n. rn_id n \<in> sel) ns"
  have "distinct (map (clone_renaming ns sel existing) (map rn_id ?s))"
    using cloneSelection_fresh(1) [OF assms] unfolding cloneSelection_ids by (simp add: comp_def)
  then show ?thesis by (metis distinct_map list.set_map)
qed

lemma cloneSelection_ok [wf_intros]:
  assumes ok: "canvas_ok ns es"
  shows "canvas_ok (fst (cloneSelection ns es sel off existing)) (snd (cloneSelection ns es sel off existing))"
proof (rule canvas_okI)
  let ?f = "clone_renaming ns sel existing"
  let ?s = "rn_id ` set (filter (\<lambda>n. rn_id n \<in> sel) ns)"
  have ids: "rn_id ` set (fst (cloneSelection ns es sel off existing)) = ?f ` ?s"
    using cloneSelection_ids [of ns es sel off existing] by (metis list.set_map image_comp)
  have sub: "Restr (edge_rel es) sel \<subseteq> ?s \<times> ?s"
    using canvas_okD(2) [OF ok] by force
  show "edge_rel (snd (cloneSelection ns es sel off existing))
      \<subseteq> rn_id ` set (fst (cloneSelection ns es sel off existing)) \<times> rn_id ` set (fst (cloneSelection ns es sel off existing))"
    unfolding ids cloneSelection_edges using sub by auto
  have "Field (Restr (edge_rel es) sel) \<subseteq> ?s" using sub by (auto simp: Field_def)
  with clone_renaming_inj [OF canvas_okD(1) [OF ok]] have "inj_on ?f (Field (Restr (edge_rel es) sel))"
    by (rule inj_on_subset)
  moreover have "acyclic (Restr (edge_rel es) sel)"
    using canvas_okD(3) [OF ok] by (rule acyclic_subset) auto
  ultimately show "acyclic (edge_rel (snd (cloneSelection ns es sel off existing)))"
    unfolding cloneSelection_edges by (rule acyclic_map_prod)
qed (rule cloneSelection_fresh(1) [OF canvas_okD(1) [OF ok]])

section \<open>Splitting and moving edges\<close>

text \<open>Edge ids determine the end points. (The template \<open>`${s}->${t}`\<close> is not injective when
  an id contains the arrow, so this is a condition and not a fact; see \<open>edge_id_collision\<close>.)\<close>

definition edge_ids_ok :: "rf_edge list \<Rightarrow> bool" where
  "edge_ids_ok es \<longleftrightarrow> (\<forall>e \<in> set es. \<forall>e' \<in> set es.
     re_id e = re_id e' \<longrightarrow> re_source e = re_source e' \<and> re_target e = re_target e')"

lemma insertNodeOnEdge_shape:
  assumes "find (\<lambda>e. re_id e = eid) es = Some e" and "edge_ids_ok es"
    and n_def: "n = nextNodeId ns"
  obtains R where
    "edge_rel (fst (snd (insertNodeOnEdge ns es eid t pos ps d))) = R \<union> {(re_source e, n), (n, re_target e)}"
    "R \<subseteq> edge_rel es" "edge_rel es \<subseteq> insert (re_source e, re_target e) R"
    "(re_source e, re_target e) \<in> edge_rel es"
    "map rn_id (fst (insertNodeOnEdge ns es eid t pos ps d)) = map rn_id ns @ [n]"
proof
  let ?R = "edge_rel (filter (\<lambda>e. re_id e \<noteq> eid) es)"
  have e: "e \<in> set es" "re_id e = eid" using find_SomeD [OF assms(1)] by simp_all
  show "edge_rel (fst (snd (insertNodeOnEdge ns es eid t pos ps d)))
      = ?R \<union> {(re_source e, n), (n, re_target e)}"
    using assms(1) by (auto simp: insertNodeOnEdge_def Let_def n_def)
  show "?R \<subseteq> edge_rel es" by (rule edge_rel_filter)
  show "(re_source e, re_target e) \<in> edge_rel es" using e by (auto simp: edge_rel_def)
  show "edge_rel es \<subseteq> insert (re_source e, re_target e) ?R"
  proof
    fix x
    assume "x \<in> edge_rel es"
    then obtain e' where e': "e' \<in> set es" "x = (re_source e', re_target e')" by (auto simp: edge_rel_def)
    show "x \<in> insert (re_source e, re_target e) ?R"
    proof (cases "re_id e' = eid")
      case True
      then have "re_source e' = re_source e \<and> re_target e' = re_target e"
        using assms(2) e e'(1) unfolding edge_ids_ok_def by metis
      with e' show ?thesis by simp
    next
      case False
      with e' show ?thesis by (auto simp: edge_rel_def)
    qed
  qed
  show "map rn_id (fst (insertNodeOnEdge ns es eid t pos ps d)) = map rn_id ns @ [n]"
    using assms(1) by (simp add: insertNodeOnEdge_def Let_def n_def)
qed

lemma insertNodeOnEdge_ok_reach:
  assumes f: "find (\<lambda>e. re_id e = eid) es = Some e" and ids: "edge_ids_ok es" and ok: "canvas_ok ns es"
  shows "canvas_ok (fst (insertNodeOnEdge ns es eid t pos ps d)) (fst (snd (insertNodeOnEdge ns es eid t pos ps d)))"
    and "Restr ((edge_rel (fst (snd (insertNodeOnEdge ns es eid t pos ps d))))\<^sup>+) (rn_id ` set ns) = (edge_rel es)\<^sup>+"
proof -
  let ?n = "nextNodeId ns"
  let ?ns = "fst (insertNodeOnEdge ns es eid t pos ps d)"
  let ?es = "fst (snd (insertNodeOnEdge ns es eid t pos ps d))"
  obtain R where R: "edge_rel ?es = R \<union> {(re_source e, ?n), (?n, re_target e)}"
    "R \<subseteq> edge_rel es" "edge_rel es \<subseteq> insert (re_source e, re_target e) R"
    "(re_source e, re_target e) \<in> edge_rel es" "map rn_id ?ns = map rn_id ns @ [?n]"
    using insertNodeOnEdge_shape [OF f ids refl, of ns t pos ps d] by metis
  have "Field (edge_rel es) \<subseteq> rn_id ` set ns" using canvas_okD(2) [OF ok] by (auto simp: Field_def)
  then have n: "?n \<notin> Field (edge_rel es)" using nextNodeId_fresh [of ns] by blast
  have ids': "rn_id ` set ?ns = insert ?n (rn_id ` set ns)"
    using R(5) by (metis list.set_map set_append list.simps(15) empty_set Un_insert_right sup_bot_right)
  show "canvas_ok ?ns ?es"
  proof (rule canvas_okI)
    show "distinct (map rn_id ?ns)" using R(5) canvas_okD(1) [OF ok] nextNodeId_fresh [of ns] by simp
    show "edge_rel ?es \<subseteq> rn_id ` set ?ns \<times> rn_id ` set ?ns"
      unfolding ids' R(1) using R(2,4) canvas_okD(2) [OF ok] by blast
    show "acyclic (edge_rel ?es)"
      unfolding R(1) by (rule subdivide_acyclic [OF R(2,4) n canvas_okD(3) [OF ok]])
  qed
  have sub: "(edge_rel es)\<^sup>+ \<subseteq> (rn_id ` set ns) \<times> (rn_id ` set ns)"
    using canvas_okD(2) [OF ok] by (rule trancl_subset_Sigma)
  show "Restr ((edge_rel ?es)\<^sup>+) (rn_id ` set ns) = (edge_rel es)\<^sup>+"
  proof (rule set_eqI, clarify)
    fix a b
    show "(a, b) \<in> Restr ((edge_rel ?es)\<^sup>+) (rn_id ` set ns) \<longleftrightarrow> (a, b) \<in> (edge_rel es)\<^sup>+"
    proof (cases "a \<in> rn_id ` set ns \<and> b \<in> rn_id ` set ns")
      case True
      then have "a \<noteq> ?n" "b \<noteq> ?n" using nextNodeId_fresh [of ns] by metis+
      from subdivide_reach [OF R(2,3,4) n this] True show ?thesis unfolding R(1) by simp
    next
      case False
      with sub show ?thesis by blast
    qed
  qed
qed

lemma createNode_simps:
  "map rn_id (fst (createNode ns es t pos ps src d)) = map rn_id ns @ [nextNodeId ns]"
  "edge_rel (fst (snd (createNode ns es t pos ps src d)))
     = edge_rel es \<union> (if truthy src then {(the src, nextNodeId ns)} else {})"
  by (simp_all add: createNode_def Let_def addNodeAt_ids)

text \<open>A new node linked from an existing one keeps the canvas well-formed.\<close>

lemma acyclic_add_sink:
  assumes "acyclic r" and "n \<notin> Domain r" and "s \<noteq> n"
  shows "acyclic (r \<union> {(s, n)})"
proof (rule acyclic_union_disjoint [THEN acyclic_subset])
  have "acyclic ({} :: ('a \<times> 'a) set)" by (simp add: acyclic_def)
  then show "acyclic ({(s, n)} :: ('a \<times> 'a) set)" using assms(3) by (simp add: acyclic_insert)
  show "acyclic r" by fact
  show "Domain r \<inter> Range {(s, n)} = {}" using assms(2) by simp
qed auto

lemma createNode_ok:
  assumes ok: "canvas_ok ns es" and "truthy src \<Longrightarrow> the src \<in> rn_id ` set ns"
  shows "canvas_ok (fst (createNode ns es t pos ps src d)) (fst (snd (createNode ns es t pos ps src d)))"
proof (rule canvas_okI)
  let ?ns = "fst (createNode ns es t pos ps src d)"
  let ?es = "fst (snd (createNode ns es t pos ps src d))"
  let ?n = "nextNodeId ns"
  have ids': "rn_id ` set ?ns = insert ?n (rn_id ` set ns)"
    using createNode_simps(1) by (metis list.set_map set_append list.simps(15) empty_set Un_insert_right sup_bot_right)
  show "distinct (map rn_id ?ns)"
    using canvas_okD(1) [OF ok] nextNodeId_fresh [of ns] by (simp add: createNode_simps)
  show "edge_rel ?es \<subseteq> rn_id ` set ?ns \<times> rn_id ` set ?ns"
    unfolding ids' createNode_simps using canvas_okD(2) [OF ok] assms(2) by (auto split: if_splits)
  have "?n \<notin> Domain (edge_rel es)" using canvas_okD(2) [OF ok] nextNodeId_fresh [of ns] by blast
  moreover have "the src \<noteq> ?n" if "truthy src" using assms(2) [OF that] nextNodeId_fresh [of ns] by metis
  ultimately show "acyclic (edge_rel ?es)"
    unfolding createNode_simps using canvas_okD(3) [OF ok] by (simp add: acyclic_add_sink [simplified])
qed

lemma reconnectEdge_rel:
  "edge_rel (reconnectEdge es old s t) = insert (s, t) (edge_rel (filter (\<lambda>e. re_id e \<noteq> old \<and> re_id e \<noteq> edge_id s t) es))"
  by (simp add: reconnectEdge_def Let_def)

lemma applyTypeDisplay_ids [simp]: "map rn_id (applyTypeDisplay ns t l c) = map rn_id ns"
  by (simp add: applyTypeDisplay_def)

section \<open>Helper lines\<close>

text \<open>What the comparison loop has found after the pairs \<open>P\<close>: nothing closer than the threshold,
  or a pair at the least distance.\<close>

definition best_ok :: "rat \<Rightarrow> ((rat \<times> rat) \<times> rat) set \<Rightarrow> axis_best \<Rightarrow> bool" where
  "best_ok thr P b \<longleftrightarrow>
     (ab_line b = None \<and> ab_snap b = None \<and> ab_dist b = thr \<and> (\<forall>(d, t) \<in> P. thr \<le> \<bar>fst d - t\<bar>)) \<or>
     (\<exists>d t. (d, t) \<in> P \<and> b = \<lparr>ab_dist = \<bar>fst d - t\<bar>, ab_line = Some t, ab_snap = Some (snd d + (t - fst d))\<rparr> \<and>
        \<bar>fst d - t\<bar> < thr \<and> (\<forall>(d', t') \<in> P. \<bar>fst d - t\<bar> \<le> \<bar>fst d' - t'\<bar>))"

lemma best_okE:
  assumes "best_ok thr P b"
  obtains (nothing) "ab_line b = None" "ab_snap b = None" "ab_dist b = thr"
      "\<And>d t. (d, t) \<in> P \<Longrightarrow> thr \<le> \<bar>fst d - t\<bar>"
  | (closest) d t where "(d, t) \<in> P"
      "b = \<lparr>ab_dist = \<bar>fst d - t\<bar>, ab_line = Some t, ab_snap = Some (snd d + (t - fst d))\<rparr>"
      "\<bar>fst d - t\<bar> < thr" "\<And>d' t'. (d', t') \<in> P \<Longrightarrow> \<bar>fst d - t\<bar> \<le> \<bar>fst d' - t'\<bar>"
  using assms unfolding best_ok_def
proof (elim disjE exE conjE, goal_cases)
  case 1
  show ?case by (rule 1(1)) (use 1(3-) in auto)
next
  case (2 d t)
  show ?case by (rule 2(2) [of d t]) (use 2(3-) in auto)
qed

lemma best_ok_dist:
  assumes "best_ok thr P b"
  shows "ab_dist b \<le> thr" and "(d, t) \<in> P \<Longrightarrow> ab_dist b \<le> \<bar>fst d - t\<bar>"
proof -
  show "ab_dist b \<le> thr" using assms by (rule best_okE) simp_all
  assume dt: "(d, t) \<in> P"
  show "ab_dist b \<le> \<bar>fst d - t\<bar>"
    using assms
  proof (rule best_okE)
    assume "ab_dist b = thr" "\<And>d t. (d, t) \<in> P \<Longrightarrow> thr \<le> \<bar>fst d - t\<bar>"
    with dt show ?thesis by simp
  next
    fix d0 t0
    assume "b = \<lparr>ab_dist = \<bar>fst d0 - t0\<bar>, ab_line = Some t0, ab_snap = Some (snd d0 + (t0 - fst d0))\<rparr>"
      "\<And>d' t'. (d', t') \<in> P \<Longrightarrow> \<bar>fst d0 - t0\<bar> \<le> \<bar>fst d' - t'\<bar>"
    with dt show ?thesis by simp
  qed
qed

lemma best_ok_try:
  assumes "best_ok thr P b"
  shows "best_ok thr (insert (d, t) P) (try_line d t b)"
proof (cases "\<bar>fst d - t\<bar> < ab_dist b")
  case True
  then have "\<bar>fst d - t\<bar> < thr" using best_ok_dist(1) [OF assms] by simp
  moreover have "\<bar>fst d - t\<bar> \<le> \<bar>fst d' - t'\<bar>" if "(d', t') \<in> P" for d' t'
    using True best_ok_dist(2) [OF assms that] by simp
  ultimately show ?thesis
    using True unfolding best_ok_def try_line_def Let_def
    by (intro disjI2 exI [of _ d] exI [of _ t]) auto
next
  case False
  then have "try_line d t b = b" by (simp add: try_line_def)
  with False assms show ?thesis unfolding best_ok_def
  proof (elim disjE, goal_cases)
    case 1
    then show ?case by (intro disjI1) auto
  next
    case 2
    then obtain d0 t0 where "(d0, t0) \<in> P"
      "b = \<lparr>ab_dist = \<bar>fst d0 - t0\<bar>, ab_line = Some t0, ab_snap = Some (snd d0 + (t0 - fst d0))\<rparr>"
      "\<bar>fst d0 - t0\<bar> < thr" "\<forall>(d', t') \<in> P. \<bar>fst d0 - t0\<bar> \<le> \<bar>fst d' - t'\<bar>"
      by blast
    with 2(1,2) show ?case by (intro disjI2 exI [of _ d0] exI [of _ t0]) simp
  qed
qed

lemma best_ok_try_axis:
  assumes "best_ok thr P b"
  shows "best_ok thr (set ds \<times> set ts \<union> P) (try_axis ds ts b)"
proof -
  have inner: "best_ok thr ({d} \<times> set ts \<union> P) (fold (try_line d) ts b)" if "best_ok thr P b" for d ts P b
    using that
  proof (induction ts arbitrary: P b)
    case Nil
    then show ?case by simp
  next
    case (Cons t ts)
    from Cons.IH [OF best_ok_try [OF Cons.prems]] show ?case by (simp add: Un_commute insert_commute)
  qed
  from assms show ?thesis
  proof (induction ds arbitrary: P b)
    case Nil
    then show ?case by (simp add: try_axis_def)
  next
    case (Cons d ds)
    have e: "set ds \<times> set ts \<union> ({d} \<times> set ts \<union> P) = set (d # ds) \<times> set ts \<union> P" by auto
    from Cons.IH [OF inner [OF Cons.prems, of d ts]] show ?case
      unfolding e by (simp only: try_axis_def fold.simps o_apply)
  qed
qed

text \<open>The pairs of lines compared on each axis: a line of the dragged node with one of another.\<close>

definition pairs_x :: "rf_node \<Rightarrow> rf_node list \<Rightarrow> ((rat \<times> rat) \<times> rat) set" where
  "pairs_x dragged ns = (\<Union>n \<in> {n \<in> set ns. rn_id n \<noteq> rn_id dragged}.
     set (refs (px (rn_position dragged)) (fst (nodeSize dragged))) \<times> set (map fst (refs (px (rn_position n)) (fst (nodeSize n)))))"

definition pairs_y :: "rf_node \<Rightarrow> rf_node list \<Rightarrow> ((rat \<times> rat) \<times> rat) set" where
  "pairs_y dragged ns = (\<Union>n \<in> {n \<in> set ns. rn_id n \<noteq> rn_id dragged}.
     set (refs (py (rn_position dragged)) (snd (nodeSize dragged))) \<times> set (map fst (refs (py (rn_position n)) (snd (nodeSize n)))))"

lemma pairs_Cons:
  "pairs_x dragged (n # ns) = (if rn_id n = rn_id dragged then {} else
     set (refs (px (rn_position dragged)) (fst (nodeSize dragged))) \<times> set (map fst (refs (px (rn_position n)) (fst (nodeSize n)))))
     \<union> pairs_x dragged ns"
  "pairs_y dragged (n # ns) = (if rn_id n = rn_id dragged then {} else
     set (refs (py (rn_position dragged)) (snd (nodeSize dragged))) \<times> set (map fst (refs (py (rn_position n)) (snd (nodeSize n)))))
     \<union> pairs_y dragged ns"
  by (auto simp: pairs_x_def pairs_y_def)

lemma scan_helper_ok:
  assumes "best_ok thr P bx" and "best_ok thr Q by"
  shows "best_ok thr (pairs_x dragged ns \<union> P) (fst (scan_helper dragged ns bx by)) \<and>
    best_ok thr (pairs_y dragged ns \<union> Q) (snd (scan_helper dragged ns bx by))"
  using assms
proof (induction ns arbitrary: bx "by" P Q)
  case Nil
  then show ?case by (simp add: pairs_x_def pairs_y_def)
next
  case (Cons n ns)
  show ?case
  proof (cases "rn_id n = rn_id dragged")
    case True
    with Cons show ?thesis by (simp add: pairs_Cons)
  next
    case False
    note IH = Cons.IH [OF best_ok_try_axis [OF Cons.prems(1), of
        "refs (px (rn_position dragged)) (fst (nodeSize dragged))" "map fst (refs (px (rn_position n)) (fst (nodeSize n)))"]
      best_ok_try_axis [OF Cons.prems(2), of
        "refs (py (rn_position dragged)) (snd (nodeSize dragged))" "map fst (refs (py (rn_position n)) (snd (nodeSize n)))"]]
    from False IH show ?thesis by (simp add: pairs_Cons Let_def Un_assoc Un_left_commute)
  qed
qed

lemma getHelperLines_best:
  obtains bx "by" where
    "getHelperLines dragged ns thr = \<lparr>hl_horizontal = ab_line by, hl_vertical = ab_line bx, hl_snapX = ab_snap bx, hl_snapY = ab_snap by\<rparr>"
    "best_ok thr (pairs_x dragged ns) bx" "best_ok thr (pairs_y dragged ns) by"
proof -
  let ?b = "\<lparr>ab_dist = thr, ab_line = None, ab_snap = None\<rparr>"
  have "best_ok thr {} ?b" by (simp add: best_ok_def)
  from scan_helper_ok [OF this this, of dragged ns] that show ?thesis
    by (simp add: getHelperLines_def Let_def case_prod_beta)
qed

lemma snap_axis:
  assumes "best_ok thr P b"
  shows "case ab_snap b of
      None \<Rightarrow> ab_line b = None \<and> (\<forall>(d, t) \<in> P. thr \<le> \<bar>fst d - t\<bar>)
    | Some v \<Rightarrow> (\<exists>d t. (d, t) \<in> P \<and> ab_line b = Some t \<and> v + (fst d - snd d) = t \<and> \<bar>v - snd d\<bar> < thr \<and>
        (\<forall>(d', t') \<in> P. \<bar>v - snd d\<bar> \<le> \<bar>fst d' - t'\<bar>))"
  using assms
proof (cases rule: best_okE)
  case nothing
  then show ?thesis by auto
next
  case (closest d t)
  have "\<bar>snd d + (t - fst d) - snd d\<bar> = \<bar>fst d - t\<bar>" by (simp add: abs_minus_commute)
  with closest show ?thesis
    by (simp, intro exI [of _ "fst d"] exI [of _ "snd d"] exI [of _ t]) auto
qed

section \<open>Properties\<close>

text \<open>C20: for a canvas with distinct ids whose edges end at nodes, the check that guards every
  drawn edge (\<open>findGraphError\<close> on the model \<open>toStudioNodes\<close> derives) passes exactly when every
  edge starts at a node and the edges have no cycle.\<close>

theorem canvas_guard_iff:
  assumes "distinct (map rn_id ns)" and "Range (edge_rel es) \<subseteq> rn_id ` set ns"
  shows "findGraphError (graph_of (toStudioNodes ns es)) = None \<longleftrightarrow>
    Domain (edge_rel es) \<subseteq> rn_id ` set ns \<and> acyclic (edge_rel es)"
proof -
  have "edge_rel es \<subseteq> (rn_id ` set ns) \<times> (rn_id ` set ns) \<longleftrightarrow> Domain (edge_rel es) \<subseteq> rn_id ` set ns"
    using assms(2) by (auto simp: Range_iff subset_iff)
  then show ?thesis using assms(1) by (simp add: canvas_guard [OF assms] canvas_ok_def)
qed

definition plain_node :: "jsstr \<Rightarrow> jsstr list \<Rightarrow> workflow_node" where
  "plain_node i ds = basic_node i (js ''script'') [] ds"

definition plain_rf :: "jsstr \<Rightarrow> rf_node" where
  "plain_rf i = studio_node i \<lparr>px = 0, py = 0\<rparr> (plain_node i [])"

lemma plain_rf_id [simp]: "rn_id (plain_rf i) = i"
  by (simp add: plain_rf_def)

theorem canvas_guard_iff_witness:
  "\<not> findGraphError (graph_of (toStudioNodes [plain_rf (js ''a''), plain_rf (js ''b'')]
      [studio_edge (js ''a'') (js ''b''), studio_edge (js ''b'') (js ''a'')])) = None"
proof -
  let ?r = "edge_rel [studio_edge (js ''a'') (js ''b''), studio_edge (js ''b'') (js ''a'')]"
  have "(js ''a'', js ''a'') \<in> ?r\<^sup>+"
    by (rule trancl_into_trancl [of _ "js ''b''"]) auto
  then have "\<not> acyclic ?r" unfolding acyclic_def by blast
  then show ?thesis by (subst canvas_guard_iff) auto
qed

text \<open>C21: loading a stored workflow with distinct ids into the canvas and saving it again keeps
  every node and its dependencies; only the coordinate becomes the displayed one, rounded, and
  an empty prompt text is left out. A second load and save changes nothing more.\<close>

theorem load_save_roundtrip:
  assumes "distinct (map wn_id nodes)"
  shows "toStudioNodes (fst (toReactFlow nodes)) (snd (toReactFlow nodes))
      = map (normal_node (seedPositions nodes)) nodes \<and>
    (let saved = map (normal_node (seedPositions nodes)) nodes
     in toStudioNodes (fst (toReactFlow saved)) (snd (toReactFlow saved)) = saved)"
proof -
  let ?n = "normal_node (seedPositions nodes)"
  have id: "wn_id (normal_node s n) = wn_id n" for s n
    by (simp add: normal_node_def drop_empty_text_def)
  have "distinct (map wn_id (map ?n nodes))" using assms by (simp add: id o_def)
  moreover have "normal_node s (normal_node s' n) = normal_node s' n" for s s' n
    by (simp add: normal_node_def drop_empty_text_def round_xy_def)
  ultimately show ?thesis using load_save [OF assms] by (simp add: load_save Let_def o_def)
qed

theorem load_save_roundtrip_witness:
  "toStudioNodes (fst (toReactFlow [plain_node (js ''a'') [], plain_node (js ''b'') [js ''a'']]))
      (snd (toReactFlow [plain_node (js ''a'') [], plain_node (js ''b'') [js ''a'']]))
    = map (normal_node (seedPositions [plain_node (js ''a'') [], plain_node (js ''b'') [js ''a'']]))
        [plain_node (js ''a'') [], plain_node (js ''b'') [js ''a'']]"
  by (rule load_save_roundtrip [THEN conjunct1]) (simp add: plain_node_def basic_node_def)

text \<open>\<open>nextNodeId\<close> returns the least free name \<open>node-i\<close> with \<open>i\<close> at least 1; its loop always
  ends.\<close>

theorem nextNodeId_least_free:
  "\<exists>i. nextNodeId ns = numbered_id i \<and> 1 \<le> i \<and> numbered_id i \<notin> rn_id ` set ns \<and>
     numbered_id ` {1..<i} \<subseteq> rn_id ` set ns"
proof (intro exI conjI)
  let ?i = "free_index (map rn_id ns) 1"
  show "nextNodeId ns = numbered_id ?i" by (simp add: nextNodeId_def)
  show "1 \<le> ?i" by (rule free_index_ge)
  show "numbered_id ?i \<notin> rn_id ` set ns" using free_index_free [of "map rn_id ns" 1] by simp
  show "numbered_id ` {1..<?i} \<subseteq> rn_id ` set ns"
    using free_index_least [of 1 _ "map rn_id ns"] by auto
qed

text \<open>\<open>cloneSelection\<close> on a well-formed canvas returns a well-formed canvas whose ids are
  distinct and not taken in \<open>existing\<close>; its edges are the edges inside the selection, renamed by
  one injective renaming of the selected ids, so it can be pasted without a new check.\<close>

theorem cloneSelection_correct:
  assumes "canvas_ok ns es"
  shows "canvas_ok (fst (cloneSelection ns es sel off existing)) (snd (cloneSelection ns es sel off existing)) \<and>
    rn_id ` set (fst (cloneSelection ns es sel off existing)) \<inter> rn_id ` set (nullish existing []) = {} \<and>
    (\<exists>f. inj_on f (sel \<inter> rn_id ` set ns) \<and>
      map rn_id (fst (cloneSelection ns es sel off existing)) = map (f \<circ> rn_id) (filter (\<lambda>n. rn_id n \<in> sel) ns) \<and>
      edge_rel (snd (cloneSelection ns es sel off existing)) = map_prod f f ` Restr (edge_rel es) sel)"
proof (intro conjI)
  have "rn_id ` set (filter (\<lambda>n. rn_id n \<in> sel) ns) = sel \<inter> rn_id ` set ns" by auto
  with clone_renaming_inj [OF canvas_okD(1) [OF assms], of sel existing]
  have "inj_on (clone_renaming ns sel existing) (sel \<inter> rn_id ` set ns)" by simp
  then show "\<exists>f. inj_on f (sel \<inter> rn_id ` set ns) \<and>
      map rn_id (fst (cloneSelection ns es sel off existing)) = map (f \<circ> rn_id) (filter (\<lambda>n. rn_id n \<in> sel) ns) \<and>
      edge_rel (snd (cloneSelection ns es sel off existing)) = map_prod f f ` Restr (edge_rel es) sel"
    using cloneSelection_ids cloneSelection_edges by blast
qed (use assms in \<open>simp_all add: cloneSelection_ok cloneSelection_fresh canvas_okD\<close>)

definition two_nodes :: "rf_node list \<times> rf_edge list" where
  "two_nodes = ([plain_rf (js ''a''), plain_rf (js ''b'')], [studio_edge (js ''a'') (js ''b'')])"

lemma two_nodes_ok: "canvas_ok (fst two_nodes) (snd two_nodes)"
  unfolding two_nodes_def fst_conv snd_conv
proof (rule canvas_okI)
  show "acyclic (edge_rel [studio_edge (js ''a'') (js ''b'')])"
    by (rule acyclic_measure [of _ "\<lambda>i. if i = js ''a'' then 1 else (0::nat)"]) auto
qed simp_all

theorem cloneSelection_correct_witness:
  "canvas_ok (fst (cloneSelection (fst two_nodes) (snd two_nodes) {js ''a'', js ''b''} \<lparr>px = 32, py = 32\<rparr> (Some (fst two_nodes))))
     (snd (cloneSelection (fst two_nodes) (snd two_nodes) {js ''a'', js ''b''} \<lparr>px = 32, py = 32\<rparr> (Some (fst two_nodes))))"
  using cloneSelection_correct [OF two_nodes_ok] by blast

text \<open>splitting an edge of a well-formed canvas by \<open>insertNodeOnEdge\<close> gives a well-formed
  canvas with one more node, and an old node depends (transitively) on another exactly when it
  did before.\<close>

theorem insertNodeOnEdge_correct:
  assumes "find (\<lambda>e. re_id e = eid) es = Some e" and "edge_ids_ok es" and "canvas_ok ns es"
  shows "canvas_ok (fst (insertNodeOnEdge ns es eid t pos ps d)) (fst (snd (insertNodeOnEdge ns es eid t pos ps d))) \<and>
    map rn_id (fst (insertNodeOnEdge ns es eid t pos ps d)) = map rn_id ns @ [nextNodeId ns] \<and>
    Restr ((edge_rel (fst (snd (insertNodeOnEdge ns es eid t pos ps d))))\<^sup>+) (rn_id ` set ns) = (edge_rel es)\<^sup>+"
  using insertNodeOnEdge_ok_reach [OF assms] assms(1)
  by (simp add: insertNodeOnEdge_def Let_def)

theorem insertNodeOnEdge_correct_witness:
  "canvas_ok (fst (insertNodeOnEdge (fst two_nodes) (snd two_nodes) (js ''a->b'') (js ''image'') \<lparr>px = 0, py = 0\<rparr> None None))
     (fst (snd (insertNodeOnEdge (fst two_nodes) (snd two_nodes) (js ''a->b'') (js ''image'') \<lparr>px = 0, py = 0\<rparr> None None)))"
proof -
  have "find (\<lambda>e. re_id e = js ''a->b'') (snd two_nodes) = Some (studio_edge (js ''a'') (js ''b''))"
    by (simp add: two_nodes_def edge_id_def js_def)
  moreover have "edge_ids_ok (snd two_nodes)" by (simp add: edge_ids_ok_def two_nodes_def)
  ultimately show ?thesis using insertNodeOnEdge_correct [OF _ _ two_nodes_ok] by blast
qed

text \<open>the helper lines are right: on each axis a guide is returned exactly when some line of
  the dragged node is closer than the threshold to a line of another node; the guide is then such
  a line at the least distance, and the snapped corner moves by less than the threshold and puts
  the dragged line on the guide.\<close>

theorem getHelperLines_correct:
  "(let h = getHelperLines dragged ns thr;
        good = (\<lambda>P line snap. case snap of
            None \<Rightarrow> line = None \<and> P \<subseteq> {p. thr \<le> \<bar>fst (fst p) - snd p\<bar>}
          | Some v \<Rightarrow> (\<exists>d t. (d, t) \<in> P \<and> line = Some t \<and> v + (fst d - snd d) = t \<and> \<bar>v - snd d\<bar> < thr \<and>
              P \<subseteq> {p. \<bar>v - snd d\<bar> \<le> \<bar>fst (fst p) - snd p\<bar>}))
    in good (pairs_x dragged ns) (hl_vertical h) (hl_snapX h) \<and>
       good (pairs_y dragged ns) (hl_horizontal h) (hl_snapY h))"
proof -
  obtain bx "by" where h: "getHelperLines dragged ns thr
      = \<lparr>hl_horizontal = ab_line by, hl_vertical = ab_line bx, hl_snapX = ab_snap bx, hl_snapY = ab_snap by\<rparr>"
    and b: "best_ok thr (pairs_x dragged ns) bx" "best_ok thr (pairs_y dragged ns) by"
    by (rule getHelperLines_best)
  have sub: "(\<forall>(d', t') \<in> P. c \<le> \<bar>fst d' - t'\<bar>) \<longleftrightarrow> P \<subseteq> {p. c \<le> \<bar>fst (fst p) - snd p\<bar>}"
    for c :: rat and P :: "((rat \<times> rat) \<times> rat) set" by fastforce
  show ?thesis
    using snap_axis [OF b(1)] snap_axis [OF b(2)]
    unfolding h Let_def sub helper_lines.select_convs by (rule conjI)
qed

text \<open>edge ids are not unique: with a node named \<open>b->c\<close> two different edges share an id, and
  removing one by its id removes both.\<close>

theorem edge_id_collision:
  "canvas_ok (map plain_rf [js ''a'', js ''b->c'', js ''a->b'', js ''c''])
     [studio_edge (js ''a'') (js ''b->c''), studio_edge (js ''a->b'') (js ''c'')] \<and>
   filter (\<lambda>e. re_id e \<noteq> edge_id (js ''a'') (js ''b->c''))
     [studio_edge (js ''a'') (js ''b->c''), studio_edge (js ''a->b'') (js ''c'')] = []"
proof
  show "canvas_ok (map plain_rf [js ''a'', js ''b->c'', js ''a->b'', js ''c''])
     [studio_edge (js ''a'') (js ''b->c''), studio_edge (js ''a->b'') (js ''c'')]"
  proof (rule canvas_okI)
    show "acyclic (edge_rel [studio_edge (js ''a'') (js ''b->c''), studio_edge (js ''a->b'') (js ''c'')])"
      by (rule acyclic_measure [of _ "\<lambda>i. if i \<in> {js ''a'', js ''a->b''} then 1 else (0::nat)"]) auto
  qed simp_all
qed (simp add: edge_id_def js_def)

end
