(* ===== verification/Undo_Redo.thy ===== *)
theory Undo_Redo
  imports Prelude
begin

text \<open>
  The undo history of the canvas: \<open>web/src/features/workflow-canvas/useUndoRedo.ts\<close>. The hook
  works on the document the ReactFlow store holds (\<open>getNodes\<close>, \<open>getEdges\<close>, \<open>setNodes\<close>,
  \<open>setEdges\<close>); here the document \<open>s\<close> is an argument and a result. Nothing is assumed about
  documents, so the type is a variable.
\<close>

section \<open>The hook\<close>

record 's history =
  past :: "'s list"
  future :: "'s list"
  canUndo :: bool
  canRedo :: bool

definition empty_history :: "'s history" where
  "empty_history = \<lparr>past = [], future = [], canUndo = False, canRedo = False\<rparr>"

definition takeSnapshot :: "nat option \<Rightarrow> 's \<Rightarrow> 's history \<Rightarrow> 's history" where
  "takeSnapshot maxHistory s h =
     (let pushed = past h @ [s]
      in h\<lparr>past := (if nullish maxHistory 100 < length pushed then tl pushed else pushed),
           future := [], canUndo := True, canRedo := False\<rparr>)"

definition undo :: "'s \<Rightarrow> 's history \<Rightarrow> 's \<times> 's history" where
  "undo s h =
     (if past h = [] then (s, h)
      else (last (past h),
            h\<lparr>past := butlast (past h), future := future h @ [s],
              canUndo := 0 < length (butlast (past h)), canRedo := True\<rparr>))"

definition redo :: "'s \<Rightarrow> 's history \<Rightarrow> 's \<times> 's history" where
  "redo s h =
     (if future h = [] then (s, h)
      else (last (future h),
            h\<lparr>past := past h @ [s], future := butlast (future h),
              canRedo := 0 < length (butlast (future h)), canUndo := True\<rparr>))"

section \<open>The contract the editor relies on\<close>

text \<open>A history only ever hands back documents it was given.\<close>

locale document_history =
  fixes docs :: "'h \<Rightarrow> 's set" and take_doc :: "'s \<Rightarrow> 'h \<Rightarrow> 'h"
    and step_back :: "'s \<Rightarrow> 'h \<Rightarrow> 's \<times> 'h" and step_forth :: "'s \<Rightarrow> 'h \<Rightarrow> 's \<times> 'h"
  assumes docs_take: "docs (take_doc s h) \<subseteq> insert s (docs h)"
    and back_doc: "fst (step_back s h) \<in> insert s (docs h)" and docs_back: "docs (snd (step_back s h)) \<subseteq> insert s (docs h)"
    and forth_doc: "fst (step_forth s h) \<in> insert s (docs h)" and docs_forth: "docs (snd (step_forth s h)) \<subseteq> insert s (docs h)"
begin

lemma keep_take: "P s \<Longrightarrow> docs h \<subseteq> Collect P \<Longrightarrow> docs (take_doc s h) \<subseteq> Collect P"
  using docs_take by blast

lemma keep_back:
  "P s \<Longrightarrow> docs h \<subseteq> Collect P \<Longrightarrow> P (fst (step_back s h)) \<and> docs (snd (step_back s h)) \<subseteq> Collect P"
  using back_doc [of s h] docs_back [of s h] by auto

lemma keep_forth:
  "P s \<Longrightarrow> docs h \<subseteq> Collect P \<Longrightarrow> P (fst (step_forth s h)) \<and> docs (snd (step_forth s h)) \<subseteq> Collect P"
  using forth_doc [of s h] docs_forth [of s h] by auto

end

definition history_docs :: "'s history \<Rightarrow> 's set" where
  "history_docs h = set (past h) \<union> set (future h)"

lemma history_docs_empty [simp]: "history_docs empty_history = {}"
  by (simp add: history_docs_def empty_history_def)

lemma set_butlast_subset: "set (butlast xs) \<subseteq> set xs"
  by (auto dest: in_set_butlastD)

interpretation canvas_history: document_history history_docs "takeSnapshot m" undo redo
proof unfold_locales
  fix s :: 'a and h :: "'a history"
  show "history_docs (takeSnapshot m s h) \<subseteq> insert s (history_docs h)"
    by (cases "past h") (auto simp: takeSnapshot_def history_docs_def Let_def)
  show "fst (undo s h) \<in> insert s (history_docs h)" "fst (redo s h) \<in> insert s (history_docs h)"
    by (auto simp: undo_def redo_def history_docs_def)
  show "history_docs (snd (undo s h)) \<subseteq> insert s (history_docs h)"
    "history_docs (snd (redo s h)) \<subseteq> insert s (history_docs h)"
    using set_butlast_subset by (auto simp: undo_def redo_def history_docs_def dest: in_set_butlastD)
qed

section \<open>Reachable histories\<close>

inductive history_reach :: "nat option \<Rightarrow> 's \<times> 's history \<Rightarrow> bool" for m where
  start: "history_reach m (s, empty_history)"
| edit: "history_reach m (s, h) \<Longrightarrow> history_reach m (s', takeSnapshot m s h)"
| undone: "history_reach m (s, h) \<Longrightarrow> history_reach m (undo s h)"
| redone: "history_reach m (s, h) \<Longrightarrow> history_reach m (redo s h)"

definition history_ok :: "nat option \<Rightarrow> 's history \<Rightarrow> bool" where
  "history_ok m h \<longleftrightarrow> length (past h) + length (future h) \<le> nullish m 100 \<and>
     (canUndo h \<longleftrightarrow> past h \<noteq> []) \<and> (canRedo h \<longleftrightarrow> future h \<noteq> [])"

lemma history_ok_take: "0 < nullish m 100 \<Longrightarrow> history_ok m h \<Longrightarrow> history_ok m (takeSnapshot m s h)"
  by (cases "past h") (auto simp: history_ok_def takeSnapshot_def Let_def)

lemma history_ok_undo: "history_ok m h \<Longrightarrow> history_ok m (snd (undo s h))"
  by (cases "past h" rule: rev_cases) (auto simp: history_ok_def undo_def)

lemma history_ok_redo: "history_ok m h \<Longrightarrow> history_ok m (snd (redo s h))"
  by (cases "future h" rule: rev_cases) (auto simp: history_ok_def redo_def)

lemma reach_history_ok:
  "history_reach m sh \<Longrightarrow> 0 < nullish m 100 \<Longrightarrow> history_ok m (snd sh)"
proof (induction rule: history_reach.induct)
  case (start s)
  then show ?case by (simp add: history_ok_def empty_history_def)
qed (simp_all add: history_ok_take history_ok_undo history_ok_redo)

text \<open>Undo and redo are inverse to each other.\<close>

lemma redo_undo:
  assumes "past h \<noteq> []" and "canUndo h \<longleftrightarrow> past h \<noteq> []" and "canRedo h \<longleftrightarrow> future h \<noteq> []"
  shows "case_prod redo (undo s h) = (s, h)"
  using assms by (cases "past h" rule: rev_cases) (auto simp: undo_def redo_def)

lemma undo_redo:
  assumes "future h \<noteq> []" and "canUndo h \<longleftrightarrow> past h \<noteq> []" and "canRedo h \<longleftrightarrow> future h \<noteq> []"
  shows "case_prod undo (redo s h) = (s, h)"
  using assms by (cases "future h" rule: rev_cases) (auto simp: undo_def redo_def)

lemma past_undo: "past (snd (undo s h)) = butlast (past h)"
  by (simp add: undo_def)

lemma undos_redos:
  assumes "history_ok m h" and "n \<le> length (past h)"
  shows "((case_prod redo) ^^ n) (((case_prod undo) ^^ n) (s, h)) = (s, h)"
  using assms
proof (induction n arbitrary: s h)
  case 0
  then show ?case by simp
next
  case (Suc n)
  obtain s' h' where u: "undo s h = (s', h')" by fastforce
  with Suc.prems have "history_ok m h'" "n \<le> length (past h')"
    using history_ok_undo [of m h s] past_undo [of s h] by simp_all
  from Suc.IH [OF this] have "((case_prod redo) ^^ n) (((case_prod undo) ^^ n) (s', h')) = (s', h')" .
  moreover have "past h \<noteq> []" using Suc.prems(2) by auto
  then have "case_prod redo (s', h') = (s, h)"
    using redo_undo [of h s] Suc.prems(1) u by (simp add: history_ok_def)
  ultimately show ?case using u by (simp add: funpow_swap1)
qed

section \<open>Properties\<close>

text \<open>in every history the editor can reach, the flags of the undo and redo buttons tell
  exactly whether there is something to undo or redo, and at most \<open>maxHistory\<close> snapshots are
  kept in all.\<close>

theorem history_flags_bounds:
  assumes "history_reach m (s, h)" and "0 < nullish m 100"
  shows "length (past h) + length (future h) \<le> nullish m 100 \<and>
    (canUndo h \<longleftrightarrow> past h \<noteq> []) \<and> (canRedo h \<longleftrightarrow> future h \<noteq> [])"
  using reach_history_ok [OF assms] by (simp add: history_ok_def)

theorem history_flags_bounds_witness:
  "length (past (takeSnapshot None (1::int) empty_history)) + 0 \<le> 100 \<and> canUndo (takeSnapshot None (1::int) empty_history)"
  using history_flags_bounds [OF history_reach.edit [OF history_reach.start, of None 2 1]]
  by (simp add: takeSnapshot_def empty_history_def)

text \<open>C26: \<open>n\<close> undo steps followed by \<open>n\<close> redo steps restore the document and the history, for
  every \<open>n\<close> up to the number of snapshots; and undoing an edit restores the document that was
  current when its snapshot was taken.\<close>

theorem undo_redo_roundtrip:
  assumes "history_reach m (s, h)" and "0 < nullish m 100" and "n \<le> length (past h)"
  shows "((case_prod redo) ^^ n) (((case_prod undo) ^^ n) (s, h)) = (s, h) \<and>
    fst (undo s' (takeSnapshot m s h)) = s"
proof
  show "((case_prod redo) ^^ n) (((case_prod undo) ^^ n) (s, h)) = (s, h)"
    using reach_history_ok [OF assms(1,2)] assms(3) by (auto intro: undos_redos)
  show "fst (undo s' (takeSnapshot m s h)) = s"
    using assms(2) by (cases "past h") (auto simp: undo_def takeSnapshot_def Let_def)
qed

theorem undo_redo_roundtrip_witness:
  "((case_prod redo) ^^ 1) (((case_prod undo) ^^ 1) (2, takeSnapshot None (1::int) empty_history))
     = (2, takeSnapshot None 1 empty_history)"
  using undo_redo_roundtrip [OF history_reach.edit [OF history_reach.start, of None "2::int" 1], of 1 3]
  by (simp add: takeSnapshot_def empty_history_def)

end
