(* ===== verification/Canvas_Editor.thy ===== *)
theory Canvas_Editor
  imports Canvas_Facts Undo_Redo
begin

text \<open>
  The editable canvas of \<open>web/src/features/workflow-canvas/WorkflowCanvas.tsx\<close>
  (\<open>CanvasInner\<close>): its state, one definition per handler, the save protocol with the version
  of the optimistic lock, and the step relation of all handlers. \<open>getNodes()\<close> and \<open>rfNodes\<close>
  are the same list between two events. Screen coordinates are converted by ReactFlow; a handler
  takes the converted flow coordinates.
\<close>

section \<open>State\<close>

type_synonym document = "rf_node list \<times> rf_edge list"

datatype picker =
  PickCreate xy "jsstr option"      \<comment> \<open>mode \<open>create\<close>: \<open>flow\<close>, \<open>source\<close>\<close>
| PickInsert xy jsstr               \<comment> \<open>mode \<open>insert\<close>: \<open>flow\<close>, \<open>edgeId\<close>\<close>

record custom_type_payload =
  cp_label :: jsstr
  cp_color :: jsstr

datatype type_dialog = DialogCreate | DialogEdit jsstr custom_type_payload

text \<open>The value \<open>snapshotOf\<close> serialises. Two serialisations are compared for equality only.\<close>

record save_snapshot =
  sv_name :: jsstr
  sv_nodes :: "workflow_node list"
  sv_inputsSchema :: "input_field list"
  sv_settings :: workflow_settings

text \<open>The texts handed to \<open>toast\<close>.\<close>

datatype toast =
  ToastGraph graph_error | ToastNameMissing | ToastSaved | ToastConflict | ToastInvalid jsstr | ToastSaveFailed

text \<open>A request in flight: its body, and whether it creates the workflow.\<close>

record save_request =
  sq_input :: create_workflow_input
  sq_snapshot :: save_snapshot
  sq_create :: bool

record editor =
  ed_nodes :: "rf_node list"
  ed_edges :: "rf_edge list"
  ed_selectedId :: "jsstr option"
  ed_name :: jsstr
  ed_inputsSchema :: "input_field list"
  ed_settings :: workflow_settings
  ed_version :: int
  ed_history :: "document history"
  ed_connectFrom :: "(jsstr \<times> jsstr) option"
  ed_clipboard :: "document option"
  ed_helperLines :: "rat option \<times> rat option"
  ed_picker :: "picker option"
  ed_typeDialog :: "type_dialog option"
  ed_loaded :: save_snapshot
  ed_pending :: "save_request list"
  ed_toasts :: "toast list"
  ed_created :: "jsstr option"

definition set_doc :: "rf_node list \<Rightarrow> rf_edge list \<Rightarrow> editor \<Rightarrow> editor" where
  "set_doc ns es ed = ed\<lparr>ed_nodes := ns, ed_edges := es\<rparr>"

definition push_toast :: "toast \<Rightarrow> editor \<Rightarrow> editor" where
  "push_toast t ed = ed\<lparr>ed_toasts := ed_toasts ed @ [t]\<rparr>"

text \<open>\<open>takeSnapshot()\<close> of the hook, on the current document.\<close>

definition snap :: "editor \<Rightarrow> editor" where
  "snap ed = ed\<lparr>ed_history := takeSnapshot None (ed_nodes ed, ed_edges ed) (ed_history ed)\<rparr>"

definition initial_editor :: "jsstr \<Rightarrow> workflow_node list \<Rightarrow> input_field list option \<Rightarrow> workflow_settings option
    \<Rightarrow> int option \<Rightarrow> editor" where
  "initial_editor initialName nodes inputsSchema settings version =
     (let initial = toReactFlow nodes;
          schema = nullish inputsSchema [];
          setts = nullish settings \<lparr>ws_style = None, ws_contentType = None, ws_targetPlatform = None\<rparr>
      in \<lparr>ed_nodes = fst initial, ed_edges = snd initial, ed_selectedId = None, ed_name = initialName,
          ed_inputsSchema = schema, ed_settings = setts, ed_version = nullish version 1,
          ed_history = empty_history, ed_connectFrom = None, ed_clipboard = None,
          ed_helperLines = (None, None), ed_picker = None, ed_typeDialog = None,
          ed_loaded = \<lparr>sv_name = initialName, sv_nodes = toStudioNodes (fst initial) (snd initial),
             sv_inputsSchema = schema, sv_settings = setts\<rparr>,
          ed_pending = [], ed_toasts = [], ed_created = None\<rparr>)"

text \<open>\<open>snapshotOf\<close> on the current state, \<open>dirty\<close>, \<open>staleRemote\<close>, \<open>runDisabled\<close>.\<close>

definition snapshotOf :: "editor \<Rightarrow> save_snapshot" where
  "snapshotOf ed = \<lparr>sv_name = ed_name ed, sv_nodes = toStudioNodes (ed_nodes ed) (ed_edges ed),
     sv_inputsSchema = ed_inputsSchema ed, sv_settings = ed_settings ed\<rparr>"

definition dirty :: "editor \<Rightarrow> bool" where
  "dirty ed \<longleftrightarrow> snapshotOf ed \<noteq> ed_loaded ed"

definition staleRemote :: "int option \<Rightarrow> editor \<Rightarrow> bool" where
  "staleRemote latestVersion ed \<longleftrightarrow> (case latestVersion of None \<Rightarrow> False | Some v \<Rightarrow> ed_version ed < v)"

definition runDisabled :: "editor \<Rightarrow> bool" where
  "runDisabled ed \<longleftrightarrow> hasUnboundCustomNode (ed_nodes ed)"

definition otherIds :: "editor \<Rightarrow> jsstr list" where
  "otherIds ed = map rn_id (filter (\<lambda>n. Some (rn_id n) \<noteq> ed_selectedId ed) (ed_nodes ed))"

text \<open>The custom types offered for placing: those of annotation nodes on the canvas, then the
  registered ones with another type.\<close>

record org_type =
  ot_id :: jsstr
  ot_slug :: jsstr
  ot_label :: jsstr
  ot_color :: jsstr

record offered_type =
  of_type :: jsstr
  of_label :: jsstr
  of_color :: jsstr
  of_typeId :: "jsstr option"

definition customTypes :: "org_type list \<Rightarrow> rf_node list \<Rightarrow> offered_type list" where
  "customTypes orgTypedTypes rfNodes =
     (let annotationOnly = filter (\<lambda>n. \<not> truthy (wn_typeId (rn_node n))) rfNodes;
          annotation = map (\<lambda>c. \<lparr>of_type = ct_type c, of_label = ct_label c, of_color = ct_color c, of_typeId = None\<rparr>)
            (collectCustomTypes annotationOnly);
          typed = map (\<lambda>ct. \<lparr>of_type = CUSTOM_PREFIX @ ot_slug ct, of_label = ot_label ct, of_color = ot_color ct,
            of_typeId = Some (ot_id ct)\<rparr>) orgTypedTypes;
          allAnnotationTypes = of_type ` set annotation
      in annotation @ filter (\<lambda>t. of_type t \<notin> allAnnotationTypes) typed)"

section \<open>Handlers\<close>

definition onSelectionChange :: "rf_node list \<Rightarrow> editor \<Rightarrow> editor" where
  "onSelectionChange sel ed = ed\<lparr>ed_selectedId := (if length sel = 1 then Some (rn_id (sel ! 0)) else None)\<rparr>"

definition onDrop :: "org_type list \<Rightarrow> prompt list option \<Rightarrow> jsstr \<Rightarrow> jsstr \<Rightarrow> xy \<Rightarrow> editor \<Rightarrow> editor" where
  "onDrop orgTypes prompts t droppedTypeId pos ed =
     (if t = [] then ed
      else
        let displayBase = (if isCustomType t then find (\<lambda>c. of_type c = t) (customTypes orgTypes (ed_nodes ed)) else None);
            display = map_option (\<lambda>b. \<lparr>do_label = Some (of_label b), do_color = Some (of_color b),
              do_typeId = (if truthy (Some droppedTypeId) then Some droppedTypeId else of_typeId b)\<rparr>) displayBase;
            newId = nextNodeId (ed_nodes ed)
        in (snap ed)\<lparr>ed_nodes := addNodeAt (ed_nodes ed) t pos prompts (Some newId) display,
             ed_selectedId := Some newId\<rparr>)"

text \<open>A ReactFlow \<open>Connection\<close>.\<close>

record connection =
  cn_source :: jsstr
  cn_target :: jsstr
  cn_sourceHandle :: "jsstr option"
  cn_targetHandle :: "jsstr option"

text \<open>\<open>addEdge\<close> is ReactFlow's; it is a parameter.\<close>

definition onConnect :: "(rf_edge \<Rightarrow> rf_edge list \<Rightarrow> rf_edge list) \<Rightarrow> connection \<Rightarrow> editor \<Rightarrow> editor" where
  "onConnect addEdge conn ed =
     (if cn_source conn = [] \<or> cn_target conn = [] then ed
      else
        let candidate = toStudioNodes (ed_nodes ed)
              (ed_edges ed @ [(studio_edge (cn_source conn) (cn_target conn))\<lparr>re_type := None\<rparr>])
        in case findGraphError (graph_of candidate) of
             Some err \<Rightarrow> push_toast (ToastGraph err) ed
           | None \<Rightarrow> (snap ed)\<lparr>ed_edges := addEdge
               ((studio_edge (cn_source conn) (cn_target conn))
                  \<lparr>re_sourceHandle := cn_sourceHandle conn, re_targetHandle := cn_targetHandle conn\<rparr>) (ed_edges ed)\<rparr>)"

definition onReconnect :: "jsstr \<Rightarrow> connection \<Rightarrow> editor \<Rightarrow> editor" where
  "onReconnect oldEdgeId conn ed =
     (if cn_source conn = [] \<or> cn_target conn = [] then ed
      else
        let next_edges = reconnectEdge (ed_edges ed) oldEdgeId (cn_source conn) (cn_target conn)
        in case findGraphError (graph_of (toStudioNodes (ed_nodes ed) next_edges)) of
             Some err \<Rightarrow> push_toast (ToastGraph err) ed
           | None \<Rightarrow> (snap ed)\<lparr>ed_edges := next_edges\<rparr>)"

definition onConnectStart :: "jsstr option \<Rightarrow> jsstr option \<Rightarrow> editor \<Rightarrow> editor" where
  "onConnectStart nodeId handleType ed =
     ed\<lparr>ed_connectFrom := (if truthy nodeId then Some (the nodeId, nullish handleType (js ''source'')) else None)\<rparr>"

definition onConnectEnd :: "jsstr option \<Rightarrow> xy \<Rightarrow> editor \<Rightarrow> editor" where
  "onConnectEnd toNode flow ed =
     (let opened = (case ed_connectFrom ed of
            Some (nodeId, handleType) \<Rightarrow>
              if toNode = None \<and> handleType = js ''source''
              then ed\<lparr>ed_picker := Some (PickCreate flow (Some nodeId))\<rparr> else ed
          | None \<Rightarrow> ed)
      in opened\<lparr>ed_connectFrom := None\<rparr>)"

text \<open>The common tail of both modes of \<open>onPickType\<close>: check the candidate, then commit it.\<close>

definition commit_picked :: "rf_node list \<Rightarrow> rf_edge list \<Rightarrow> editor \<Rightarrow> editor" where
  "commit_picked ns es ed =
     (case findGraphError (graph_of (toStudioNodes ns es)) of
        Some err \<Rightarrow> (push_toast (ToastGraph err) ed)\<lparr>ed_picker := None\<rparr>
      | None \<Rightarrow> (set_doc ns es (snap ed))\<lparr>ed_picker := None\<rparr>)"

definition onPickType :: "prompt list option \<Rightarrow> jsstr \<Rightarrow> display_opts option \<Rightarrow> editor \<Rightarrow> editor" where
  "onPickType prompts t display ed =
     (case ed_picker ed of
        None \<Rightarrow> ed
      | Some (PickCreate flow source) \<Rightarrow>
          (let (ns, es, newId) = createNode (ed_nodes ed) (ed_edges ed) t flow prompts source display
           in commit_picked ns es ed)
      | Some (PickInsert flow edgeId) \<Rightarrow>
          (let (ns, es, newId) = insertNodeOnEdge (ed_nodes ed) (ed_edges ed) edgeId t flow prompts display
           in commit_picked ns es ed))"

text \<open>The numbering of \<open>onCreateCustomType\<close>: \<open>base\<close>, \<open>base-2\<close>, \<open>base-3\<close>, and so on.\<close>

definition suffixed :: "jsstr \<Rightarrow> nat \<Rightarrow> jsstr" where
  "suffixed base i = base @ js ''-'' @ dec i"

lemma suffixed_inject [simp]: "suffixed base i = suffixed base j \<longleftrightarrow> i = j"
  by (simp add: suffixed_def)

definition suffix_taken :: "jsstr \<Rightarrow> jsstr list \<Rightarrow> nat \<Rightarrow> nat set" where
  "suffix_taken base existing i = {j. i \<le> j \<and> suffixed base j \<in> set existing}"

lemma finite_suffix_taken [simp]: "finite (suffix_taken base existing i)"
proof -
  have "suffixed base ` suffix_taken base existing i \<subseteq> set existing" by (auto simp: suffix_taken_def)
  then have "finite (suffixed base ` suffix_taken base existing i)" by (rule finite_subset) simp
  then show ?thesis by (rule finite_imageD) (simp add: inj_on_def)
qed

function free_suffix :: "jsstr \<Rightarrow> jsstr list \<Rightarrow> nat \<Rightarrow> nat" where
  "free_suffix base existing i =
     (if suffixed base i \<in> set existing then free_suffix base existing (i + 1) else i)"
  by pat_completeness auto
termination
proof (relation "measure (\<lambda>(base, existing, i). card (suffix_taken base existing i))", goal_cases)
  case 1
  show ?case by simp
next
  case (2 base existing i)
  have "suffix_taken base existing (i + 1) \<subset> suffix_taken base existing i"
  proof
    show "suffix_taken base existing (i + 1) \<subseteq> suffix_taken base existing i" by (auto simp: suffix_taken_def)
    have "i \<in> suffix_taken base existing i" "i \<notin> suffix_taken base existing (i + 1)"
      using 2 by (simp_all add: suffix_taken_def)
    then show "suffix_taken base existing (i + 1) \<noteq> suffix_taken base existing i" by metis
  qed
  then have "card (suffix_taken base existing (i + 1)) < card (suffix_taken base existing i)"
    by (rule psubset_card_mono [OF finite_suffix_taken])
  then show ?case by simp
qed

declare free_suffix.simps [simp del]

definition new_type_name :: "jsstr \<Rightarrow> jsstr list \<Rightarrow> jsstr" where
  "new_type_name base existing =
     (if base \<in> set existing then suffixed base (free_suffix base existing 2) else base)"

definition onCreateCustomType :: "prompt list option \<Rightarrow> custom_type_payload \<Rightarrow> xy \<Rightarrow> editor \<Rightarrow> editor" where
  "onCreateCustomType prompts p pos ed =
     (let base = CUSTOM_PREFIX @ slugify (cp_label p);
          existing = map ct_type (collectCustomTypes (ed_nodes ed));
          t = new_type_name base existing;
          display = \<lparr>do_label = Some (cp_label p), do_color = Some (cp_color p), do_typeId = None\<rparr>
      in (snap ed)\<lparr>ed_nodes := fst (createNode (ed_nodes ed) [] t pos prompts None (Some display)),
           ed_typeDialog := None\<rparr>)"

definition onEditCustomTypeSubmit :: "custom_type_payload \<Rightarrow> editor \<Rightarrow> editor" where
  "onEditCustomTypeSubmit p ed =
     (case ed_typeDialog ed of
        Some (DialogEdit t initial) \<Rightarrow>
          (snap ed)\<lparr>ed_nodes := applyTypeDisplay (ed_nodes ed) t (cp_label p) (cp_color p), ed_typeDialog := None\<rparr>
      | _ \<Rightarrow> ed)"

text \<open>\<open>patch\<close> is the spread of the patch object over the node's data.\<close>

definition patchSelected :: "(workflow_node \<Rightarrow> workflow_node) \<Rightarrow> editor \<Rightarrow> editor" where
  "patchSelected patch ed =
     (if \<not> truthy (ed_selectedId ed) then ed
      else (snap ed)\<lparr>ed_nodes := map (\<lambda>n. if Some (rn_id n) = ed_selectedId ed
             then n\<lparr>rn_node := patch (rn_node n)\<rparr> else n) (ed_nodes ed)\<rparr>)"

definition rename_node :: "jsstr \<Rightarrow> jsstr \<Rightarrow> rf_node \<Rightarrow> rf_node" where
  "rename_node oldId newId n =
     (if rn_id n = oldId then n\<lparr>rn_id := newId, rn_node := (rn_node n)\<lparr>wn_id := newId\<rparr>\<rparr> else n)"

definition rename_edge :: "jsstr \<Rightarrow> jsstr \<Rightarrow> rf_edge \<Rightarrow> rf_edge" where
  "rename_edge oldId newId e =
     (let source = (if re_source e = oldId then newId else re_source e);
          target = (if re_target e = oldId then newId else re_target e)
      in if source = re_source e \<and> target = re_target e then e
         else e\<lparr>re_source := source, re_target := target, re_id := edge_id source target\<rparr>)"

definition renameSelected :: "jsstr \<Rightarrow> editor \<Rightarrow> editor" where
  "renameSelected newId ed =
     (if \<not> truthy (ed_selectedId ed) \<or> ed_selectedId ed = Some newId then ed
      else let oldId = the (ed_selectedId ed)
        in (snap ed)\<lparr>ed_nodes := map (rename_node oldId newId) (ed_nodes ed),
             ed_edges := map (rename_edge oldId newId) (ed_edges ed), ed_selectedId := Some newId\<rparr>)"

definition without_node :: "jsstr \<Rightarrow> rf_edge list \<Rightarrow> rf_edge list" where
  "without_node i es = filter (\<lambda>e. re_source e \<noteq> i \<and> re_target e \<noteq> i) es"

definition deleteSelected :: "editor \<Rightarrow> editor" where
  "deleteSelected ed =
     (if \<not> truthy (ed_selectedId ed) then ed
      else let i = the (ed_selectedId ed)
        in (snap ed)\<lparr>ed_nodes := filter (\<lambda>n. rn_id n \<noteq> i) (ed_nodes ed),
             ed_edges := without_node i (ed_edges ed), ed_selectedId := None\<rparr>)"

definition onDuplicateNode :: "jsstr \<Rightarrow> editor \<Rightarrow> editor" where
  "onDuplicateNode i ed = (snap ed)\<lparr>ed_nodes := fst (duplicateNode (ed_nodes ed) i)\<rparr>"

definition onDeleteNode :: "jsstr \<Rightarrow> editor \<Rightarrow> editor" where
  "onDeleteNode i ed =
     (snap ed)\<lparr>ed_nodes := filter (\<lambda>n. rn_id n \<noteq> i) (ed_nodes ed),
       ed_edges := without_node i (ed_edges ed),
       ed_selectedId := (if ed_selectedId ed = Some i then None else ed_selectedId ed)\<rparr>"

definition onDeleteEdge :: "jsstr \<Rightarrow> editor \<Rightarrow> editor" where
  "onDeleteEdge i ed = (snap ed)\<lparr>ed_edges := filter (\<lambda>e. re_id e \<noteq> i) (ed_edges ed)\<rparr>"

definition onInsertOnEdge :: "jsstr \<Rightarrow> xy \<Rightarrow> editor \<Rightarrow> editor" where
  "onInsertOnEdge i flow ed = ed\<lparr>ed_picker := Some (PickInsert flow i)\<rparr>"

definition onQuickAddFrom :: "jsstr \<Rightarrow> xy \<Rightarrow> editor \<Rightarrow> editor" where
  "onQuickAddFrom nodeId clicked ed =
     (let flow = (case find (\<lambda>n. rn_id n = nodeId) (ed_nodes ed) of
            Some src \<Rightarrow> shift_xy (rn_position src) \<lparr>px = 0, py = 120\<rparr>
          | None \<Rightarrow> clicked)
      in ed\<lparr>ed_picker := Some (PickCreate flow (Some nodeId))\<rparr>)"

text \<open>Pasting: the clone, added to the unselected canvas.\<close>

definition paste_clone :: "rf_node list \<Rightarrow> rf_edge list \<Rightarrow> xy \<Rightarrow> editor \<Rightarrow> editor" where
  "paste_clone ns es offset ed =
     (let (cloned, clonedEdges) = cloneSelection ns es (rn_id ` set ns) offset (Some (ed_nodes ed))
      in (snap ed)\<lparr>ed_nodes := map (\<lambda>n. n\<lparr>rn_selected := Some False\<rparr>) (ed_nodes ed) @ cloned,
           ed_edges := ed_edges ed @ clonedEdges\<rparr>)"

definition doPaste :: "xy option \<Rightarrow> editor \<Rightarrow> editor" where
  "doPaste target ed =
     (case ed_clipboard ed of
        None \<Rightarrow> ed
      | Some (ns, es) \<Rightarrow>
          if length ns = 0 then ed
          else
            let offset = (case target of
                  None \<Rightarrow> \<lparr>px = 32, py = 32\<rparr>
                | Some p \<Rightarrow> \<lparr>px = px p - Min (set (map (px \<circ> rn_position) ns)),
                             py = py p - Min (set (map (py \<circ> rn_position) ns))\<rparr>)
            in paste_clone ns es offset ed)"

definition selectAll :: "editor \<Rightarrow> editor" where
  "selectAll ed = ed\<lparr>ed_nodes := map (\<lambda>n. n\<lparr>rn_selected := Some True\<rparr>) (ed_nodes ed)\<rparr>"

definition onStandardPipeline :: "prompt list option \<Rightarrow> bool \<Rightarrow> editor \<Rightarrow> editor" where
  "onStandardPipeline prompts confirmed ed =
     (if 0 < length (ed_nodes ed) \<and> \<not> confirmed then ed
      else let (pn, pe) = toReactFlow (standardPipeline prompts)
        in (snap ed)\<lparr>ed_nodes := pn, ed_edges := pe, ed_selectedId := None\<rparr>)"

definition onAutoTidy :: "editor \<Rightarrow> editor" where
  "onAutoTidy ed =
     (let seeded = seedPositions (toStudioNodes (ed_nodes ed) (ed_edges ed))
      in (snap ed)\<lparr>ed_nodes := map (\<lambda>n. n\<lparr>rn_position := nullish (seeded (rn_id n)) (rn_position n)\<rparr>) (ed_nodes ed)\<rparr>)"

definition onNodeDrag :: "rf_node \<Rightarrow> editor \<Rightarrow> editor" where
  "onNodeDrag dragged ed =
     (let l = getHelperLines dragged (filter (\<lambda>n. rn_id n \<noteq> rn_id dragged) (ed_nodes ed)) 5;
          shown = ed\<lparr>ed_helperLines := (hl_horizontal l, hl_vertical l)\<rparr>
      in if hl_snapX l \<noteq> None \<or> hl_snapY l \<noteq> None
         then shown\<lparr>ed_nodes := map (\<lambda>n. if rn_id n = rn_id dragged
                then n\<lparr>rn_position := \<lparr>px = nullish (hl_snapX l) (px (rn_position n)),
                                     py = nullish (hl_snapY l) (py (rn_position n))\<rparr>\<rparr>
                else n) (ed_nodes ed)\<rparr>
         else shown)"

definition onNodeDragStop :: "editor \<Rightarrow> editor" where
  "onNodeDragStop ed = ed\<lparr>ed_helperLines := (None, None)\<rparr>"

definition undo_editor :: "editor \<Rightarrow> editor" where
  "undo_editor ed = (let ((ns, es), h) = undo (ed_nodes ed, ed_edges ed) (ed_history ed)
     in (set_doc ns es ed)\<lparr>ed_history := h\<rparr>)"

definition redo_editor :: "editor \<Rightarrow> editor" where
  "redo_editor ed = (let ((ns, es), h) = redo (ed_nodes ed, ed_edges ed) (ed_history ed)
     in (set_doc ns es ed)\<lparr>ed_history := h\<rparr>)"

text \<open>The keyboard shortcuts.\<close>

record key_event =
  ke_key :: jsstr
  ke_shift :: bool
  ke_ctrl_or_meta :: bool
  ke_editing :: bool

definition selected_part :: "editor \<Rightarrow> document" where
  "selected_part ed =
     (let selNodes = filter (\<lambda>n. rn_selected n = Some True) (ed_nodes ed);
          ids = rn_id ` set selNodes
      in (selNodes, filter (\<lambda>e. re_source e \<in> ids \<and> re_target e \<in> ids) (ed_edges ed)))"

definition onKeyDown :: "key_event \<Rightarrow> editor \<Rightarrow> editor" where
  "onKeyDown e ed =
     (if ke_editing e then ed
      else if \<not> ke_ctrl_or_meta e then ed
      else
        let key = toLowerCase (ke_key e)
        in if key = js ''z'' \<and> \<not> ke_shift e then undo_editor ed
           else if (key = js ''z'' \<and> ke_shift e) \<or> key = js ''y'' then redo_editor ed
           else if key = js ''c'' then
             (if length (fst (selected_part ed)) = 0 then ed else ed\<lparr>ed_clipboard := Some (selected_part ed)\<rparr>)
           else if key = js ''v'' then (if ed_clipboard ed = None then ed else doPaste None ed)
           else if key = js ''a'' then selectAll ed
           else if key = js ''d'' then
             (if length (fst (selected_part ed)) = 0 then ed
              else paste_clone (fst (selected_part ed)) (snd (selected_part ed)) \<lparr>px = 32, py = 32\<rparr> ed)
           else ed)"

definition onBeforeDelete :: "editor \<Rightarrow> editor" where
  "onBeforeDelete ed = snap ed"

definition onNodesDelete :: "rf_node list \<Rightarrow> editor \<Rightarrow> editor" where
  "onNodesDelete deleted ed =
     (let ids = rn_id ` set deleted
      in ed\<lparr>ed_edges := filter (\<lambda>e. re_source e \<notin> ids \<and> re_target e \<notin> ids) (ed_edges ed),
            ed_selectedId := (case ed_selectedId ed of
               Some cur \<Rightarrow> if truthy (Some cur) \<and> cur \<in> ids then None else Some cur | None \<Rightarrow> None)\<rparr>)"

section \<open>Saving\<close>

definition onSave :: "jsstr option \<Rightarrow> editor \<Rightarrow> editor" where
  "onSave workflowId ed =
     (if trim (ed_name ed) = [] then push_toast ToastNameMissing ed
      else
        let studioNodes = toStudioNodes (ed_nodes ed) (ed_edges ed);
            input = \<lparr>cw_name = ed_name ed, cw_nodes = studioNodes, cw_inputsSchema = Some (ed_inputsSchema ed),
              cw_settings = Some (ed_settings ed), cw_version = Some (ed_version ed)\<rparr>
        in ed\<lparr>ed_pending := ed_pending ed @
             [\<lparr>sq_input = input, sq_snapshot = snapshotOf ed, sq_create = \<not> truthy workflowId\<rparr>]\<rparr>)"

text \<open>The answer of the server: the saved workflow's id and version, an \<open>ApiError\<close> with status
  and body, or another failure.\<close>

datatype save_answer = Saved jsstr int | SaveError int jsstr | SaveOther

text \<open>\<open>/^p:\s*/i\<close> removed from the front; the prefixes are ASCII.\<close>

definition ascii_lower :: "nat \<Rightarrow> nat" where
  "ascii_lower c = (if 65 \<le> c \<and> c \<le> 90 then c + 32 else c)"

definition strip_prefix :: "jsstr \<Rightarrow> jsstr \<Rightarrow> jsstr" where
  "strip_prefix p s =
     (if map ascii_lower (take (length p) s) = p then dropWhile is_ws (drop (length p) s) else s)"

definition invalid_reason :: "jsstr \<Rightarrow> jsstr" where
  "invalid_reason body = trim (strip_prefix (js ''bad request:'') (strip_prefix (js ''custom workflow:'')
     (strip_prefix (js ''invalid workflow:'') body)))"

definition onSaved :: "save_request \<Rightarrow> jsstr \<Rightarrow> int \<Rightarrow> editor \<Rightarrow> editor" where
  "onSaved req savedId savedVersion ed =
     (push_toast ToastSaved ed)\<lparr>ed_loaded := sq_snapshot req, ed_version := savedVersion,
        ed_created := (if sq_create req then Some savedId else ed_created ed)\<rparr>"

definition onErr :: "save_answer \<Rightarrow> editor \<Rightarrow> editor" where
  "onErr a ed =
     (case a of
        SaveError status body \<Rightarrow>
          if status = 409 then push_toast ToastConflict ed
          else if status = 400 then push_toast (ToastInvalid (invalid_reason body)) ed
          else push_toast ToastSaveFailed ed
      | _ \<Rightarrow> push_toast ToastSaveFailed ed)"

text \<open>The continuation of the request at position \<open>k\<close> of those in flight.\<close>

definition onAnswer :: "nat \<Rightarrow> save_answer \<Rightarrow> editor \<Rightarrow> editor" where
  "onAnswer k a ed =
     (if k < length (ed_pending ed)
      then let req = ed_pending ed ! k;
               rest = ed\<lparr>ed_pending := take k (ed_pending ed) @ drop (Suc k) (ed_pending ed)\<rparr>
           in (case a of Saved i v \<Rightarrow> onSaved req i v rest | _ \<Rightarrow> onErr a rest)
      else ed)"

text \<open>The save button: \<open>disabled={!dirty || saving}\<close>.\<close>

definition clickSave :: "jsstr option \<Rightarrow> editor \<Rightarrow> editor" where
  "clickSave workflowId ed = (if \<not> dirty ed \<or> ed_pending ed \<noteq> [] then ed else onSave workflowId ed)"

section \<open>The id field of the property panel\<close>

text \<open>\<open>PropertiesPanel.tsx\<close>: the panel edits the selected node; leaving the id field renames the
  node unless the draft is blank or the id of another node.\<close>

datatype id_error = IdEmpty | IdDuplicate jsstr

definition idError :: "jsstr list \<Rightarrow> jsstr \<Rightarrow> id_error option" where
  "idError others trimmed =
     (if trimmed = [] then Some IdEmpty
      else if trimmed \<in> set others then Some (IdDuplicate trimmed) else None)"

definition selected_node :: "editor \<Rightarrow> workflow_node option" where
  "selected_node ed = map_option rn_node (find (\<lambda>n. Some (rn_id n) = ed_selectedId ed) (ed_nodes ed))"

definition onIdBlur :: "jsstr \<Rightarrow> editor \<Rightarrow> editor" where
  "onIdBlur draft ed =
     (case selected_node ed of
        None \<Rightarrow> ed
      | Some node \<Rightarrow>
          let trimmed = trim draft
          in if idError (otherIds ed) trimmed = None \<and> trimmed \<noteq> wn_id node then renameSelected trimmed ed else ed)"

section \<open>Steps\<close>

text \<open>One event of the page. \<open>delete_keys\<close> is the Delete key: ReactFlow calls
  \<open>onBeforeDelete\<close>, removes the nodes and edges it was asked to remove, and calls
  \<open>onNodesDelete\<close>. \<open>nodes_change\<close> is any other change ReactFlow itself makes to the
  nodes (position, size, selection): it keeps their ids. A connection ReactFlow reports ends at
  a handle of a node on the canvas.\<close>

inductive canvas_step :: "(rf_edge \<Rightarrow> rf_edge list \<Rightarrow> rf_edge list) \<Rightarrow> editor \<Rightarrow> editor \<Rightarrow> bool"
  for addEdge where
  select: "canvas_step addEdge ed (onSelectionChange sel ed)"
| drop: "canvas_step addEdge ed (onDrop orgTypes prompts t typeId pos ed)"
| connect: "cn_target conn \<in> rn_id ` set (ed_nodes ed) \<Longrightarrow> canvas_step addEdge ed (onConnect addEdge conn ed)"
| reconnect: "cn_target conn \<in> rn_id ` set (ed_nodes ed) \<Longrightarrow> canvas_step addEdge ed (onReconnect oldId conn ed)"
| connect_start: "canvas_step addEdge ed (onConnectStart nodeId handleType ed)"
| connect_end: "canvas_step addEdge ed (onConnectEnd toNode flow ed)"
| pick: "canvas_step addEdge ed (onPickType prompts t display ed)"
| cancel_pick: "canvas_step addEdge ed (ed\<lparr>ed_picker := None\<rparr>)"
| add_node: "canvas_step addEdge ed (ed\<lparr>ed_picker := Some (PickCreate flow None)\<rparr>)"
| open_dialog: "canvas_step addEdge ed (ed\<lparr>ed_typeDialog := dialog\<rparr>)"
| create_type: "canvas_step addEdge ed (onCreateCustomType prompts p pos ed)"
| edit_type: "canvas_step addEdge ed (onEditCustomTypeSubmit p ed)"
| patch: "canvas_step addEdge ed (patchSelected f ed)"
| rename: "canvas_step addEdge ed (onIdBlur draft ed)"
| delete_selected: "canvas_step addEdge ed (deleteSelected ed)"
| duplicate: "canvas_step addEdge ed (onDuplicateNode i ed)"
| delete_node: "canvas_step addEdge ed (onDeleteNode i ed)"
| delete_edge: "canvas_step addEdge ed (onDeleteEdge i ed)"
| insert_on_edge: "canvas_step addEdge ed (onInsertOnEdge i flow ed)"
| quick_add: "canvas_step addEdge ed (onQuickAddFrom i flow ed)"
| paste: "canvas_step addEdge ed (doPaste target ed)"
| select_all: "canvas_step addEdge ed (selectAll ed)"
| pipeline: "canvas_step addEdge ed (onStandardPipeline prompts confirmed ed)"
| tidy: "canvas_step addEdge ed (onAutoTidy ed)"
| drag_start: "canvas_step addEdge ed (snap ed)"
| drag: "canvas_step addEdge ed (onNodeDrag n ed)"
| drag_stop: "canvas_step addEdge ed (onNodeDragStop ed)"
| key: "canvas_step addEdge ed (onKeyDown e ed)"
| delete_keys: "canvas_step addEdge ed (onNodesDelete deleted ((onBeforeDelete ed)
      \<lparr>ed_nodes := filter (\<lambda>n. rn_id n \<notin> rn_id ` set deleted) (ed_nodes ed),
       ed_edges := filter (\<lambda>e. re_id e \<notin> deletedEdges) (ed_edges ed)\<rparr>))"
| nodes_change: "map rn_id ns = map rn_id (ed_nodes ed) \<Longrightarrow> canvas_step addEdge ed (ed\<lparr>ed_nodes := ns\<rparr>)"
| name: "canvas_step addEdge ed (ed\<lparr>ed_name := v\<rparr>)"
| inputs: "canvas_step addEdge ed (ed\<lparr>ed_inputsSchema := schema\<rparr>)"
| settings: "canvas_step addEdge ed (ed\<lparr>ed_settings := setts\<rparr>)"
| save: "canvas_step addEdge ed (clickSave wfId ed)"
| answer: "canvas_step addEdge ed (onAnswer k a ed)"

inductive editor_reach :: "(rf_edge \<Rightarrow> rf_edge list \<Rightarrow> rf_edge list) \<Rightarrow> workflow_node list \<Rightarrow> editor \<Rightarrow> bool"
  for addEdge nodes where
  opened: "editor_reach addEdge nodes (initial_editor nm nodes schema setts version)"
| stepped: "editor_reach addEdge nodes ed \<Longrightarrow> canvas_step addEdge ed ed' \<Longrightarrow> editor_reach addEdge nodes ed'"

end
