(* ===== verification/Editor_Safety.thy ===== *)
theory Editor_Safety
  imports Canvas_Editor
begin

text \<open>
  What the handlers of the canvas guarantee: however the user edits, the graph on screen, every
  snapshot of the undo history, the clipboard and every request sent to the server stay
  well-formed (distinct ids, edges between nodes, no cycle); and the save protocol never marks
  unsaved edits as saved.
\<close>

section \<open>The invariant\<close>

definition doc_ok :: "document \<Rightarrow> bool" where
  "doc_ok d \<longleftrightarrow> canvas_ok (fst d) (snd d)"

definition request_ok :: "save_request \<Rightarrow> bool" where
  "request_ok q \<longleftrightarrow> distinct (map wn_id (cw_nodes (sq_input q))) \<and> findGraphError (graph_of (cw_nodes (sq_input q))) = None"

definition editor_ok :: "editor \<Rightarrow> bool" where
  "editor_ok ed \<longleftrightarrow> doc_ok (ed_nodes ed, ed_edges ed) \<and> history_docs (ed_history ed) \<subseteq> Collect doc_ok \<and>
     set_option (ed_clipboard ed) \<subseteq> Collect doc_ok \<and> list_all request_ok (ed_pending ed)"

lemma editor_okD:
  assumes "editor_ok ed"
  shows "canvas_ok (ed_nodes ed) (ed_edges ed)" "history_docs (ed_history ed) \<subseteq> Collect doc_ok"
    "ed_clipboard ed = Some (ns, es) \<Longrightarrow> canvas_ok ns es" "list_all request_ok (ed_pending ed)"
  using assms by (auto simp: editor_ok_def doc_ok_def)

text \<open>The two shapes of a handler: one that leaves document, history, clipboard and requests
  alone, and one that takes a snapshot and replaces the document.\<close>

definition same_core :: "editor \<Rightarrow> editor \<Rightarrow> bool" where
  "same_core ed ed' \<longleftrightarrow> ed_nodes ed' = ed_nodes ed \<and> ed_edges ed' = ed_edges ed \<and> ed_history ed' = ed_history ed \<and>
     ed_clipboard ed' = ed_clipboard ed \<and> ed_pending ed' = ed_pending ed"

definition edited :: "editor \<Rightarrow> editor \<Rightarrow> bool" where
  "edited ed ed' \<longleftrightarrow> ed_history ed' = ed_history (snap ed) \<and> ed_clipboard ed' = ed_clipboard ed \<and>
     ed_pending ed' = ed_pending ed"

lemma same_core_ok: "same_core ed ed' \<Longrightarrow> editor_ok ed \<Longrightarrow> editor_ok ed'"
  by (simp add: same_core_def editor_ok_def)

lemma snap_simps [simp]:
  "ed_nodes (snap ed) = ed_nodes ed" "ed_edges (snap ed) = ed_edges ed" "ed_clipboard (snap ed) = ed_clipboard ed"
  "ed_pending (snap ed) = ed_pending ed" "ed_selectedId (snap ed) = ed_selectedId ed"
  by (simp_all add: snap_def)

lemma edited_ok:
  assumes "edited ed ed'" and "editor_ok ed" and "canvas_ok (ed_nodes ed') (ed_edges ed')"
  shows "editor_ok ed'"
proof -
  have "history_docs (takeSnapshot None (ed_nodes ed, ed_edges ed) (ed_history ed)) \<subseteq> Collect doc_ok"
    using assms(2) by (intro canvas_history.keep_take) (simp_all add: editor_ok_def)
  with assms show ?thesis by (simp add: editor_ok_def edited_def snap_def doc_ok_def)
qed

text \<open>A change of nodes that keeps the ids, without a snapshot.\<close>

lemma moved_ok:
  assumes "editor_ok ed" and "map rn_id (ed_nodes ed') = map rn_id (ed_nodes ed)" and "ed_edges ed' = ed_edges ed"
    and "ed_history ed' = ed_history ed" "ed_clipboard ed' = ed_clipboard ed" "ed_pending ed' = ed_pending ed"
  shows "editor_ok ed'"
  using assms by (simp add: editor_ok_def doc_ok_def canvas_ok_same_ids [OF assms(2)])

section \<open>Each handler\<close>

lemma addNodeAt_ok:
  "canvas_ok ns es \<Longrightarrow> canvas_ok (addNodeAt ns t pos ps (Some (nextNodeId ns)) d) es"
  by (simp add: addNodeAt_def Let_def canvas_ok_add)

lemma onDrop_ok: "editor_ok ed \<Longrightarrow> editor_ok (onDrop orgTypes prompts t typeId pos ed)"
  unfolding onDrop_def Let_def
  by (auto intro!: edited_ok [of ed] addNodeAt_ok simp: edited_def dest: editor_okD)

text \<open>What ReactFlow's \<open>addEdge\<close> is relied on for: it returns the list as it is or with the edge
  appended.\<close>

definition addEdge_law :: "(rf_edge \<Rightarrow> rf_edge list \<Rightarrow> rf_edge list) \<Rightarrow> bool" where
  "addEdge_law addEdge \<longleftrightarrow> (\<forall>e es. addEdge e es = es \<or> addEdge e es = es @ [e])"

lemma guarded_ok:
  assumes ok: "canvas_ok ns es" and ids: "set (map rn_id ns) \<subseteq> set (map rn_id ns')" "distinct (map rn_id ns')"
    and new: "edge_rel es' \<subseteq> insert (s, t) (edge_rel es)"
    and guard: "findGraphError (graph_of (toStudioNodes ns' es')) = None" and t: "t \<in> rn_id ` set ns'"
  shows "canvas_ok ns' es'"
proof -
  have "Range (edge_rel es') \<subseteq> insert t (Range (edge_rel es))" using new by auto
  moreover have "Range (edge_rel es) \<subseteq> rn_id ` set ns" using canvas_okD(2) [OF ok] by auto
  moreover have "rn_id ` set ns \<subseteq> rn_id ` set ns'" using ids(1) by simp
  ultimately have "Range (edge_rel es') \<subseteq> rn_id ` set ns'" using t by (meson insert_subsetI order_trans)
  with guard ids(2) show ?thesis by (simp add: canvas_guard)
qed

lemma onConnect_ok:
  assumes ok: "editor_ok ed" and law: "addEdge_law addEdge"
    and node: "cn_target conn \<in> rn_id ` set (ed_nodes ed)"
  shows "editor_ok (onConnect addEdge conn ed)"
proof (cases "cn_source conn = [] \<or> cn_target conn = [] \<or>
    findGraphError (graph_of (toStudioNodes (ed_nodes ed)
      (ed_edges ed @ [(studio_edge (cn_source conn) (cn_target conn))\<lparr>re_type := None\<rparr>]))) \<noteq> None")
  case True
  then show ?thesis
    using ok by (auto simp: onConnect_def Let_def push_toast_def same_core_def split: option.split intro: same_core_ok)
next
  case False
  let ?cand = "ed_edges ed @ [(studio_edge (cn_source conn) (cn_target conn))\<lparr>re_type := None\<rparr>]"
  let ?e = "(studio_edge (cn_source conn) (cn_target conn))
    \<lparr>re_sourceHandle := cn_sourceHandle conn, re_targetHandle := cn_targetHandle conn\<rparr>"
  have canvas: "canvas_ok (ed_nodes ed) (ed_edges ed)" using editor_okD(1) [OF ok] .
  have cand: "canvas_ok (ed_nodes ed) ?cand"
    by (rule guarded_ok [OF canvas _ canvas_okD(1) [OF canvas] _ _ node, of _ "cn_source conn"])
      (use False in simp_all)
  have "addEdge ?e (ed_edges ed) = ed_edges ed \<or> addEdge ?e (ed_edges ed) = ed_edges ed @ [?e]"
    using law unfolding addEdge_law_def by metis
  then have "edge_rel (addEdge ?e (ed_edges ed)) \<subseteq> edge_rel ?cand" by auto
  with cand have "canvas_ok (ed_nodes ed) (addEdge ?e (ed_edges ed))" by (rule canvas_ok_fewer_edges)
  with ok False show ?thesis
    by (auto simp: onConnect_def Let_def edited_def intro!: edited_ok [of ed])
qed

lemma onReconnect_ok:
  assumes ok: "editor_ok ed" and node: "cn_target conn \<in> rn_id ` set (ed_nodes ed)"
  shows "editor_ok (onReconnect oldId conn ed)"
proof (cases "cn_source conn = [] \<or> cn_target conn = [] \<or>
    findGraphError (graph_of (toStudioNodes (ed_nodes ed)
      (reconnectEdge (ed_edges ed) oldId (cn_source conn) (cn_target conn)))) \<noteq> None")
  case True
  then show ?thesis
    using ok by (auto simp: onReconnect_def Let_def push_toast_def same_core_def split: option.split intro: same_core_ok)
next
  case False
  have canvas: "canvas_ok (ed_nodes ed) (ed_edges ed)" using editor_okD(1) [OF ok] .
  have "canvas_ok (ed_nodes ed) (reconnectEdge (ed_edges ed) oldId (cn_source conn) (cn_target conn))"
    by (rule guarded_ok [OF canvas _ canvas_okD(1) [OF canvas] _ _ node, of _ "cn_source conn"])
      (use False edge_rel_filter in \<open>auto simp: reconnectEdge_rel\<close>)
  with ok False show ?thesis
    by (auto simp: onReconnect_def Let_def edited_def intro!: edited_ok [of ed])
qed

lemma commit_picked_ok:
  assumes "editor_ok ed" and "findGraphError (graph_of (toStudioNodes ns es)) = None \<Longrightarrow> canvas_ok ns es"
  shows "editor_ok (commit_picked ns es ed)"
proof (cases "findGraphError (graph_of (toStudioNodes ns es))")
  case None
  with assms show ?thesis
    by (auto simp: commit_picked_def set_doc_def edited_def snap_def intro!: edited_ok [of ed])
next
  case (Some e)
  with assms(1) show ?thesis
    by (auto simp: commit_picked_def push_toast_def same_core_def intro: same_core_ok [of ed])
qed

lemma insertNodeOnEdge_guarded:
  assumes ok: "canvas_ok ns es"
    and guard: "findGraphError (graph_of (toStudioNodes (fst (insertNodeOnEdge ns es i t pos ps d))
      (fst (snd (insertNodeOnEdge ns es i t pos ps d))))) = None"
  shows "canvas_ok (fst (insertNodeOnEdge ns es i t pos ps d)) (fst (snd (insertNodeOnEdge ns es i t pos ps d)))"
proof (cases "find (\<lambda>e. re_id e = i) es")
  case None
  with ok show ?thesis by (simp add: insertNodeOnEdge_def)
next
  case (Some e)
  let ?n = "nextNodeId ns"
  let ?ns = "fst (insertNodeOnEdge ns es i t pos ps d)"
  let ?es = "fst (snd (insertNodeOnEdge ns es i t pos ps d))"
  have ids: "map rn_id ?ns = map rn_id ns @ [?n]" using Some by (simp add: insertNodeOnEdge_def Let_def)
  have "(re_source e, re_target e) \<in> edge_rel es" using find_SomeD [OF Some] by (auto simp: edge_rel_def)
  then have t: "re_target e \<in> rn_id ` set ns" using canvas_okD(2) [OF ok] by auto
  have "edge_rel ?es \<subseteq> edge_rel es \<union> {(re_source e, ?n), (?n, re_target e)}"
    using Some edge_rel_filter by (auto simp: insertNodeOnEdge_def Let_def)
  then have "Range (edge_rel ?es) \<subseteq> Range (edge_rel es) \<union> {?n, re_target e}" by auto
  moreover have "Range (edge_rel es) \<subseteq> rn_id ` set ns" using canvas_okD(2) [OF ok] by auto
  moreover have "rn_id ` set ?ns = insert ?n (rn_id ` set ns)"
    using ids by (metis list.set_map set_append list.simps(15) empty_set Un_insert_right sup_bot_right)
  ultimately have "Range (edge_rel ?es) \<subseteq> rn_id ` set ?ns" using t by auto
  moreover have "distinct (map rn_id ?ns)"
    using canvas_okD(1) [OF ok] nextNodeId_fresh [of ns] by (simp add: ids)
  ultimately show ?thesis using guard by (simp add: canvas_guard)
qed

lemma createNode_guarded:
  assumes ok: "canvas_ok ns es"
    and guard: "findGraphError (graph_of (toStudioNodes (fst (createNode ns es t pos ps src d))
      (fst (snd (createNode ns es t pos ps src d))))) = None"
  shows "canvas_ok (fst (createNode ns es t pos ps src d)) (fst (snd (createNode ns es t pos ps src d)))"
proof -
  let ?ns = "fst (createNode ns es t pos ps src d)"
  let ?es = "fst (snd (createNode ns es t pos ps src d))"
  let ?n = "nextNodeId ns"
  have ids: "rn_id ` set ?ns = insert ?n (rn_id ` set ns)"
    using createNode_simps(1) by (metis list.set_map set_append list.simps(15) empty_set Un_insert_right sup_bot_right)
  have "Range (edge_rel es) \<subseteq> rn_id ` set ns" using canvas_okD(2) [OF ok] by auto
  then have "Range (edge_rel ?es) \<subseteq> rn_id ` set ?ns"
    unfolding ids createNode_simps by (auto split: if_splits)
  moreover have "distinct (map rn_id ?ns)"
    using canvas_okD(1) [OF ok] nextNodeId_fresh [of ns] by (simp add: createNode_simps)
  ultimately show ?thesis using guard by (simp add: canvas_guard)
qed

lemma onPickType_ok:
  assumes ok: "editor_ok ed"
  shows "editor_ok (onPickType prompts t display ed)"
proof -
  have canvas: "canvas_ok (ed_nodes ed) (ed_edges ed)" using editor_okD(1) [OF ok] .
  show ?thesis
  proof (cases "ed_picker ed")
    case None
    with ok show ?thesis by (simp add: onPickType_def)
  next
    case (Some pk)
    show ?thesis
    proof (cases pk)
      case (PickCreate flow src)
      have "editor_ok (commit_picked (fst (createNode (ed_nodes ed) (ed_edges ed) t flow prompts src display))
          (fst (snd (createNode (ed_nodes ed) (ed_edges ed) t flow prompts src display))) ed)"
        using ok createNode_guarded [OF canvas] by (rule commit_picked_ok)
      with Some PickCreate show ?thesis by (simp add: onPickType_def case_prod_beta)
    next
      case (PickInsert flow i)
      have "editor_ok (commit_picked (fst (insertNodeOnEdge (ed_nodes ed) (ed_edges ed) i t flow prompts display))
          (fst (snd (insertNodeOnEdge (ed_nodes ed) (ed_edges ed) i t flow prompts display))) ed)"
        using ok insertNodeOnEdge_guarded [OF canvas] by (rule commit_picked_ok)
      with Some PickInsert show ?thesis by (simp add: onPickType_def case_prod_beta)
    qed
  qed
qed

lemma onCreateCustomType_ok: "editor_ok ed \<Longrightarrow> editor_ok (onCreateCustomType prompts p pos ed)"
  unfolding onCreateCustomType_def Let_def
  by (auto intro!: edited_ok [of ed] addNodeAt_ok simp: edited_def createNode_def Let_def dest: editor_okD)

lemma same_ids_ok:
  assumes "editor_ok ed" and "map rn_id ns = map rn_id (ed_nodes ed)"
  shows "canvas_ok ns (ed_edges ed)"
  using editor_okD(1) [OF assms(1)] canvas_ok_same_ids [OF assms(2)] by simp

text \<open>The common proof: a handler that takes a snapshot and keeps the ids.\<close>

lemma edited_same_ids_ok:
  assumes "editor_ok ed" and "map rn_id ns = map rn_id (ed_nodes ed)" and "edited ed ed'"
    and "ed_nodes ed' = ns" and "ed_edges ed' = ed_edges ed"
  shows "editor_ok ed'"
  using edited_ok [OF assms(3,1)] same_ids_ok [OF assms(1,2)] assms(4,5) by simp

lemma onEditCustomTypeSubmit_ok:
  assumes ok: "editor_ok ed"
  shows "editor_ok (onEditCustomTypeSubmit p ed)"
proof -
  have "editor_ok ((snap ed)\<lparr>ed_nodes := applyTypeDisplay (ed_nodes ed) t l c, ed_typeDialog := None\<rparr>)" for t l c
    by (rule edited_same_ids_ok [OF ok applyTypeDisplay_ids]) (simp_all add: edited_def)
  with ok show ?thesis
    by (simp add: onEditCustomTypeSubmit_def split: option.split type_dialog.split)
qed

lemma patchSelected_ok:
  assumes ok: "editor_ok ed"
  shows "editor_ok (patchSelected f ed)"
proof -
  let ?ns = "map (\<lambda>n. if Some (rn_id n) = ed_selectedId ed then n\<lparr>rn_node := f (rn_node n)\<rparr> else n) (ed_nodes ed)"
  have "map rn_id ?ns = map rn_id (ed_nodes ed)" by simp
  then have "editor_ok ((snap ed)\<lparr>ed_nodes := ?ns\<rparr>)"
    by (rule edited_same_ids_ok [OF ok]) (simp_all add: edited_def)
  with ok show ?thesis by (simp add: patchSelected_def)
qed

text \<open>Renaming to an id no other node has renames the graph injectively.\<close>

lemma rename_edge_ends [simp]:
  "re_source (rename_edge a b e) = (if re_source e = a then b else re_source e)"
  "re_target (rename_edge a b e) = (if re_target e = a then b else re_target e)"
  by (simp_all add: rename_edge_def Let_def)

lemma rename_edges:
  "edge_rel (map (rename_edge a b) es) = map_prod (\<lambda>i. if i = a then b else i) (\<lambda>i. if i = a then b else i) ` edge_rel es"
  by (simp add: edge_rel_def image_image)

lemma rename_ok:
  assumes ok: "canvas_ok ns es" and new: "b \<notin> rn_id ` {n \<in> set ns. rn_id n \<noteq> a}"
  shows "canvas_ok (map (rename_node a b) ns) (map (rename_edge a b) es)"
proof (rule canvas_okI)
  let ?f = "\<lambda>i. if i = a then b else i"
  have inj: "inj_on ?f (rn_id ` set ns)" using new by (auto simp: inj_on_def image_iff)
  have ids: "map rn_id (map (rename_node a b) ns) = map ?f (map rn_id ns)"
    by (simp add: rename_node_def)
  show "distinct (map rn_id (map (rename_node a b) ns))"
    unfolding ids distinct_map [of ?f] using canvas_okD(1) [OF ok] inj by simp
  have "rn_id ` set (map (rename_node a b) ns) = ?f ` rn_id ` set ns"
    using ids by (metis list.set_map)
  then show "edge_rel (map (rename_edge a b) es)
      \<subseteq> rn_id ` set (map (rename_node a b) ns) \<times> rn_id ` set (map (rename_node a b) ns)"
    unfolding rename_edges using map_prod_image_subset [OF canvas_okD(2) [OF ok], of ?f] by simp
  have "Field (edge_rel es) \<subseteq> rn_id ` set ns" using canvas_okD(2) [OF ok] by (auto simp: Field_def)
  with inj have "inj_on ?f (Field (edge_rel es))" by (rule inj_on_subset)
  then show "acyclic (edge_rel (map (rename_edge a b) es))"
    unfolding rename_edges using canvas_okD(3) [OF ok] by (rule acyclic_map_prod)
qed

lemma onIdBlur_ok:
  assumes ok: "editor_ok ed"
  shows "editor_ok (onIdBlur draft ed)"
proof (cases "selected_node ed = None \<or> idError (otherIds ed) (trim draft) \<noteq> None \<or>
    trim draft = wn_id (the (selected_node ed)) \<or> \<not> truthy (ed_selectedId ed) \<or> ed_selectedId ed = Some (trim draft)")
  case True
  with ok show ?thesis by (auto simp: onIdBlur_def renameSelected_def Let_def split: option.split)
next
  case False
  then obtain a where a: "ed_selectedId ed = Some a" by (cases "ed_selectedId ed") auto
  from False have "trim draft \<notin> set (otherIds ed)" by (auto simp: idError_def split: if_splits)
  then have "canvas_ok (map (rename_node a (trim draft)) (ed_nodes ed)) (map (rename_edge a (trim draft)) (ed_edges ed))"
    by (intro rename_ok editor_okD(1) [OF ok]) (auto simp: otherIds_def a)
  with ok False a show ?thesis
    by (auto simp: onIdBlur_def renameSelected_def Let_def edited_def intro!: edited_ok [of ed])
qed

text \<open>Removing nodes with their edges.\<close>

lemma remove_ok:
  assumes ok: "canvas_ok ns es"
  shows "canvas_ok (filter (\<lambda>n. P (rn_id n)) ns) (filter (\<lambda>e. P (re_source e) \<and> P (re_target e)) (filter Q es))"
proof (rule canvas_okI)
  show "distinct (map rn_id (filter (\<lambda>n. P (rn_id n)) ns))"
    using canvas_okD(1) [OF ok] by (simp add: distinct_map_filter)
  have "edge_rel (filter (\<lambda>e. P (re_source e) \<and> P (re_target e)) (filter Q es)) \<subseteq> edge_rel es \<inter> (Collect P \<times> Collect P)"
    by (auto simp: edge_rel_def)
  also have "\<dots> \<subseteq> (rn_id ` set ns \<times> rn_id ` set ns) \<inter> (Collect P \<times> Collect P)"
    using canvas_okD(2) [OF ok] by blast
  also have "\<dots> = rn_id ` set (filter (\<lambda>n. P (rn_id n)) ns) \<times> rn_id ` set (filter (\<lambda>n. P (rn_id n)) ns)" by auto
  finally show "edge_rel (filter (\<lambda>e. P (re_source e) \<and> P (re_target e)) (filter Q es))
      \<subseteq> rn_id ` set (filter (\<lambda>n. P (rn_id n)) ns) \<times> rn_id ` set (filter (\<lambda>n. P (rn_id n)) ns)" .
  show "acyclic (edge_rel (filter (\<lambda>e. P (re_source e) \<and> P (re_target e)) (filter Q es)))"
    using canvas_okD(3) [OF ok] by (rule acyclic_subset) (auto simp: edge_rel_def)
qed

lemma without_node_ok:
  "canvas_ok ns es \<Longrightarrow> canvas_ok (filter (\<lambda>n. rn_id n \<noteq> i) ns) (without_node i es)"
  using remove_ok [of ns es "\<lambda>j. j \<noteq> i" "\<lambda>_. True"] by (simp add: without_node_def)

lemma deleteSelected_ok: "editor_ok ed \<Longrightarrow> editor_ok (deleteSelected ed)"
  unfolding deleteSelected_def Let_def
  by (auto intro!: edited_ok [of ed] without_node_ok simp: edited_def dest: editor_okD)

lemma onDeleteNode_ok: "editor_ok ed \<Longrightarrow> editor_ok (onDeleteNode i ed)"
  unfolding onDeleteNode_def
  by (auto intro!: edited_ok [of ed] without_node_ok simp: edited_def dest: editor_okD)

lemma onDeleteEdge_ok: "editor_ok ed \<Longrightarrow> editor_ok (onDeleteEdge i ed)"
  unfolding onDeleteEdge_def
  using canvas_ok_fewer_edges [OF editor_okD(1) edge_rel_filter]
  by (auto intro!: edited_ok [of ed] simp: edited_def)

lemma onDuplicateNode_ok: "editor_ok ed \<Longrightarrow> editor_ok (onDuplicateNode i ed)"
  unfolding onDuplicateNode_def
  by (auto intro!: edited_ok [of ed] duplicateNode_ok simp: edited_def dest: editor_okD)

lemma delete_keys_ok:
  assumes ok: "editor_ok ed"
  shows "editor_ok (onNodesDelete deleted ((onBeforeDelete ed)
      \<lparr>ed_nodes := filter (\<lambda>n. rn_id n \<notin> rn_id ` set deleted) (ed_nodes ed),
       ed_edges := filter (\<lambda>e. re_id e \<notin> D) (ed_edges ed)\<rparr>))"
  using remove_ok [OF editor_okD(1) [OF ok], of "\<lambda>i. i \<notin> rn_id ` set deleted" "\<lambda>e. re_id e \<notin> D"] ok
  by (auto intro!: edited_ok [of ed] simp: edited_def onNodesDelete_def onBeforeDelete_def Let_def)

lemma selected_flags_ids [simp]: "map rn_id (map (\<lambda>n. n\<lparr>rn_selected := v\<rparr>) ns) = map rn_id ns"
  by simp

lemma paste_clone_ok:
  assumes ok: "editor_ok ed" and clip: "canvas_ok ns es"
  shows "editor_ok (paste_clone ns es offset ed)"
proof -
  let ?c = "cloneSelection ns es (rn_id ` set ns) offset (Some (ed_nodes ed))"
  have "canvas_ok (map (\<lambda>n. n\<lparr>rn_selected := Some False\<rparr>) (ed_nodes ed)) (ed_edges ed)"
    by (rule same_ids_ok [OF ok selected_flags_ids])
  moreover have "canvas_ok (fst ?c) (snd ?c)" using clip by (rule cloneSelection_ok)
  moreover have "rn_id ` set (map (\<lambda>n. n\<lparr>rn_selected := Some False\<rparr>) (ed_nodes ed)) = rn_id ` set (ed_nodes ed)"
    by (simp add: image_image)
  then have "rn_id ` set (map (\<lambda>n. n\<lparr>rn_selected := Some False\<rparr>) (ed_nodes ed)) \<inter> rn_id ` set (fst ?c) = {}"
    using cloneSelection_fresh(2) [OF canvas_okD(1) [OF clip], of es "rn_id ` set ns" offset "Some (ed_nodes ed)"]
    by (simp add: Int_commute)
  ultimately have "canvas_ok (map (\<lambda>n. n\<lparr>rn_selected := Some False\<rparr>) (ed_nodes ed) @ fst ?c) (ed_edges ed @ snd ?c)"
    by (rule canvas_ok_union)
  then show ?thesis
    by (intro edited_ok [OF _ ok]) (simp_all add: paste_clone_def edited_def case_prod_beta)
qed

lemma doPaste_ok:
  assumes ok: "editor_ok ed"
  shows "editor_ok (doPaste target ed)"
proof (cases "ed_clipboard ed")
  case None
  with ok show ?thesis by (simp add: doPaste_def)
next
  case (Some d)
  obtain ns es where d: "d = (ns, es)" by fastforce
  have "canvas_ok ns es" using editor_okD(3) [OF ok] Some d by simp
  with ok Some d show ?thesis by (simp add: doPaste_def paste_clone_ok Let_def)
qed

lemma selectAll_ok: "editor_ok ed \<Longrightarrow> editor_ok (selectAll ed)"
  unfolding selectAll_def by (rule moved_ok) simp_all

lemma seedPositions_standard:
  "distinct (map wn_id (standardPipeline ps)) \<and>
   node_deps (standardPipeline ps) = {(js ''storyboard-1'', js ''script-1'')} \<and>
   wn_id ` set (standardPipeline ps) = {js ''script-1'', js ''storyboard-1''}"
  by (simp add: standardPipeline_def Let_def node_deps_def)

lemma standardPipeline_ok: "canvas_ok (fst (toReactFlow (standardPipeline ps))) (snd (toReactFlow (standardPipeline ps)))"
proof (rule toReactFlow_ok)
  show "acyclic (node_deps (standardPipeline ps))"
    by (rule acyclic_measure [of _ "\<lambda>i. if i = js ''storyboard-1'' then 1 else (0::nat)"])
      (simp add: seedPositions_standard)
qed (simp_all add: seedPositions_standard)

lemma onStandardPipeline_ok: "editor_ok ed \<Longrightarrow> editor_ok (onStandardPipeline prompts confirmed ed)"
  unfolding onStandardPipeline_def using standardPipeline_ok [of prompts]
  by (auto intro!: edited_ok [of ed] simp: edited_def case_prod_beta)

lemma onAutoTidy_ok: "editor_ok ed \<Longrightarrow> editor_ok (onAutoTidy ed)"
  unfolding onAutoTidy_def Let_def
  by (rule edited_ok [of ed]) (simp_all add: edited_def same_ids_ok)

lemma onNodeDrag_ok: "editor_ok ed \<Longrightarrow> editor_ok (onNodeDrag n ed)"
  by (rule moved_ok [of ed]) (auto simp: onNodeDrag_def Let_def)

lemma undo_editor_ok: "editor_ok ed \<Longrightarrow> editor_ok (undo_editor ed)"
  using canvas_history.keep_back [of doc_ok "(ed_nodes ed, ed_edges ed)" "ed_history ed"]
  by (auto simp: undo_editor_def set_doc_def editor_ok_def split: prod.splits)

lemma redo_editor_ok: "editor_ok ed \<Longrightarrow> editor_ok (redo_editor ed)"
  using canvas_history.keep_forth [of doc_ok "(ed_nodes ed, ed_edges ed)" "ed_history ed"]
  by (auto simp: redo_editor_def set_doc_def editor_ok_def split: prod.splits)

lemma selected_part_ok:
  assumes "canvas_ok (ed_nodes ed) (ed_edges ed)"
  shows "canvas_ok (fst (selected_part ed)) (snd (selected_part ed))"
proof (rule canvas_okI)
  let ?s = "filter (\<lambda>n. rn_selected n = Some True) (ed_nodes ed)"
  show "distinct (map rn_id (fst (selected_part ed)))"
    using canvas_okD(1) [OF assms] by (simp add: selected_part_def Let_def distinct_map_filter)
  show "edge_rel (snd (selected_part ed)) \<subseteq> rn_id ` set (fst (selected_part ed)) \<times> rn_id ` set (fst (selected_part ed))"
    by (auto simp: selected_part_def Let_def edge_rel_def)
  show "acyclic (edge_rel (snd (selected_part ed)))"
    using canvas_okD(3) [OF assms] by (rule acyclic_subset) (auto simp: selected_part_def Let_def edge_rel_def)
qed

lemma onKeyDown_ok:
  assumes ok: "editor_ok ed"
  shows "editor_ok (onKeyDown e ed)"
proof -
  note sel = selected_part_ok [OF editor_okD(1) [OF ok]]
  have "editor_ok (ed\<lparr>ed_clipboard := Some (selected_part ed)\<rparr>)"
    using ok sel by (simp add: editor_ok_def doc_ok_def)
  moreover have "editor_ok (paste_clone (fst (selected_part ed)) (snd (selected_part ed)) \<lparr>px = 32, py = 32\<rparr> ed)"
    using ok sel by (rule paste_clone_ok)
  ultimately show ?thesis
    using ok by (simp add: onKeyDown_def Let_def undo_editor_ok redo_editor_ok doPaste_ok selectAll_ok)
qed

text \<open>A request carries the model of a well-formed canvas.\<close>

lemma clickSave_ok:
  assumes ok: "editor_ok ed"
  shows "editor_ok (clickSave w ed)"
proof -
  have canvas: "canvas_ok (ed_nodes ed) (ed_edges ed)" using editor_okD(1) [OF ok] .
  have "Range (edge_rel (ed_edges ed)) \<subseteq> rn_id ` set (ed_nodes ed)" using canvas_okD(2) [OF canvas] by auto
  then have "findGraphError (graph_of (toStudioNodes (ed_nodes ed) (ed_edges ed))) = None"
    using canvas canvas_okD(1) [OF canvas] by (simp add: canvas_guard)
  moreover have "distinct (map wn_id (toStudioNodes (ed_nodes ed) (ed_edges ed)))"
    using canvas_okD(1) [OF canvas] by (simp add: toStudioNodes_def o_def)
  ultimately show ?thesis
    using ok by (simp add: clickSave_def onSave_def Let_def push_toast_def editor_ok_def request_ok_def)
qed

lemma onAnswer_ok:
  assumes ok: "editor_ok ed"
  shows "editor_ok (onAnswer k a ed)"
proof -
  have "list_all request_ok (take k (ed_pending ed) @ drop (Suc k) (ed_pending ed))"
    using editor_okD(4) [OF ok] by (auto simp: list_all_iff dest: in_set_takeD in_set_dropD)
  then show ?thesis
    using ok
    by (simp add: onAnswer_def Let_def onSaved_def onErr_def push_toast_def editor_ok_def split: save_answer.split)
qed

section \<open>Every step\<close>

lemmas handler_ok = onDrop_ok onConnect_ok onReconnect_ok onPickType_ok onCreateCustomType_ok
  onEditCustomTypeSubmit_ok patchSelected_ok onIdBlur_ok deleteSelected_ok onDuplicateNode_ok onDeleteNode_ok
  onDeleteEdge_ok doPaste_ok selectAll_ok onStandardPipeline_ok onAutoTidy_ok onNodeDrag_ok onKeyDown_ok
  delete_keys_ok clickSave_ok onAnswer_ok

lemma view_state_ok:
  assumes "editor_ok ed"
  shows "editor_ok (onSelectionChange sel ed)" "editor_ok (onConnectStart nodeId handleType ed)"
    "editor_ok (onConnectEnd toNode flow ed)" "editor_ok (onInsertOnEdge i flow ed)"
    "editor_ok (onQuickAddFrom i flow ed)" "editor_ok (onNodeDragStop ed)"
    "editor_ok (ed\<lparr>ed_picker := p\<rparr>)" "editor_ok (ed\<lparr>ed_typeDialog := d\<rparr>)" "editor_ok (ed\<lparr>ed_name := v\<rparr>)"
    "editor_ok (ed\<lparr>ed_inputsSchema := schema\<rparr>)" "editor_ok (ed\<lparr>ed_settings := setts\<rparr>)"
  using assms
  by (auto intro!: same_core_ok [OF _ assms]
      simp: same_core_def onSelectionChange_def onConnectStart_def onConnectEnd_def onInsertOnEdge_def
        onQuickAddFrom_def onNodeDragStop_def Let_def split: option.split)

lemma snap_ok: "editor_ok ed \<Longrightarrow> editor_ok (snap ed)"
  by (rule edited_ok [of ed]) (simp_all add: edited_def editor_okD)

lemma canvas_step_ok:
  assumes "canvas_step addEdge ed ed'" and "addEdge_law addEdge" and "editor_ok ed"
  shows "editor_ok ed'"
  using assms
proof (induction rule: canvas_step.induct)
  case (nodes_change ns ed)
  then show ?case by (auto intro: moved_ok [of ed])
qed (simp_all add: handler_ok view_state_ok snap_ok)

lemma initial_editor_ok:
  assumes "distinct (map wn_id nodes)" and "findGraphError (graph_of nodes) = None"
  shows "editor_ok (initial_editor nm nodes schema setts version)"
proof -
  have d: "distinct (map fst (graph_of nodes))" using assms(1) by (simp add: graph_of_def o_def)
  have rel: "graph_rel (graph_of nodes) = node_deps nodes"
    unfolding graph_rel_distinct [OF d] by (auto simp: graph_of_def node_deps_def)
  have "(\<forall>x \<in> set nodes. set (wn_dependsOn x) \<subseteq> wn_id ` set nodes)" "acyclic (node_deps nodes)"
    using assms(2) by (simp_all add: findGraphError_None rel) (simp add: graph_of_def image_image)
  then have "canvas_ok (fst (toReactFlow nodes)) (snd (toReactFlow nodes))"
    by (intro toReactFlow_ok assms(1)) (auto simp: node_deps_def)
  then show ?thesis
    by (simp add: initial_editor_def Let_def editor_ok_def doc_ok_def)
qed

lemma reach_ok:
  assumes "editor_reach addEdge nodes ed" and "addEdge_law addEdge" and "distinct (map wn_id nodes)"
    and "findGraphError (graph_of nodes) = None"
  shows "editor_ok ed"
  using assms
proof (induction rule: editor_reach.induct)
  case (opened nm schema setts version)
  then show ?case by (simp add: initial_editor_ok)
next
  case (stepped ed ed')
  then show ?case by (blast intro: canvas_step_ok)
qed

section \<open>Properties\<close>


text \<open>ReactFlow's documented behaviour, as a function: no second edge between the same handles.\<close>

definition append_edge :: "rf_edge \<Rightarrow> rf_edge list \<Rightarrow> rf_edge list" where
  "append_edge e es =
     (if list_ex (\<lambda>e'. re_source e' = re_source e \<and> re_target e' = re_target e \<and>
          re_sourceHandle e' = re_sourceHandle e \<and> re_targetHandle e' = re_targetHandle e) es
      then es else es @ [e])"

lemma append_edge_law: "addEdge_law append_edge"
  by (simp add: addEdge_law_def append_edge_def)

definition start_editor :: editor where
  "start_editor = initial_editor (js ''flow'') [plain_node (js ''a'') []] None None None"

lemma start_valid:
  "distinct (map wn_id [plain_node (js ''a'') []])" "findGraphError (graph_of [plain_node (js ''a'') []]) = None"
  by (simp_all add: plain_node_def graph_of_def findGraphError_def visit_def deps_get_def)




text \<open>in \<open>customTypes\<close> a type of an annotation node hides the registered type of the same name:
  no offered entry of that name carries a type id, so a drop of it makes an unbound node. (The
  comment in the source promises the opposite precedence.)\<close>

theorem customTypes_annotation_wins:
  "{t \<in> set (customTypes orgTypes ns).
      of_type t \<in> ct_type ` set (collectCustomTypes (filter (\<lambda>n. \<not> truthy (wn_typeId (rn_node n))) ns))}
    \<subseteq> {t. of_typeId t = None}"
  by (auto simp: customTypes_def Let_def image_iff)

definition bound_editor :: editor where
  "bound_editor = (initial_editor (js ''flow'')
     [plain_node (js ''a'') [],
      (plain_node (js ''b'') [js ''a''])\<lparr>wn_varBindings := Some [\<lparr>vb_name = js ''v'', vb_sourceNodeId = js ''a'', vb_sourceField = None\<rparr>]\<rparr>]
     None None None)\<lparr>ed_selectedId := Some (js ''a'')\<rparr>"

text \<open>renaming a node does not touch the variable bindings of other nodes: here \<open>b\<close> takes the
  variable \<open>v\<close> from its upstream node \<open>a\<close>; after \<open>a\<close> is renamed to \<open>c\<close> the edge follows, but
  the binding still names \<open>a\<close>, which is no node any more.\<close>

theorem rename_leaves_bindings:
  "map rn_id (ed_nodes (onIdBlur (js ''c'') bound_editor)) = [js ''c'', js ''b''] \<and>
   edge_rel (ed_edges (onIdBlur (js ''c'') bound_editor)) = {(js ''c'', js ''b'')} \<and>
   map (map_option (map vb_sourceNodeId) \<circ> wn_varBindings \<circ> rn_node) (ed_nodes (onIdBlur (js ''c'') bound_editor))
     = [None, Some [js ''a'']]"
proof -
  have t: "trim (js ''c'') = js ''c''" by (simp add: trim_def js_def is_ws_def)
  have n: "ed_nodes bound_editor = fst (toReactFlow [plain_node (js ''a'') [],
      (plain_node (js ''b'') [js ''a''])\<lparr>wn_varBindings := Some [\<lparr>vb_name = js ''v'', vb_sourceNodeId = js ''a'', vb_sourceField = None\<rparr>]\<rparr>])"
    and e: "ed_edges bound_editor = [studio_edge (js ''a'') (js ''b'')]"
    and sel: "ed_selectedId bound_editor = Some (js ''a'')"
    by (simp_all add: bound_editor_def initial_editor_def toReactFlow_def Let_def plain_node_def basic_node_def)
  have b: "onIdBlur (js ''c'') bound_editor = renameSelected (js ''c'') bound_editor"
    by (simp add: onIdBlur_def t selected_node_def otherIds_def idError_def n sel toReactFlow_def Let_def plain_node_def basic_node_def)
  show ?thesis
    unfolding b
    by (simp add: renameSelected_def sel e n toReactFlow_def Let_def rename_node_def plain_node_def basic_node_def)
qed

end
