(* ===== verification/Run_Overlay.thy ===== *)
theory Run_Overlay
  imports Canvas_Facts
begin

text \<open>
  The run view of the canvas. A run reports its nodes under fresh ids, so the client joins a
  canvas node with a run node by the type and the ordinal within the type:
  \<open>runOverlay.ts\<close>, with the pure helpers beside it, \<open>resolveSelection.ts\<close>, \<open>runEdges.ts\<close>,
  \<open>topologyUtils.ts\<close> and \<open>statusColor.ts\<close> (all under \<open>web/src/features/workflow-canvas\<close>).
\<close>

section \<open>The join by type and ordinal\<close>

definition overlay_layers :: "workflow_node list \<Rightarrow> graph_node list list" where
  "overlay_layers nodes = layerize (map (\<lambda>n. basic_graph_node (wn_id n) (wn_id n) (wn_type n) S_pending) nodes)
     [\<lparr>ge_from = wn_id n, ge_to = dep\<rparr>. n \<leftarrow> nodes, dep \<leftarrow> wn_dependsOn n]"

text \<open>The JavaScript maps keep insertion order: \<open>perType\<close> is an association list.\<close>

definition push_type :: "graph_node \<Rightarrow> (jsstr \<times> jsstr list) list \<Rightarrow> (jsstr \<times> jsstr list) list" where
  "push_type gn perType = AList.update (gn_type gn) (nullish (map_of perType (gn_type gn)) [] @ [gn_id gn]) perType"

definition put_ordinal :: "jsstr \<times> nat \<Rightarrow> (jsstr \<rightharpoonup> nat) \<Rightarrow> (jsstr \<rightharpoonup> nat)" where
  "put_ordinal p out = out(fst p \<mapsto> snd p)"

definition set_ordinals :: "jsstr list \<Rightarrow> (jsstr \<rightharpoonup> nat) \<Rightarrow> (jsstr \<rightharpoonup> nat)" where
  "set_ordinals ids out = fold put_ordinal (zip ids [0..<length ids]) out"

definition canvasOrdinals :: "workflow_node list \<Rightarrow> (jsstr \<rightharpoonup> nat)" where
  "canvasOrdinals nodes =
     (let perType = fold push_type (concat (overlay_layers nodes)) []
      in fold set_ordinals (map snd perType) Map.empty)"

definition ordinal_key :: "jsstr \<Rightarrow> nat \<Rightarrow> jsstr" where
  "ordinal_key t ordinal = t @ js ''#'' @ dec ordinal"

definition run_status_of :: "graph_node \<Rightarrow> run_node_status" where
  "run_status_of rn = \<lparr>rs_status = gn_status rn, rs_assetId = gn_assetId rn, rs_todoId = Some (gn_id rn),
     rs_output = gn_output rn, rs_outputFormat = gn_outputFormat rn, rs_items = gn_items rn\<rparr>"

definition run_step :: "graph_node \<Rightarrow> (jsstr \<rightharpoonup> nat) \<times> (jsstr \<rightharpoonup> run_node_status) \<Rightarrow> (jsstr \<rightharpoonup> nat) \<times> (jsstr \<rightharpoonup> run_node_status)" where
  "run_step rn = (\<lambda>(counters, out).
     let ordinal = nullish (counters (gn_type rn)) 0
     in (counters(gn_type rn \<mapsto> ordinal + 1), out(ordinal_key (gn_type rn) ordinal \<mapsto> run_status_of rn)))"

definition runByTypeOrdinal :: "project_state \<Rightarrow> (jsstr \<rightharpoonup> run_node_status)" where
  "runByTypeOrdinal st = snd (fold run_step (ps_nodes st) (Map.empty, Map.empty))"

definition overlay_put :: "(jsstr \<rightharpoonup> nat) \<Rightarrow> (jsstr \<rightharpoonup> run_node_status) \<Rightarrow> workflow_node \<Rightarrow>
    (jsstr \<rightharpoonup> run_node_status) \<Rightarrow> (jsstr \<rightharpoonup> run_node_status)" where
  "overlay_put ordinals runMap n out =
     (case ordinals (wn_id n) of
        None \<Rightarrow> out
      | Some ordinal \<Rightarrow>
          (case runMap (ordinal_key (wn_type n) ordinal) of
             None \<Rightarrow> out
           | Some run \<Rightarrow> out(wn_id n \<mapsto> run)))"

definition overlayRunStatus :: "workflow_node list \<Rightarrow> project_state \<Rightarrow> (jsstr \<rightharpoonup> run_node_status)" where
  "overlayRunStatus nodes st = fold (overlay_put (canvasOrdinals nodes) (runByTypeOrdinal st)) nodes Map.empty"

section \<open>Helpers of the run view\<close>

datatype run_selection =
  SelScript "jsstr option" "inspector_item list option"
| SelStoryboard "jsstr option" "inspector_item list option"
| SelAsset jsstr "inspector_item list option"
| SelCustom jsstr "output_format option" "inspector_item list option"
| SelGroup jsstr "jsstr option"

definition resolveSelection :: "jsstr \<Rightarrow> run_node_status option \<Rightarrow> run_selection option" where
  "resolveSelection nodeType entry =
     (case entry of
        None \<Rightarrow> None
      | Some e \<Rightarrow>
          if nodeType = js ''script'' then Some (SelScript (rs_todoId e) (rs_items e))
          else if nodeType = js ''storyboard'' then Some (SelStoryboard (rs_todoId e) (rs_items e))
          else if truthy (rs_assetId e) then Some (SelAsset (the (rs_assetId e)) (rs_items e))
          else if truthy (rs_output e) then Some (SelCustom (the (rs_output e)) (rs_outputFormat e) (rs_items e))
          else None)"

definition edge_active :: "(jsstr \<rightharpoonup> run_node_status) \<Rightarrow> bool \<Rightarrow> rf_edge \<Rightarrow> bool" where
  "edge_active overlay enabled e \<longleftrightarrow> enabled \<and>
     map_option rs_status (overlay (re_source e)) = Some S_done \<and>
     map_option rs_status (overlay (re_target e)) = Some S_running"

definition markActiveEdges :: "rf_edge list \<Rightarrow> (jsstr \<rightharpoonup> run_node_status) \<Rightarrow> bool \<Rightarrow> rf_edge list" where
  "markActiveEdges edges overlay enabled = map (\<lambda>e. e\<lparr>re_active := Some (edge_active overlay enabled e)\<rparr>) edges"

datatype layout_mode = LM_saved | LM_dir layout_direction
datatype focus_mode = FM_none | FM_failed | FM_running

record topology_settings =
  tp_layout :: layout_mode
  tp_fitOnUpdate :: bool
  tp_showTiming :: bool
  tp_flowAnimation :: bool
  tp_focus :: focus_mode
  tp_hideCompleted :: bool

definition DEFAULT_TOPOLOGY_SETTINGS :: topology_settings where
  "DEFAULT_TOPOLOGY_SETTINGS = \<lparr>tp_layout = LM_saved, tp_fitOnUpdate = True, tp_showTiming = False,
     tp_flowAnimation = True, tp_focus = FM_none, tp_hideCompleted = False\<rparr>"

definition computeNodeVisibility :: "graph_node_status \<Rightarrow> topology_settings \<Rightarrow> bool \<times> bool" where
  "computeNodeVisibility st s =
     (tp_hideCompleted s \<and> st = S_done,
      (case tp_focus s of FM_failed \<Rightarrow> st \<noteq> S_failed | FM_running \<Rightarrow> st \<noteq> S_running | FM_none \<Rightarrow> False))"

fun STATUS_VAR :: "graph_node_status \<Rightarrow> jsstr" where
  "STATUS_VAR S_done = js ''var(--review)''"
| "STATUS_VAR S_running = js ''var(--amber)''"
| "STATUS_VAR S_failed = js ''var(--danger)''"
| "STATUS_VAR S_pending = js ''var(--line)''"
| "STATUS_VAR S_blocked = js ''var(--line)''"

definition minimapStatusColor :: "graph_node_status option \<Rightarrow> jsstr" where
  "minimapStatusColor st = STATUS_VAR (nullish st S_pending)"

section \<open>The join is right\<close>

text \<open>The key \<open>type#ordinal\<close> determines type and ordinal, whatever the type contains: the digits
  after the last \<open>#\<close> are the ordinal.\<close>

lemma hash_not_digit: "35 \<notin> set (dec n)"
  using dec_digits by fastforce

lemma js_hash: "js ''#'' = [35]"
  by (simp add: js_def)

lemma ordinal_key_inject [simp]: "ordinal_key s i = ordinal_key t j \<longleftrightarrow> s = t \<and> i = j"
proof
  assume "ordinal_key s i = ordinal_key t j"
  then have e: "s @ 35 # dec i = t @ 35 # dec j" by (simp add: ordinal_key_def js_hash)
  from append_eq_append_conv2 [THEN iffD1, OF e] obtain us where
    "s = t @ us \<and> us @ 35 # dec i = 35 # dec j \<or> s @ us = t \<and> 35 # dec i = us @ 35 # dec j" by blast
  then show "s = t \<and> i = j"
  proof (cases us)
    case (Cons u vs)
    with e \<open>_ \<or> _\<close> have "vs @ 35 # dec i = dec j \<or> dec i = vs @ 35 # dec j" by auto
    then have "35 \<in> set (dec j) \<or> 35 \<in> set (dec i)" by (metis in_set_conv_decomp)
    then show ?thesis using hash_not_digit by blast
  qed auto
qed simp

text \<open>\<open>List.nth\<close> with a bound.\<close>

definition nth_opt :: "'a list \<Rightarrow> nat \<Rightarrow> 'a option" where
  "nth_opt xs i = (if i < length xs then Some (xs ! i) else None)"

lemma run_fold:
  "fold run_step ns (Map.empty, Map.empty) = (c, out) \<Longrightarrow>
     nullish (c t) 0 = length (filter (\<lambda>n. gn_type n = t) ns) \<and>
     out (ordinal_key t k) = map_option run_status_of (nth_opt (filter (\<lambda>n. gn_type n = t) ns) k)"
proof (induction ns arbitrary: c out t k rule: rev_induct)
  case Nil
  then show ?case by (auto simp: nth_opt_def)
next
  case (snoc n ns)
  obtain c0 out0 where f: "fold run_step ns (Map.empty, Map.empty) = (c0, out0)" by fastforce
  from snoc.prems f have "run_step n (c0, out0) = (c, out)" by simp
  then have c: "c = c0(gn_type n \<mapsto> nullish (c0 (gn_type n)) 0 + 1)"
    "out = out0(ordinal_key (gn_type n) (nullish (c0 (gn_type n)) 0) \<mapsto> run_status_of n)"
    by (auto simp: run_step_def Let_def)
  have IH: "nullish (c0 t) 0 = length (filter (\<lambda>n. gn_type n = t) ns)"
    "out0 (ordinal_key t k) = map_option run_status_of (nth_opt (filter (\<lambda>n. gn_type n = t) ns) k)" for t k
    using snoc.IH [OF f, of t k] by simp_all
  have one: "nullish (c t) 0 = length (filter (\<lambda>n. gn_type n = t) (ns @ [n]))"
    by (simp add: c(1) IH(1))
  have "out (ordinal_key t k) = map_option run_status_of (nth_opt (filter (\<lambda>n. gn_type n = t) (ns @ [n])) k)"
  proof (cases "t = gn_type n")
    case True
    show ?thesis
    proof (cases "k = length (filter (\<lambda>m. gn_type m = t) ns)")
      case True
      with \<open>t = gn_type n\<close> show ?thesis by (simp add: c(2) IH(1) nth_opt_def)
    next
      case False
      with \<open>t = gn_type n\<close> show ?thesis
        by (simp add: c(2) IH nth_opt_def nth_append less_Suc_eq)
    qed
  next
    case False
    then show ?thesis by (simp add: c(2) IH(2))
  qed
  with one show ?case by simp
qed

lemma runByTypeOrdinal_nth:
  "runByTypeOrdinal st (ordinal_key t k)
    = map_option run_status_of (nth_opt (filter (\<lambda>n. gn_type n = t) (ps_nodes st)) k)"
  using run_fold [of "ps_nodes st"] by (cases "fold run_step (ps_nodes st) (Map.empty, Map.empty)")
    (simp add: runByTypeOrdinal_def)

text \<open>\<open>perType\<close> holds, per type, the ids in layer order.\<close>

lemma push_type_fold:
  "map_of (fold push_type gns []) t = (let ids = map gn_id (filter (\<lambda>g. gn_type g = t) gns)
     in if ids = [] then None else Some ids) \<and> distinct (map fst (fold push_type gns []))"
proof (induction gns arbitrary: t rule: rev_induct)
  case Nil
  then show ?case by simp
next
  case (snoc g gns)
  let ?m = "fold push_type gns []"
  have m: "map_of ?m (gn_type g) = (let ids = map gn_id (filter (\<lambda>h. gn_type h = gn_type g) gns)
     in if ids = [] then None else Some ids)" "distinct (map fst ?m)"
    "map_of ?m t = (let ids = map gn_id (filter (\<lambda>h. gn_type h = t) gns) in if ids = [] then None else Some ids)"
    using snoc.IH by blast+
  have "map_of (push_type g ?m) t = (if t = gn_type g
      then Some (nullish (map_of ?m (gn_type g)) [] @ [gn_id g]) else map_of ?m t)"
    by (simp add: push_type_def update_conv')
  moreover have "nullish (map_of ?m (gn_type g)) [] = map gn_id (filter (\<lambda>h. gn_type h = gn_type g) gns)"
    by (simp add: m(1) Let_def)
  moreover have "distinct (map fst (push_type g ?m))"
    using distinct_update [OF m(2)] by (simp only: push_type_def)
  ultimately show ?case using m(3) by (auto simp: Let_def)
qed

lemma put_other: "i \<notin> fst ` set ps \<Longrightarrow> fold put_ordinal ps out i = out i"
  by (induction ps arbitrary: out) (auto simp: put_ordinal_def)

lemma put_mem: "distinct (map fst ps) \<Longrightarrow> (i, v) \<in> set ps \<Longrightarrow> fold put_ordinal ps out i = Some v"
proof (induction ps arbitrary: out)
  case Nil
  then show ?case by simp
next
  case (Cons p ps)
  show ?case
  proof (cases "p = (i, v)")
    case True
    with Cons.prems show ?thesis by (simp add: put_other) (simp add: put_ordinal_def)
  next
    case False
    with Cons show ?thesis by simp
  qed
qed

lemma set_ordinals_other: "i \<notin> set ids \<Longrightarrow> set_ordinals ids out i = out i"
proof -
  assume "i \<notin> set ids"
  then have "i \<notin> fst ` set (zip ids [0..<length ids])" by (auto dest: set_zip_leftD)
  then show ?thesis by (simp add: set_ordinals_def put_other)
qed

lemma set_ordinals_nth:
  assumes "distinct ids" and "k < length ids"
  shows "set_ordinals ids out (ids ! k) = Some k"
proof -
  have "(ids ! k, k) \<in> set (zip ids [0..<length ids])"
    using assms(2) by (auto simp: in_set_zip intro!: exI [of _ k])
  with assms(1) show ?thesis by (simp add: set_ordinals_def put_mem)
qed

lemma fold_set_ordinals:
  assumes "distinct (concat idss)" and "ids \<in> set idss" and "k < length ids"
  shows "fold set_ordinals idss out (ids ! k) = Some k"
  using assms
proof (induction idss arbitrary: out)
  case Nil
  then show ?case by simp
next
  case (Cons js idss)
  have other: "i \<notin> set (concat jss) \<Longrightarrow> fold set_ordinals jss out i = out i" for i jss out
    by (induction jss arbitrary: out) (simp_all add: set_ordinals_other)
  show ?case
  proof (cases "ids \<in> set idss")
    case True
    with Cons show ?thesis by simp
  next
    case False
    with Cons.prems have js: "ids = js" by simp
    have "ids ! k \<in> set js" using Cons.prems(3) js by simp
    with Cons.prems(1) have "ids ! k \<notin> set (concat idss)" by auto
    then have "fold set_ordinals (js # idss) out (ids ! k) = set_ordinals js out (ids ! k)"
      using other [of "ids ! k" idss] by simp
    with js Cons.prems show ?thesis by (simp add: set_ordinals_nth)
  qed
qed

text \<open>The rank of a canvas node: its position among the nodes of its type, in layer order.\<close>

definition layer_ids :: "workflow_node list \<Rightarrow> jsstr \<Rightarrow> jsstr list" where
  "layer_ids nodes t = map gn_id (filter (\<lambda>g. gn_type g = t) (concat (overlay_layers nodes)))"

lemma overlay_layers_mset:
  "mset (concat (overlay_layers nodes)) = mset (map (\<lambda>n. basic_graph_node (wn_id n) (wn_id n) (wn_type n) S_pending) nodes)"
  unfolding overlay_layers_def by (rule conjunct1 [OF layerize_mset])

lemma set_layer_ids: "set (layer_ids nodes t) = wn_id ` {n \<in> set nodes. wn_type n = t}"
  using arg_cong [OF overlay_layers_mset [of nodes], of set_mset]
  by (force simp: layer_ids_def image_iff)

lemma mset_layer_ids: "mset (map gn_id (concat (overlay_layers nodes))) = mset (map wn_id nodes)"
proof -
  have "mset (map gn_id (concat (overlay_layers nodes)))
      = image_mset gn_id (mset (map (\<lambda>n. basic_graph_node (wn_id n) (wn_id n) (wn_type n) S_pending) nodes))"
    by (metis overlay_layers_mset mset_map)
  then show ?thesis by (simp add: multiset.map_comp o_def)
qed

lemma canvasOrdinals_nth:
  assumes "distinct (map wn_id nodes)" and "k < length (layer_ids nodes t)"
  shows "canvasOrdinals nodes (layer_ids nodes t ! k) = Some k"
proof -
  let ?flat = "concat (overlay_layers nodes)"
  let ?m = "fold push_type ?flat []"
  have flat: "distinct (map gn_id ?flat)"
    using assms(1) mset_layer_ids [of nodes] by (metis distinct_count_atmost_1 mset_eq_imp_distinct_iff)
  have keys: "distinct (map fst ?m)" using push_type_fold by blast
  have vals: "ids = layer_ids nodes u" if "(u, ids) \<in> set ?m" for u ids
    using push_type_fold [of ?flat u] map_of_is_SomeI [OF keys that] 
    by (simp add: layer_ids_def Let_def split: if_splits)
  have mem: "layer_ids nodes t \<in> set (map snd ?m)"
  proof -
    have "layer_ids nodes t \<noteq> []" using assms(2) by auto
    then have "map_of ?m t = Some (layer_ids nodes t)"
      using push_type_fold [of ?flat t] by (simp add: layer_ids_def Let_def)
    then show ?thesis by (metis image_eqI list.set_map map_of_SomeD snd_conv)
  qed
  have "distinct (concat (map snd ps))"
    if "distinct (map fst ps)" "\<And>u ids. (u, ids) \<in> set ps \<Longrightarrow> ids = layer_ids nodes u" for ps
    using that
  proof (induction ps)
    case Nil
    then show ?case by simp
  next
    case (Cons p ps)
    obtain u ids where p: "p = (u, ids)" by fastforce
    have d: "distinct (layer_ids nodes u)" for u
      unfolding layer_ids_def by (rule distinct_map_filter [OF flat])
    have "set ids \<inter> set (concat (map snd ps)) = {}"
    proof (rule ccontr)
      assume "set ids \<inter> set (concat (map snd ps)) \<noteq> {}"
      then obtain i q where q: "i \<in> set ids" "q \<in> set ps" "i \<in> set (snd q)" by auto
      obtain v js where v: "q = (v, js)" by fastforce
      then have "i \<in> set (layer_ids nodes u)" "i \<in> set (layer_ids nodes v)"
        using q Cons.prems(2) [of u ids] Cons.prems(2) [of v js] p by auto
      then obtain n m where "n \<in> set nodes" "m \<in> set nodes" "wn_id n = i" "wn_id m = i" "wn_type n = u" "wn_type m = v"
        unfolding set_layer_ids by auto
      with assms(1) have "u = v" by (metis distinct_map inj_onD)
      with Cons.prems(1) q v p show False by force
    qed
    moreover have "distinct ids" using d Cons.prems(2) [of u ids] p by simp
    ultimately show ?case using Cons p by simp
  qed
  from this [OF keys vals] have "distinct (concat (map snd ?m))" by blast
  from fold_set_ordinals [OF this mem assms(2)] show ?thesis by (simp add: canvasOrdinals_def Let_def)
qed

lemma overlay_fold:
  assumes "distinct (map wn_id ns)"
  shows "fold (overlay_put ordinals runMap) ns out i =
    (case find (\<lambda>n. wn_id n = i) ns of
       None \<Rightarrow> out i
     | Some n \<Rightarrow> (case Option.bind (ordinals i) (\<lambda>k. runMap (ordinal_key (wn_type n) k)) of None \<Rightarrow> out i | Some r \<Rightarrow> Some r))"
  using assms
proof (induction ns arbitrary: out)
  case Nil
  then show ?case by simp
next
  case (Cons n ns)
  have none: "find (\<lambda>m. wn_id m = wn_id n) ns = None"
    using Cons.prems by (auto simp: find_None_iff) (metis image_eqI)
  show ?case
  proof (cases "wn_id n = i")
    case True
    with Cons none show ?thesis by (auto simp: overlay_put_def split: option.split)
  next
    case False
    with Cons show ?thesis by (auto simp: overlay_put_def split: option.split)
  qed
qed

lemma overlay_at:
  assumes "distinct (map wn_id nodes)" and "k < length (layer_ids nodes t)"
  shows "overlayRunStatus nodes st (layer_ids nodes t ! k)
    = map_option run_status_of (nth_opt (filter (\<lambda>r. gn_type r = t) (ps_nodes st)) k)"
proof -
  let ?i = "layer_ids nodes t ! k"
  have "?i \<in> set (layer_ids nodes t)" using assms(2) by simp
  then obtain n where n: "n \<in> set nodes" "wn_id n = ?i" "wn_type n = t" unfolding set_layer_ids by auto
  with find_distinct_key [OF assms(1)] have "find (\<lambda>m. wn_id m = ?i) nodes = Some n" by metis
  then show ?thesis
    using n(3) by (simp add: overlayRunStatus_def overlay_fold [OF assms(1)] canvasOrdinals_nth [OF assms]
        runByTypeOrdinal_nth split: option.split)
qed

lemma overlay_other: "i \<notin> wn_id ` set nodes \<Longrightarrow> distinct (map wn_id nodes) \<Longrightarrow> overlayRunStatus nodes st i = None"
  by (auto simp: overlayRunStatus_def overlay_fold find_None_iff split: option.split dest!: find_SomeD)

text \<open>Two canvas nodes never share a run node.\<close>

lemma overlay_inj:
  assumes ids: "distinct (map wn_id nodes)" and runs: "distinct (map gn_id (ps_nodes st))"
    and a: "overlayRunStatus nodes st i = Some r" and b: "overlayRunStatus nodes st j = Some s"
    and same: "rs_todoId r = rs_todoId s"
  shows "i = j"
proof -
  have pos: "\<exists>t k rn. k < length (layer_ids nodes t) \<and> i = layer_ids nodes t ! k \<and>
      nth_opt (filter (\<lambda>r. gn_type r = t) (ps_nodes st)) k = Some rn \<and> r = run_status_of rn"
    if "overlayRunStatus nodes st i = Some r" for i r
  proof -
    have "i \<in> wn_id ` set nodes" using overlay_other [OF _ ids, of i st] that by (metis option.distinct(1))
    then obtain n where n: "n \<in> set nodes" "i = wn_id n" by auto
    then have "i \<in> set (layer_ids nodes (wn_type n))" by (auto simp: set_layer_ids)
    then obtain k where k: "k < length (layer_ids nodes (wn_type n))" "i = layer_ids nodes (wn_type n) ! k"
      by (metis in_set_conv_nth)
    with overlay_at [OF ids k(1), of st] that show ?thesis by auto
  qed
  from pos [OF a] obtain t k rn where t: "k < length (layer_ids nodes t)" "i = layer_ids nodes t ! k"
    "nth_opt (filter (\<lambda>r. gn_type r = t) (ps_nodes st)) k = Some rn" "r = run_status_of rn" by blast
  from pos [OF b] obtain u l sn where u: "l < length (layer_ids nodes u)" "j = layer_ids nodes u ! l"
    "nth_opt (filter (\<lambda>r. gn_type r = u) (ps_nodes st)) l = Some sn" "s = run_status_of sn" by blast
  have mem: "rn \<in> set (ps_nodes st)" "gn_type rn = t" "sn \<in> set (ps_nodes st)" "gn_type sn = u"
    using t(3) u(3) nth_mem by (fastforce simp: nth_opt_def split: if_splits)+
  have "gn_id rn = gn_id sn" using same t(4) u(4) by (simp add: run_status_of_def)
  with runs mem have "rn = sn" by (metis distinct_map inj_onD)
  with mem have tu: "t = u" by simp
  have "distinct (filter (\<lambda>r. gn_type r = t) (ps_nodes st))" using runs by (simp add: distinct_map)
  with t(3) u(3) \<open>rn = sn\<close> tu have "k = l" by (auto simp: nth_opt_def nth_eq_iff_index_eq split: if_splits)
  with t(2) u(2) tu show ?thesis by simp
qed

section \<open>Properties\<close>

text \<open>C14: the run status is joined correctly: the \<open>k\<close>-th canvas node of a type, in layer order,
  gets the \<open>k\<close>-th run node of that type, or nothing when the run has fewer; and no two canvas
  nodes show the same run node.\<close>

theorem overlay_join_correct:
  assumes "distinct (map wn_id nodes)" and "distinct (map gn_id (ps_nodes st))"
  shows "(\<Union>t. set (layer_ids nodes t)) = wn_id ` set nodes \<and>
    map (overlayRunStatus nodes st) (layer_ids nodes t)
      = map (\<lambda>k. map_option run_status_of (nth_opt (filter (\<lambda>r. gn_type r = t) (ps_nodes st)) k)) [0..<length (layer_ids nodes t)] \<and>
    dom (overlayRunStatus nodes st) \<subseteq> wn_id ` set nodes \<and>
    inj_on (\<lambda>i. rs_todoId (the (overlayRunStatus nodes st i))) (dom (overlayRunStatus nodes st))"
proof (intro conjI)
  show "(\<Union>t. set (layer_ids nodes t)) = wn_id ` set nodes" by (auto simp: set_layer_ids)
  show "map (overlayRunStatus nodes st) (layer_ids nodes t)
      = map (\<lambda>k. map_option run_status_of (nth_opt (filter (\<lambda>r. gn_type r = t) (ps_nodes st)) k)) [0..<length (layer_ids nodes t)]"
    by (rule nth_equalityI) (simp_all add: overlay_at [OF assms(1)])
  show "dom (overlayRunStatus nodes st) \<subseteq> wn_id ` set nodes"
  proof
    fix x
    assume "x \<in> dom (overlayRunStatus nodes st)"
    then show "x \<in> wn_id ` set nodes" using overlay_other [OF _ assms(1), of x st] by (metis domD option.distinct(1))
  qed
  show "inj_on (\<lambda>i. rs_todoId (the (overlayRunStatus nodes st i))) (dom (overlayRunStatus nodes st))"
  proof (rule inj_onI)
    fix i j
    assume "i \<in> dom (overlayRunStatus nodes st)" "j \<in> dom (overlayRunStatus nodes st)"
      "rs_todoId (the (overlayRunStatus nodes st i)) = rs_todoId (the (overlayRunStatus nodes st j))"
    then show "i = j" using overlay_inj [OF assms] by (metis domD option.sel)
  qed
qed

definition small_run :: project_state where
  "small_run = \<lparr>ps_projectId = [], ps_version = 1, ps_status = PS_running, ps_runStatus = R_running, ps_plan = None,
     ps_stages = [], ps_pips = [], ps_assets = \<lparr>as_total = 0, as_done = 0, as_failed = None, as_pending = 0\<rparr>,
     ps_error = None, ps_nodes = [basic_graph_node (js ''t1'') [] (js ''script'') S_done,
       basic_graph_node (js ''t2'') [] (js ''script'') S_running], ps_edges = [], ps_isCustom = True\<rparr>"

theorem overlay_join_correct_witness:
  "inj_on (\<lambda>i. rs_todoId (the (overlayRunStatus [plain_node (js ''a'') [], plain_node (js ''b'') [js ''a'']] small_run i)))
     (dom (overlayRunStatus [plain_node (js ''a'') [], plain_node (js ''b'') [js ''a'']] small_run))"
  by (rule overlay_join_correct [THEN conjunct2, THEN conjunct2, THEN conjunct2])
    (simp_all add: plain_node_def small_run_def)

text \<open>The active edges are those from a finished to a running node, and marking changes nothing
  else.\<close>

lemma markActiveEdges_ends:
  "edge_rel (markActiveEdges es overlay enabled) = edge_rel es" "map re_id (markActiveEdges es overlay enabled) = map re_id es"
  by (simp_all add: markActiveEdges_def edge_rel_def image_image)

end
