(* ===== verification/JS_Number.thy ===== *)
theory JS_Number
  imports Prelude
begin

text \<open>
  \<open>Number(s)\<close> on strings: the grammar of numeric literals in strings, with its sign, decimal
  point, exponent, \<open>Infinity\<close> and the hexadecimal, octal and binary prefixes. Finite values
  are exact rationals: the rounding to 64-bit floating point is not modelled.
\<close>

datatype js_number = Num rat | Inf bool | NaN

definition is_digit :: "nat \<Rightarrow> bool" where
  "is_digit c \<longleftrightarrow> 48 \<le> c \<and> c \<le> 57"

definition digits_value :: "nat \<Rightarrow> nat list \<Rightarrow> nat" where
  "digits_value b ds = foldl (\<lambda>a d. b * a + d) 0 ds"

text \<open>The digit a code unit denotes, in the bases up to 16.\<close>

definition digit_value :: "nat \<Rightarrow> nat option" where
  "digit_value c =
     (if 48 \<le> c \<and> c \<le> 57 then Some (c - 48)
      else if 97 \<le> c \<and> c \<le> 102 then Some (c - 87)
      else if 65 \<le> c \<and> c \<le> 70 then Some (c - 55)
      else None)"

definition parse_radix :: "nat \<Rightarrow> jsstr \<Rightarrow> js_number" where
  "parse_radix b s =
     (if s \<noteq> [] \<and> list_all (\<lambda>c. case digit_value c of None \<Rightarrow> False | Some d \<Rightarrow> d < b) s
      then Num (of_nat (digits_value b (map (\<lambda>c. the (digit_value c)) s))) else NaN)"

definition parse_exponent :: "jsstr \<Rightarrow> int option" where
  "parse_exponent s = (case s of
       [] \<Rightarrow> Some 0
     | e # r \<Rightarrow>
         if e \<noteq> 101 \<and> e \<noteq> 69 then None
         else (let neg = (r \<noteq> [] \<and> hd r = 45);
                   ds = (if r \<noteq> [] \<and> (hd r = 45 \<or> hd r = 43) then tl r else r)
               in if ds \<noteq> [] \<and> list_all is_digit ds
                  then Some (if neg then - int (undec ds) else int (undec ds)) else None))"

definition scale10 :: "rat \<Rightarrow> int \<Rightarrow> rat" where
  "scale10 v e = (if 0 \<le> e then v * 10 ^ nat e else v / 10 ^ nat (- e))"

definition parse_unsigned :: "jsstr \<Rightarrow> js_number" where
  "parse_unsigned s =
     (if s = js ''Infinity'' then Inf True
      else (let i = takeWhile is_digit s; r = dropWhile is_digit s;
                dot = (r \<noteq> [] \<and> hd r = 46);
                f = (if dot then takeWhile is_digit (tl r) else []);
                r' = (if dot then dropWhile is_digit (tl r) else r)
            in if i = [] \<and> f = [] then NaN
               else (case parse_exponent r' of
                   None \<Rightarrow> NaN
                 | Some e \<Rightarrow> Num (scale10 (of_nat (undec (i @ f))) (e - int (length f))))))"

fun negate :: "js_number \<Rightarrow> js_number" where
  "negate (Num v) = Num (- v)"
| "negate (Inf p) = Inf (\<not> p)"
| "negate NaN = NaN"

definition to_number :: "jsstr \<Rightarrow> js_number" where
  "to_number str =
     (let s = trim str in
      if s = [] then Num 0
      else if startsWith s [48, 120] \<or> startsWith s [48, 88] then parse_radix 16 (drop 2 s)
      else if startsWith s [48, 111] \<or> startsWith s [48, 79] then parse_radix 8 (drop 2 s)
      else if startsWith s [48, 98] \<or> startsWith s [48, 66] then parse_radix 2 (drop 2 s)
      else if hd s = 45 then negate (parse_unsigned (tl s))
      else if hd s = 43 then parse_unsigned (tl s)
      else parse_unsigned s)"

lemma trim_id: "s \<noteq> [] \<Longrightarrow> \<not> is_ws (hd s) \<Longrightarrow> \<not> is_ws (last s) \<Longrightarrow> trim s = s"
proof -
  assume s: "s \<noteq> []" "\<not> is_ws (hd s)" "\<not> is_ws (last s)"
  then have "dropWhile is_ws s = s" by (cases s) simp_all
  moreover have "dropWhile is_ws (rev s) = rev s" using s(1,3) by (cases s rule: rev_cases) simp_all
  ultimately show ?thesis by (simp add: trim_def)
qed

lemma digit_not_ws: "48 \<le> c \<Longrightarrow> c \<le> 57 \<Longrightarrow> \<not> is_ws c"
  by (auto simp: is_ws_def)

text \<open>The text of a natural number denotes it.\<close>

lemma to_number_dec: "to_number (dec n) = Num (of_nat n)"
proof -
  have dig: "list_all is_digit (dec n)"
    by (auto simp: list_all_iff is_digit_def dest: dec_digits)
  have hl: "48 \<le> hd (dec n)" "hd (dec n) \<le> 57" "48 \<le> last (dec n)" "last (dec n) \<le> 57"
    using dec_digits [of _ n] by simp_all
  then have trim: "trim (dec n) = dec n" by (intro trim_id) (simp_all add: digit_not_ws)
  have tw: "takeWhile is_digit (dec n) = dec n" "dropWhile is_digit (dec n) = []"
    using dig by (simp_all add: takeWhile_eq_all_conv dropWhile_eq_Nil_conv list_all_iff)
  have no_prefix: "\<not> startsWith (dec n) [48, c]" if "c > 57" for c
  proof
    assume "startsWith (dec n) [48, c]"
    then have "c \<in> set (dec n)" by (auto simp: startsWith_iff)
    with dec_digits [of c n] that show False by simp
  qed
  have "dec n \<noteq> js ''Infinity''"
  proof
    assume "dec n = js ''Infinity''"
    then have "hd (dec n) = 73" by (simp add: js_def)
    with hl show False by simp
  qed
  then have "parse_unsigned (dec n) = Num (of_nat n)"
    by (simp add: parse_unsigned_def Let_def tw parse_exponent_def scale10_def undec_dec)
  with hl no_prefix trim show ?thesis by (simp add: to_number_def Let_def)
qed

end
