(* ===== verification/JS_Object.thy ===== *)
theory JS_Object
  imports Prelude
begin

text \<open>
  JavaScript objects used as dictionaries (\<open>Record<string, T>\<close>): an association list with
  distinct keys in the order in which \<open>Object.keys\<close>, \<open>Object.entries\<close> and the spread operator
  list them, which is array indices in ascending order, then the other keys in the order of
  their insertion. \<open>obj_put\<close> is the assignment \<open>o[k] = v\<close>. The members inherited from
  \<open>Object.prototype\<close> (a key \<open>__proto__\<close>, or reading a missing \<open>constructor\<close>) are not modelled.
\<close>

type_synonym 'v obj = "(jsstr \<times> 'v) list"

text \<open>The array index a key denotes, if it is the canonical text of one.\<close>

definition array_index :: "jsstr \<Rightarrow> nat option" where
  "array_index k =
     (if k \<noteq> [] \<and> list_all (\<lambda>c. 48 \<le> c \<and> c \<le> 57) k \<and> (k = [48] \<or> hd k \<noteq> 48)
         \<and> undec k < 2 ^ 32 - 1
      then Some (undec k) else None)"

text \<open>Where a new key goes.\<close>

fun ins_index :: "nat \<Rightarrow> jsstr \<Rightarrow> 'v \<Rightarrow> 'v obj \<Rightarrow> 'v obj" where
  "ins_index n k v [] = [(k, v)]"
| "ins_index n k v ((k', v') # ob) =
     (case array_index k' of
        None \<Rightarrow> (k, v) # (k', v') # ob
      | Some m \<Rightarrow> if n < m then (k, v) # (k', v') # ob else (k', v') # ins_index n k v ob)"

definition ins_key :: "jsstr \<Rightarrow> 'v \<Rightarrow> 'v obj \<Rightarrow> 'v obj" where
  "ins_key k v ob = (case array_index k of None \<Rightarrow> ob @ [(k, v)] | Some n \<Rightarrow> ins_index n k v ob)"

fun overwrite :: "jsstr \<Rightarrow> 'v \<Rightarrow> 'v obj \<Rightarrow> 'v obj" where
  "overwrite k v [] = []"
| "overwrite k v ((k', v') # ob) =
     (if k' = k then (k, v) # ob else (k', v') # overwrite k v ob)"

definition obj_put :: "jsstr \<Rightarrow> 'v \<Rightarrow> 'v obj \<Rightarrow> 'v obj" where
  "obj_put k v ob =
     (if k \<in> fst ` set ob then overwrite k v ob else ins_key k v ob)"

definition obj_get :: "'v obj \<Rightarrow> jsstr \<Rightarrow> 'v option" where
  "obj_get = map_of"

abbreviation obj_keys :: "'v obj \<Rightarrow> jsstr list" where
  "obj_keys ob \<equiv> map fst ob"

abbreviation obj_values :: "'v obj \<Rightarrow> 'v list" where
  "obj_values ob \<equiv> map snd ob"

lemma set_ins_index: "set (ins_index n k v ob) = insert (k, v) (set ob)"
  by (induction n k v ob rule: ins_index.induct) (auto split: option.split)

lemma set_ins_key: "set (ins_key k v ob) = insert (k, v) (set ob)"
  by (auto simp: ins_key_def set_ins_index split: option.split)

lemma get_ins_index: "k \<notin> fst ` set ob \<Longrightarrow> obj_get (ins_index n k v ob) = (obj_get ob)(k \<mapsto> v)"
  by (induction n k v ob rule: ins_index.induct) (auto simp: obj_get_def split: option.split)

lemma get_ins_key: "k \<notin> fst ` set ob \<Longrightarrow> obj_get (ins_key k v ob) = (obj_get ob)(k \<mapsto> v)"
proof (cases "array_index k")
  case None
  assume "k \<notin> fst ` set ob"
  then have "map_of ob k = None" by (simp add: map_of_eq_None_iff)
  with None show ?thesis
    by (auto simp: ins_key_def obj_get_def map_add_def fun_eq_iff split: option.split)
next
  case (Some n)
  assume "k \<notin> fst ` set ob"
  with Some show ?thesis by (simp add: ins_key_def get_ins_index)
qed

text \<open>Assignment is the update of the map, keeps the keys distinct, and a present key keeps its
  place.\<close>

lemma get_overwrite: "k \<in> fst ` set ob \<Longrightarrow> map_of (overwrite k v ob) = (map_of ob)(k \<mapsto> v)"
proof (induction k v ob rule: overwrite.induct)
  case (2 k v k' v' ob)
  then show ?case by (cases "k' = k") (simp_all add: fun_eq_iff)
qed simp

lemma overwrite_keys: "obj_keys (overwrite k v ob) = obj_keys ob"
  by (induction k v ob rule: overwrite.induct) auto

lemma obj_get_put [simp]: "obj_get (obj_put k v ob) = (obj_get ob)(k \<mapsto> v)"
proof (cases "k \<in> fst ` set ob")
  case True
  then show ?thesis by (auto simp: obj_put_def obj_get_def get_overwrite)
next
  case False
  then show ?thesis by (simp add: obj_put_def get_ins_key)
qed

lemma obj_get_Nil [simp]: "obj_get [] = Map.empty"
  by (simp add: obj_get_def)

lemma obj_put_keys: "set (obj_keys (obj_put k v ob)) = insert k (set (obj_keys ob))"
proof (cases "k \<in> fst ` set ob")
  case True
  then have "obj_keys (obj_put k v ob) = obj_keys ob"
    by (simp add: obj_put_def overwrite_keys)
  moreover from True have "k \<in> set (obj_keys ob)" by simp
  ultimately show ?thesis by (simp only: insert_absorb)
next
  case False
  then show ?thesis by (simp add: obj_put_def set_ins_key)
qed

lemma distinct_ins_index:
  "distinct (obj_keys ob) \<Longrightarrow> k \<notin> fst ` set ob \<Longrightarrow> distinct (obj_keys (ins_index n k v ob))"
  by (induction n k v ob rule: ins_index.induct)
    (auto simp: set_ins_index image_iff split: option.split)

lemma distinct_obj_put: "distinct (obj_keys ob) \<Longrightarrow> distinct (obj_keys (obj_put k v ob))"
proof (cases "k \<in> fst ` set ob")
  case True
  assume "distinct (obj_keys ob)"
  moreover from True have "obj_keys (obj_put k v ob) = obj_keys ob"
    by (simp add: obj_put_def overwrite_keys)
  ultimately show ?thesis by (simp only:)
next
  case False
  assume "distinct (obj_keys ob)"
  with False show ?thesis
    by (auto simp: obj_put_def ins_key_def distinct_ins_index image_iff split: option.split)
qed

text \<open>Filling an object from a list of pairs: \<open>for (...) out[k] = v\<close>.\<close>

fun obj_fill :: "(jsstr \<times> 'v) list \<Rightarrow> 'v obj \<Rightarrow> 'v obj" where
  "obj_fill [] ob = ob"
| "obj_fill ((k, v) # ps) ob = obj_fill ps (obj_put k v ob)"

lemma obj_get_fill: "obj_get (obj_fill ps ob) = obj_get ob ++ map_of (rev ps)"
proof (induction ps ob rule: obj_fill.induct)
  case (2 k v ps ob)
  have "obj_get (obj_fill ((k, v) # ps) ob) = (obj_get ob)(k \<mapsto> v) ++ map_of (rev ps)"
    unfolding obj_fill.simps 2 obj_get_put ..
  then show ?case by (auto simp: map_add_def fun_eq_iff split: option.split)
qed simp

lemma distinct_obj_fill: "distinct (obj_keys ob) \<Longrightarrow> distinct (obj_keys (obj_fill ps ob))"
  by (induction ps ob rule: obj_fill.induct) (auto simp: distinct_obj_put)

lemma obj_fill_append: "obj_fill (ps @ qs) ob = obj_fill qs (obj_fill ps ob)"
  by (induction ps ob rule: obj_fill.induct) auto

lemma obj_fill_keys: "set (obj_keys (obj_fill ps ob)) = set (map fst ps) \<union> set (obj_keys ob)"
proof (induction ps ob rule: obj_fill.induct)
  case (2 k v ps ob)
  then show ?case using obj_put_keys [of k v ob] by auto
qed simp

text \<open>Filling with fresh keys that are no array indices appends.\<close>

lemma obj_put_append:
  "array_index k = None \<Longrightarrow> k \<notin> fst ` set ob \<Longrightarrow> obj_put k v ob = ob @ [(k, v)]"
  by (simp add: obj_put_def ins_key_def)

lemma obj_fill_fresh:
  "distinct (map fst ps) \<Longrightarrow> set (map fst ps) \<inter> fst ` set ob = {}
    \<Longrightarrow> list_all (\<lambda>p. array_index (fst p) = None) ps \<Longrightarrow> obj_fill ps ob = ob @ ps"
proof (induction ps ob rule: obj_fill.induct)
  case (2 k v ps ob)
  then have "obj_put k v ob = ob @ [(k, v)]" by (intro obj_put_append) auto
  with 2 show ?case by auto
qed simp

end
