(* ===== verification/JS_JSON.thy ===== *)
theory JS_JSON
  imports Wire_Types JS_Number JS_Object
begin

text \<open>
  \<open>JSON.parse\<close> and \<open>JSON.stringify\<close> on the values of \<open>json\<close>. The parser follows the grammar of
  the standard; an object is filled key by key, so a repeated key keeps its place and takes the
  last value. It recurses under a fuel of twice the length of the text plus two, which is shown
  to be enough for every text \<open>JSON.stringify\<close> writes. Numbers are exact rationals; the text of
  a number that is no integer below \<open>10^21\<close> is an argument of \<open>JSON_stringify\<close>.
\<close>

section \<open>Writing\<close>

definition hex_lower :: "nat \<Rightarrow> nat" where
  "hex_lower d = (if d < 10 then 48 + d else 87 + d)"

definition unicode_escape :: "nat \<Rightarrow> jsstr" where
  "unicode_escape c = [92, 117, hex_lower (c div 4096), hex_lower (c div 256 mod 16),
     hex_lower (c div 16 mod 16), hex_lower (c mod 16)]"

definition short_escapes :: "(nat \<times> nat) list" where
  "short_escapes = [(8, 98), (9, 116), (10, 110), (12, 102), (13, 114), (34, 34), (92, 92)]"

definition high_surrogate :: "nat \<Rightarrow> bool" where
  "high_surrogate c \<longleftrightarrow> 0xD800 \<le> c \<and> c \<le> 0xDBFF"

definition low_surrogate :: "nat \<Rightarrow> bool" where
  "low_surrogate c \<longleftrightarrow> 0xDC00 \<le> c \<and> c \<le> 0xDFFF"

definition quote_unit :: "nat \<Rightarrow> jsstr" where
  "quote_unit c = (case map_of short_escapes c of
       Some e \<Rightarrow> [92, e]
     | None \<Rightarrow> if c < 32 \<or> high_surrogate c \<or> low_surrogate c then unicode_escape c else [c])"

text \<open>A surrogate pair stays as it is, a lone surrogate is escaped.\<close>

fun quote_units :: "jsstr \<Rightarrow> jsstr" where
  "quote_units (h # l # s) =
     (if high_surrogate h \<and> low_surrogate l then h # l # quote_units s
      else quote_unit h @ quote_units (l # s))"
| "quote_units [c] = quote_unit c"
| "quote_units [] = []"

definition quote_string :: "jsstr \<Rightarrow> jsstr" where
  "quote_string s = 34 # quote_units s @ [34]"

fun comma_join :: "jsstr list \<Rightarrow> jsstr" where
  "comma_join [] = []"
| "comma_join [x] = x"
| "comma_join (x # y # xs) = x @ 44 # comma_join (y # xs)"

definition plain_int :: "rat \<Rightarrow> bool" where
  "plain_int q \<longleftrightarrow> of_int \<lfloor>q\<rfloor> = q \<and> \<bar>q\<bar> < 10 ^ 21"

definition number_text :: "(rat \<Rightarrow> jsstr) \<Rightarrow> rat \<Rightarrow> jsstr" where
  "number_text ftext q =
     (if plain_int q then (if q < 0 then 45 # dec (nat (- \<lfloor>q\<rfloor>)) else dec (nat \<lfloor>q\<rfloor>)) else ftext q)"

fun JSON_stringify :: "(rat \<Rightarrow> jsstr) \<Rightarrow> json \<Rightarrow> jsstr" where
  "JSON_stringify ftext JNull = js ''null''"
| "JSON_stringify ftext (JBool b) = (if b then js ''true'' else js ''false'')"
| "JSON_stringify ftext (JNum q) = number_text ftext q"
| "JSON_stringify ftext (JStr s) = quote_string s"
| "JSON_stringify ftext (JArr vs) = 91 # comma_join (map (JSON_stringify ftext) vs) @ [93]"
| "JSON_stringify ftext (JObj kvs) =
     123 # comma_join (map (\<lambda>kv. quote_string (fst kv) @ 58 # JSON_stringify ftext (snd kv)) kvs) @ [125]"

section \<open>Reading\<close>

definition json_ws :: "nat \<Rightarrow> bool" where
  "json_ws c \<longleftrightarrow> c \<in> {9, 10, 13, 32}"

abbreviation skip :: "jsstr \<Rightarrow> jsstr" where
  "skip \<equiv> dropWhile json_ws"

definition unescape :: "nat \<Rightarrow> nat option" where
  "unescape e = (if e = 47 then Some 47 else map_of (map (\<lambda>p. (snd p, fst p)) short_escapes) e)"

definition hex4 :: "nat \<Rightarrow> nat \<Rightarrow> nat \<Rightarrow> nat \<Rightarrow> nat option" where
  "hex4 a b c d = (case (digit_value a, digit_value b, digit_value c, digit_value d) of
       (Some w, Some x, Some y, Some z) \<Rightarrow> Some (4096 * w + 256 * x + 16 * y + z)
     | _ \<Rightarrow> None)"

definition cons_fst :: "'a \<Rightarrow> ('a list \<times> 's) option \<Rightarrow> ('a list \<times> 's) option" where
  "cons_fst x = map_option (\<lambda>(xs, r). (x # xs, r))"

text \<open>The characters of a string up to the closing quote.\<close>

fun json_chars :: "jsstr \<Rightarrow> (jsstr \<times> jsstr) option" where
  "json_chars [] = None"
| "json_chars (c # s) =
     (if c = 34 then Some ([], s)
      else if c < 32 then None
      else if c \<noteq> 92 then cons_fst c (json_chars s)
      else (case s of
          [] \<Rightarrow> None
        | e # t \<Rightarrow>
            if e = 117 then
              (case t of
                 h1 # h2 # h3 # h4 # u \<Rightarrow>
                   (case hex4 h1 h2 h3 h4 of None \<Rightarrow> None | Some x \<Rightarrow> cons_fst x (json_chars u))
               | _ \<Rightarrow> None)
            else (case unescape e of None \<Rightarrow> None | Some x \<Rightarrow> cons_fst x (json_chars t))))"

text \<open>A number: sign, digits without a leading zero, fraction, exponent.\<close>

definition json_unsigned :: "bool \<Rightarrow> jsstr \<Rightarrow> (json \<times> jsstr) option" where
  "json_unsigned neg s1 =
     (let i = takeWhile is_digit s1; s2 = dropWhile is_digit s1;
          dot = (s2 \<noteq> [] \<and> hd s2 = 46);
          f = (if dot then takeWhile is_digit (tl s2) else []);
          s3 = (if dot then dropWhile is_digit (tl s2) else s2);
          ex = (s3 \<noteq> [] \<and> (hd s3 = 101 \<or> hd s3 = 69));
          s4 = (if ex then tl s3 else s3);
          eneg = (ex \<and> s4 \<noteq> [] \<and> hd s4 = 45);
          s5 = (if ex \<and> s4 \<noteq> [] \<and> (hd s4 = 45 \<or> hd s4 = 43) then tl s4 else s4);
          e = (if ex then takeWhile is_digit s5 else []);
          s6 = (if ex then dropWhile is_digit s5 else s5);
          v = scale10 (of_nat (undec (i @ f))) ((if eneg then - 1 else 1) * int (undec e) - int (length f))
      in if i = [] \<or> (hd i = 48 \<and> length i > 1) \<or> (dot \<and> f = []) \<or> (ex \<and> e = []) then None
         else Some (JNum (if neg then - v else v), s6))"

definition json_number :: "jsstr \<Rightarrow> (json \<times> jsstr) option" where
  "json_number s =
     (if s \<noteq> [] \<and> hd s = 45 then json_unsigned True (tl s) else json_unsigned False s)"

fun json_value :: "nat \<Rightarrow> jsstr \<Rightarrow> (json \<times> jsstr) option"
  and json_items :: "nat \<Rightarrow> jsstr \<Rightarrow> (json list \<times> jsstr) option"
  and json_members :: "nat \<Rightarrow> jsstr \<Rightarrow> ((jsstr \<times> json) list \<times> jsstr) option" where
  "json_value 0 s = None"
| "json_value (Suc n) s =
     (case skip s of
        [] \<Rightarrow> None
      | c # r \<Rightarrow>
          if c = 123 then
            (if skip r \<noteq> [] \<and> hd (skip r) = 125 then Some (JObj [], tl (skip r))
             else map_option (\<lambda>(kvs, t). (JObj (obj_fill kvs []), t)) (json_members n r))
          else if c = 91 then
            (if skip r \<noteq> [] \<and> hd (skip r) = 93 then Some (JArr [], tl (skip r))
             else map_option (\<lambda>(vs, t). (JArr vs, t)) (json_items n r))
          else if c = 34 then map_option (\<lambda>(x, t). (JStr x, t)) (json_chars r)
          else if startsWith (c # r) (js ''null'') then Some (JNull, drop 3 r)
          else if startsWith (c # r) (js ''true'') then Some (JBool True, drop 3 r)
          else if startsWith (c # r) (js ''false'') then Some (JBool False, drop 4 r)
          else json_number (c # r))"
| "json_items 0 s = None"
| "json_items (Suc n) s =
     (case json_value n s of
        None \<Rightarrow> None
      | Some (v, r) \<Rightarrow>
          (case skip r of
             [] \<Rightarrow> None
           | c # t \<Rightarrow> if c = 44 then cons_fst v (json_items n t)
                     else if c = 93 then Some ([v], t) else None))"
| "json_members 0 s = None"
| "json_members (Suc n) s =
     (case skip s of
        [] \<Rightarrow> None
      | q # r \<Rightarrow>
          if q \<noteq> 34 then None
          else (case json_chars r of
              None \<Rightarrow> None
            | Some (k, r1) \<Rightarrow>
                if skip r1 = [] \<or> hd (skip r1) \<noteq> 58 then None
                else (case json_value n (tl (skip r1)) of
                    None \<Rightarrow> None
                  | Some (v, r2) \<Rightarrow>
                      (case skip r2 of
                         [] \<Rightarrow> None
                       | c # t \<Rightarrow> if c = 44 then cons_fst (k, v) (json_members n t)
                                 else if c = 125 then Some ([(k, v)], t) else None))))"

text \<open>\<open>JSON.parse\<close>: \<open>None\<close> is the \<open>SyntaxError\<close> it throws.\<close>

definition JSON_parse :: "jsstr \<Rightarrow> json option" where
  "JSON_parse s = (case json_value (2 * length s + 2) s of
       None \<Rightarrow> None
     | Some (v, r) \<Rightarrow> if skip r = [] then Some v else None)"

section \<open>Reading what was written\<close>

definition units :: "jsstr \<Rightarrow> bool" where
  "units s \<longleftrightarrow> list_all (\<lambda>c. c < 65536) s"

text \<open>The values JSON can carry in this model: code units in strings, objects in the key order
  of the language, numbers that are written as integers.\<close>

fun json_ok :: "json \<Rightarrow> bool" where
  "json_ok (JNum q) = plain_int q"
| "json_ok (JStr s) = units s"
| "json_ok (JArr vs) = list_all json_ok vs"
| "json_ok (JObj kvs) =
     (obj_fill kvs [] = kvs \<and> list_all (\<lambda>kv. units (fst kv) \<and> json_ok (snd kv)) kvs)"
| "json_ok v = True"

lemma digit_value_hex: "d < 16 \<Longrightarrow> digit_value (hex_lower d) = Some d"
  by (simp add: digit_value_def hex_lower_def)

lemma hex4_escape:
  assumes "c < 65536"
  shows "hex4 (hex_lower (c div 4096)) (hex_lower (c div 256 mod 16)) (hex_lower (c div 16 mod 16))
     (hex_lower (c mod 16)) = Some c"
proof -
  have "c div 4096 < 16" using assms by simp
  moreover have "4096 * (c div 4096) + 256 * (c div 256 mod 16) + 16 * (c div 16 mod 16) + c mod 16 = c"
  proof -
    have "c div 16 div 16 = c div 256" "c div 256 div 16 = c div 4096"
      by (simp_all add: div_mult2_eq [symmetric])
    with mult_div_mod_eq [of 16 c] mult_div_mod_eq [of 16 "c div 16"] mult_div_mod_eq [of 16 "c div 256"]
    show ?thesis by linarith
  qed
  ultimately show ?thesis by (simp add: hex4_def digit_value_hex)
qed

lemma cons_fst_simps [simp]: "cons_fst x (Some (xs, r)) = Some (x # xs, r)" "cons_fst x None = None"
  by (simp_all add: cons_fst_def)

declare json_chars.simps(2) [simp del]

lemma json_chars_plain: "32 \<le> c \<Longrightarrow> c \<noteq> 34 \<Longrightarrow> c \<noteq> 92 \<Longrightarrow> json_chars (c # s) = cons_fst c (json_chars s)"
  by (simp add: json_chars.simps(2))

lemma json_chars_escape: "unescape e = Some x \<Longrightarrow> e \<noteq> 117 \<Longrightarrow> json_chars (92 # e # s) = cons_fst x (json_chars s)"
  by (simp add: json_chars.simps(2))

lemma json_chars_unicode:
  "hex4 a b c d = Some x \<Longrightarrow> json_chars (92 # 117 # a # b # c # d # s) = cons_fst x (json_chars s)"
  by (simp add: json_chars.simps(2))

lemma json_chars_end: "json_chars (34 # s) = Some ([], s)"
  by (simp add: json_chars.simps(2))

lemma unescape_short: "map_of short_escapes c = Some e \<Longrightarrow> unescape e = Some c \<and> e \<noteq> 117"
  by (auto simp: short_escapes_def unescape_def split: if_splits)

lemma json_chars_unit:
  assumes "c < 65536"
  shows "json_chars (quote_unit c @ s) = cons_fst c (json_chars s)"
proof (cases "map_of short_escapes c")
  case (Some e)
  then show ?thesis using unescape_short [OF Some] by (simp add: quote_unit_def json_chars_escape)
next
  case None
  show ?thesis
  proof (cases "c < 32 \<or> high_surrogate c \<or> low_surrogate c")
    case True
    with None show ?thesis
      by (simp add: quote_unit_def unicode_escape_def json_chars_unicode [OF hex4_escape [OF assms]])
  next
    case False
    moreover from None have "c \<noteq> 34" "c \<noteq> 92" by (auto simp: short_escapes_def)
    ultimately show ?thesis using None by (simp add: quote_unit_def json_chars_plain)
  qed
qed

lemma json_chars_quote: "units s \<Longrightarrow> json_chars (quote_units s @ 34 # r) = Some (s, r)"
proof (induction s rule: quote_units.induct)
  case (1 h l s)
  show ?case
  proof (cases "high_surrogate h \<and> low_surrogate l")
    case True
    with 1 have ih: "json_chars (quote_units s @ 34 # r) = Some (s, r)" by (simp add: units_def)
    from True have "json_chars (quote_units (h # l # s) @ 34 # r)
        = cons_fst h (cons_fst l (json_chars (quote_units s @ 34 # r)))"
      by (simp add: json_chars_plain high_surrogate_def low_surrogate_def)
    with ih show ?thesis by simp
  next
    case False
    with 1 have ih: "json_chars (quote_units (l # s) @ 34 # r) = Some (l # s, r)"
      by (simp add: units_def)
    from False have "json_chars (quote_units (h # l # s) @ 34 # r)
        = json_chars (quote_unit h @ quote_units (l # s) @ 34 # r)" by auto
    also have "\<dots> = cons_fst h (json_chars (quote_units (l # s) @ 34 # r))"
      using 1(3) by (intro json_chars_unit) (simp add: units_def)
    finally show ?thesis using ih by simp
  qed
next
  case (2 c)
  then have "json_chars (quote_unit c @ 34 # r) = cons_fst c (json_chars (34 # r))"
    by (intro json_chars_unit) (simp add: units_def)
  then show ?case by (simp add: json_chars_end)
next
  case 3
  then show ?case by (simp add: json_chars_end)
qed

text \<open>The character after a value: nothing, or one that ends a number.\<close>

definition ends_value :: "jsstr \<Rightarrow> bool" where
  "ends_value r \<longleftrightarrow> r = [] \<or> hd r \<in> {44, 93, 125}"

lemma dec_takeWhile:
  assumes "ends_value r"
  shows "takeWhile is_digit (dec n @ r) = dec n" "dropWhile is_digit (dec n @ r) = r"
proof -
  have dig: "\<And>c. c \<in> set (dec n) \<Longrightarrow> is_digit c" by (simp add: is_digit_def dec_digits)
  have "takeWhile is_digit r = []" "dropWhile is_digit r = r"
    using assms by (cases r; auto simp: ends_value_def is_digit_def)+
  with dig show "takeWhile is_digit (dec n @ r) = dec n" "dropWhile is_digit (dec n @ r) = r"
    by (simp_all add: takeWhile_append2 dropWhile_append2)
qed

lemma dec_no_leading_zero: "hd (dec n) = 48 \<longrightarrow> length (dec n) \<le> 1"
proof (induction n rule: dec.induct)
  case (1 n)
  show ?case
  proof (cases "n < 10")
    case True
    then have "length (dec n) = 1" by (subst dec.simps) simp
    then show ?thesis by (metis order_refl)
  next
    case False
    then have "hd (dec (n div 10)) \<noteq> 48"
      using 1 undec_dec [of "n div 10"]
      by (cases "dec (n div 10)"; cases "tl (dec (n div 10))") (auto simp: undec_def)
    with False show ?thesis by (simp add: dec.simps [of n])
  qed
qed

lemma undec_Nil: "undec [] = 0"
  by (simp add: undec_def)

lemma json_unsigned_dec:
  assumes r: "ends_value r"
  shows "json_unsigned neg (dec n @ r) = Some (JNum (if neg then - of_nat n else of_nat n), r)"
proof -
  have zero: "\<not> (hd (dec n) = 48 \<and> 1 < length (dec n))"
    using dec_no_leading_zero [of n] by linarith
  note tw = dec_takeWhile [OF r, of n]
  show ?thesis
  proof (cases r)
    case Nil
    from tw [unfolded Nil append_Nil2] Nil zero show ?thesis
      by (simp add: json_unsigned_def Let_def scale10_def undec_dec undec_Nil
          del: takeWhile_eq_all_conv dropWhile_eq_Nil_conv)
  next
    case (Cons c t)
    with r have "c \<noteq> 46" "c \<noteq> 101" "c \<noteq> 69" by (auto simp: ends_value_def)
    with Cons tw zero show ?thesis
      by (simp add: json_unsigned_def Let_def scale10_def undec_dec undec_Nil)
  qed
qed

lemma json_number_text:
  assumes q: "plain_int q" and r: "ends_value r"
  shows "json_number (number_text ftext q @ r) = Some (JNum q, r)"
proof -
  have hd: "hd (dec n) \<noteq> 45" for n
    using dec_digits [of "hd (dec n)" n] by auto
  have pos: "json_number (dec n @ r) = Some (JNum (of_nat n), r)" for n
    using hd [of n] json_unsigned_dec [OF r, of False n] by (simp add: json_number_def)
  have neg: "json_number (45 # dec n @ r) = Some (JNum (- of_nat n), r)" for n
    using json_unsigned_dec [OF r, of True n] by (simp add: json_number_def)
  have q': "of_int \<lfloor>q\<rfloor> = q" using q by (simp add: plain_int_def)
  show ?thesis
  proof (cases "q < 0")
    case True
    then have "of_nat (nat (- \<lfloor>q\<rfloor>)) = - q" using q' by (simp add: of_nat_nat)
    with True q neg [of "nat (- \<lfloor>q\<rfloor>)"] show ?thesis by (simp add: number_text_def)
  next
    case False
    then have "of_nat (nat \<lfloor>q\<rfloor>) = q" using q' by (simp add: of_nat_nat)
    with False q pos [of "nat \<lfloor>q\<rfloor>"] show ?thesis by (simp add: number_text_def)
  qed
qed

lemma number_text_hd:
  assumes "plain_int q"
  shows "\<exists>c t. number_text ftext q = c # t \<and> (c = 45 \<or> is_digit c)"
proof -
  have "\<exists>c t. dec n = c # t \<and> is_digit c" for n
    using dec_digits [of _ n] dec_not_Nil [of n] by (cases "dec n") (auto simp: is_digit_def)
  then show ?thesis using assms by (cases "q < 0") (simp_all add: number_text_def, blast)
qed

lemma stringify_hd:
  assumes "json_ok j"
  shows "\<exists>c t. JSON_stringify ftext j = c # t \<and> \<not> json_ws c \<and> c \<notin> {44, 93, 125}"
proof (cases j)
  case (JNum q)
  with assms number_text_hd [of q ftext] show ?thesis by (auto simp: is_digit_def json_ws_def)
qed (auto simp: js_def json_ws_def quote_string_def)

lemma skip_stringify [simp]: "json_ok j \<Longrightarrow> skip (JSON_stringify ftext j @ r) = JSON_stringify ftext j @ r"
  using stringify_hd [of j ftext] by auto

lemma skip_ends: "ends_value r \<Longrightarrow> skip r = r"
  by (cases r) (auto simp: ends_value_def json_ws_def)

lemma json_literals:
  "json_value (Suc n) (js ''null'' @ r) = Some (JNull, r)"
  "json_value (Suc n) (js ''true'' @ r) = Some (JBool True, r)"
  "json_value (Suc n) (js ''false'' @ r) = Some (JBool False, r)"
  by (simp_all add: js_def json_ws_def)

lemma json_value_number:
  assumes "plain_int q" and "ends_value r"
  shows "json_value (Suc n) (number_text ftext q @ r) = Some (JNum q, r)"
proof -
  from number_text_hd [OF assms(1), of ftext]
  obtain c t where c: "number_text ftext q = c # t" "c = 45 \<or> is_digit c" by blast
  then have "\<not> json_ws c" "c \<notin> {123, 91, 34, 110, 116, 102}"
    by (auto simp: json_ws_def is_digit_def)
  with c(1) have "json_value (Suc n) (number_text ftext q @ r) = json_number (number_text ftext q @ r)"
    by (simp add: js_def)
  with json_number_text [OF assms] show ?thesis by simp
qed

lemma json_value_string:
  "units s \<Longrightarrow> json_value (Suc n) (quote_string s @ r) = Some (JStr s, r)"
  by (simp add: quote_string_def json_ws_def json_chars_quote)

definition reads_back :: "(rat \<Rightarrow> jsstr) \<Rightarrow> json \<Rightarrow> bool" where
  "reads_back ftext j \<longleftrightarrow> (\<forall>n r. ends_value r \<longrightarrow> 2 * length (JSON_stringify ftext j) \<le> n
     \<longrightarrow> json_value n (JSON_stringify ftext j @ r) = Some (j, r))"

lemma reads_backD:
  "reads_back ftext j \<Longrightarrow> ends_value r \<Longrightarrow> 2 * length (JSON_stringify ftext j) \<le> n
     \<Longrightarrow> json_value n (JSON_stringify ftext j @ r) = Some (j, r)"
  by (simp add: reads_back_def)

lemma ends_simps [simp]: "ends_value (44 # r)" "ends_value (93 # r)" "ends_value (125 # r)"
  by (simp_all add: ends_value_def)

lemma ws_simps [simp]: "\<not> json_ws 44" "\<not> json_ws 93" "\<not> json_ws 125" "\<not> json_ws 58" "\<not> json_ws 34"
  by (simp_all add: json_ws_def)

lemma json_items_text:
  assumes "vs \<noteq> []" and "list_all (reads_back ftext) vs"
    and "2 * length (comma_join (map (JSON_stringify ftext) vs)) + 2 \<le> n"
  shows "json_items n (comma_join (map (JSON_stringify ftext) vs) @ 93 # r) = Some (vs, r)"
  using assms
proof (induction vs arbitrary: n)
  case (Cons v vs)
  from Cons.prems obtain m where n: "n = Suc m" by (cases n) auto
  show ?case
  proof (cases vs)
    case Nil
    from reads_backD [of ftext v "93 # r" m] Cons.prems Nil n show ?thesis by simp
  next
    case (Cons w ws)
    let ?rest = "comma_join (map (JSON_stringify ftext) vs)"
    have "json_value m (JSON_stringify ftext v @ 44 # ?rest @ 93 # r) = Some (v, 44 # ?rest @ 93 # r)"
      using Cons.prems n \<open>vs = w # ws\<close> by (intro reads_backD) simp_all
    moreover have "json_items m (?rest @ 93 # r) = Some (vs, r)"
      using Cons.IH [of m] Cons.prems n \<open>vs = w # ws\<close> by simp
    ultimately show ?thesis using n \<open>vs = w # ws\<close> by simp
  qed
qed simp

abbreviation member_text :: "(rat \<Rightarrow> jsstr) \<Rightarrow> jsstr \<times> json \<Rightarrow> jsstr" where
  "member_text ftext \<equiv> (\<lambda>kv. quote_string (fst kv) @ 58 # JSON_stringify ftext (snd kv))"

lemma json_member_head:
  assumes "units k" and "json_ok v" and "reads_back ftext v" and "ends_value t"
    and "2 * length (member_text ftext (k, v)) \<le> m"
  shows "json_members (Suc m) (member_text ftext (k, v) @ t) =
    (case t of [] \<Rightarrow> None | c # t' \<Rightarrow> if c = 44 then cons_fst (k, v) (json_members m t')
       else if c = 125 then Some ([(k, v)], t') else None)"
proof -
  have "json_chars (quote_units k @ 34 # 58 # JSON_stringify ftext v @ t)
      = Some (k, 58 # JSON_stringify ftext v @ t)"
    using json_chars_quote [OF assms(1)] by simp
  moreover have "json_value m (JSON_stringify ftext v @ t) = Some (v, t)"
    using assms by (intro reads_backD) simp_all
  ultimately show ?thesis using assms(4) by (simp add: quote_string_def skip_ends)
qed

lemma json_members_text:
  assumes "kvs \<noteq> []" and "list_all (\<lambda>kv. units (fst kv) \<and> json_ok (snd kv) \<and> reads_back ftext (snd kv)) kvs"
    and "2 * length (comma_join (map (member_text ftext) kvs)) + 2 \<le> n"
  shows "json_members n (comma_join (map (member_text ftext) kvs) @ 125 # r) = Some (kvs, r)"
  using assms
proof (induction kvs arbitrary: n)
  case (Cons kv kvs)
  from Cons.prems obtain m where n: "n = Suc m" by (cases n) auto
  obtain k v where kv: "kv = (k, v)" by (cases kv)
  show ?case
  proof (cases kvs)
    case Nil
    with json_member_head [of k v ftext "125 # r" m] Cons.prems n kv show ?thesis by simp
  next
    case (Cons w ws)
    let ?rest = "comma_join (map (member_text ftext) kvs)"
    have "json_members (Suc m) (member_text ftext (k, v) @ 44 # ?rest @ 125 # r)
        = cons_fst (k, v) (json_members m (?rest @ 125 # r))"
      using json_member_head [of k v ftext "44 # ?rest @ 125 # r" m] Cons.prems n kv \<open>kvs = w # ws\<close> by simp
    moreover have "json_members m (?rest @ 125 # r) = Some (kvs, r)"
      using Cons.IH [of m] Cons.prems n \<open>kvs = w # ws\<close> by simp
    ultimately show ?thesis using n kv \<open>kvs = w # ws\<close> by simp
  qed
qed simp

lemma reads_back_literal:
  assumes "\<And>n r. ends_value r \<Longrightarrow> json_value (Suc n) (JSON_stringify ftext j @ r) = Some (j, r)"
    and "JSON_stringify ftext j \<noteq> []"
  shows "reads_back ftext j"
  unfolding reads_back_def
proof (intro allI impI)
  fix n r assume r: "ends_value r" and "2 * length (JSON_stringify ftext j) \<le> n"
  with assms(2) obtain m where "n = Suc m" by (cases n) auto
  with assms(1) [OF r] show "json_value n (JSON_stringify ftext j @ r) = Some (j, r)" by simp
qed

lemma reads_back_null: "reads_back ftext JNull"
  by (rule reads_back_literal) (simp_all add: json_literals del: json_value.simps)

lemma reads_back_bool: "reads_back ftext (JBool b)"
  by (rule reads_back_literal) (cases b; simp add: json_literals del: json_value.simps)+

lemma stringify_reads_back: "json_ok j \<Longrightarrow> reads_back ftext j"
proof (induction j rule: json_ok.induct)
  case (1 q)
  with number_text_hd [of q ftext] json_value_number [of q _ _ ftext] show ?case
    by (intro reads_back_literal) auto
next
  case (2 s)
  with json_value_string [of s] show ?case
    by (intro reads_back_literal) (auto simp: quote_string_def)
next
  case (3 vs)
  then have ok: "list_all json_ok vs" and rb: "list_all (reads_back ftext) vs"
    by (auto simp: list_all_iff)
  show ?case unfolding reads_back_def
  proof (intro allI impI)
    fix n r assume n: "2 * length (JSON_stringify ftext (JArr vs)) \<le> n"
    then obtain m where m: "n = Suc m" by (cases n) auto
    show "json_value n (JSON_stringify ftext (JArr vs) @ r) = Some (JArr vs, r)"
    proof (cases vs)
      case Nil
      with m show ?thesis by (simp add: json_ws_def)
    next
      case (Cons w ws)
      let ?t = "comma_join (map (JSON_stringify ftext) vs)"
      from ok Cons have "json_ok w" by simp
      from stringify_hd [OF this, of ftext] obtain c t where
        c: "JSON_stringify ftext w = c # t" "\<not> json_ws c" "c \<noteq> 93" by auto
      have "\<exists>t'. ?t = c # t'" using Cons c(1) by (cases ws) simp_all
      then obtain t' where t': "?t = c # t'" by blast
      have "json_items m (?t @ 93 # r) = Some (vs, r)"
        using Cons rb n m by (intro json_items_text) simp_all
      with t' c(2,3) m show ?thesis by (simp add: json_ws_def)
    qed
  qed
next
  case (4 kvs)
  then have fill: "obj_fill kvs [] = kvs"
    and rb: "list_all (\<lambda>kv. units (fst kv) \<and> json_ok (snd kv) \<and> reads_back ftext (snd kv)) kvs"
    by (auto simp: list_all_iff)
  show ?case unfolding reads_back_def
  proof (intro allI impI)
    fix n r assume n: "2 * length (JSON_stringify ftext (JObj kvs)) \<le> n"
    then obtain m where m: "n = Suc m" by (cases n) auto
    show "json_value n (JSON_stringify ftext (JObj kvs) @ r) = Some (JObj kvs, r)"
    proof (cases kvs)
      case Nil
      with m show ?thesis by (simp add: json_ws_def)
    next
      case (Cons w ws)
      let ?t = "comma_join (map (member_text ftext) kvs)"
      have "\<exists>t'. ?t = 34 # t'" using Cons by (cases ws) (simp_all add: quote_string_def)
      then obtain t' where t': "?t = 34 # t'" by blast
      have "json_members m (?t @ 125 # r) = Some (kvs, r)"
        using Cons rb n m by (intro json_members_text) simp_all
      with t' m fill show ?thesis by (simp add: json_ws_def)
    qed
  qed
qed (simp_all add: reads_back_null reads_back_bool)

lemma JSON_parse_stringify:
  assumes "json_ok j"
  shows "JSON_parse (JSON_stringify ftext j) = Some j"
proof -
  have "json_value (2 * length (JSON_stringify ftext j) + 2) (JSON_stringify ftext j @ []) = Some (j, [])"
    by (rule reads_backD [OF stringify_reads_back [OF assms]]) (simp_all add: ends_value_def)
  then show ?thesis by (simp add: JSON_parse_def del: json_value.simps)
qed

end
