(* ===== verification/Topology_Settings.thy ===== *)
theory Topology_Settings
  imports Run_Overlay JS_JSON
begin

text \<open>
  The view preferences of the run canvas (\<open>workflow-canvas/useTopologySettings.ts\<close>): reading
  them from local storage with the defaults as fallback, and the update that writes them back.
  Local storage is a map; \<open>blocked\<close> says that every access throws.
\<close>

type_synonym storage = "jsstr \<rightharpoonup> jsstr"

definition PREFS_KEY :: jsstr where
  "PREFS_KEY = js ''studio.topology.prefs''"

definition layoutKey :: "jsstr \<Rightarrow> jsstr" where
  "layoutKey projectId = js ''studio.topology.layout.'' @ projectId"

fun focus_text :: "focus_mode \<Rightarrow> jsstr" where
  "focus_text FM_none = js ''none''"
| "focus_text FM_failed = js ''failed''"
| "focus_text FM_running = js ''running''"

fun layout_text :: "layout_mode \<Rightarrow> jsstr" where
  "layout_text LM_saved = js ''saved''"
| "layout_text (LM_dir LR) = js ''LR''"
| "layout_text (LM_dir TB) = js ''TB''"

definition focus_of :: "jsstr \<Rightarrow> focus_mode option" where
  "focus_of s = find (\<lambda>f. focus_text f = s) [FM_none, FM_failed, FM_running]"

definition layoutSchema :: "jsstr \<Rightarrow> layout_mode option" where
  "layoutSchema s = find (\<lambda>l. layout_text l = s) [LM_saved, LM_dir TB, LM_dir LR]"

fun as_bool :: "json option \<Rightarrow> bool option" where
  "as_bool (Some (JBool b)) = Some b"
| "as_bool v = None"

fun as_focus :: "json option \<Rightarrow> focus_mode option" where
  "as_focus (Some (JStr s)) = focus_of s"
| "as_focus v = None"

text \<open>The parsed preferences: the settings without the layout.\<close>

record topology_prefs =
  tq_fitOnUpdate :: bool
  tq_showTiming :: bool
  tq_flowAnimation :: bool
  tq_focus :: focus_mode
  tq_hideCompleted :: bool

fun prefsSchema :: "json \<Rightarrow> topology_prefs option" where
  "prefsSchema (JObj kvs) =
     (case (as_bool (obj_get kvs (js ''fitOnUpdate'')), as_bool (obj_get kvs (js ''showTiming'')),
            as_bool (obj_get kvs (js ''flowAnimation'')), as_focus (obj_get kvs (js ''focus'')),
            as_bool (obj_get kvs (js ''hideCompleted''))) of
        (Some fit, Some timing, Some flow, Some focus, Some hide) \<Rightarrow>
          Some \<lparr>tq_fitOnUpdate = fit, tq_showTiming = timing, tq_flowAnimation = flow,
             tq_focus = focus, tq_hideCompleted = hide\<rparr>
      | _ \<Rightarrow> None)"
| "prefsSchema v = None"

definition prefs_of :: "topology_settings \<Rightarrow> topology_prefs" where
  "prefs_of s = \<lparr>tq_fitOnUpdate = tp_fitOnUpdate s, tq_showTiming = tp_showTiming s,
     tq_flowAnimation = tp_flowAnimation s, tq_focus = tp_focus s, tq_hideCompleted = tp_hideCompleted s\<rparr>"

definition with_prefs :: "layout_mode \<Rightarrow> topology_prefs \<Rightarrow> topology_settings" where
  "with_prefs layout p = \<lparr>tp_layout = layout, tp_fitOnUpdate = tq_fitOnUpdate p,
     tp_showTiming = tq_showTiming p, tp_flowAnimation = tq_flowAnimation p, tp_focus = tq_focus p,
     tp_hideCompleted = tq_hideCompleted p\<rparr>"

definition read_prefs :: "bool \<Rightarrow> storage \<Rightarrow> topology_prefs" where
  "read_prefs blocked st =
     (if blocked \<or> \<not> truthy (st PREFS_KEY) then prefs_of DEFAULT_TOPOLOGY_SETTINGS
      else (case JSON_parse (the (st PREFS_KEY)) of
          None \<Rightarrow> prefs_of DEFAULT_TOPOLOGY_SETTINGS
        | Some j \<Rightarrow> nullish (prefsSchema j) (prefs_of DEFAULT_TOPOLOGY_SETTINGS)))"

definition read_layout :: "bool \<Rightarrow> storage \<Rightarrow> jsstr \<Rightarrow> layout_mode" where
  "read_layout blocked st projectId =
     (if blocked \<or> \<not> truthy (st (layoutKey projectId)) then tp_layout DEFAULT_TOPOLOGY_SETTINGS
      else nullish (layoutSchema (the (st (layoutKey projectId)))) (tp_layout DEFAULT_TOPOLOGY_SETTINGS))"

definition readSettings :: "bool \<Rightarrow> storage \<Rightarrow> jsstr \<Rightarrow> topology_settings" where
  "readSettings blocked st projectId = with_prefs (read_layout blocked st projectId) (read_prefs blocked st)"

definition prefs_json :: "topology_settings \<Rightarrow> json" where
  "prefs_json s = JObj
     [(js ''fitOnUpdate'', JBool (tp_fitOnUpdate s)), (js ''showTiming'', JBool (tp_showTiming s)),
      (js ''flowAnimation'', JBool (tp_flowAnimation s)), (js ''focus'', JStr (focus_text (tp_focus s))),
      (js ''hideCompleted'', JBool (tp_hideCompleted s))]"

text \<open>\<open>update(patch)\<close>: the new settings and the new storage. The key order of the written object
  is that of the settings, which is the one \<open>readSettings\<close> builds.\<close>

definition update_settings ::
  "bool \<Rightarrow> jsstr \<Rightarrow> (topology_settings \<Rightarrow> topology_settings) \<Rightarrow> topology_settings \<times> storage
   \<Rightarrow> topology_settings \<times> storage" where
  "update_settings blocked projectId patch = (\<lambda>(prev, st).
     let nxt = patch prev in
     (nxt, if blocked then st
           else st(layoutKey projectId \<mapsto> layout_text (tp_layout nxt),
                   PREFS_KEY \<mapsto> JSON_stringify (\<lambda>q. []) (prefs_json nxt))))"

section \<open>Facts\<close>

lemma focus_text_inject [simp]: "focus_of (focus_text f) = Some f"
  by (cases f) (simp_all add: focus_of_def)

lemma layoutSchema_text [simp]: "layoutSchema (layout_text l) = Some l"
proof (cases l)
  case (LM_dir d)
  then show ?thesis by (cases d) (simp_all add: layoutSchema_def)
qed (simp add: layoutSchema_def)

lemma layout_text_nonempty [simp]: "layout_text l \<noteq> []"
proof (cases l)
  case (LM_dir d)
  then show ?thesis by (cases d) simp_all
qed simp

lemma js_no_index: "s \<noteq> [] \<Longrightarrow> \<not> (48 \<le> (of_char (hd s) :: nat) \<and> (of_char (hd s) :: nat) \<le> 57) \<Longrightarrow> array_index (js s) = None"
  by (cases s) (auto simp: array_index_def js_def)

lemma js_units: "units (js s)"
proof -
  have "of_char c < (65536 :: nat)" for c
  proof -
    have "of_char c mod 256 < (256 :: nat)" by (rule mod_less_divisor) simp
    then have "of_char c < (256 :: nat)" by (simp only: of_char_mod_256)
    then show ?thesis by linarith
  qed
  then show ?thesis by (simp add: units_def js_def list_all_iff)
qed

lemma focus_units: "units (focus_text f)"
  by (cases f) (simp_all add: js_units)

lemma prefs_json_ok: "json_ok (prefs_json s)"
proof -
  let ?kvs = "[(js ''fitOnUpdate'', JBool (tp_fitOnUpdate s)), (js ''showTiming'', JBool (tp_showTiming s)),
      (js ''flowAnimation'', JBool (tp_flowAnimation s)), (js ''focus'', JStr (focus_text (tp_focus s))),
      (js ''hideCompleted'', JBool (tp_hideCompleted s))]"
  have "obj_fill ?kvs [] = [] @ ?kvs"
    by (rule obj_fill_fresh) (simp_all add: js_no_index)
  then have fill: "obj_fill ?kvs [] = ?kvs" by simp
  show ?thesis unfolding prefs_json_def json_ok.simps fill by (simp add: js_units focus_units)
qed

lemma prefsSchema_json: "prefsSchema (prefs_json s) = Some (prefs_of s)"
  by (simp add: prefs_json_def obj_get_def prefs_of_def)

lemma with_prefs_of [simp]: "with_prefs (tp_layout s) (prefs_of s) = s"
  by (simp add: with_prefs_def prefs_of_def)

lemma key_neq: "layoutKey p \<noteq> PREFS_KEY" "PREFS_KEY \<noteq> layoutKey p"
  by (simp_all add: layoutKey_def PREFS_KEY_def js_def)

lemma prefs_text_nonempty: "JSON_stringify ftext (prefs_json s) \<noteq> []"
  by (simp add: prefs_json_def)

section \<open>Properties\<close>

text \<open>What an update stores is what a reload reads: the settings of this project are those of
  the update, another project keeps its layout and takes over the other preferences. With
  storage blocked, or damaged text in it, reading falls back to the defaults.\<close>

theorem settings_persist:
  assumes "update_settings False projectId patch (prev, st) = (cur, st')" and "other \<noteq> projectId"
  shows "cur = patch prev \<and> readSettings False st' projectId = cur
    \<and> readSettings False st' other = cur\<lparr>tp_layout := tp_layout (readSettings False st other)\<rparr>
    \<and> readSettings True st' projectId = DEFAULT_TOPOLOGY_SETTINGS
    \<and> readSettings False (st'(PREFS_KEY \<mapsto> js ''{'', layoutKey projectId \<mapsto> js ''BT'')) projectId
        = DEFAULT_TOPOLOGY_SETTINGS"
proof -
  from assms(1) have cur: "cur = patch prev"
    and st': "st' = st(layoutKey projectId \<mapsto> layout_text (tp_layout cur),
        PREFS_KEY \<mapsto> JSON_stringify (\<lambda>q. []) (prefs_json cur))"
    by (auto simp: update_settings_def Let_def)
  have prefs: "read_prefs False st' = prefs_of cur"
    using prefs_text_nonempty
    by (simp add: read_prefs_def st' JSON_parse_stringify [OF prefs_json_ok] prefsSchema_json)
  have "read_layout False st' projectId = tp_layout cur"
    by (simp add: read_layout_def st' key_neq)
  then have "readSettings False st' projectId = cur" by (simp add: readSettings_def prefs)
  moreover have "layoutKey other \<noteq> layoutKey projectId" using assms(2) by (simp add: layoutKey_def)
  then have "read_layout False st' other = read_layout False st other"
    by (simp add: read_layout_def st' key_neq)
  then have "readSettings False st' other = cur\<lparr>tp_layout := tp_layout (readSettings False st other)\<rparr>"
    by (simp add: readSettings_def prefs) (simp add: with_prefs_def prefs_of_def)
  moreover have "readSettings True st' projectId = DEFAULT_TOPOLOGY_SETTINGS"
    by (simp add: readSettings_def read_prefs_def read_layout_def)
  moreover have "JSON_parse (js ''{'') = None"
    by (simp add: JSON_parse_def js_def json_ws_def numeral_eq_Suc)
  then have "readSettings False (st'(PREFS_KEY \<mapsto> js ''{'', layoutKey projectId \<mapsto> js ''BT'')) projectId
      = DEFAULT_TOPOLOGY_SETTINGS"
    by (simp add: readSettings_def read_prefs_def read_layout_def key_neq layoutSchema_def)
  ultimately show ?thesis using cur by blast
qed

theorem settings_persist_witness:
  "readSettings False (snd (update_settings False (js ''p'') (\<lambda>s. s\<lparr>tp_focus := FM_failed\<rparr>)
     (DEFAULT_TOPOLOGY_SETTINGS, Map.empty))) (js ''p'') = DEFAULT_TOPOLOGY_SETTINGS\<lparr>tp_focus := FM_failed\<rparr>"
  using settings_persist [of "js ''p''" "\<lambda>s. s\<lparr>tp_focus := FM_failed\<rparr>" DEFAULT_TOPOLOGY_SETTINGS
      Map.empty _ _ "js ''q''"] by (simp add: update_settings_def Let_def)

end
