(* ===== verification/Run_Fanout.thy ===== *)
theory Run_Fanout
  imports Wire_Types "HOL-Library.Multiset"
begin

text \<open>
  The grouping of the assets a storyboard fans out:
  \<open>web/src/features/workflow-canvas/runFanout.ts\<close>. The page objects of a group are reached both
  through \<open>g.pages\<close> and through the map by page key; they are the same objects in the same
  order, so the model keeps the list only and looks a page up by its key.
\<close>

section \<open>Data\<close>

datatype asset_kind = AK_image | AK_audio | AK_video | AK_unknown

record asset_meta =
  am_kind :: asset_kind
  am_shotId :: "jsstr option"

record page_cell =
  pc_todoId :: jsstr
  pc_assetId :: "jsstr option"
  pc_status :: graph_node_status
  pc_kind :: asset_kind

record run_page =
  rp_key :: jsstr
  rp_pageOrdinal :: nat
  rp_image :: "page_cell option"
  rp_audio :: "page_cell option"
  rp_others :: "page_cell list"

record group_counts =
  gc_done :: nat
  gc_running :: nat
  gc_failed :: nat
  gc_pending :: nat
  gc_total :: nat

record run_group =
  rg_canvasNodeId :: jsstr
  rg_pages :: "run_page list"
  rg_counts :: group_counts

record parent_anchor =
  pa_todoId :: jsstr
  pa_canvasNodeId :: jsstr

section \<open>Cells and status of a page\<close>

definition pageCells :: "run_page \<Rightarrow> page_cell list" where
  "pageCells p = (case rp_image p of None \<Rightarrow> [] | Some c \<Rightarrow> [c]) @ (case rp_audio p of None \<Rightarrow> [] | Some c \<Rightarrow> [c]) @ rp_others p"

definition pageStatus :: "run_page \<Rightarrow> graph_node_status" where
  "pageStatus p =
     (let cs = pageCells p
      in if list_ex (\<lambda>c. pc_status c = S_failed) cs then S_failed
         else if list_ex (\<lambda>c. pc_status c = S_running) cs then S_running
         else if list_ex (\<lambda>c. pc_status c = S_pending \<or> pc_status c = S_blocked) cs then S_pending
         else S_done)"

section \<open>Grouping\<close>

definition add_cell :: "page_cell \<Rightarrow> run_page \<Rightarrow> run_page" where
  "add_cell cell page =
     (if pc_kind cell = AK_image \<and> rp_image page = None then page\<lparr>rp_image := Some cell\<rparr>
      else if pc_kind cell = AK_audio \<and> rp_audio page = None then page\<lparr>rp_audio := Some cell\<rparr>
      else page\<lparr>rp_others := rp_others page @ [cell]\<rparr>)"

text \<open>Find the page of the key or push a new one, then add the cell to it.\<close>

definition place_cell :: "jsstr \<Rightarrow> page_cell \<Rightarrow> run_page list \<Rightarrow> run_page list" where
  "place_cell key cell pages =
     (if find (\<lambda>p. rp_key p = key) pages = None
      then pages @ [add_cell cell \<lparr>rp_key = key, rp_pageOrdinal = length pages + 1, rp_image = None, rp_audio = None, rp_others = []\<rparr>]
      else map (\<lambda>p. if rp_key p = key then add_cell cell p else p) pages)"

definition count_status :: "graph_node_status \<Rightarrow> group_counts \<Rightarrow> group_counts" where
  "count_status st c =
     (let c = c\<lparr>gc_total := gc_total c + 1\<rparr>
      in if st = S_done then c\<lparr>gc_done := gc_done c + 1\<rparr>
         else if st = S_running then c\<lparr>gc_running := gc_running c + 1\<rparr>
         else if st = S_failed then c\<lparr>gc_failed := gc_failed c + 1\<rparr>
         else c\<lparr>gc_pending := gc_pending c + 1\<rparr>)"

definition parent_index :: "parent_anchor list \<Rightarrow> (jsstr \<rightharpoonup> parent_anchor)" where
  "parent_index parents = fold (\<lambda>p m. m(pa_todoId p \<mapsto> p)) parents Map.empty"

text \<open>\<open>state.edges.find(e => e.from === n.id)?.to\<close>, looked up among the anchors.\<close>

definition parent_of :: "graph_edge list \<Rightarrow> (jsstr \<rightharpoonup> parent_anchor) \<Rightarrow> graph_node \<Rightarrow> parent_anchor option" where
  "parent_of edges parentByTodo n =
     Option.bind (map_option ge_to (find (\<lambda>e. ge_from e = gn_id n) edges)) parentByTodo"

definition new_group :: "jsstr \<Rightarrow> run_group" where
  "new_group i = \<lparr>rg_canvasNodeId = i, rg_pages = [],
     rg_counts = \<lparr>gc_done = 0, gc_running = 0, gc_failed = 0, gc_pending = 0, gc_total = 0\<rparr>\<rparr>"

definition node_meta :: "(jsstr \<rightharpoonup> asset_meta) \<Rightarrow> graph_node \<Rightarrow> asset_meta option" where
  "node_meta assetMetaById n = (if truthy (gn_assetId n) then assetMetaById (the (gn_assetId n)) else None)"

definition node_cell :: "(jsstr \<rightharpoonup> asset_meta) \<Rightarrow> graph_node \<Rightarrow> page_cell" where
  "node_cell assetMetaById n = \<lparr>pc_todoId = gn_id n, pc_assetId = gn_assetId n, pc_status = gn_status n,
     pc_kind = nullish (map_option am_kind (node_meta assetMetaById n)) AK_unknown\<rparr>"

definition page_key :: "(jsstr \<rightharpoonup> asset_meta) \<Rightarrow> graph_node \<Rightarrow> jsstr" where
  "page_key assetMetaById n = nullish (Option.bind (node_meta assetMetaById n) am_shotId) (gn_id n)"

definition group_add :: "(jsstr \<rightharpoonup> asset_meta) \<Rightarrow> graph_node \<Rightarrow> run_group \<Rightarrow> run_group" where
  "group_add assetMetaById n g =
     g\<lparr>rg_pages := place_cell (page_key assetMetaById n) (node_cell assetMetaById n) (rg_pages g),
       rg_counts := count_status (gn_status n) (rg_counts g)\<rparr>"

definition group_step :: "graph_edge list \<Rightarrow> (jsstr \<rightharpoonup> parent_anchor) \<Rightarrow> (jsstr \<rightharpoonup> asset_meta) \<Rightarrow> graph_node \<Rightarrow>
    (jsstr \<times> run_group) list \<Rightarrow> (jsstr \<times> run_group) list" where
  "group_step edges parentByTodo assetMetaById n groups =
     (case parent_of edges parentByTodo n of
        None \<Rightarrow> groups
      | Some parent \<Rightarrow>
          let i = pa_canvasNodeId parent
          in AList.update i (group_add assetMetaById n (nullish (map_of groups i) (new_group i))) groups)"

definition buildRunGroups :: "project_state \<Rightarrow> parent_anchor list \<Rightarrow> (jsstr \<rightharpoonup> asset_meta) \<Rightarrow> (jsstr \<times> run_group) list" where
  "buildRunGroups st parents assetMetaById =
     fold (group_step (ps_edges st) (parent_index parents) assetMetaById)
       (filter (\<lambda>n. gn_type n = js ''asset'') (ps_nodes st)) []"

section \<open>Severity\<close>

text \<open>The statuses ordered by severity; a page shows the worst of its cells.\<close>

instantiation stage_status :: linorder
begin

fun severity :: "stage_status \<Rightarrow> nat" where
  "severity S_done = 0"
| "severity S_blocked = 1"
| "severity S_pending = 2"
| "severity S_running = 3"
| "severity S_failed = 4"

definition less_eq_stage_status :: "stage_status \<Rightarrow> stage_status \<Rightarrow> bool" where
  "a \<le> b \<longleftrightarrow> severity a \<le> severity b"

definition less_stage_status :: "stage_status \<Rightarrow> stage_status \<Rightarrow> bool" where
  "a < b \<longleftrightarrow> severity a < severity b"

instance
proof
  fix a b c :: stage_status
  show "a < b \<longleftrightarrow> a \<le> b \<and> \<not> b \<le> a" by (auto simp: less_eq_stage_status_def less_stage_status_def)
  show "a \<le> a" by (simp add: less_eq_stage_status_def)
  show "a \<le> b \<Longrightarrow> b \<le> c \<Longrightarrow> a \<le> c" by (simp add: less_eq_stage_status_def)
  show "a \<le> b \<Longrightarrow> b \<le> a \<Longrightarrow> a = b"
    by (cases a; cases b) (simp_all add: less_eq_stage_status_def)
  show "a \<le> b \<or> b \<le> a" by (auto simp: less_eq_stage_status_def)
qed

end

fun shown_status :: "stage_status \<Rightarrow> stage_status" where
  "shown_status S_blocked = S_pending"
| "shown_status st = st"

lemma shown_le: "x \<le> shown_status x"
  by (cases x) (simp_all add: less_eq_stage_status_def)

lemma le_simps [simp]: "x \<le> S_failed" "S_done \<le> x"
  "x \<le> S_running \<longleftrightarrow> x \<noteq> S_failed" "x \<le> S_pending \<longleftrightarrow> x \<noteq> S_failed \<and> x \<noteq> S_running"
  "x \<le> S_done \<longleftrightarrow> x = S_done"
  by (cases x; simp add: less_eq_stage_status_def)+

lemma pageStatus_max:
  "pageStatus p = Max (insert S_done ((shown_status \<circ> pc_status) ` set (pageCells p)))"
proof (rule sym, rule Max_eqI)
  have "\<exists>c \<in> set (pageCells p). pageStatus p = shown_status (pc_status c)" if "pageStatus p \<noteq> S_done"
  proof -
    from that have "\<exists>c \<in> set (pageCells p). pc_status c = pageStatus p \<or> pageStatus p = S_pending \<and> pc_status c = S_blocked"
      by (auto simp: pageStatus_def Let_def list_ex_iff split: if_splits)
    then obtain c where c: "c \<in> set (pageCells p)"
      "pc_status c = pageStatus p \<or> pageStatus p = S_pending \<and> pc_status c = S_blocked" by blast
    moreover have "pageStatus p \<noteq> S_blocked" by (simp add: pageStatus_def Let_def)
    ultimately have "pageStatus p = shown_status (pc_status c)" by (cases "pageStatus p") auto
    with c(1) show ?thesis by blast
  qed
  then show "pageStatus p \<in> insert S_done ((shown_status \<circ> pc_status) ` set (pageCells p))"
    by (metis comp_apply image_eqI insert_iff)
next
  fix y
  assume "y \<in> insert S_done ((shown_status \<circ> pc_status) ` set (pageCells p))"
  then consider "y = S_done" | c where "c \<in> set (pageCells p)" "y = shown_status (pc_status c)" by auto
  then show "y \<le> pageStatus p"
  proof cases
    case (2 c)
    then show ?thesis by (cases "pc_status c") (auto simp: pageStatus_def Let_def list_ex_iff)
  qed simp
qed simp

section \<open>Invariant of a group\<close>

definition counts_of :: "graph_node_status list \<Rightarrow> group_counts" where
  "counts_of sts = \<lparr>gc_done = count_list sts S_done, gc_running = count_list sts S_running,
     gc_failed = count_list sts S_failed,
     gc_pending = count_list sts S_pending + count_list sts S_blocked, gc_total = length sts\<rparr>"

definition group_cells :: "run_group \<Rightarrow> page_cell list" where
  "group_cells g = concat (map pageCells (rg_pages g))"

definition group_ok :: "jsstr \<Rightarrow> run_group \<Rightarrow> bool" where
  "group_ok i g \<longleftrightarrow> rg_canvasNodeId g = i \<and> distinct (map rp_key (rg_pages g)) \<and>
     map rp_pageOrdinal (rg_pages g) = [1..<length (rg_pages g) + 1] \<and>
     (\<exists>sts. mset sts = mset (map pc_status (group_cells g)) \<and> rg_counts g = counts_of sts)"

lemma add_cell_simps [simp]:
  "rp_key (add_cell c p) = rp_key p" "rp_pageOrdinal (add_cell c p) = rp_pageOrdinal p"
  "mset (pageCells (add_cell c p)) = add_mset c (mset (pageCells p))"
  by (simp_all add: add_cell_def pageCells_def split: option.split)

lemma count_status_snoc: "count_status st (counts_of sts) = counts_of (sts @ [st])"
  by (cases st) (simp_all add: count_status_def counts_of_def Let_def)

lemma place_cell_mset:
  assumes "distinct (map rp_key pages)"
  shows "mset (concat (map pageCells (place_cell key c pages))) = add_mset c (mset (concat (map pageCells pages)))"
proof (cases "find (\<lambda>p. rp_key p = key) pages")
  case None
  then show ?thesis by (simp add: place_cell_def) (simp add: pageCells_def)
next
  case (Some q)
  have "mset (concat (map pageCells (map (\<lambda>p. if rp_key p = key then add_cell c p else p) pages)))
      = (if key \<in> rp_key ` set pages then {#c#} else {#}) + mset (concat (map pageCells pages))"
    using assms
  proof (induction pages)
    case Nil
    then show ?case by simp
  next
    case (Cons p pages)
    have "map (\<lambda>p. if rp_key p = key then add_cell c p else p) pages = pages" if "key \<notin> rp_key ` set pages"
      using that by (intro map_idI) auto
    with Cons show ?case by (auto simp del: map_map)
  qed
  with Some find_SomeD [OF Some] show ?thesis by (auto simp: place_cell_def)
qed

lemma place_cell_keys:
  assumes "distinct (map rp_key pages)" and "map rp_pageOrdinal pages = [1..<length pages + 1]"
  shows "distinct (map rp_key (place_cell key c pages))"
    and "map rp_pageOrdinal (place_cell key c pages) = [1..<length (place_cell key c pages) + 1]"
proof -
  have "map rp_key (map (\<lambda>p. if rp_key p = key then add_cell c p else p) pages) = map rp_key pages"
    "map rp_pageOrdinal (map (\<lambda>p. if rp_key p = key then add_cell c p else p) pages) = map rp_pageOrdinal pages"
    by simp_all
  with assms show "distinct (map rp_key (place_cell key c pages))"
    and "map rp_pageOrdinal (place_cell key c pages) = [1..<length (place_cell key c pages) + 1]"
    by (auto simp: place_cell_def find_None_iff simp del: map_map)
qed

lemma group_add_ok:
  assumes "group_ok i g"
  shows "group_ok i (group_add m n g)"
    and "mset (group_cells (group_add m n g)) = add_mset (node_cell m n) (mset (group_cells g))"
proof -
  from assms obtain sts where g: "rg_canvasNodeId g = i" "distinct (map rp_key (rg_pages g))"
    "map rp_pageOrdinal (rg_pages g) = [1..<length (rg_pages g) + 1]"
    "mset sts = mset (map pc_status (group_cells g))" "rg_counts g = counts_of sts"
    by (auto simp: group_ok_def)
  show cells: "mset (group_cells (group_add m n g)) = add_mset (node_cell m n) (mset (group_cells g))"
    by (simp add: group_cells_def group_add_def place_cell_mset [OF g(2)])
  have "mset (sts @ [gn_status n]) = image_mset pc_status (mset (group_cells (group_add m n g)))"
    unfolding cells by (simp add: g(4) node_cell_def)
  moreover have "rg_counts (group_add m n g) = counts_of (sts @ [gn_status n])"
    by (simp add: group_add_def g(5) count_status_snoc)
  ultimately show "group_ok i (group_add m n g)"
    using place_cell_keys [OF g(2,3)] g(1) unfolding group_ok_def
    by (metis (no_types, lifting) group_add_def mset_map run_group.select_convs(1,2) run_group.surjective run_group.update_convs(2,3))
qed

lemma group_ok_counts:
  assumes "group_ok i g"
  shows "rg_counts g = counts_of (map pc_status (group_cells g))"
proof -
  from assms obtain sts where e: "mset sts = mset (map pc_status (group_cells g))" "rg_counts g = counts_of sts"
    by (auto simp: group_ok_def)
  from e(1) have "count_list sts a = count_list (map pc_status (group_cells g)) a" for a by (metis count_mset)
  moreover from e(1) have "length sts = length (map pc_status (group_cells g))" by (rule mset_eq_length)
  ultimately show ?thesis unfolding e(2) counts_of_def by simp
qed

lemma new_group_ok: "group_ok i (new_group i)" "group_cells (new_group i) = []"
  by (simp_all add: group_ok_def new_group_def group_cells_def counts_of_def)

section \<open>The whole fold\<close>

definition groups_ok :: "(jsstr \<times> run_group) list \<Rightarrow> bool" where
  "groups_ok gs \<longleftrightarrow> distinct (map fst gs) \<and> list_all (\<lambda>(i, g). group_ok i g) gs"

definition all_cells :: "(jsstr \<times> run_group) list \<Rightarrow> page_cell multiset" where
  "all_cells gs = mset (concat (map (group_cells \<circ> snd) gs))"

lemma all_cells_update:
  assumes "distinct (map fst gs)" and "mset (group_cells g) = add_mset c (mset (group_cells (nullish (map_of gs i) (new_group i))))"
  shows "all_cells (AList.update i g gs) = add_mset c (all_cells gs)"
  using assms
proof (induction gs)
  case Nil
  then show ?case by (simp add: all_cells_def new_group_ok)
next
  case (Cons x gs)
  show ?case
  proof (cases "fst x = i")
    case True
    with Cons.prems show ?thesis by (cases x) (simp add: all_cells_def)
  next
    case False
    with Cons show ?thesis by (cases x) (simp add: all_cells_def)
  qed
qed

lemma list_all_update: "list_all P gs \<Longrightarrow> P (i, g) \<Longrightarrow> list_all P (AList.update i g gs)"
  by (induction gs) auto

lemma group_step_ok:
  assumes "groups_ok gs"
  shows "groups_ok (group_step es ps m n gs)"
    and "all_cells (group_step es ps m n gs) = (if parent_of es ps n = None then {#} else {#node_cell m n#}) + all_cells gs"
proof -
  have gs: "distinct (map fst gs)" "list_all (\<lambda>(i, g). group_ok i g) gs" using assms by (simp_all add: groups_ok_def)
  have old: "group_ok i (nullish (map_of gs i) (new_group i))" for i
    using gs(2) by (cases "map_of gs i") (auto simp: new_group_ok list_all_iff dest: map_of_SomeD)
  show "groups_ok (group_step es ps m n gs)"
    using gs old group_add_ok(1) [OF old]
    by (auto simp: group_step_def groups_ok_def Let_def distinct_update split: option.split intro!: list_all_update)
  show "all_cells (group_step es ps m n gs) = (if parent_of es ps n = None then {#} else {#node_cell m n#}) + all_cells gs"
    using all_cells_update [OF gs(1) group_add_ok(2) [OF old]]
    by (simp add: group_step_def Let_def split: option.split)
qed

lemma group_fold:
  "groups_ok gs \<Longrightarrow> groups_ok (fold (group_step es ps m) ns gs) \<and>
     all_cells (fold (group_step es ps m) ns gs) =
       mset (map (node_cell m) (filter (\<lambda>n. parent_of es ps n \<noteq> None) ns)) + all_cells gs"
proof (induction ns arbitrary: gs)
  case Nil
  then show ?case by simp
next
  case (Cons n ns)
  from Cons.IH [OF group_step_ok(1) [OF Cons.prems, of es ps m n]] group_step_ok(2) [OF Cons.prems, of es ps m n]
  show ?case by simp
qed

lemma buildRunGroups_ok:
  "groups_ok (buildRunGroups st parents m)"
  "all_cells (buildRunGroups st parents m) = mset (map (node_cell m) (filter
     (\<lambda>n. gn_type n = js ''asset'' \<and> parent_of (ps_edges st) (parent_index parents) n \<noteq> None) (ps_nodes st)))"
proof -
  have "groups_ok []" "all_cells [] = {#}" by (simp_all add: groups_ok_def all_cells_def)
  with group_fold [of "[]" "ps_edges st" "parent_index parents" m "filter (\<lambda>n. gn_type n = js ''asset'') (ps_nodes st)"]
  show "groups_ok (buildRunGroups st parents m)"
    "all_cells (buildRunGroups st parents m) = mset (map (node_cell m) (filter
       (\<lambda>n. gn_type n = js ''asset'' \<and> parent_of (ps_edges st) (parent_index parents) n \<noteq> None) (ps_nodes st)))"
    by (simp_all add: buildRunGroups_def conj_commute)
qed

section \<open>Properties\<close>

text \<open>grouping loses and repeats no asset: the cells of all pages of all groups are exactly the
  asset nodes whose parent is a known storyboard, one cell each. In each group the page keys are
  distinct, the pages are numbered from 1, and the counters are those of its cells.\<close>

theorem buildRunGroups_correct:
  "all_cells (buildRunGroups st parents m) = mset (map (node_cell m) (filter
     (\<lambda>n. gn_type n = js ''asset'' \<and> parent_of (ps_edges st) (parent_index parents) n \<noteq> None) (ps_nodes st))) \<and>
   distinct (map fst (buildRunGroups st parents m)) \<and>
   set (buildRunGroups st parents m) \<subseteq> {(i, g). rg_canvasNodeId g = i \<and> distinct (map rp_key (rg_pages g)) \<and>
     map rp_pageOrdinal (rg_pages g) = [1..<length (rg_pages g) + 1] \<and>
     (let c = rg_counts g; sts = map pc_status (group_cells g)
      in gc_total c = length sts \<and> gc_done c = count_list sts S_done \<and> gc_running c = count_list sts S_running \<and>
         gc_failed c = count_list sts S_failed \<and> gc_pending c = count_list sts S_pending + count_list sts S_blocked)}"
proof (intro conjI)
  note ok = buildRunGroups_ok(1) [of st parents m]
  show "distinct (map fst (buildRunGroups st parents m))" using ok by (simp add: groups_ok_def)
  show "set (buildRunGroups st parents m) \<subseteq> {(i, g). rg_canvasNodeId g = i \<and> distinct (map rp_key (rg_pages g)) \<and>
     map rp_pageOrdinal (rg_pages g) = [1..<length (rg_pages g) + 1] \<and>
     (let c = rg_counts g; sts = map pc_status (group_cells g)
      in gc_total c = length sts \<and> gc_done c = count_list sts S_done \<and> gc_running c = count_list sts S_running \<and>
         gc_failed c = count_list sts S_failed \<and> gc_pending c = count_list sts S_pending + count_list sts S_blocked)}"
  proof
    fix x
    assume x: "x \<in> set (buildRunGroups st parents m)"
    obtain i g where ig: "x = (i, g)" by fastforce
    have "group_ok i g" using ok x ig by (auto simp: groups_ok_def list_all_iff)
    then have g: "rg_canvasNodeId g = i" "distinct (map rp_key (rg_pages g))"
      "map rp_pageOrdinal (rg_pages g) = [1..<length (rg_pages g) + 1]"
      "rg_counts g = counts_of (map pc_status (group_cells g))"
      unfolding group_ok_def using group_ok_counts [of i g] \<open>group_ok i g\<close> by blast+
    show "x \<in> {(i, g). rg_canvasNodeId g = i \<and> distinct (map rp_key (rg_pages g)) \<and>
     map rp_pageOrdinal (rg_pages g) = [1..<length (rg_pages g) + 1] \<and>
     (let c = rg_counts g; sts = map pc_status (group_cells g)
      in gc_total c = length sts \<and> gc_done c = count_list sts S_done \<and> gc_running c = count_list sts S_running \<and>
         gc_failed c = count_list sts S_failed \<and> gc_pending c = count_list sts S_pending + count_list sts S_blocked)}"
      using g(3) by (simp add: ig Let_def g(1,2,4) counts_of_def)
  qed
qed (rule buildRunGroups_ok(2))

text \<open>a page shows its worst cell: failed before running before waiting before done, with
  blocked shown as pending and an empty page as done.\<close>

theorem pageStatus_worst:
  "pageStatus p = Max (insert S_done ((shown_status \<circ> pc_status) ` set (pageCells p)))"
  by (rule pageStatus_max)

end
