(* ===== verification/Event_Log.thy ===== *)
theory Event_Log
  imports Node_Color
begin

text \<open>
  The event log of a run: \<open>web/src/lib/timeline.ts\<close> (frame to log line, and the
  fold that drops a frame whose sequence number is known),
  \<open>web/src/components/studio/EventLog.schema.ts\<close> (grouping), and the paged replay
  \<open>fetchAllEvents\<close> of \<open>web/src/features/workflow/api.ts\<close>.
\<close>

section \<open>Log lines\<close>

datatype stage_id = S1 | S2 | S3 | S4

record log_line =
  ll_seq :: int
  ll_kind :: jsstr
  ll_text :: jsstr
  ll_emphasis :: "stage_id option"

fun stage_name :: "stage_id \<Rightarrow> jsstr" where
  "stage_name S1 = js ''S1''" | "stage_name S2 = js ''S2''" | "stage_name S3 = js ''S3''" | "stage_name S4 = js ''S4''"

definition KIND_LABEL :: "(jsstr \<times> jsstr) list" where
  "KIND_LABEL = [
     (js ''planner_started'', [0x89c4, 0x5212, 0x5f00, 0x59cb]),
     (js ''todo_ready'', [0x4efb, 0x52a1, 0x5c31, 0x7eea]),
     (js ''todo_started'', [0x4efb, 0x52a1, 0x5f00, 0x59cb]),
     (js ''todo_finished'', [0x4efb, 0x52a1, 0x5b8c, 0x6210]),
     (js ''todo_failed'', [0x4efb, 0x52a1, 0x5931, 0x8d25]),
     (js ''asset_generated'', [0x7d20, 0x6750, 0x5df2, 0x751f, 0x6210]),
     (js ''asset_submitted'', [0x7d20, 0x6750, 0x5df2, 0x63d0, 0x4ea4]),
     (js ''asset_prescreened'', [0x7d20, 0x6750, 0x9884, 0x7b5b, 0x5b8c, 0x6210]),
     (js ''run_done'', [0x8fd0, 0x884c, 0x7ed3, 0x675f])]"

definition STAGE_KIND_LABEL :: "(jsstr \<times> jsstr) list" where
  "STAGE_KIND_LABEL = [
     (js ''S2:todo_ready'', [0x5267, 0x672c, 0x4efb, 0x52a1, 0x5c31, 0x7eea]),
     (js ''S3:todo_ready'', [0x5206, 0x955c, 0x4efb, 0x52a1, 0x5c31, 0x7eea])]"

definition friendlyLabel :: "log_line \<Rightarrow> jsstr" where
  "friendlyLabel line =
     (let staged = Option.bind (ll_emphasis line)
            (\<lambda>s. map_of STAGE_KIND_LABEL (stage_name s @ js '':'' @ ll_kind line))
      in if truthy staged then the staged else nullish (map_of KIND_LABEL (ll_kind line)) (ll_text line))"

definition payloadStr :: "sse_frame \<Rightarrow> jsstr \<Rightarrow> jsstr option" where
  "payloadStr frame key =
     (case fr_payload frame of
        Some (JObj ps) \<Rightarrow> (case map_of ps key of Some (JStr s) \<Rightarrow> Some s | _ \<Rightarrow> None)
      | _ \<Rightarrow> None)"

definition payloadType :: "sse_frame \<Rightarrow> jsstr option" where
  "payloadType frame =
     (case fr_payload frame of
        Some (JObj ps) \<Rightarrow> (case map_of ps (js ''type'') of Some (JStr s) \<Rightarrow> Some s | _ \<Rightarrow> None)
      | _ \<Rightarrow> None)"

definition TYPE_TO_STAGE :: "(jsstr \<times> stage_id) list" where
  "TYPE_TO_STAGE = [(js ''script'', S2), (js ''storyboard'', S3)]"

definition emphasisFor :: "jsstr option \<Rightarrow> stage_id option" where
  "emphasisFor t =
     (if \<not> truthy t then None
      else case map_of TYPE_TO_STAGE (the t) of
        Some s \<Rightarrow> Some s
      | None \<Rightarrow> if the t = js ''asset'' then Some S4 else None)"

text \<open>The text and the stage of a line, by the kind of the frame.\<close>

definition log_text :: "sse_frame \<Rightarrow> jsstr \<times> stage_id option" where
  "log_text frame =
     (let t = payloadType frame; kind = fr_kind frame
      in if kind = js ''planner_started'' then ([0x89c4, 0x5212, 0x5f00, 0x59cb], Some S1)
         else if kind = js ''todo_ready'' then (js ''todo_ready'' @ [0xff08] @ nullish t (js ''?'') @ [0xff09], emphasisFor t)
         else if kind = js ''todo_started'' then ([0x5f00, 0x59cb, 0xff1a] @ nullish t (fr_todoId frame), emphasisFor t)
         else if kind = js ''todo_finished'' then ([0x5b8c, 0x6210, 0xff1a] @ nullish t (fr_todoId frame), emphasisFor t)
         else if kind = js ''asset_generated'' then (js ''asset_generated'' @ [32, 0xb7, 32, 0x5f85, 0x5ba1], Some S4)
         else if kind = js ''asset_submitted'' then (js ''asset_submitted'' @ [32, 0xb7, 32, 0x5df2, 0x63d0, 0x4ea4], Some S4)
         else if kind = js ''asset_prescreened'' then (js ''asset_prescreened'' @ [32, 0xb7, 32, 0x9884, 0x7b5b], Some S4)
         else if kind = js ''todo_failed'' then
           (let err = payloadStr frame (js ''error'')
            in ([0x5931, 0x8d25, 0xff1a] @ (if truthy err then the err
                 else fr_todoId frame @ [32, 0xb7, 32, 0x9000, 0x907f, 0x91cd, 0x8bd5]), emphasisFor t))
         else if kind = js ''run_done'' then ([0x8fd0, 0x884c, 0x7ed3, 0x675f], None)
         else (kind, None))"

definition logFor :: "sse_frame \<Rightarrow> log_line" where
  "logFor frame = (let (text, emphasis) = log_text frame
     in \<lparr>ll_seq = fr_seq frame, ll_kind = fr_kind frame, ll_text = text, ll_emphasis = emphasis\<rparr>)"

section \<open>The fold with the set of known sequence numbers\<close>

fun fold_log_loop :: "int set \<Rightarrow> log_line list \<Rightarrow> sse_frame list \<Rightarrow> log_line list" where
  "fold_log_loop seen nxt [] = nxt"
| "fold_log_loop seen nxt (f # fs) =
     (if fr_seq f \<in> seen then fold_log_loop seen nxt fs
      else fold_log_loop (insert (fr_seq f) seen) (nxt @ [logFor f]) fs)"

definition foldLog :: "log_line list \<Rightarrow> sse_frame list \<Rightarrow> log_line list" where
  "foldLog old frames = fold_log_loop (set (map ll_seq old)) old frames"

lemma logFor_seq [simp]: "ll_seq (logFor f) = fr_seq f" "ll_kind (logFor f) = fr_kind f"
  by (simp_all add: logFor_def case_prod_beta)

lemma fold_log_loop_dedupe:
  "fold_log_loop (set seen) nxt fs = nxt @ map logFor (dedupe_by fr_seq seen fs)"
proof (induction fs arbitrary: seen nxt)
  case Nil
  then show ?case by simp
next
  case (Cons f fs)
  from Cons.IH [of "fr_seq f # seen" "nxt @ [logFor f]"] Cons.IH [of seen nxt] show ?case by simp
qed

lemma foldLog_dedupe: "foldLog old fs = old @ map logFor (dedupe_by fr_seq (map ll_seq old) fs)"
  unfolding foldLog_def by (rule fold_log_loop_dedupe)

lemma foldLog_append: "foldLog old (fs @ gs) = foldLog (foldLog old fs) gs"
proof -
  let ?d = "dedupe_by fr_seq (map ll_seq old) fs"
  have "dedupe_by fr_seq (map fr_seq ?d @ map ll_seq old) gs = dedupe_by fr_seq (map ll_seq (foldLog old fs)) gs"
    by (rule dedupe_by_cong_seen) (auto simp: foldLog_dedupe)
  then show ?thesis
    by (simp add: foldLog_dedupe [of old "fs @ gs"] foldLog_dedupe [of "foldLog old fs" gs] dedupe_by_append)
      (simp add: foldLog_dedupe)
qed

lemma foldLog_Nil [simp]: "foldLog old [] = old"
  by (simp add: foldLog_dedupe)

lemma foldLog_seqs: "ll_seq ` set (foldLog old fs) = ll_seq ` set old \<union> fr_seq ` set fs"
  using dedupe_by_keys [of fr_seq "map ll_seq old" fs] by (auto simp: foldLog_dedupe image_Un image_image)

lemma foldLog_distinct:
  assumes "distinct (map ll_seq old)"
  shows "distinct (map ll_seq (foldLog old fs))"
proof -
  have "set (map fr_seq (dedupe_by fr_seq (map ll_seq old) fs)) \<inter> set (map ll_seq old) = {}"
    using dedupe_by_keys [of fr_seq "map ll_seq old" fs] by auto
  with assms dedupe_by_distinct [of fr_seq "map ll_seq old" fs] show ?thesis
    by (auto simp: foldLog_dedupe o_def)
qed

section \<open>Idempotent reducers\<close>

text \<open>A reducer over frames that absorbs a frame it has met: the contract that makes replaying
  the whole history after a reconnect harmless.\<close>

locale absorbing_reducer =
  fixes step :: "'f \<Rightarrow> 's \<Rightarrow> 's" and absorbed :: "'f \<Rightarrow> 's \<Rightarrow> bool"
  assumes absorb: "absorbed f s \<Longrightarrow> step f s = s"
    and step_absorbs: "absorbed f (step f s)"
    and keeps: "absorbed g s \<Longrightarrow> absorbed g (step f s)"
begin

lemma absorbed_fold: "absorbed g s \<Longrightarrow> absorbed g (fold step fs s)"
  by (induction fs arbitrary: s) (auto intro: keeps)

lemma fold_absorbs: "f \<in> set fs \<Longrightarrow> absorbed f (fold step fs s)"
  by (induction fs arbitrary: s) (auto intro: absorbed_fold step_absorbs)

lemma all_absorbed: "(\<And>f. f \<in> set fs \<Longrightarrow> absorbed f s) \<Longrightarrow> fold step fs s = s"
  by (induction fs) (auto simp: absorb)

lemma replay: "set gs \<subseteq> set fs \<Longrightarrow> fold step gs (fold step fs s) = fold step fs s"
  by (rule all_absorbed) (auto intro: fold_absorbs)

end

definition log_absorbed :: "sse_frame \<Rightarrow> log_line list \<Rightarrow> bool" where
  "log_absorbed f old \<longleftrightarrow> fr_seq f \<in> ll_seq ` set old"

interpretation log_reducer: absorbing_reducer "\<lambda>f old. foldLog old [f]" log_absorbed
proof unfold_locales
  fix f g :: sse_frame and s :: "log_line list"
  show "log_absorbed f s \<Longrightarrow> foldLog s [f] = s"
    by (auto simp: log_absorbed_def foldLog_def)
  show "log_absorbed f (foldLog s [f])" by (simp add: log_absorbed_def foldLog_seqs)
  show "log_absorbed g s \<Longrightarrow> log_absorbed g (foldLog s [f])" by (simp add: log_absorbed_def foldLog_seqs)
qed

lemma foldLog_fold: "foldLog old fs = fold (\<lambda>f old. foldLog old [f]) fs old"
proof (induction fs arbitrary: old)
  case Nil
  then show ?case by simp
next
  case (Cons f fs)
  then show ?case using foldLog_append [of old "[f]" fs] by simp
qed

lemma foldLog_replay: "set gs \<subseteq> set fs \<Longrightarrow> foldLog (foldLog old fs) gs = foldLog old fs"
  using log_reducer.replay [of gs fs old] unfolding foldLog_fold [symmetric] .

section \<open>Grouping\<close>

datatype group_key = Emph stage_id | Other

definition emphasis_key :: "log_line \<Rightarrow> group_key" where
  "emphasis_key line = (case ll_emphasis line of Some s \<Rightarrow> Emph s | None \<Rightarrow> Other)"

definition bucket_push :: "log_line \<Rightarrow> (group_key \<times> log_line list) list \<Rightarrow> (group_key \<times> log_line list) list" where
  "bucket_push line buckets =
     AList.update (emphasis_key line) (nullish (map_of buckets (emphasis_key line)) [] @ [line]) buckets"

definition groupByEmphasis :: "log_line list \<Rightarrow> (group_key \<times> log_line list) list" where
  "groupByEmphasis lines = fold bucket_push (sort_key ll_seq lines) []"

definition later_line :: "log_line \<Rightarrow> log_line \<Rightarrow> log_line" where
  "later_line a b = (if ll_seq a < ll_seq b then b else a)"

definition latestSummary :: "log_line list \<Rightarrow> (jsstr \<times> nat) option" where
  "latestSummary lines =
     (case lines of [] \<Rightarrow> None | l # ls \<Rightarrow> Some (ll_text (foldl later_line l ls), length lines))"

lemma bucket_fold:
  "map_of (fold bucket_push ls []) k = (let g = filter (\<lambda>l. emphasis_key l = k) ls in if g = [] then None else Some g) \<and>
   distinct (map fst (fold bucket_push ls []))"
proof (induction ls arbitrary: k rule: rev_induct)
  case Nil
  then show ?case by simp
next
  case (snoc l ls)
  let ?m = "fold bucket_push ls []"
  have m: "map_of ?m (emphasis_key l) = (let g = filter (\<lambda>h. emphasis_key h = emphasis_key l) ls in if g = [] then None else Some g)"
    "map_of ?m k = (let g = filter (\<lambda>h. emphasis_key h = k) ls in if g = [] then None else Some g)"
    "distinct (map fst ?m)"
    using snoc.IH by blast+
  have "map_of (bucket_push l ?m) k = (if k = emphasis_key l
      then Some (nullish (map_of ?m (emphasis_key l)) [] @ [l]) else map_of ?m k)"
    by (simp add: bucket_push_def update_conv')
  moreover have "nullish (map_of ?m (emphasis_key l)) [] = filter (\<lambda>h. emphasis_key h = emphasis_key l) ls"
    by (simp add: m(1) Let_def)
  moreover have "distinct (map fst (bucket_push l ?m))"
    using distinct_update [OF m(3)] by (simp only: bucket_push_def)
  ultimately show ?case using m(2) by (auto simp: Let_def)
qed

section \<open>Paged replay\<close>

text \<open>\<open>fetch a\<close> is the answer of \<open>GET /events?afterSeq=a\<close>. The loop may run forever on a bad
  server, so it is a partial function.\<close>

definition PAGE :: nat where "PAGE = 200"

partial_function (option) fetch_pages :: "(int \<Rightarrow> studio_event list) \<Rightarrow> int \<Rightarrow> studio_event list \<Rightarrow> studio_event list option" where
  "fetch_pages fetch afterSeq all_events =
     (let page = fetch afterSeq; collected = all_events @ page
      in if length page < PAGE then Some collected
         else fetch_pages fetch (ev_seq (page ! (length page - 1))) collected)"

definition fetchAllEvents :: "(int \<Rightarrow> studio_event list) \<Rightarrow> studio_event list option" where
  "fetchAllEvents fetch = fetch_pages fetch 0 []"

text \<open>What the endpoint documents: the events after \<open>a\<close> in order of their numbers, at most 200.\<close>

definition serves :: "(int \<Rightarrow> studio_event list) \<Rightarrow> studio_event list \<Rightarrow> bool" where
  "serves fetch E \<longleftrightarrow> sorted_wrt (<) (map ev_seq E) \<and> (\<forall>e \<in> set E. 0 < ev_seq e) \<and>
     (\<forall>a. fetch a = take PAGE (filter (\<lambda>e. a < ev_seq e) E))"

text \<open>After the events \<open>A\<close> the endpoint returns the front of the rest \<open>B\<close>.\<close>

lemma serves_rest:
  assumes "serves fetch (A @ B)" and "a = (if A = [] then 0 else ev_seq (last A))"
  shows "fetch a = take PAGE B"
proof -
  have sorted: "sorted_wrt (<) (map ev_seq (A @ B))" and pos: "\<forall>e \<in> set (A @ B). 0 < ev_seq e"
    and f: "fetch a = take PAGE (filter (\<lambda>e. a < ev_seq e) (A @ B))"
    using assms(1) by (simp_all add: serves_def)
  have "\<not> a < ev_seq e" if "e \<in> set A" for e
  proof (cases A rule: rev_cases)
    case Nil
    with that show ?thesis by simp
  next
    case (snoc A' l)
    with sorted that assms(2) show ?thesis by (auto simp: sorted_wrt_append)
  qed
  then have 1: "filter (\<lambda>e. a < ev_seq e) A = []" by (auto simp: filter_empty_conv)
  have "a < ev_seq e" if "e \<in> set B" for e
  proof (cases "A = []")
    case True
    with assms(2) pos that show ?thesis by simp
  next
    case False
    then have "last A \<in> set A" by simp
    with sorted that have "ev_seq (last A) < ev_seq e" by (auto simp: sorted_wrt_append)
    with False assms(2) show ?thesis by simp
  qed
  then have 2: "filter (\<lambda>e. a < ev_seq e) B = B" by (simp add: filter_id_conv)
  show ?thesis unfolding f by (simp add: 1 2)
qed

lemma fetch_pages_complete:
  assumes "serves fetch (A @ B)" and "a = (if A = [] then 0 else ev_seq (last A))"
  shows "fetch_pages fetch a A = Some (A @ B)"
  using assms
proof (induction "length B" arbitrary: A B a rule: less_induct)
  case less
  have page: "fetch a = take PAGE B" using serves_rest [OF less.prems] .
  show ?case
  proof (cases "length B < PAGE")
    case True
    then show ?thesis by (subst fetch_pages.simps) (simp add: page Let_def)
  next
    case False
    let ?P = "take PAGE B"
    have P: "length ?P = PAGE" "?P \<noteq> []" using False by (auto simp: PAGE_def)
    have "fetch_pages fetch a A = fetch_pages fetch (ev_seq (?P ! (length ?P - 1))) (A @ ?P)"
      using P by (subst fetch_pages.simps) (simp add: page Let_def)
    also have "?P ! (length ?P - 1) = last ?P" using P(2) by (simp add: last_conv_nth)
    also have "fetch_pages fetch (ev_seq (last ?P)) (A @ ?P) = Some ((A @ ?P) @ drop PAGE B)"
    proof (rule less.hyps)
      show "length (drop PAGE B) < length B" using P(2) by (auto simp: PAGE_def)
      show "serves fetch ((A @ ?P) @ drop PAGE B)" using less.prems(1) by simp
      show "ev_seq (last ?P) = (if A @ ?P = [] then 0 else ev_seq (last (A @ ?P)))" using P(2) by simp
    qed
    finally show ?thesis by simp
  qed
qed

section \<open>Properties\<close>


definition one_event :: studio_event where
  "one_event = \<lparr>ev_seq = 7, ev_kind = js ''run_done'', ev_todoId = None, ev_payload = None\<rparr>"


text \<open>C28: the event log never repeats a sequence number and is stable under replay: folding any
  frames keeps the numbers distinct, adds exactly the new numbers, keeps the old lines in front,
  and folding again frames that were folded before (in any order, any number of times) changes
  nothing.\<close>

theorem foldLog_idempotent:
  assumes "distinct (map ll_seq old)" and "set gs \<subseteq> set fs"
  shows "distinct (map ll_seq (foldLog old fs)) \<and> ll_seq ` set (foldLog old fs) = ll_seq ` set old \<union> fr_seq ` set fs \<and>
    take (length old) (foldLog old fs) = old \<and> foldLog (foldLog old fs) gs = foldLog old fs"
  using foldLog_distinct [OF assms(1)] foldLog_seqs foldLog_replay [OF assms(2)]
  by (simp add: foldLog_dedupe)

definition done_frame :: sse_frame where
  "done_frame = \<lparr>fr_seq = 7, fr_kind = js ''run_done'', fr_todoId = [], fr_payload = None\<rparr>"

theorem foldLog_idempotent_witness:
  "foldLog (foldLog [] [done_frame]) [done_frame, done_frame] = foldLog [] [done_frame]"
  using foldLog_idempotent [of "[]" "[done_frame, done_frame]" "[done_frame]"] by simp

text \<open>grouping by stage splits the log without loss: each group holds, in order of the
  sequence numbers, exactly the lines of its stage, and no group is empty or repeated.\<close>

theorem groupByEmphasis_correct:
  "distinct (map fst (groupByEmphasis lines)) \<and>
   map_of (groupByEmphasis lines) = (\<lambda>k. let g = sort_key ll_seq (filter (\<lambda>l. emphasis_key l = k) lines)
     in if g = [] then None else Some g)"
proof
  show "distinct (map fst (groupByEmphasis lines))"
    unfolding groupByEmphasis_def using bucket_fold by blast
  have "filter P (sort_key ll_seq lines) = sort_key ll_seq (filter P lines)" for P
    by (rule filter_sort)
  then show "map_of (groupByEmphasis lines) = (\<lambda>k. let g = sort_key ll_seq (filter (\<lambda>l. emphasis_key l = k) lines)
     in if g = [] then None else Some g)"
    unfolding groupByEmphasis_def using bucket_fold [of "sort_key ll_seq lines"] by (auto simp: Let_def fun_eq_iff)
qed

end
