(* ===== verification/Run_Stream.thy ===== *)
theory Run_Stream
  imports Event_Log Canvas_Model
begin

text \<open>
  The live side of a run: the dispatch of server-sent messages (\<open>web/src/lib/sse.ts\<close>), the
  orchestration of replay and stream (\<open>web/src/features/workflow/useProductionTimeline.ts\<close>) and
  the node timings (\<open>web/src/features/workflow/useNodeTiming.ts\<close>). The stream is the list of the
  signals the client library delivers, in order; reconnecting and replaying from the start is the
  library's and the server's business and shows as more signals.
\<close>

section \<open>Dispatch of messages\<close>

text \<open>A message with its event name; the data of a \<open>state\<close> event is a project state, that of any
  other event a frame.\<close>

datatype sse_message = MsgState project_state | MsgFrame jsstr sse_frame

datatype handler_call = CallEvent sse_frame | CallDone sse_frame | CallMessage sse_frame | CallState project_state

definition NAMED_EVENTS :: "jsstr list" where
  "NAMED_EVENTS = [js ''planner_started'', js ''todo_ready'', js ''todo_started'', js ''todo_finished'', js ''todo_failed'',
     js ''asset_generated'', js ''asset_prescreened'', js ''asset_submitted'', js ''run_done'', js ''state'']"

definition TERMINAL_EVENT :: jsstr where "TERMINAL_EVENT = js ''run_done''"

fun onmessage :: "sse_message \<Rightarrow> handler_call list" where
  "onmessage (MsgState s) = [CallState s]"
| "onmessage (MsgFrame event frame) =
     (if event \<in> set NAMED_EVENTS
      then CallEvent frame # (if event = TERMINAL_EVENT then [CallDone frame] else [])
      else [CallMessage frame])"

section \<open>Replay, then stream\<close>

datatype conn_state = Idle | Connected | Reconnecting | Disconnected

fun isTerminal :: "project_status \<Rightarrow> bool" where
  "isTerminal PS_completed = True"
| "isTerminal PS_review = True"
| "isTerminal PS_failed = True"
| "isTerminal PS_canceled = True"
| "isTerminal _ = False"

definition isTerminalStatus :: "project_status option \<Rightarrow> bool" where
  "isTerminalStatus status = (case status of None \<Rightarrow> False | Some s \<Rightarrow> isTerminal s)"

definition toFrame :: "studio_event \<Rightarrow> sse_frame" where
  "toFrame e = \<lparr>fr_seq = ev_seq e, fr_kind = ev_kind e, fr_todoId = nullish (ev_todoId e) [], fr_payload = ev_payload e\<rparr>"

text \<open>The hook's state, and the calls it made to its three callbacks.\<close>

record timeline =
  tl_log :: "log_line list"
  tl_conn :: conn_state
  tl_replayed :: bool
  tl_cancelled :: bool
  tl_onState :: "project_state list"
  tl_onReplay :: "sse_frame list list"
  tl_onFrame :: "sse_frame list"

definition initial_timeline :: timeline where
  "initial_timeline = \<lparr>tl_log = [], tl_conn = Idle, tl_replayed = False, tl_cancelled = False,
     tl_onState = [], tl_onReplay = [], tl_onFrame = []\<rparr>"

fun on_call :: "handler_call \<Rightarrow> timeline \<Rightarrow> timeline" where
  "on_call (CallEvent frame) t = t\<lparr>tl_log := foldLog (tl_log t) [frame], tl_onFrame := tl_onFrame t @ [frame]\<rparr>"
| "on_call (CallMessage frame) t = t\<lparr>tl_log := foldLog (tl_log t) [frame], tl_onFrame := tl_onFrame t @ [frame]\<rparr>"
| "on_call (CallState s) t = t\<lparr>tl_onState := tl_onState t @ [s]\<rparr>"
| "on_call (CallDone frame) t = t"

text \<open>What reaches the hook while the stream is open; \<open>SigCancel\<close> is the cleanup of the effect.\<close>

datatype signal = SigOpen | SigMessage sse_message | SigError | SigClose | SigReject | SigCancel

definition on_signal :: "signal \<Rightarrow> timeline \<Rightarrow> timeline" where
  "on_signal sig t =
     (if tl_cancelled t then t
      else case sig of
        SigOpen \<Rightarrow> t\<lparr>tl_conn := Connected\<rparr>
      | SigMessage m \<Rightarrow> fold on_call (onmessage m) t
      | SigError \<Rightarrow> t\<lparr>tl_conn := Reconnecting\<rparr>
      | SigClose \<Rightarrow> t\<lparr>tl_conn := Disconnected\<rparr>
      | SigReject \<Rightarrow> t\<lparr>tl_conn := Disconnected\<rparr>
      | SigCancel \<Rightarrow> t\<lparr>tl_cancelled := True\<rparr>)"

datatype replay_result = Replayed "studio_event list" | ReplayFailed | CancelledDuringReplay

definition run_timeline :: "bool \<Rightarrow> jsstr option \<Rightarrow> replay_result \<Rightarrow> signal list \<Rightarrow> timeline \<Rightarrow> timeline" where
  "run_timeline terminal accessToken replay signals t =
     (let started = t\<lparr>tl_log := [], tl_replayed := False,
            tl_conn := (if \<not> terminal then Reconnecting else tl_conn t)\<rparr>
      in case replay of
           CancelledDuringReplay \<Rightarrow> started\<lparr>tl_cancelled := True\<rparr>
         | _ \<Rightarrow>
           let replayFrames = (case replay of Replayed evs \<Rightarrow> map toFrame evs | _ \<Rightarrow> []);
               replayed = started\<lparr>tl_log := foldLog (tl_log started) replayFrames, tl_replayed := True,
                 tl_onReplay := tl_onReplay started @ (if 0 < length replayFrames then [replayFrames] else [])\<rparr>
           in if terminal \<or> \<not> truthy accessToken then replayed\<lparr>tl_conn := Idle\<rparr>
              else fold on_signal signals replayed)"

definition useProductionTimeline :: "bool \<Rightarrow> jsstr \<Rightarrow> project_status option \<Rightarrow> jsstr option \<Rightarrow> replay_result \<Rightarrow>
    signal list \<Rightarrow> timeline \<Rightarrow> timeline" where
  "useProductionTimeline enabled projectId status accessToken replay signals t =
     (if \<not> enabled \<or> projectId = [] \<or> status = None then t
      else run_timeline (isTerminalStatus status) accessToken replay signals t)"

section \<open>Timings\<close>

record timing_state =
  tm_watermark :: int
  tm_started :: "jsstr \<rightharpoonup> int"
  tm_finished :: "jsstr \<rightharpoonup> int"

definition INIT :: timing_state where
  "INIT = \<lparr>tm_watermark = 0, tm_started = Map.empty, tm_finished = Map.empty\<rparr>"

datatype timing_action = ResetTiming | ReplayTiming int | FrameTiming int jsstr jsstr int

fun timing_reducer :: "timing_state \<Rightarrow> timing_action \<Rightarrow> timing_state" where
  "timing_reducer st ResetTiming = INIT"
| "timing_reducer st (ReplayTiming maxSeq) = (if maxSeq \<le> tm_watermark st then st else st\<lparr>tm_watermark := maxSeq\<rparr>)"
| "timing_reducer st (FrameTiming sq kind todoId tm) =
     (if sq \<le> tm_watermark st then st
      else if kind = js ''todo_started'' \<and> tm_started st todoId = None
        then st\<lparr>tm_watermark := sq, tm_started := (tm_started st)(todoId \<mapsto> tm)\<rparr>
      else if kind = js ''todo_finished''
        then st\<lparr>tm_watermark := sq, tm_finished := (tm_finished st)(todoId \<mapsto> tm)\<rparr>
      else st\<lparr>tm_watermark := sq\<rparr>)"

definition onReplay :: "sse_frame list \<Rightarrow> timing_state \<Rightarrow> timing_state" where
  "onReplay frames st = timing_reducer st (ReplayTiming (foldl (\<lambda>m f. max m (fr_seq f)) 0 frames))"

text \<open>A frame with the time \<open>Date.now()\<close> reads when it arrives.\<close>

definition onFrame :: "sse_frame \<times> int \<Rightarrow> timing_state \<Rightarrow> timing_state" where
  "onFrame f st = timing_reducer st (FrameTiming (fr_seq (fst f)) (fr_kind (fst f)) (fr_todoId (fst f)) (snd f))"

definition timingByTodoId :: "int \<Rightarrow> timing_state \<Rightarrow> (jsstr \<rightharpoonup> node_timing)" where
  "timingByTodoId now st todoId = map_option (\<lambda>startedAt.
     \<lparr>nt_startedAt = startedAt, nt_finishedAt = tm_finished st todoId,
      nt_elapsedMs = max 0 (nullish (tm_finished st todoId) now - startedAt)\<rparr>) (tm_started st todoId)"

section \<open>Facts on the stream\<close>

fun frame_of :: "signal \<Rightarrow> sse_frame list" where
  "frame_of (SigMessage (MsgFrame event frame)) = [frame]"
| "frame_of _ = []"

fun state_of :: "signal \<Rightarrow> project_state list" where
  "state_of (SigMessage (MsgState s)) = [s]"
| "state_of _ = []"

lemma on_signal_live:
  assumes "\<not> tl_cancelled t" and "sig \<noteq> SigCancel"
  shows "tl_log (on_signal sig t) = foldLog (tl_log t) (frame_of sig) \<and> \<not> tl_cancelled (on_signal sig t) \<and>
    tl_onState (on_signal sig t) = tl_onState t @ state_of sig \<and> tl_onFrame (on_signal sig t) = tl_onFrame t @ frame_of sig"
proof (cases sig)
  case (SigMessage m)
  with assms show ?thesis by (cases m) (auto simp: on_signal_def)
qed (use assms in \<open>simp_all add: on_signal_def\<close>)

lemma fold_signals_live:
  assumes "\<not> tl_cancelled t" and "SigCancel \<notin> set sigs"
  shows "tl_log (fold on_signal sigs t) = foldLog (tl_log t) (concat (map frame_of sigs)) \<and>
    tl_onState (fold on_signal sigs t) = tl_onState t @ concat (map state_of sigs) \<and>
    tl_onFrame (fold on_signal sigs t) = tl_onFrame t @ concat (map frame_of sigs)"
  using assms
proof (induction sigs arbitrary: t)
  case Nil
  then show ?case by simp
next
  case (Cons sig sigs)
  from Cons.prems have "sig \<noteq> SigCancel" by auto
  note one = on_signal_live [OF Cons.prems(1) this]
  from Cons.prems(2) have "SigCancel \<notin> set sigs" by simp
  from Cons.IH [OF _ this, of "on_signal sig t"] one show ?case by (simp add: foldLog_append)
qed

lemma fold_signals_cancelled: "tl_cancelled t \<Longrightarrow> fold on_signal sigs t = t"
  by (induction sigs) (simp_all add: on_signal_def)

section \<open>Facts on the timings\<close>

definition timing_absorbed :: "sse_frame \<times> int \<Rightarrow> timing_state \<Rightarrow> bool" where
  "timing_absorbed f st \<longleftrightarrow> fr_seq (fst f) \<le> tm_watermark st"

interpretation timing: absorbing_reducer onFrame timing_absorbed
  by unfold_locales (auto simp: onFrame_def timing_absorbed_def)

lemma foldl_max: "foldl (\<lambda>m f. max m (fr_seq f)) a fs = Max (insert a (fr_seq ` set fs))"
proof (induction fs arbitrary: a)
  case Nil
  then show ?case by simp
next
  case (Cons f fs)
  have "Max (insert (max a (fr_seq f)) (fr_seq ` set fs)) = Max (insert a (insert (fr_seq f) (fr_seq ` set fs)))"
    by (cases "fs = []") (simp_all add: Max_insert max.assoc)
  with Cons show ?case by simp
qed

lemma onReplay_absorbs: "f \<in> set fs \<Longrightarrow> timing_absorbed (f, tm) (onReplay fs st)"
proof -
  assume "f \<in> set fs"
  then have "fr_seq f \<le> Max (insert 0 (fr_seq ` set fs))" by (intro Max_ge) auto
  then show ?thesis
    using \<open>f \<in> set fs\<close> by (auto simp: timing_absorbed_def onReplay_def foldl_max)
qed

lemma onReplay_keeps [simp]:
  "tm_started (onReplay fs st) = tm_started st" "tm_finished (onReplay fs st) = tm_finished st"
  by (simp_all add: onReplay_def)

lemma onFrame_started:
  "tm_started (onFrame f st) i = (if tm_watermark st < fr_seq (fst f) \<and> fr_kind (fst f) = js ''todo_started'' \<and>
      fr_todoId (fst f) = i \<and> tm_started st i = None then Some (snd f) else tm_started st i)"
  by (auto simp: onFrame_def)

lemma onFrame_watermark: "tm_watermark st \<le> tm_watermark (onFrame f st)"
  by (simp add: onFrame_def)

lemma started_live:
  "tm_started (fold onFrame fs st) i = Some tm \<Longrightarrow> tm_started st i = None \<Longrightarrow>
     \<exists>f \<in> set fs. tm_watermark st < fr_seq (fst f) \<and> fr_kind (fst f) = js ''todo_started'' \<and> fr_todoId (fst f) = i \<and> snd f = tm"
proof (induction fs arbitrary: st)
  case Nil
  then show ?case by simp
next
  case (Cons f fs)
  show ?case
  proof (cases "tm_started (onFrame f st) i")
    case None
    with Cons.IH [of "onFrame f st"] Cons.prems(1) obtain g where "g \<in> set fs" "tm_watermark (onFrame f st) < fr_seq (fst g)"
      "fr_kind (fst g) = js ''todo_started''" "fr_todoId (fst g) = i" "snd g = tm" by auto
    with onFrame_watermark [of st f] show ?thesis by (intro bexI [of _ g]) auto
  next
    case (Some tm')
    have "tm_started (fold onFrame fs s) i = Some tm'" if "tm_started s i = Some tm'" for s
      using that by (induction fs arbitrary: s) (simp_all add: onFrame_started)
    with Some Cons.prems(1) have "tm' = tm" by simp
    with Some Cons.prems(2) show ?thesis by (auto simp: onFrame_started split: if_splits)
  qed
qed

section \<open>Properties\<close>

text \<open>C27: the log of a running project is the fold of the replayed events and of every frame the
  stream delivers, so it lists each sequence number once; a reconnect that delivers again any
  frames already delivered leaves it as it is; and the authoritative states are handed on in
  order of arrival.\<close>

theorem timeline_log_correct:
  assumes "truthy token" and "SigCancel \<notin> set (sigs @ again)"
    and "set (concat (map frame_of again)) \<subseteq> set (map toFrame evs @ concat (map frame_of sigs))"
  shows "tl_log (run_timeline False token (Replayed evs) (sigs @ again) initial_timeline)
      = foldLog [] (map toFrame evs @ concat (map frame_of sigs)) \<and>
    distinct (map ll_seq (tl_log (run_timeline False token (Replayed evs) (sigs @ again) initial_timeline))) \<and>
    tl_onState (run_timeline False token (Replayed evs) (sigs @ again) initial_timeline) = concat (map state_of (sigs @ again))"
proof -
  let ?fs = "map toFrame evs @ concat (map frame_of sigs)"
  let ?t = "run_timeline False token (Replayed evs) (sigs @ again) initial_timeline"
  have "tl_log ?t = foldLog (foldLog [] (map toFrame evs)) (concat (map frame_of (sigs @ again)))"
    "tl_onState ?t = concat (map state_of (sigs @ again))"
    using assms(1,2) fold_signals_live [OF _ assms(2)] by (simp_all add: run_timeline_def initial_timeline_def Let_def)
  moreover have "foldLog (foldLog [] (map toFrame evs)) (concat (map frame_of (sigs @ again)))
      = foldLog (foldLog [] ?fs) (concat (map frame_of again))"
    by (simp add: foldLog_append)
  ultimately show ?thesis
    using foldLog_replay [OF assms(3), of "[]"] foldLog_distinct [of "[]" ?fs] by simp
qed

theorem timeline_log_correct_witness:
  "tl_log (run_timeline False (Some (js ''tok'')) (Replayed [one_event])
     ([SigOpen] @ [SigMessage (MsgFrame (js ''run_done'') (toFrame one_event))]) initial_timeline)
   = foldLog [] [toFrame one_event]"
  using timeline_log_correct [of "Some (js ''tok'')" "[SigOpen]" "[SigMessage (MsgFrame (js ''run_done'') (toFrame one_event))]"
      "[one_event]"] by simp

text \<open>a finished project, or one without a token, only replays: whatever the stream would
  deliver, the log is that of the replayed events and the indicator is idle; and after the
  cleanup of the effect nothing changes any more.\<close>

theorem timeline_no_stream:
  "(isTerminalStatus status \<or> \<not> truthy token) \<and> projectId \<noteq> [] \<and> status \<noteq> None \<Longrightarrow>
     tl_log (useProductionTimeline True projectId status token (Replayed evs) sigs initial_timeline) = foldLog [] (map toFrame evs) \<and>
     tl_conn (useProductionTimeline True projectId status token (Replayed evs) sigs initial_timeline) = Idle \<and>
     fold on_signal (SigCancel # sigs) t = on_signal SigCancel t"
  using fold_signals_cancelled [of "on_signal SigCancel t" sigs]
  by (auto simp: useProductionTimeline_def run_timeline_def initial_timeline_def Let_def on_signal_def)

theorem timeline_no_stream_witness:
  "tl_conn (useProductionTimeline True (js ''p'') (Some PS_review) (Some (js ''tok'')) (Replayed []) [SigOpen] initial_timeline) = Idle"
  using timeline_no_stream [of "Some PS_review" "Some (js ''tok'')" "js ''p''" "[]" "[SigOpen]" initial_timeline]
  by (simp add: isTerminalStatus_def)

text \<open>timings come from live frames only. After the replay of the history, a node has a start
  time only if a later-numbered \<open>todo_started\<close> frame for it arrived, at that time; delivering
  replayed frames again changes nothing; and no elapsed time is negative.\<close>

theorem timing_live_only:
  assumes "timingByTodoId now (fold onFrame fs (onReplay hist INIT)) i = Some nt"
  shows "(\<exists>f \<in> set fs. Max (insert 0 (fr_seq ` set hist)) < fr_seq (fst f) \<and> fr_kind (fst f) = js ''todo_started'' \<and>
      fr_todoId (fst f) = i \<and> nt_startedAt nt = snd f) \<and> 0 \<le> nt_elapsedMs nt \<and>
    fold onFrame (map (\<lambda>f. (f, tm)) hist) (onReplay hist INIT) = onReplay hist INIT"
proof -
  from assms obtain tm0 where tm0: "tm_started (fold onFrame fs (onReplay hist INIT)) i = Some tm0"
    "nt_startedAt nt = tm0" "0 \<le> nt_elapsedMs nt" by (auto simp: timingByTodoId_def)
  have "tm_started (onReplay hist INIT) i = None" by (simp add: INIT_def)
  moreover have "tm_watermark (onReplay hist INIT) = Max (insert 0 (fr_seq ` set hist))"
    by (auto simp: onReplay_def foldl_max INIT_def intro: antisym Max_ge)
  moreover have "fold onFrame (map (\<lambda>f. (f, tm)) hist) (onReplay hist INIT) = onReplay hist INIT"
    by (rule timing.all_absorbed) (auto intro: onReplay_absorbs)
  ultimately show ?thesis using started_live [OF tm0(1)] tm0(2,3) by auto
qed

definition start_frame :: sse_frame where
  "start_frame = \<lparr>fr_seq = 9, fr_kind = js ''todo_started'', fr_todoId = js ''t'', fr_payload = None\<rparr>"

theorem timing_live_only_witness:
  "0 \<le> nt_elapsedMs (the (timingByTodoId 5 (fold onFrame [(start_frame, 8)] (onReplay [done_frame] INIT)) (js ''t'')))"
proof -
  have "timingByTodoId 5 (fold onFrame [(start_frame, 8)] (onReplay [done_frame] INIT)) (js ''t'')
      = Some \<lparr>nt_startedAt = 8, nt_finishedAt = None, nt_elapsedMs = 0\<rparr>"
    by (simp add: timingByTodoId_def onFrame_def onReplay_def INIT_def start_frame_def done_frame_def)
  with timing_live_only [OF this] show ?thesis by simp
qed

end
