(* ===== verification/Library.thy ===== *)
theory Library
  imports JS_Object "HOL-Library.List_Lexorder"
begin

text \<open>
  Assets and the lists of assets: the record of \<open>lib/types.ts\<close>, the accumulation of keyset
  pages (\<open>library/keyset.ts\<close>), the filter and its query (\<open>library/filter.ts\<close>), the badges of
  the asset states (\<open>library/assetStatus.ts\<close>) and the filter handlers of \<open>LibraryPage.tsx\<close>.
  The pages come from the query library, which keeps the pages fetched and calls
  \<open>getNextPageParam\<close> on the last one: \<open>fetchNextPage\<close>. The endpoint is an argument.
\<close>

section \<open>Assets\<close>

record asset =
  a_id :: jsstr
  a_projectId :: jsstr
  a_shotId :: jsstr
  a_todoId :: jsstr
  a_type :: jsstr
  a_blobKey :: jsstr
  a_url :: jsstr
  a_prompt :: jsstr
  a_style :: jsstr
  a_provider :: jsstr
  a_model :: jsstr
  a_status :: jsstr
  a_version :: int
  a_parentAssetId :: jsstr
  a_tags :: "jsstr list"
  a_prescreenScore :: rat
  a_prescreenFlags :: "jsstr list"
  a_prescreenNote :: jsstr
  a_externalJobId :: jsstr

record asset_detail =
  ad_asset :: asset
  ad_versions :: "asset list"

record 'a list_envelope =
  le_items :: "'a list"
  le_next_cursor :: jsstr

section \<open>Keyset pages\<close>

definition nextCursorParam :: "'a list_envelope \<Rightarrow> jsstr option" where
  "nextCursorParam p = (if le_next_cursor p \<noteq> [] then Some (le_next_cursor p) else None)"

definition flattenPages :: "asset list_envelope list option \<Rightarrow> asset list" where
  "flattenPages pages = (case pages of
       None \<Rightarrow> []
     | Some ps \<Rightarrow> dedupe_by a_id [] (concat (map le_items ps)))"

definition fetchNextPage ::
  "(jsstr \<Rightarrow> 'a list_envelope) \<Rightarrow> 'a list_envelope list \<Rightarrow> 'a list_envelope list" where
  "fetchNextPage fetch ps =
     (if ps = [] then [fetch []]
      else (case nextCursorParam (last ps) of None \<Rightarrow> ps | Some c \<Rightarrow> ps @ [fetch c]))"

definition hasNextPage :: "'a list_envelope list \<Rightarrow> bool" where
  "hasNextPage ps \<longleftrightarrow> ps \<noteq> [] \<and> nextCursorParam (last ps) \<noteq> None"

text \<open>What the endpoint documents: the assets behind the cursor in ascending order of their
  identifiers, at most \<open>lmt\<close>, and the last identifier as next cursor when the page is full.\<close>

definition serves_keyset :: "(jsstr \<Rightarrow> asset list_envelope) \<Rightarrow> asset list \<Rightarrow> nat \<Rightarrow> bool" where
  "serves_keyset fetch T lmt \<longleftrightarrow>
     lmt > 0 \<and> sorted_wrt (\<lambda>a b. a_id a < a_id b) T \<and> [] \<notin> a_id ` set T
   \<and> (\<forall>c. le_items (fetch c) = take lmt (filter (\<lambda>a. c < a_id a) T)
         \<and> le_next_cursor (fetch c) =
             (if length (le_items (fetch c)) = lmt then a_id (last (le_items (fetch c))) else []))"

lemma sorted_ids_distinct: "sorted_wrt (\<lambda>a b. a_id a < a_id b) T \<Longrightarrow> distinct (map a_id T)"
  by (induction T) auto

text \<open>Behind the identifier of the n-th asset come the assets from position n on.\<close>

lemma filter_behind:
  assumes "sorted_wrt (\<lambda>a b. a_id a < a_id b) T" and "n < length T"
  shows "filter (\<lambda>a. a_id (T ! n) < a_id a) T = drop (Suc n) T"
  using assms
proof (induction T arbitrary: n)
  case (Cons x T)
  show ?case
  proof (cases n)
    case 0
    with Cons.prems show ?thesis by (auto intro: filter_True)
  next
    case (Suc m)
    with Cons.prems have "a_id x < a_id (T ! m)" by simp
    then have "\<not> a_id (T ! m) < a_id x" by (rule order_less_not_sym)
    with Suc Cons.IH [of m] Cons.prems show ?thesis by auto
  qed
qed simp

lemma fetchNextPage_simps:
  "fetchNextPage fetch [] = [fetch []]"
  "ps \<noteq> [] \<Longrightarrow> nextCursorParam (last ps) = Some c \<Longrightarrow> fetchNextPage fetch ps = ps @ [fetch c]"
  "ps \<noteq> [] \<Longrightarrow> nextCursorParam (last ps) = None \<Longrightarrow> fetchNextPage fetch ps = ps"
  by (simp_all add: fetchNextPage_def)

lemma pages_of_keyset:
  assumes srv: "serves_keyset fetch T lmt"
  shows "concat (map le_items ((fetchNextPage fetch ^^ n) [])) = take (n * lmt) T
    \<and> (n > 0 \<longrightarrow> (fetchNextPage fetch ^^ n) [] \<noteq> []
       \<and> nextCursorParam (last ((fetchNextPage fetch ^^ n) [])) =
           (if n * lmt \<le> length T then Some (a_id (T ! (n * lmt - 1))) else None))"
proof (induction n)
  case 0
  then show ?case by simp
next
  case (Suc n)
  let ?ps = "(fetchNextPage fetch ^^ n) []"
  from srv have lmt: "lmt > 0" and srt: "sorted_wrt (\<lambda>a b. a_id a < a_id b) T"
    and ne: "[] \<notin> a_id ` set T"
    and items: "\<And>c. le_items (fetch c) = take lmt (filter (\<lambda>a. c < a_id a) T)"
    and cur: "\<And>c. le_next_cursor (fetch c) =
        (if length (le_items (fetch c)) = lmt then a_id (last (le_items (fetch c))) else [])"
    by (auto simp: serves_keyset_def)
  have nth_ne: "a_id (T ! k) \<noteq> []" if "k < length T" for k
    using ne that by (metis image_eqI nth_mem)
  have page: "le_items (fetch c) = take lmt (drop (n * lmt) T) \<and>
      nextCursorParam (fetch c) =
        (if Suc n * lmt \<le> length T then Some (a_id (T ! (Suc n * lmt - 1))) else None)"
    if "filter (\<lambda>a. c < a_id a) T = drop (n * lmt) T" for c
  proof -
    have its: "le_items (fetch c) = take lmt (drop (n * lmt) T)" using items that by simp
    have len: "length (le_items (fetch c)) = lmt \<longleftrightarrow> Suc n * lmt \<le> length T"
      using its lmt by auto
    have "a_id (last (le_items (fetch c))) = a_id (T ! (Suc n * lmt - 1))"
      if "Suc n * lmt \<le> length T"
      using its that lmt by (simp add: last_conv_nth) (metis add.commute Nat.add_diff_assoc Suc_leI One_nat_def)
    then show ?thesis
      using its len cur [of c] nth_ne [of "Suc n * lmt - 1"] lmt
      by (auto simp: nextCursorParam_def)
  qed
  show ?case
  proof (cases "n = 0")
    case True
    have "filter (\<lambda>a. [] < a_id a) T = T"
      using ne by (intro filter_True) (metis image_eqI neq_Nil_conv Nil_less_Cons)
    with page [of "[]"] True show ?thesis by (simp add: fetchNextPage_simps(1))
  next
    case False
    with Suc.IH have IH: "concat (map le_items ?ps) = take (n * lmt) T" "?ps \<noteq> []"
      "nextCursorParam (last ?ps) =
         (if n * lmt \<le> length T then Some (a_id (T ! (n * lmt - 1))) else None)"
      by auto
    show ?thesis
    proof (cases "n * lmt \<le> length T")
      case True
      have "n * lmt > 0" using False lmt by simp
      then have "n * lmt - 1 < length T" "Suc (n * lmt - 1) = n * lmt" using True by linarith+
      then have "filter (\<lambda>a. a_id (T ! (n * lmt - 1)) < a_id a) T = drop (n * lmt) T"
        using filter_behind [OF srt, of "n * lmt - 1"] by simp
      from page [OF this] show ?thesis
        using IH True fetchNextPage_simps(2) [OF IH(2)]
        by (simp add: take_add add.commute [of lmt])
    next
      case no: False
      then have "\<not> Suc n * lmt \<le> length T" by simp
      with IH no show ?thesis using fetchNextPage_simps(3) [OF IH(2)] by simp
    qed
  qed
qed

section \<open>Filter\<close>

record library_filter =
  lf_type :: "jsstr option"
  lf_status :: "jsstr option"
  lf_style :: "jsstr option"
  lf_project :: "jsstr option"
  lf_tag :: "jsstr option"

definition param :: "string \<Rightarrow> jsstr option \<Rightarrow> (jsstr \<times> jsstr) list" where
  "param k v = (if truthy v then [(js k, the v)] else [])"

text \<open>The parameters in the order in which they are set, and their text as
  \<open>application/x-www-form-urlencoded\<close>: a string is encoded in UTF-8, a lone surrogate as the
  replacement character.\<close>

definition libraryParams :: "library_filter \<Rightarrow> nat option \<Rightarrow> (jsstr \<times> jsstr) list" where
  "libraryParams f limit =
     param ''project'' (lf_project f) @ param ''type'' (lf_type f) @ param ''status'' (lf_status f)
   @ param ''style'' (lf_style f) @ param ''tag'' (lf_tag f)
   @ (case limit of None \<Rightarrow> [] | Some n \<Rightarrow> [(js ''limit'', dec n)])"

fun code_points :: "jsstr \<Rightarrow> nat list" where
  "code_points [] = []"
| "code_points [c] = [if 0xD800 \<le> c \<and> c < 0xE000 then 0xFFFD else c]"
| "code_points (c # d # s) =
     (if 0xD800 \<le> c \<and> c < 0xDC00 \<and> 0xDC00 \<le> d \<and> d < 0xE000
      then (0x10000 + (c - 0xD800) * 0x400 + (d - 0xDC00)) # code_points s
      else (if 0xD800 \<le> c \<and> c < 0xE000 then 0xFFFD else c) # code_points (d # s))"

definition utf8 :: "nat \<Rightarrow> nat list" where
  "utf8 c =
     (if c < 0x80 then [c]
      else if c < 0x800 then [0xC0 + c div 0x40, 0x80 + c mod 0x40]
      else if c < 0x10000 then [0xE0 + c div 0x1000, 0x80 + c div 0x40 mod 0x40, 0x80 + c mod 0x40]
      else [0xF0 + c div 0x40000, 0x80 + c div 0x1000 mod 0x40, 0x80 + c div 0x40 mod 0x40,
            0x80 + c mod 0x40])"

definition hex_digit :: "nat \<Rightarrow> nat" where
  "hex_digit d = (if d < 10 then 48 + d else 55 + d)"

definition form_byte :: "nat \<Rightarrow> jsstr" where
  "form_byte b =
     (if b = 32 then [43]
      else if b \<in> {42, 45, 46, 95} \<or> 48 \<le> b \<and> b \<le> 57 \<or> 65 \<le> b \<and> b \<le> 90 \<or> 97 \<le> b \<and> b \<le> 122
        then [b]
      else [37, hex_digit (b div 16), hex_digit (b mod 16)])"

definition form_encode :: "jsstr \<Rightarrow> jsstr" where
  "form_encode s = concat (map form_byte (concat (map utf8 (code_points s))))"

fun form_string :: "(jsstr \<times> jsstr) list \<Rightarrow> jsstr" where
  "form_string [] = []"
| "form_string [(k, v)] = form_encode k @ [61] @ form_encode v"
| "form_string ((k, v) # p # ps) = form_encode k @ [61] @ form_encode v @ [38] @ form_string (p # ps)"

definition buildLibraryQuery :: "library_filter \<Rightarrow> nat option \<Rightarrow> jsstr" where
  "buildLibraryQuery f limit = form_string (libraryParams f limit)"

text \<open>The chips and inputs of the filter rail: choosing the chosen value again clears it.\<close>

definition toggle_value :: "jsstr option \<Rightarrow> jsstr \<Rightarrow> jsstr option" where
  "toggle_value cur v = (if cur = Some v then None else Some v)"

definition toggle_type :: "jsstr \<Rightarrow> library_filter \<Rightarrow> library_filter" where
  "toggle_type v f = f\<lparr>lf_type := toggle_value (lf_type f) v\<rparr>"

definition toggle_status :: "jsstr \<Rightarrow> library_filter \<Rightarrow> library_filter" where
  "toggle_status v f = f\<lparr>lf_status := toggle_value (lf_status f) v\<rparr>"

definition toggle_style :: "jsstr \<Rightarrow> library_filter \<Rightarrow> library_filter" where
  "toggle_style v f = f\<lparr>lf_style := toggle_value (lf_style f) v\<rparr>"

definition change_tag :: "jsstr \<Rightarrow> library_filter \<Rightarrow> library_filter" where
  "change_tag v f = f\<lparr>lf_tag := (if v = [] then None else Some v)\<rparr>"

definition change_project :: "jsstr \<Rightarrow> library_filter \<Rightarrow> library_filter" where
  "change_project v f = f\<lparr>lf_project := (if v = [] then None else Some v)\<rparr>"

section \<open>Badges and lineage\<close>

datatype badge_variant = B_running | B_done | B_pending | B_rejected

definition asset_variants :: "(jsstr \<times> badge_variant) list" where
  "asset_variants = [(js ''generating'', B_running), (js ''submitted'', B_running),
     (js ''pending_acceptance'', B_pending), (js ''accepted'', B_done), (js ''rejected'', B_rejected)]"

definition assetStatusVariant :: "jsstr \<Rightarrow> badge_variant" where
  "assetStatusVariant st = nullish (map_of asset_variants st) B_pending"

definition asset_labels :: "(jsstr \<times> jsstr) list" where
  "asset_labels = [(js ''generating'', [0x751F, 0x6210, 0x4E2D]),
     (js ''submitted'', [0x5DF2, 0x63D0, 0x4EA4]),
     (js ''pending_acceptance'', [0x5F85, 0x5BA1, 0x6838]),
     (js ''accepted'', [0x5DF2, 0x91C7, 0x7EB3]),
     (js ''rejected'', [0x5DF2, 0x9000, 0x56DE])]"

definition assetStatusLabel :: "jsstr \<Rightarrow> jsstr" where
  "assetStatusLabel st = nullish (map_of asset_labels st) st"

record lineage_node =
  ln_key :: jsstr
  ln_label :: jsstr
  ln_current :: bool

text \<open>\<open>`v${version}`\<close> for a version that is not negative.\<close>

definition version_label :: "int \<Rightarrow> jsstr" where
  "version_label v = js ''v'' @ (if v < 0 then 45 # dec (nat (- v)) else dec (nat v))"

definition lineage_nodes :: "asset_detail \<Rightarrow> lineage_node list" where
  "lineage_nodes d = map (\<lambda>v. \<lparr>ln_key = a_id v, ln_label = version_label (a_version v),
     ln_current = (a_id v = a_id (ad_asset d))\<rparr>) (sort_key a_version (ad_versions d))"

section \<open>Properties\<close>

lemma flatten_some: "flattenPages (Some ps) = dedupe_by a_id [] (concat (map le_items ps))"
  by (simp add: flattenPages_def)

text \<open>C29: Loading pages from an endpoint that keeps its keyset contract shows, after n pages, the
  first n times limit assets in order and without repetition; loading stops, and everything is
  shown, once the pages exceed the library.\<close>

theorem library_pages_complete:
  assumes "serves_keyset fetch T lmt"
  shows "flattenPages (Some ((fetchNextPage fetch ^^ n) [])) = take (n * lmt) T
    \<and> (0 < n \<longrightarrow> hasNextPage ((fetchNextPage fetch ^^ n) []) = (n * lmt \<le> length T))"
proof -
  have "distinct (map a_id T)"
    using assms by (auto simp: serves_keyset_def intro: sorted_ids_distinct)
  then have "distinct (map a_id (take (n * lmt) T))" by (simp add: take_map [symmetric])
  then have "dedupe_by a_id [] (take (n * lmt) T) = take (n * lmt) T"
    by (rule dedupe_by_id) simp
  with pages_of_keyset [OF assms, of n] show ?thesis
    by (simp add: flatten_some hasNextPage_def)
qed

definition blank_asset :: "jsstr \<Rightarrow> asset" where
  "blank_asset i = \<lparr>a_id = i, a_projectId = [], a_shotId = [], a_todoId = [], a_type = [],
     a_blobKey = [], a_url = [], a_prompt = [], a_style = [], a_provider = [], a_model = [],
     a_status = [], a_version = 1, a_parentAssetId = [], a_tags = [], a_prescreenScore = 0,
     a_prescreenFlags = [], a_prescreenNote = [], a_externalJobId = []\<rparr>"

definition demo_fetch :: "jsstr \<Rightarrow> asset list_envelope" where
  "demo_fetch c = (let xs = take 1 (filter (\<lambda>a. c < a_id a) [blank_asset (js ''a''), blank_asset (js ''b'')])
     in \<lparr>le_items = xs, le_next_cursor = (if length xs = 1 then a_id (last xs) else [])\<rparr>)"

theorem library_pages_complete_witness:
  "flattenPages (Some ((fetchNextPage demo_fetch ^^ 2) [])) = [blank_asset (js ''a''), blank_asset (js ''b'')]"
proof -
  have "serves_keyset demo_fetch [blank_asset (js ''a''), blank_asset (js ''b'')] 1"
    by (simp add: serves_keyset_def demo_fetch_def Let_def blank_asset_def js_def)
  from library_pages_complete [OF this, of 2] show ?thesis by simp
qed

end
