(* ===== verification/Run_View.thy ===== *)
theory Run_View
  imports Topology_Settings Run_Fanout Run_Stream Library
begin

text \<open>
  What the run canvas shows (\<open>workflow-canvas/RunCanvas.tsx\<close>): the nodes and edges it hands to
  ReactFlow, composed of the overlay, the page groups, the timings, the layout and the view
  settings, and the values the side panels and the top bar derive from the state of the run.
  The labels and colours of the states are in \<open>projects/status.ts\<close>, the status code of a
  suppressed response in \<open>workflow-canvas/httpStatus.ts\<close>.
\<close>

section \<open>Labels\<close>

fun VARIANT_BY_STATUS :: "project_status \<Rightarrow> badge_variant" where
  "VARIANT_BY_STATUS PS_draft = B_pending"
| "VARIANT_BY_STATUS PS_planning = B_running"
| "VARIANT_BY_STATUS PS_running = B_running"
| "VARIANT_BY_STATUS PS_review = B_pending"
| "VARIANT_BY_STATUS PS_completed = B_done"
| "VARIANT_BY_STATUS PS_failed = B_rejected"
| "VARIANT_BY_STATUS PS_canceled = B_rejected"

definition statusVariant :: "project_status \<Rightarrow> badge_variant" where
  "statusVariant st = VARIANT_BY_STATUS st"

text \<open>\<open>JSON.parse(content).status\<close>; reading a property of \<open>null\<close> throws and is caught.\<close>

definition parseHttpStatus :: "jsstr \<Rightarrow> rat option" where
  "parseHttpStatus content = (case JSON_parse content of
       Some (JObj kvs) \<Rightarrow> (case obj_get kvs (js ''status'') of Some (JNum q) \<Rightarrow> Some q | _ \<Rightarrow> None)
     | _ \<Rightarrow> None)"

section \<open>Groups\<close>

definition empty_state :: "jsstr \<Rightarrow> project_state" where
  "empty_state projectId = \<lparr>ps_projectId = projectId, ps_version = 0, ps_status = PS_draft,
     ps_runStatus = R_idle, ps_plan = None, ps_stages = [], ps_pips = [],
     ps_assets = \<lparr>as_total = 0, as_done = 0, as_failed = None, as_pending = 0\<rparr>, ps_error = None,
     ps_nodes = [], ps_edges = [], ps_isCustom = False\<rparr>"

text \<open>The kind of an asset is its type, unchecked; every other text acts like \<open>unknown\<close>.\<close>

definition kind_of_type :: "jsstr \<Rightarrow> asset_kind" where
  "kind_of_type t = (if t = js ''image'' then AK_image else if t = js ''audio'' then AK_audio
     else if t = js ''video'' then AK_video else AK_unknown)"

definition asset_meta_by_id :: "asset list option \<Rightarrow> (jsstr \<rightharpoonup> asset_meta)" where
  "asset_meta_by_id assets = fold (\<lambda>a m. m(a_id a \<mapsto>
     \<lparr>am_kind = kind_of_type (a_type a), am_shotId = Some (a_shotId a)\<rparr>)) (nullish assets []) Map.empty"

definition run_parents :: "workflow_node list \<Rightarrow> (jsstr \<rightharpoonup> run_node_status) \<Rightarrow> parent_anchor list" where
  "run_parents nodes overlay = concat (map
     (\<lambda>n. case Option.bind (overlay (wn_id n)) rs_todoId of
        None \<Rightarrow> [] | Some t \<Rightarrow> [\<lparr>pa_todoId = t, pa_canvasNodeId = wn_id n\<rparr>])
     (filter (\<lambda>n. wn_type n = js ''storyboard'') nodes))"

definition run_groups ::
  "workflow_node list \<Rightarrow> project_state \<Rightarrow> asset list option \<Rightarrow> (jsstr \<times> run_group) list" where
  "run_groups nodes st assets =
     buildRunGroups st (run_parents nodes (overlayRunStatus nodes st)) (asset_meta_by_id assets)"

section \<open>Nodes and edges of the canvas\<close>

record group_data =
  gd_pages :: "run_page list"
  gd_counts :: group_counts
  gd_expanded :: bool
  gd_selectedPageKey :: "jsstr option"

text \<open>A ReactFlow node with what the run view adds: hidden, opacity, the data of a group and the
  sizes for the minimap.\<close>

record view_node =
  vn_node :: rf_node
  vn_hidden :: bool
  vn_opacity :: "rat option"
  vn_group :: "group_data option"
  vn_initial :: "nat \<times> nat"

record view_edge =
  ve_edge :: rf_edge
  ve_hidden :: bool
  ve_opacity :: "rat option"

record view_input =
  vi_nodes :: "workflow_node list"
  vi_state :: project_state
  vi_assets :: "asset list option"
  vi_settings :: topology_settings
  vi_timing :: "jsstr \<rightharpoonup> node_timing"
  vi_selection :: "run_selection option"
  vi_expanded :: "jsstr set"

definition view_overlay :: "view_input \<Rightarrow> (jsstr \<rightharpoonup> run_node_status)" where
  "view_overlay v = overlayRunStatus (vi_nodes v) (vi_state v)"

definition auto_pos :: "view_input \<Rightarrow> (jsstr \<rightharpoonup> xy)" where
  "auto_pos v = (case tp_layout (vi_settings v) of
       LM_saved \<Rightarrow> Map.empty | LM_dir d \<Rightarrow> autoLayout (vi_nodes v) d)"

definition node_visibility :: "view_input \<Rightarrow> jsstr \<Rightarrow> bool \<times> bool" where
  "node_visibility v i =
     computeNodeVisibility (nullish (map_option rs_status (view_overlay v i)) S_pending) (vi_settings v)"

definition selected_page :: "jsstr \<Rightarrow> run_selection option \<Rightarrow> jsstr option" where
  "selected_page i sel = (case sel of
       Some (SelGroup g page) \<Rightarrow> if g = i then page else None | _ \<Rightarrow> None)"

definition node_timing_of :: "view_input \<Rightarrow> run_node_status option \<Rightarrow> node_timing option" where
  "node_timing_of v r = (case r of
       None \<Rightarrow> None
     | Some s \<Rightarrow> if tp_showTiming (vi_settings v) \<and> truthy (rs_todoId s)
               then vi_timing v (the (rs_todoId s)) else None)"

definition view_node_of :: "view_input \<Rightarrow> rf_node \<Rightarrow> view_node" where
  "view_node_of v n =
     (let run = view_overlay v (rn_id n);
          vis = node_visibility v (rn_id n);
          base = n\<lparr>rn_position := nullish (auto_pos v (rn_id n)) (rn_position n), rn_run := run,
            rn_timing := node_timing_of v run,
            rn_highlightFailed := Some (tp_focus (vi_settings v) = FM_failed)\<rparr>;
          opacity = (if snd vis then Some (35 / 100) else None)
      in (case map_of (run_groups (vi_nodes v) (vi_state v) (vi_assets v)) (rn_id n) of
            Some g \<Rightarrow>
              if wn_type (rn_node n) = js ''storyboard'' then
                (let expanded = (rn_id n \<in> vi_expanded v) in
                 \<lparr>vn_node = base\<lparr>rn_type := js ''groupRun''\<rparr>, vn_hidden = fst vis, vn_opacity = opacity,
                  vn_group = Some \<lparr>gd_pages = rg_pages g, gd_counts = rg_counts g, gd_expanded = expanded,
                    gd_selectedPageKey = selected_page (rn_id n) (vi_selection v)\<rparr>,
                  vn_initial = (if expanded then 360 else 280,
                    if expanded then 72 + length (rg_pages g) * 96 else 96)\<rparr>)
              else \<lparr>vn_node = base, vn_hidden = fst vis, vn_opacity = opacity, vn_group = None,
                    vn_initial = (180, 64)\<rparr>
          | None \<Rightarrow> \<lparr>vn_node = base, vn_hidden = fst vis, vn_opacity = opacity, vn_group = None,
                    vn_initial = (180, 64)\<rparr>))"

definition view_nodes :: "view_input \<Rightarrow> view_node list" where
  "view_nodes v = map (view_node_of v) (fst (toReactFlow (vi_nodes v)))"

text \<open>The sets of the ids hidden and dimmed.\<close>

definition hidden_ids :: "view_input \<Rightarrow> jsstr set" where
  "hidden_ids v = set (filter (\<lambda>i. fst (node_visibility v i)) (map rn_id (fst (toReactFlow (vi_nodes v)))))"

definition dim_ids :: "view_input \<Rightarrow> jsstr set" where
  "dim_ids v = set (filter (\<lambda>i. snd (node_visibility v i)) (map rn_id (fst (toReactFlow (vi_nodes v)))))"

definition visible_count :: "view_input \<Rightarrow> int" where
  "visible_count v = int (length (view_nodes v)) - int (card (hidden_ids v))"

definition view_edges :: "view_input \<Rightarrow> view_edge list" where
  "view_edges v = map
     (\<lambda>e. \<lparr>ve_edge = e, ve_hidden = (re_source e \<in> hidden_ids v \<or> re_target e \<in> hidden_ids v),
         ve_opacity = (if re_source e \<in> dim_ids v \<or> re_target e \<in> dim_ids v then Some (35 / 100) else None)\<rparr>)
     (markActiveEdges (snd (toReactFlow (vi_nodes v))) (view_overlay v) (tp_flowAnimation (vi_settings v)))"

text \<open>The notice that a filter hides every node, with the button that clears the filter.\<close>

definition all_filtered :: "view_input \<Rightarrow> bool" where
  "all_filtered v \<longleftrightarrow> length (view_nodes v) > 0 \<and> visible_count v = 0"

definition clear_filter :: "topology_settings \<Rightarrow> topology_settings" where
  "clear_filter s = s\<lparr>tp_hideCompleted := False, tp_focus := FM_none\<rparr>"

section \<open>Side panels and top bar\<close>

definition done_pips :: "project_state \<Rightarrow> jsstr list" where
  "done_pips st = map (\<lambda>p. the (pp_assetId p))
     (filter (\<lambda>p. pp_status p = PP_done \<and> truthy (pp_assetId p)) (ps_pips st))"

definition latest_asset :: "project_state \<Rightarrow> jsstr option" where
  "latest_asset st = Option.bind
     (find (\<lambda>p. pp_status p = PP_done \<and> truthy (pp_assetId p)) (rev (ps_pips st))) pp_assetId"

definition preview_asset :: "run_selection option \<Rightarrow> project_state \<Rightarrow> jsstr option" where
  "preview_asset sel st = (case sel of Some (SelAsset a items) \<Rightarrow> Some a | _ \<Rightarrow> latest_asset st)"

definition hasCustomText :: "project_state \<Rightarrow> bool" where
  "hasCustomText st = list_ex (\<lambda>n. startsWith (gn_type n) (js ''custom:'') \<and> truthy (gn_output n)) (ps_nodes st)"

definition canPreview :: "project_state \<Rightarrow> bool" where
  "canPreview st \<longleftrightarrow> length (done_pips st) > 0 \<or> hasCustomText st"

definition isFailedRun :: "project_state \<Rightarrow> bool" where
  "isFailedRun st \<longleftrightarrow> ps_status st = PS_failed \<or> ps_status st = PS_canceled"

definition readyForReview :: "project_state \<Rightarrow> bool" where
  "readyForReview st \<longleftrightarrow> (ps_runStatus st = R_done \<or> ps_status st = PS_review) \<and> \<not> isFailedRun st"

datatype run_badge = Badge_review nat | Badge_status badge_variant project_status

definition showReviewBadge :: "project_state \<Rightarrow> bool" where
  "showReviewBadge st \<longleftrightarrow> ps_runStatus st = R_done \<and> ps_status st \<noteq> PS_failed \<and> ps_status st \<noteq> PS_canceled"

definition run_badge_of :: "project_state \<Rightarrow> run_badge" where
  "run_badge_of st = (if showReviewBadge st then Badge_review (as_pending (ps_assets st))
     else Badge_status (statusVariant (ps_status st)) (ps_status st))"

text \<open>The notice on a failed run, with the count of failed assets.\<close>

definition failure_notice :: "project_state \<Rightarrow> (bool \<times> (nat \<times> nat) option) option" where
  "failure_notice st = (if \<not> isFailedRun st then None
     else Some (ps_status st = PS_canceled,
       (let f = nullish (as_failed (ps_assets st)) 0 in
        if f > 0 then Some (f, as_total (ps_assets st)) else None)))"

text \<open>The content of the right panel.\<close>

datatype right_panel =
    RP_matrix "run_group option" "jsstr option"
  | RP_items "inspector_item list"
  | RP_http "rat option"
  | RP_text bool jsstr
  | RP_asset jsstr
  | RP_empty

fun selection_items :: "run_selection \<Rightarrow> inspector_item list option" where
  "selection_items (SelScript t its) = its"
| "selection_items (SelStoryboard t its) = its"
| "selection_items (SelAsset a its) = its"
| "selection_items (SelCustom out fmt its) = its"
| "selection_items (SelGroup g page) = None"

definition fallback_panel :: "run_selection option \<Rightarrow> project_state \<Rightarrow> right_panel" where
  "fallback_panel sel st = (case preview_asset sel st of
       Some a \<Rightarrow> if a \<noteq> [] then RP_asset a else RP_empty | None \<Rightarrow> RP_empty)"

definition right_panel_of ::
  "run_selection option \<Rightarrow> (jsstr \<times> run_group) list \<Rightarrow> project_state \<Rightarrow> right_panel" where
  "right_panel_of sel groups st =
     (case sel of
        Some (SelGroup g page) \<Rightarrow> RP_matrix (map_of groups g) page
      | Some s \<Rightarrow>
          (case selection_items s of
             Some (i # is) \<Rightarrow> RP_items (i # is)
           | _ \<Rightarrow>
               (case s of
                  SelCustom out fmt its \<Rightarrow>
                    if fmt = Some OF_http_status then RP_http (parseHttpStatus out)
                    else RP_text (fmt = Some OF_json) out
                | _ \<Rightarrow> fallback_panel sel st))
      | None \<Rightarrow> fallback_panel sel st)"

text \<open>The asset whose details are fetched.\<close>

definition early_preview ::
  "run_selection option \<Rightarrow> (jsstr \<times> run_group) list \<Rightarrow> project_state option \<Rightarrow> jsstr" where
  "early_preview sel groups data =
     (let latest = Option.bind data latest_asset;
          page = (case sel of
              Some (SelGroup g (Some k)) \<Rightarrow>
                if k \<noteq> [] then Option.bind (map_of groups g) (\<lambda>gr. find (\<lambda>p. rp_key p = k) (rg_pages gr)) else None
            | _ \<Rightarrow> None)
      in nullish (case sel of
           Some (SelAsset a its) \<Rightarrow> Some a
         | _ \<Rightarrow> (case Option.bind (Option.bind page rp_image) pc_assetId of
             Some a \<Rightarrow> Some a | None \<Rightarrow> latest)) [])"

text \<open>The numbers of the run selector: the newest run first.\<close>

definition run_numbers :: "'p list \<Rightarrow> (nat \<times> 'p) list" where
  "run_numbers plans = map (\<lambda>(index, p). (length plans - index, p)) (enumerate 0 plans)"

section \<open>Facts\<close>

definition run_status_at :: "view_input \<Rightarrow> jsstr \<Rightarrow> graph_node_status" where
  "run_status_at v i = nullish (map_option rs_status (view_overlay v i)) S_pending"

lemma view_node_simps [simp]:
  "rn_id (vn_node (view_node_of v n)) = rn_id n"
  "vn_hidden (view_node_of v n) = fst (node_visibility v (rn_id n))"
  "vn_opacity (view_node_of v n) = (if snd (node_visibility v (rn_id n)) then Some (35 / 100) else None)"
  "rn_run (vn_node (view_node_of v n)) = view_overlay v (rn_id n)"
  "rn_position (vn_node (view_node_of v n)) = nullish (auto_pos v (rn_id n)) (rn_position n)"
  by (simp_all add: view_node_of_def Let_def split: option.split)

lemma hidden_iff: "fst (node_visibility v i) \<longleftrightarrow> tp_hideCompleted (vi_settings v) \<and> run_status_at v i = S_done"
  by (simp add: node_visibility_def computeNodeVisibility_def run_status_at_def)

lemma hidden_ids_eq:
  "hidden_ids v = {i \<in> wn_id ` set (vi_nodes v). tp_hideCompleted (vi_settings v) \<and> run_status_at v i = S_done}"
  unfolding hidden_ids_def toReactFlow_ids by (auto simp: hidden_iff)

lemma view_nodes_ids: "map (rn_id \<circ> vn_node) (view_nodes v) = map wn_id (vi_nodes v)"
  unfolding view_nodes_def map_map by (simp add: o_def toReactFlow_ids)

lemma length_view_nodes: "length (view_nodes v) = length (vi_nodes v)"
  using arg_cong [OF view_nodes_ids [of v], of length] by simp

lemma card_hidden:
  assumes "distinct (map wn_id (vi_nodes v))"
  shows "card (hidden_ids v) = length (filter vn_hidden (view_nodes v))"
proof -
  let ?ids = "map rn_id (fst (toReactFlow (vi_nodes v)))"
  have "card (hidden_ids v) = length (filter (\<lambda>i. fst (node_visibility v i)) ?ids)"
    unfolding hidden_ids_def by (rule distinct_card) (simp add: toReactFlow_ids assms)
  also have "\<dots> = length (filter vn_hidden (view_nodes v))"
    by (simp add: view_nodes_def filter_map o_def)
  finally show ?thesis .
qed

lemma visible_count_eq:
  assumes "distinct (map wn_id (vi_nodes v))"
  shows "visible_count v = int (length (filter (\<lambda>n. \<not> vn_hidden n) (view_nodes v)))"
  using card_hidden [OF assms] sum_length_filter_compl [of vn_hidden "view_nodes v"]
  by (simp add: visible_count_def)

lemma find_rev_filter: "find P (rev xs) = (if filter P xs = [] then None else Some (last (filter P xs)))"
proof (induction xs rule: rev_induct)
  case (snoc x xs)
  then show ?case by auto
qed simp

lemma latest_asset_eq: "latest_asset st = (if done_pips st = [] then None else Some (last (done_pips st)))"
proof (cases "filter (\<lambda>p. pp_status p = PP_done \<and> truthy (pp_assetId p)) (ps_pips st) = []")
  case False
  then have "last (filter (\<lambda>p. pp_status p = PP_done \<and> truthy (pp_assetId p)) (ps_pips st))
      \<in> {p. truthy (pp_assetId p)}"
    using last_in_set by fastforce
  with False show ?thesis
    by (auto simp: latest_asset_def find_rev_filter done_pips_def last_map truthy_def split: option.splits)
qed (simp add: latest_asset_def find_rev_filter done_pips_def)

lemma run_parents_nodes: "pa_canvasNodeId ` set (run_parents nodes overlay) \<subseteq>
    {wn_id n | n. n \<in> set nodes \<and> wn_type n = js ''storyboard''}"
  by (auto simp: run_parents_def split: option.splits)

section \<open>Properties\<close>

text \<open>C30: The run view shows every node of the workflow exactly once and in order; a node is hidden
  exactly when finished nodes are hidden and its run is finished, an edge exactly when one of its
  ends is; the counter counts the visible nodes, so the notice appears exactly when the filter
  hides all of them, and clearing the filter hides and dims nothing.\<close>

theorem run_view_consistent:
  assumes "distinct (map wn_id (vi_nodes v))"
  shows "map (rn_id \<circ> vn_node) (view_nodes v) = map wn_id (vi_nodes v)
    \<and> filter vn_hidden (view_nodes v) = filter (\<lambda>n. tp_hideCompleted (vi_settings v)
          \<and> run_status_at v (rn_id (vn_node n)) = S_done) (view_nodes v)
    \<and> filter (\<lambda>e. \<not> ve_hidden e) (view_edges v) = filter (\<lambda>e. {re_source (ve_edge e), re_target (ve_edge e)}
          \<inter> (rn_id \<circ> vn_node) ` set (filter vn_hidden (view_nodes v)) = {}) (view_edges v)
    \<and> visible_count v = int (length (filter (\<lambda>n. \<not> vn_hidden n) (view_nodes v)))
    \<and> all_filtered v = (vi_nodes v \<noteq> [] \<and> list_all vn_hidden (view_nodes v))
    \<and> list_all (\<lambda>n. \<not> vn_hidden n \<and> vn_opacity n = None)
        (view_nodes (v\<lparr>vi_settings := clear_filter (vi_settings v)\<rparr>))"
proof -
  have hidden: "vn_hidden n = (tp_hideCompleted (vi_settings v) \<and> run_status_at v (rn_id (vn_node n)) = S_done)"
    if "n \<in> set (view_nodes v)" for n
    using that by (auto simp: view_nodes_def hidden_iff)
  have ids: "(rn_id \<circ> vn_node) ` set (filter vn_hidden (view_nodes v)) = hidden_ids v"
  proof -
    have "map (rn_id \<circ> vn_node) (filter vn_hidden (view_nodes v))
        = filter (\<lambda>i. fst (node_visibility v i)) (map rn_id (fst (toReactFlow (vi_nodes v))))"
      by (simp add: view_nodes_def filter_map o_def)
    then show ?thesis unfolding hidden_ids_def by (metis list.set_map)
  qed
  have "filter vn_hidden (view_nodes v) = filter (\<lambda>n. tp_hideCompleted (vi_settings v)
      \<and> run_status_at v (rn_id (vn_node n)) = S_done) (view_nodes v)"
    using hidden by (rule filter_cong [OF refl])
  moreover have "filter (\<lambda>e. \<not> ve_hidden e) (view_edges v) =
      filter (\<lambda>e. {re_source (ve_edge e), re_target (ve_edge e)} \<inter> hidden_ids v = {}) (view_edges v)"
    by (rule filter_cong [OF refl]) (auto simp: view_edges_def)
  moreover have "all_filtered v = (vi_nodes v \<noteq> [] \<and> list_all vn_hidden (view_nodes v))"
    by (simp add: all_filtered_def visible_count_eq [OF assms] length_view_nodes filter_empty_conv list_all_iff)
  moreover have "list_all (\<lambda>n. \<not> vn_hidden n \<and> vn_opacity n = None)
      (view_nodes (v\<lparr>vi_settings := clear_filter (vi_settings v)\<rparr>))"
    by (auto simp: list_all_iff view_nodes_def node_visibility_def computeNodeVisibility_def clear_filter_def)
  ultimately show ?thesis
    unfolding ids using view_nodes_ids visible_count_eq [OF assms] by blast
qed

definition demo_view :: view_input where
  "demo_view = \<lparr>vi_nodes = [basic_node (js ''a'') (js ''script'') [] []], vi_state = empty_state (js ''p''),
     vi_assets = None, vi_settings = DEFAULT_TOPOLOGY_SETTINGS, vi_timing = Map.empty,
     vi_selection = None, vi_expanded = {}\<rparr>"

theorem run_view_consistent_witness:
  "map (rn_id \<circ> vn_node) (view_nodes demo_view) = [js ''a'']"
proof -
  have "distinct (map wn_id (vi_nodes demo_view))" by (simp add: demo_view_def)
  from run_view_consistent [OF this] show ?thesis by (simp add: demo_view_def)
qed

text \<open>The asset the right panel falls back to is the last finished one of the gallery; the group
  boxes of the canvas are storyboards of the workflow; the tag for the review and the notice of
  a failed run exclude each other.\<close>

lemma run_panel_values:
  "latest_asset st = (if done_pips st = [] then None else Some (last (done_pips st)))
   \<and> (failure_notice st = None \<or> \<not> readyForReview st \<and> \<not> showReviewBadge st)
   \<and> pa_canvasNodeId ` set (run_parents nodes overlay) \<subseteq>
       {wn_id n | n. n \<in> set nodes \<and> wn_type n = js ''storyboard''}"
  using latest_asset_eq run_parents_nodes
  by (auto simp: failure_notice_def readyForReview_def showReviewBadge_def isFailedRun_def)

end
