(* ===== verification/Template_Vars.thy ===== *)
theory Template_Vars
  imports Wire_Types JS_Object
begin

text \<open>
  Template variables: \<open>workflow-canvas/templateVars.ts\<close> finds the \<open>{{name}}\<close> tokens of the
  prompts, requests and scripts of a node type, and the properties panel
  (\<open>workflow-canvas/PropertiesPanel.tsx\<close>) shows those that no binding covers and changes the
  bindings of a node.

  The loop \<open>while ((m = re.exec(s)) !== null)\<close> with the global expression
  \<open>\{\{([^{}]+?)\}\}\<close> is \<open>tokens\<close>: the leftmost match first, the next search behind it. A brace
  cannot be part of a name, so a match at a position is determined by the next brace and the
  lazy quantifier has no choice.
\<close>

section \<open>Node type parameters\<close>

datatype http_method = M_GET | M_POST | M_PUT | M_PATCH | M_DELETE

datatype text_format = TF_text | TF_json

record llm_params =
  lp_systemPrompt :: "jsstr option"
  lp_userPrompt :: jsstr
  lp_model :: "jsstr option"
  lp_temperature :: "rat option"
  lp_outputFormat :: "text_format option"

record http_params =
  hp_method :: http_method
  hp_url :: jsstr
  hp_headers :: "jsstr obj"
  hp_bodyTemplate :: "jsstr option"
  hp_outputFormat :: "text_format option"
  hp_allowResponseBody :: "bool option"

record script_params =
  sp_code :: jsstr
  sp_outputFormat :: "text_format option"

section \<open>Tokens\<close>

definition nb :: "nat \<Rightarrow> bool" where
  "nb c \<longleftrightarrow> c \<noteq> 123 \<and> c \<noteq> 125"

abbreviation obrace :: jsstr where
  "obrace \<equiv> [123, 123]"

abbreviation cbrace :: jsstr where
  "cbrace \<equiv> [125, 125]"

definition token_at :: "jsstr \<Rightarrow> (jsstr \<times> jsstr) option" where
  "token_at s =
     (let body = takeWhile nb (drop 2 s); rest = dropWhile nb (drop 2 s) in
      if startsWith s obrace \<and> body \<noteq> [] \<and> startsWith rest cbrace
      then Some (body, drop 2 rest) else None)"

lemma token_at_SomeD:
  assumes "token_at s = Some (m, r)"
  shows "s = obrace @ m @ cbrace @ r" and "m \<noteq> []" and "list_all nb m"
proof -
  from assms have *: "startsWith s obrace" "m = takeWhile nb (drop 2 s)" "m \<noteq> []"
    "startsWith (dropWhile nb (drop 2 s)) cbrace" "r = drop 2 (dropWhile nb (drop 2 s))"
    by (auto simp: token_at_def Let_def split: if_splits)
  have "s = obrace @ drop 2 s" using startsWith_drop [OF *(1)] by (simp add: numeral_2_eq_2)
  also have "drop 2 s = m @ dropWhile nb (drop 2 s)" by (simp add: *(2))
  also have "dropWhile nb (drop 2 s) = cbrace @ r"
    using startsWith_drop [OF *(4)] *(5) by (simp add: numeral_2_eq_2)
  finally show "s = obrace @ m @ cbrace @ r" by simp
  show "m \<noteq> []" by fact
  show "list_all nb m" unfolding *(2) by (auto simp: list_all_iff dest: set_takeWhileD)
qed

lemma token_at_token:
  assumes "m \<noteq> []" and "list_all nb m"
  shows "token_at (obrace @ m @ cbrace @ r) = Some (m, r)"
proof -
  have nb: "\<And>c. c \<in> set m \<Longrightarrow> nb c" and "\<not> nb 125"
    using assms(2) by (auto simp: list_all_iff nb_def)
  then have "takeWhile nb (m @ cbrace @ r) = m" "dropWhile nb (m @ cbrace @ r) = cbrace @ r"
    by (simp_all add: takeWhile_append2 dropWhile_append2)
  with assms(1) show ?thesis by (simp add: token_at_def)
qed

lemma token_at_length: "token_at s = Some (m, r) \<Longrightarrow> length r < length s"
  by (drule token_at_SomeD(1)) simp

function tokens :: "jsstr \<Rightarrow> jsstr list" where
  "tokens [] = []"
| "tokens (c # s) =
     (case token_at (c # s) of Some (m, r) \<Rightarrow> m # tokens r | None \<Rightarrow> tokens s)"
  by pat_completeness auto
termination
  by (relation "measure length") (auto dest: token_at_length)

lemma tokens_plain: "list_all nb s \<Longrightarrow> tokens (s @ t) = tokens t"
proof (induction s)
  case (Cons c s)
  then have "c \<noteq> 123" by (auto simp: nb_def)
  then have "token_at (c # s @ t) = None" by (simp add: token_at_def)
  with Cons show ?case by simp
qed simp

lemma tokens_token:
  "m \<noteq> [] \<Longrightarrow> list_all nb m \<Longrightarrow> tokens (obrace @ m @ cbrace @ r) = m # tokens r"
  using token_at_token [of m r] by simp

text \<open>What the loop finds: exactly the names that stand between double braces.\<close>

lemma tokens_sound:
  "n \<in> set (tokens s) \<Longrightarrow> n \<noteq> [] \<and> list_all nb n \<and> str_includes s (obrace @ n @ cbrace)"
proof (induction s rule: tokens.induct)
  case (2 c s)
  show ?case
  proof (cases "token_at (c # s)")
    case None
    with 2 have "n \<noteq> [] \<and> list_all nb n \<and> str_includes s (obrace @ n @ cbrace)" by simp
    then show ?thesis by simp
  next
    case (Some p)
    obtain m r where p: "token_at (c # s) = Some (m, r)" using Some by (cases p) simp
    note tok = token_at_SomeD [OF p]
    show ?thesis
    proof (cases "n = m")
      case True
      then show ?thesis using tok by (metis append.assoc includes_iff append_Nil)
    next
      case False
      with 2(3) p have "n \<in> set (tokens r)" by simp
      with 2(2) [OF p refl] obtain a b where
        "n \<noteq> []" "list_all nb n" "r = a @ (obrace @ n @ cbrace) @ b"
        by (auto simp: includes_iff)
      then have "c # s = (obrace @ m @ cbrace @ a) @ (obrace @ n @ cbrace) @ b"
        using tok(1) by simp
      then have "str_includes (c # s) (obrace @ n @ cbrace)" unfolding includes_iff by blast
      with \<open>n \<noteq> []\<close> \<open>list_all nb n\<close> show ?thesis by simp
    qed
  qed
qed simp

lemma append_longer: "xs @ r = a @ u \<Longrightarrow> length xs \<le> length a \<Longrightarrow> \<exists>w. a = xs @ w"
  by (metis append_eq_append_conv_if append_take_drop_id)

lemma no_overlap:
  assumes "obrace @ m @ cbrace @ r = a @ obrace @ t" and "list_all nb m" and "a \<noteq> []" and "m \<noteq> []"
  shows "\<exists>a'. a = obrace @ m @ cbrace @ a'"
proof (rule ccontr)
  assume no: "\<nexists>a'. a = obrace @ m @ cbrace @ a'"
  let ?T = "obrace @ m @ cbrace" and ?i = "length a"
  have eq: "?T @ r = a @ obrace @ t" using assms(1) by simp
  have "?i < length ?T"
  proof (rule ccontr)
    assume "\<not> ?i < length ?T"
    then obtain u where "a = ?T @ u" using append_longer [OF eq] by force
    with no show False by simp
  qed
  have at: "(?T @ r) ! ?i = 123" "(?T @ r) ! Suc ?i = 123"
    unfolding eq by (simp_all add: nth_append)
  show False
  proof (cases "?i = 1")
    case True
    with at(2) \<open>m \<noteq> []\<close> have "m ! 0 = 123" by (simp add: nth_append)
    with assms(2,4) show False by (auto simp: list_all_length nb_def)
  next
    case False
    with \<open>a \<noteq> []\<close> have ge: "2 \<le> ?i" by (cases a; cases "tl a") auto
    then obtain j where j: "?i = Suc (Suc j)" by (metis One_nat_def Suc_1 le_Suc_ex add_2_eq_Suc)
    then have "(m @ cbrace @ r) ! (?i - 2) = 123" using at(1) by simp
    moreover have "?i - 2 < length (m @ cbrace)" using \<open>?i < length ?T\<close> ge by simp
    ultimately have "(m @ cbrace) ! (?i - 2) = 123"
      using nth_append [of "m @ cbrace" r "?i - 2"] by (simp only: append_assoc if_True)
    then have "123 \<in> set (m @ cbrace)" using \<open>?i - 2 < length (m @ cbrace)\<close>
      by (metis nth_mem)
    with assms(2) show False by (auto simp: list_all_iff nb_def)
  qed
qed

lemma tokens_complete:
  assumes "n \<noteq> []" and "list_all nb n"
  shows "s = a @ obrace @ n @ cbrace @ b \<Longrightarrow> n \<in> set (tokens s)"
proof (induction s arbitrary: a rule: tokens.induct)
  case (2 c s)
  show ?case
  proof (cases "a = []")
    case True
    with 2(3) tokens_token [OF assms, of b] show ?thesis by simp
  next
    case False
    show ?thesis
    proof (cases "token_at (c # s)")
      case None
      from False 2(3) have "s = tl a @ obrace @ n @ cbrace @ b" by (cases a) auto
      from 2(1) [OF None this] None show ?thesis by simp
    next
      case (Some p)
      obtain m r where p: "token_at (c # s) = Some (m, r)" using Some by (cases p) simp
      note tok = token_at_SomeD [OF p]
      have "obrace @ m @ cbrace @ r = a @ obrace @ n @ cbrace @ b" using tok(1) 2(3) by simp
      from no_overlap [OF this tok(3) False tok(2)] obtain a' where
        "a = obrace @ m @ cbrace @ a'" by blast
      with 2(3) tok(1) have "r = a' @ obrace @ n @ cbrace @ b" by simp
      from 2(2) [OF p refl this] p show ?thesis by simp
    qed
  qed
qed simp

lemma set_tokens:
  "set (tokens s) = {n. n \<noteq> [] \<and> list_all nb n \<and> str_includes s (obrace @ n @ cbrace)}"
  by (auto dest: tokens_sound) (auto simp: includes_iff intro: tokens_complete)

section \<open>The variables of a node type\<close>

abbreviation uniq :: "jsstr list \<Rightarrow> jsstr list" where
  "uniq \<equiv> dedupe_by (\<lambda>n. n) []"

definition extractTemplateVars :: "jsstr option \<Rightarrow> jsstr \<Rightarrow> jsstr list" where
  "extractTemplateVars systemPrompt userPrompt =
     uniq (map trim (tokens (nullish systemPrompt [] @ [10] @ userPrompt)))"

fun join_lines :: "jsstr list \<Rightarrow> jsstr" where
  "join_lines [] = []"
| "join_lines [s] = s"
| "join_lines (s # t # ts) = s @ [10] @ join_lines (t # ts)"

definition secret_prefix :: jsstr where
  "secret_prefix = js ''secret:''"

definition http_text :: "http_params \<Rightarrow> jsstr" where
  "http_text p = join_lines (hp_url p # obj_values (hp_headers p) @ [nullish (hp_bodyTemplate p) []])"

definition extractHttpTemplateVars :: "http_params \<Rightarrow> jsstr list" where
  "extractHttpTemplateVars p =
     uniq (filter (\<lambda>n. \<not> startsWith n secret_prefix) (map trim (tokens (http_text p))))"

definition extractScriptTemplateVars :: "script_params \<Rightarrow> jsstr list" where
  "extractScriptTemplateVars p = uniq (map trim (tokens (sp_code p)))"

text \<open>In the properties panel: the parameters of the node's type are those of one kind; a token
  without a source node is unbound, unless it is an input of the run or a secret.\<close>

datatype node_params = P_llm llm_params | P_http http_params | P_script script_params

definition templateVars :: "node_params option \<Rightarrow> jsstr list" where
  "templateVars ps = (case ps of
       Some (P_llm p) \<Rightarrow> extractTemplateVars (lp_systemPrompt p) (lp_userPrompt p)
     | Some (P_http p) \<Rightarrow> extractHttpTemplateVars p
     | Some (P_script p) \<Rightarrow> extractScriptTemplateVars p
     | None \<Rightarrow> [])"

definition binding_source :: "workflow_node \<Rightarrow> jsstr \<Rightarrow> jsstr option" where
  "binding_source nd name =
     map_option vb_sourceNodeId (find (\<lambda>b. vb_name b = name) (nullish (wn_varBindings nd) []))"

definition unboundVars :: "workflow_node \<Rightarrow> jsstr list \<Rightarrow> jsstr list" where
  "unboundVars nd vars = filter (\<lambda>name.
     if startsWith name (js ''input:'') \<or> startsWith name secret_prefix then False
     else \<not> truthy (binding_source nd name)) vars"

definition patchVarBinding :: "jsstr \<Rightarrow> jsstr \<Rightarrow> jsstr option \<Rightarrow> workflow_node \<Rightarrow> workflow_node" where
  "patchVarBinding name sourceNodeId sourceField nd =
     (let existing = nullish (wn_varBindings nd) [];
          updated = filter (\<lambda>b. vb_name b \<noteq> name) existing;
          field = map_option trim sourceField;
          binding = \<lparr>vb_name = name, vb_sourceNodeId = sourceNodeId,
                     vb_sourceField = (if truthy field then field else None)\<rparr>
      in nd\<lparr>wn_varBindings := Some (updated @ [binding])\<rparr>)"

section \<open>Facts\<close>

lemma set_uniq [simp]: "set (uniq xs) = set xs"
  using dedupe_by_keys [of "\<lambda>n. n" "[]" xs] by simp

lemma distinct_uniq [simp]: "distinct (uniq xs)"
  using dedupe_by_distinct [of "\<lambda>n. n" "[]" xs] by simp

text \<open>A template written as parts, and its text.\<close>

datatype tpart = Lit jsstr | Var jsstr

fun part_ok :: "tpart \<Rightarrow> bool" where
  "part_ok (Lit s) = list_all nb s"
| "part_ok (Var n) = (n \<noteq> [] \<and> list_all nb n)"

fun part_text :: "tpart \<Rightarrow> jsstr" where
  "part_text (Lit s) = s"
| "part_text (Var n) = obrace @ n @ cbrace"

fun part_vars :: "tpart \<Rightarrow> jsstr list" where
  "part_vars (Lit s) = []"
| "part_vars (Var n) = [n]"

lemma tokens_parts:
  "list_all part_ok ps
    \<Longrightarrow> tokens (concat (map part_text ps) @ s) = concat (map part_vars ps) @ tokens s"
proof (induction ps)
  case (Cons p ps)
  then show ?case
    using tokens_plain tokens_token by (cases p) (auto simp del: tokens.simps(2))
qed simp

lemma find_filtered_out: "find (\<lambda>b. f b = x) (filter (\<lambda>b. f b \<noteq> x) xs) = None"
  by (induction xs) auto

lemma find_filter_other:
  "y \<noteq> x \<Longrightarrow> find (\<lambda>b. f b = y) (filter (\<lambda>b. f b \<noteq> x) xs) = find (\<lambda>b. f b = y) xs"
  by (induction xs) auto

lemma binding_source_patch:
  "binding_source (patchVarBinding name src fd nd) n =
     (if n = name then Some src else binding_source nd n)"
  by (cases "n = name")
    (simp_all add: binding_source_def patchVarBinding_def Let_def find_append find_filtered_out
        find_filter_other split: option.split)

section \<open>Properties\<close>

text \<open>C34: Extracting the variables of a template gives back the names it was written with, trimmed
  and once each in the order of first use, when the literal parts hold no brace.\<close>

theorem template_vars_roundtrip:
  assumes "list_all part_ok sys" and "list_all part_ok usr"
  shows "extractTemplateVars (Some (concat (map part_text sys))) (concat (map part_text usr))
     = uniq (map trim (concat (map part_vars sys) @ concat (map part_vars usr)))"
proof -
  have "tokens (concat (map part_text sys) @ [10] @ concat (map part_text usr))
      = concat (map part_vars sys) @ concat (map part_vars usr)"
    using tokens_parts [OF assms(1)] tokens_plain [of "[10]"] tokens_parts [OF assms(2), of "[]"]
    by (simp add: nb_def del: tokens.simps(2))
  then show ?thesis by (simp add: extractTemplateVars_def)
qed

theorem template_vars_roundtrip_witness:
  "extractTemplateVars (Some (js ''Be {{tone}}'')) (js ''{{ text }} in {{tone}}'')
     = [js ''tone'', js ''text'']"
  using template_vars_roundtrip [of "[Lit (js ''Be ''), Var (js ''tone'')]"
      "[Var (js '' text ''), Lit (js '' in ''), Var (js ''tone'')]"]
  by (simp add: js_def nb_def trim_def is_ws_def)

text \<open>The variables found are distinct and are exactly the trimmed names that stand, without
  braces inside, between double braces in the text searched; for a request those that refer to
  a secret are left out.\<close>

theorem template_vars_exact:
  "distinct (extractTemplateVars sp up) \<and> distinct (extractHttpTemplateVars hp)
   \<and> distinct (extractScriptTemplateVars sc)
   \<and> set (extractTemplateVars sp up) = trim ` {n. n \<noteq> [] \<and> list_all nb n
        \<and> str_includes (nullish sp [] @ [10] @ up) (obrace @ n @ cbrace)}
   \<and> set (extractScriptTemplateVars sc) = trim ` {n. n \<noteq> [] \<and> list_all nb n
        \<and> str_includes (sp_code sc) (obrace @ n @ cbrace)}
   \<and> set (extractHttpTemplateVars hp) = trim ` {n. n \<noteq> [] \<and> list_all nb n
        \<and> str_includes (http_text hp) (obrace @ n @ cbrace)} - {n. startsWith n secret_prefix}"
  by (auto simp: extractTemplateVars_def extractHttpTemplateVars_def
      extractScriptTemplateVars_def set_tokens)

text \<open>The two prompts are searched as one text, so that double braces opened at the end of the
  system prompt and closed at the start of the user prompt count as a variable that neither
  prompt holds.\<close>

theorem prompts_searched_as_one:
  "extractTemplateVars (Some (js ''use {{a'')) (js ''b}} now'') = [[97, 10, 98]]
   \<and> tokens (js ''use {{a'') = [] \<and> tokens (js ''b}} now'') = []"
  by (simp add: extractTemplateVars_def js_def nb_def trim_def is_ws_def token_at_def)

text \<open>Binding a variable changes the source of that variable only, it is then unbound exactly
  when the source is empty, and no other variable changes between bound and unbound.\<close>

theorem patchVarBinding_correct:
  "binding_source (patchVarBinding name src fd nd) = (binding_source nd)(name \<mapsto> src)
   \<and> set (unboundVars (patchVarBinding name src fd nd) vars) - {name}
       = set (unboundVars nd vars) - {name}
   \<and> (name \<in> set (unboundVars (patchVarBinding name src fd nd) vars)
       \<longleftrightarrow> src = [] \<and> name \<in> set vars \<and> \<not> startsWith name (js ''input:'')
           \<and> \<not> startsWith name secret_prefix)"
  by (auto simp: binding_source_patch unboundVars_def fun_eq_iff)

end
