(* ===== verification/Run_Inputs.thy ===== *)
theory Run_Inputs
  imports Template_Vars JS_JSON
begin

text \<open>
  The typed inputs of a run: the checks of a declared field (\<open>workflow-canvas/inputsSchema.ts\<close>),
  the panel that edits the declarations (\<open>InputsSchemaPanel.tsx\<close>) and the dialog that collects
  the values when a run starts (\<open>workflow/RunInputsDialog.tsx\<close>), which opens with the defaults
  of the declarations, read as JSON where they are JSON.
\<close>

section \<open>A declared field\<close>

definition name_start :: "nat \<Rightarrow> bool" where
  "name_start c \<longleftrightarrow> 65 \<le> c \<and> c \<le> 90 \<or> 97 \<le> c \<and> c \<le> 122 \<or> c = 95"

definition name_char :: "nat \<Rightarrow> bool" where
  "name_char c \<longleftrightarrow> name_start c \<or> 48 \<le> c \<and> c \<le> 57"

text \<open>\<open>nameRe\<close> is \<open>^[A-Za-z_][A-Za-z0-9_]*$\<close>.\<close>

definition nameRe :: "jsstr \<Rightarrow> bool" where
  "nameRe s \<longleftrightarrow> s \<noteq> [] \<and> name_start (hd s) \<and> list_all name_char (tl s)"

datatype field_error = Bad_name | No_option

definition INPUT_FIELD_TYPES :: "input_field_type list" where
  "INPUT_FIELD_TYPES = [IT_text, IT_textarea, IT_number, IT_select]"

definition INPUT_FIELD_TARGETS :: "input_field_target list" where
  "INPUT_FIELD_TARGETS = [TG_variable, TG_brief, TG_contentType, TG_targetPlatform, TG_style]"

text \<open>The refinement stops at the first issue, which is the one reported.\<close>

definition inputFieldError :: "input_field \<Rightarrow> field_error option" where
  "inputFieldError f =
     (if \<not> nameRe (if_name f) then Some Bad_name
      else if if_type f = IT_select
        \<and> \<not> list_ex (\<lambda>opt. trim (io_value opt) \<noteq> []) (nullish (if_options f) []) then Some No_option
      else None)"

section \<open>The panel\<close>

text \<open>The panel's state: the fields (kept by the canvas) and the indices whose name input was
  left once.\<close>

record inputs_panel =
  ip_schema :: "input_field list"
  ip_touched :: "nat list"

definition emptyField :: input_field where
  "emptyField = \<lparr>if_name = [], if_label = Some [], if_type = IT_text, if_target = TG_variable,
     if_options = None, if_default = None, if_required = Some False\<rparr>"

definition patch_field :: "nat \<Rightarrow> (input_field \<Rightarrow> input_field) \<Rightarrow> inputs_panel \<Rightarrow> inputs_panel" where
  "patch_field i p s = s\<lparr>ip_schema := map (\<lambda>(idx, f). if idx = i then p f else f)
     (enumerate 0 (ip_schema s))\<rparr>"

definition add_field :: "inputs_panel \<Rightarrow> inputs_panel" where
  "add_field s = s\<lparr>ip_schema := ip_schema s @ [emptyField]\<rparr>"

definition remove_field :: "nat \<Rightarrow> inputs_panel \<Rightarrow> inputs_panel" where
  "remove_field i s = s\<lparr>ip_schema := map snd (filter (\<lambda>(idx, f). idx \<noteq> i)
     (enumerate 0 (ip_schema s)))\<rparr>"

definition blur_name :: "nat \<Rightarrow> inputs_panel \<Rightarrow> inputs_panel" where
  "blur_name i s = s\<lparr>ip_touched := i # ip_touched s\<rparr>"

definition shown_error :: "inputs_panel \<Rightarrow> nat \<Rightarrow> field_error option" where
  "shown_error s i =
     (let f = ip_schema s ! i in
      if if_name f \<noteq> [] \<or> i \<in> set (ip_touched s) then inputFieldError f else None)"

text \<open>The editor of the options of a field.\<close>

definition set_option_value :: "nat \<Rightarrow> jsstr \<Rightarrow> input_field \<Rightarrow> input_field" where
  "set_option_value j v f = f\<lparr>if_options := Some (map (\<lambda>(idx, opt).
     if idx = j then opt\<lparr>io_value := v\<rparr> else opt) (enumerate 0 (nullish (if_options f) [])))\<rparr>"

definition set_option_label :: "nat \<Rightarrow> jsstr \<Rightarrow> input_field \<Rightarrow> input_field" where
  "set_option_label j v f = f\<lparr>if_options := Some (map (\<lambda>(idx, opt).
     if idx = j then opt\<lparr>io_label := Some v\<rparr> else opt) (enumerate 0 (nullish (if_options f) [])))\<rparr>"

definition add_option :: "input_field \<Rightarrow> input_field" where
  "add_option f = f\<lparr>if_options := Some (nullish (if_options f) []
     @ [\<lparr>io_value = [], io_label = Some []\<rparr>])\<rparr>"

definition remove_option :: "nat \<Rightarrow> input_field \<Rightarrow> input_field" where
  "remove_option j f = f\<lparr>if_options := Some (map snd (filter (\<lambda>(idx, opt). idx \<noteq> j)
     (enumerate 0 (nullish (if_options f) []))))\<rparr>"

section \<open>The dialog\<close>

datatype input_value = V_str jsstr | V_num js_number

text \<open>\<open>values[f.name] ?? ""\<close>, trimmed.\<close>

definition value_of :: "jsstr obj \<Rightarrow> input_field \<Rightarrow> jsstr" where
  "value_of values f = trim (nullish (obj_get values (if_name f)) [])"

text \<open>\<open>f.label || f.name\<close>.\<close>

definition label_of :: "input_field \<Rightarrow> jsstr" where
  "label_of f = (if truthy (if_label f) then the (if_label f) else if_name f)"

definition required_text :: jsstr where
  "required_text = [32, 0x4E3A, 0x5FC5, 0x586B]"

fun required_loop :: "input_field list \<Rightarrow> jsstr obj \<Rightarrow> jsstr obj \<Rightarrow> jsstr obj" where
  "required_loop [] values errs = errs"
| "required_loop (f # fs) values errs =
     (if if_required f \<noteq> Some True then required_loop fs values errs
      else if value_of values f = []
        then required_loop fs values (obj_put (if_name f) (label_of f @ required_text) errs)
      else required_loop fs values errs)"

definition requiredErrors :: "input_field list \<Rightarrow> jsstr obj \<Rightarrow> jsstr obj" where
  "requiredErrors schema values = required_loop schema values []"

fun build_loop :: "input_field list \<Rightarrow> jsstr obj \<Rightarrow> input_value obj \<Rightarrow> input_value obj" where
  "build_loop [] values out = out"
| "build_loop (f # fs) values out =
     (let s = value_of values f in
      if s = [] then build_loop fs values out
      else if if_type f = IT_number then
        (let n = to_number s in
         build_loop fs values (if n \<noteq> NaN then obj_put (if_name f) (V_num n) out else out))
      else build_loop fs values (obj_put (if_name f) (V_str s) out))"

definition buildInputs :: "input_field list \<Rightarrow> jsstr obj \<Rightarrow> input_value obj" where
  "buildInputs schema values = build_loop schema values []"

record inputs_dialog =
  id_values :: "jsstr obj"
  id_errors :: "jsstr obj"

text \<open>The values the dialog opens with. A default is read as JSON when it is JSON, else taken as it
  is; an object, an array or \<open>null\<close> gives an empty field. \<open>ftext\<close> is the text of a number that is
  no plain integer.\<close>

datatype default_value = DV_undefined | DV_json json

definition parseDefault :: "jsstr option \<Rightarrow> default_value" where
  "parseDefault raw = (case raw of
       None \<Rightarrow> DV_undefined
     | Some s \<Rightarrow> if s = [] then DV_undefined
         else (case JSON_parse s of Some j \<Rightarrow> DV_json j | None \<Rightarrow> DV_json (JStr s)))"

definition initialValue :: "(rat \<Rightarrow> jsstr) \<Rightarrow> input_field \<Rightarrow> jsstr" where
  "initialValue ftext f = (case parseDefault (if_default f) of
       DV_json (JStr s) \<Rightarrow> s
     | DV_json (JNum q) \<Rightarrow> number_text ftext q
     | DV_json (JBool b) \<Rightarrow> (if b then js ''true'' else js ''false'')
     | _ \<Rightarrow> [])"

fun init_loop :: "(rat \<Rightarrow> jsstr) \<Rightarrow> input_field list \<Rightarrow> jsstr obj \<Rightarrow> jsstr obj" where
  "init_loop ftext [] vals = vals"
| "init_loop ftext (f # fs) vals = init_loop ftext fs (obj_put (if_name f) (initialValue ftext f) vals)"

definition open_dialog :: "(rat \<Rightarrow> jsstr) \<Rightarrow> input_field list \<Rightarrow> inputs_dialog" where
  "open_dialog ftext schema = \<lparr>id_values = init_loop ftext schema [], id_errors = []\<rparr>"

definition setValue :: "jsstr \<Rightarrow> jsstr \<Rightarrow> inputs_dialog \<Rightarrow> inputs_dialog" where
  "setValue name v s = s\<lparr>id_values := obj_put name v (id_values s)\<rparr>"

text \<open>\<open>handleSubmit\<close>: the new state, and the payload when \<open>onSubmit\<close> is called.\<close>

definition submit_inputs ::
  "input_field list \<Rightarrow> inputs_dialog \<Rightarrow> inputs_dialog \<times> input_value obj option" where
  "submit_inputs schema s =
     (let errs = requiredErrors schema (id_values s); s' = s\<lparr>id_errors := errs\<rparr> in
      if errs \<noteq> [] then (s', None) else (s', Some (buildInputs schema (id_values s))))"

text \<open>The choices of a select: an empty value cannot be one of them.\<close>

definition select_choices :: "input_field \<Rightarrow> input_field_option list" where
  "select_choices f = filter (\<lambda>opt. io_value opt \<noteq> []) (nullish (if_options f) [])"

section \<open>Facts\<close>

definition field_entry :: "jsstr obj \<Rightarrow> input_field \<Rightarrow> (jsstr \<times> input_value) list" where
  "field_entry values f =
     (let s = value_of values f in
      if s = [] then []
      else if if_type f = IT_number then
        (if to_number s = NaN then [] else [(if_name f, V_num (to_number s))])
      else [(if_name f, V_str s)])"

lemma build_loop_fill:
  "build_loop fs values out = obj_fill (concat (map (field_entry values) fs)) out"
  by (induction fs "values" out rule: build_loop.induct) (auto simp: Let_def field_entry_def)

lemma required_loop_fill:
  "required_loop fs values errs = obj_fill (map (\<lambda>f. (if_name f, label_of f @ required_text))
     (filter (\<lambda>f. if_required f = Some True \<and> value_of values f = []) fs)) errs"
  by (induction fs "values" errs rule: required_loop.induct) auto

lemma requiredErrors_keys:
  "set (obj_keys (requiredErrors schema values)) =
     if_name ` {f \<in> set schema. if_required f = Some True \<and> value_of values f = []}"
  unfolding requiredErrors_def required_loop_fill obj_fill_keys by (auto simp: image_iff)

lemma buildInputs_keys:
  "set (obj_keys (buildInputs schema values)) =
     if_name ` {f \<in> set schema. field_entry values f \<noteq> []}"
proof -
  have "set (map fst (concat (map (field_entry values) fs)))
      = if_name ` {f \<in> set fs. field_entry values f \<noteq> []}" for fs
    by (induction fs) (auto simp: field_entry_def Let_def split: if_splits)
  then show ?thesis unfolding buildInputs_def build_loop_fill obj_fill_keys by simp
qed

text \<open>With distinct names each entry of the payload is the one of its field.\<close>

lemma rev_field_entry: "rev (field_entry values f) = field_entry values f"
  by (simp add: field_entry_def Let_def)

lemma map_of_entries:
  assumes "distinct (map if_name fs)" and "f \<in> set fs"
  shows "map_of (rev (concat (map (field_entry values) fs))) (if_name f)
     = map_of (field_entry values f) (if_name f)"
  using assms
proof (induction fs)
  case (Cons g fs)
  have key: "fst ` set (field_entry values h) \<subseteq> {if_name h}" for h
    by (auto simp: field_entry_def Let_def)
  show ?case
  proof (cases "f = g")
    case True
    have "if_name g \<notin> fst ` set (concat (map (field_entry values) fs))"
      using Cons.prems(1) key by (fastforce simp: image_iff)
    then have "map_of (rev (concat (map (field_entry values) fs))) (if_name g) = None"
      by (simp add: map_of_eq_None_iff)
    with True show ?thesis
      by (simp add: map_add_def rev_field_entry split: option.split)
  next
    case False
    with Cons.prems have f: "f \<in> set fs" "if_name g \<noteq> if_name f" by (auto simp: image_iff)
    then have "map_of (rev (field_entry values g)) (if_name f) = None"
      using key [of g] by (auto simp: map_of_eq_None_iff)
    moreover from Cons.prems(1) have "distinct (map if_name fs)" by simp
    note Cons.IH [OF this f(1)]
    ultimately show ?thesis by (simp add: map_add_def split: option.split)
  qed
qed simp

lemma buildInputs_get:
  assumes "distinct (map if_name schema)" and "f \<in> set schema"
  shows "obj_get (buildInputs schema values) (if_name f) =
     (let s = value_of values f in
      if s = [] then None
      else if if_type f = IT_number then
        (if to_number s = NaN then None else Some (V_num (to_number s)))
      else Some (V_str s))"
  unfolding buildInputs_def build_loop_fill obj_get_fill
  using map_of_entries [OF assms]
  by (simp add: map_add_def field_entry_def Let_def split: if_splits option.split)

lemma name_char_nb: "name_char c \<Longrightarrow> nb c" and name_char_not_ws: "name_char c \<Longrightarrow> \<not> is_ws c"
  by (auto simp: name_char_def name_start_def nb_def is_ws_def)

lemma nameRe_chars: "nameRe s \<Longrightarrow> list_all name_char s"
  by (cases s) (auto simp: nameRe_def name_char_def)

lemma enumerate_snd_filter:
  "map snd (filter (\<lambda>(idx, x). idx \<noteq> n + i) (enumerate n xs)) = take i xs @ drop (Suc i) xs"
proof (induction xs arbitrary: n i)
  case (Cons x xs)
  show ?case
  proof (cases i)
    case 0
    have "filter (\<lambda>(idx, x). idx \<noteq> n) (enumerate (Suc n) xs) = enumerate (Suc n) xs"
      by (rule filter_True) (auto simp: in_set_enumerate_eq)
    with 0 show ?thesis by simp
  next
    case (Suc j)
    then show ?thesis using Cons.IH [of "Suc n" j] by simp
  qed
qed simp

lemma remove_field_schema:
  "ip_schema (remove_field i s) = take i (ip_schema s) @ drop (Suc i) (ip_schema s)"
  using enumerate_snd_filter [of 0 i "ip_schema s"] by (simp add: remove_field_def)

text \<open>A default written as JSON opens the field with its value, any other text with itself.\<close>

lemma init_loop_fill: "init_loop ftext fs vals = obj_fill (map (\<lambda>f. (if_name f, initialValue ftext f)) fs) vals"
  by (induction fs arbitrary: vals) simp_all

lemma open_dialog_value:
  assumes "distinct (map if_name schema)" and "f \<in> set schema"
  shows "obj_get (id_values (open_dialog ftext schema)) (if_name f) = Some (initialValue ftext f)"
proof -
  have "map_of (map (\<lambda>f. (if_name f, initialValue ftext f)) (rev schema)) (if_name f)
      = Some (initialValue ftext f)"
    by (rule map_of_distinct_key) (use assms in \<open>simp_all flip: rev_map\<close>)
  then show ?thesis
    by (simp add: open_dialog_def init_loop_fill obj_get_fill rev_map map_add_def)
qed

lemma initialValue_cases:
  "units s \<Longrightarrow> if_default f = Some (JSON_stringify gtext (JStr s)) \<Longrightarrow> initialValue ftext f = s"
  "plain_int q \<Longrightarrow> if_default f = Some (JSON_stringify ftext (JNum q)) \<Longrightarrow> initialValue ftext f = number_text ftext q"
  "if_default f = Some s \<Longrightarrow> JSON_parse s = None \<Longrightarrow> initialValue ftext f = s"
proof -
  assume "units s" "if_default f = Some (JSON_stringify gtext (JStr s))"
  moreover have "JSON_stringify gtext (JStr s) \<noteq> []" by (simp add: quote_string_def)
  ultimately show "initialValue ftext f = s"
    using JSON_parse_stringify [of "JStr s" gtext] by (simp add: initialValue_def parseDefault_def)
next
  assume "plain_int q" "if_default f = Some (JSON_stringify ftext (JNum q))"
  moreover from number_text_hd [OF this(1), of ftext] have "number_text ftext q \<noteq> []" by auto
  ultimately show "initialValue ftext f = number_text ftext q"
    using JSON_parse_stringify [of "JNum q" ftext] by (simp add: initialValue_def parseDefault_def)
next
  assume "if_default f = Some s" "JSON_parse s = None"
  then show "initialValue ftext f = s" by (cases "s = []") (simp_all add: initialValue_def parseDefault_def)
qed

section \<open>Properties\<close>

text \<open>Submitting the inputs calls back exactly when every required field has a value that is
  not blank; the payload then holds, for fields with distinct names, the trimmed text of each
  field that is not blank, the number of a number field whose text denotes one, and nothing
  else.\<close>

theorem submit_inputs_correct:
  assumes "distinct (map if_name schema)" and "f \<in> set schema"
  shows "(snd (submit_inputs schema s) = None \<longleftrightarrow>
       {g \<in> set schema. if_required g = Some True \<and> value_of (id_values s) g = []} \<noteq> {})
   \<and> (\<forall>out. snd (submit_inputs schema s) = Some out \<longrightarrow>
        set (obj_keys out) \<subseteq> if_name ` set schema
      \<and> obj_get out (if_name f) =
         (let t = value_of (id_values s) f in
          if t = [] then None
          else if if_type f = IT_number then
            (if to_number t = NaN then None else Some (V_num (to_number t)))
          else Some (V_str t)))"
proof -
  let ?blank = "{g \<in> set schema. if_required g = Some True \<and> value_of (id_values s) g = []}"
  have "requiredErrors schema (id_values s) = []
      \<longleftrightarrow> set (obj_keys (requiredErrors schema (id_values s))) = {}"
    by simp
  also have "\<dots> \<longleftrightarrow> if_name ` ?blank = {}" by (simp only: requiredErrors_keys)
  also have "\<dots> \<longleftrightarrow> ?blank = {}" by (rule image_is_empty)
  finally have none: "requiredErrors schema (id_values s) = [] \<longleftrightarrow> ?blank = {}" .
  have keys: "set (obj_keys (buildInputs schema (id_values s))) \<subseteq> if_name ` set schema"
    unfolding buildInputs_keys by auto
  note get = buildInputs_get [OF assms, of "id_values s"]
  show ?thesis
  proof (cases "?blank = {}")
    case True
    with none have "submit_inputs schema s
        = (s\<lparr>id_errors := []\<rparr>, Some (buildInputs schema (id_values s)))"
      by (simp add: submit_inputs_def Let_def)
    with True keys get show ?thesis by (simp del: set_map)
  next
    case False
    with none have "snd (submit_inputs schema s) = None"
      by (simp add: submit_inputs_def Let_def)
    with False show ?thesis by simp
  qed
qed

definition demo_field :: "jsstr \<Rightarrow> input_field_type \<Rightarrow> input_field" where
  "demo_field n ty = \<lparr>if_name = n, if_label = None, if_type = ty, if_target = TG_variable,
     if_options = None, if_default = None, if_required = Some True\<rparr>"

theorem submit_inputs_correct_witness:
  "obj_get (the (snd (submit_inputs [demo_field (js ''hero'') IT_text, demo_field (js ''n'') IT_number]
     \<lparr>id_values = [(js ''hero'', js '' Ada ''), (js ''n'', js ''12'')], id_errors = []\<rparr>))) (js ''n'')
     = Some (V_num (Num 12))"
proof -
  let ?schema = "[demo_field (js ''hero'') IT_text, demo_field (js ''n'') IT_number]"
  let ?s = "\<lparr>id_values = [(js ''hero'', js '' Ada ''), (js ''n'', js ''12'')], id_errors = []\<rparr>"
  have vals: "value_of (id_values ?s) (demo_field (js ''hero'') IT_text) = js ''Ada''"
    "value_of (id_values ?s) (demo_field (js ''n'') IT_number) = dec 12"
    by (simp_all add: value_of_def demo_field_def obj_get_def trim_def is_ws_def js_def dec.simps)
  then have none: "{g \<in> set ?schema. if_required g = Some True \<and> value_of (id_values ?s) g = []} = {}"
    by (auto simp: dec_not_Nil [symmetric])
  note main = submit_inputs_correct [of ?schema "demo_field (js ''n'') IT_number" ?s]
  have pre: "distinct (map if_name ?schema)" "demo_field (js ''n'') IT_number \<in> set ?schema"
    by (simp_all add: demo_field_def)
  from main [OF pre] none have "snd (submit_inputs ?schema ?s) \<noteq> None" by blast
  then obtain out where out: "snd (submit_inputs ?schema ?s) = Some out" by blast
  with main [OF pre] have "obj_get out (if_name (demo_field (js ''n'') IT_number)) =
      (if to_number (dec 12) = NaN then None else Some (V_num (to_number (dec 12))))"
    unfolding vals(2) by (simp add: demo_field_def)
  with out show ?thesis by (simp add: to_number_dec) (simp add: demo_field_def)
qed

text \<open>A required number whose text is not a number passes the check for required fields and is
  then left out of the payload, so that the run is started without it.\<close>

theorem required_number_dropped:
  "submit_inputs [demo_field (js ''n'') IT_number] \<lparr>id_values = [(js ''n'', js ''abc'')], id_errors = []\<rparr>
     = (\<lparr>id_values = [(js ''n'', js ''abc'')], id_errors = []\<rparr>, Some [])"
proof -
  have "to_number (js ''abc'') = NaN"
    by (simp add: to_number_def Let_def trim_def is_ws_def js_def parse_unsigned_def is_digit_def)
  moreover have "trim (js ''abc'') = js ''abc''"
    by (simp add: trim_def is_ws_def js_def)
  ultimately show ?thesis
    by (simp add: submit_inputs_def requiredErrors_def buildInputs_def demo_field_def value_of_def
        obj_get_def Let_def)
qed

text \<open>The placeholder of an accepted input field is found as one variable of a prompt that
  holds it, under the name with the prefix of inputs, and is never reported as unbound.\<close>

theorem input_placeholder_bound:
  assumes "inputFieldError f = None"
  shows "extractTemplateVars None (obrace @ js ''input:'' @ if_name f @ cbrace)
       = [js ''input:'' @ if_name f]
     \<and> unboundVars nd [js ''input:'' @ if_name f] = []"
proof -
  let ?n = "js ''input:'' @ if_name f"
  have re: "nameRe (if_name f)" using assms by (auto simp: inputFieldError_def split: if_splits)
  then have chars: "list_all name_char (if_name f)" "if_name f \<noteq> []"
    by (auto simp: nameRe_chars nameRe_def)
  then have "list_all nb ?n"
    by (auto simp: list_all_iff name_char_nb) (auto simp: js_def nb_def)
  then have "tokens (obrace @ ?n @ cbrace) = [?n]" using tokens_token [of ?n "[]"] by simp
  then have "tokens ([10] @ obrace @ ?n @ cbrace) = [?n]"
    using tokens_plain [of "[10]"] by (simp add: nb_def)
  moreover have "trim ?n = ?n"
  proof (rule trim_id)
    show "\<not> is_ws (last ?n)" using chars name_char_not_ws by (auto simp: list_all_iff)
    show "\<not> is_ws (hd ?n)" by (simp add: js_def is_ws_def)
  qed simp
  ultimately show ?thesis by (simp add: extractTemplateVars_def unboundVars_def)
qed

theorem input_placeholder_bound_witness:
  "extractTemplateVars None (js ''{{input:hero}}'') = [js ''input:hero'']"
proof -
  have "inputFieldError (demo_field (js ''hero'') IT_text) = None"
    by (simp add: inputFieldError_def demo_field_def nameRe_def name_start_def name_char_def js_def)
  from input_placeholder_bound [OF this] show ?thesis by (simp add: demo_field_def js_def)
qed

text \<open>The panel keys the fields it may mark by position: after a field that was left once is
  removed, a freshly added empty field in its place shows its error at once.\<close>

theorem touched_survives_removal:
  "shown_error (add_field s) (length (ip_schema s)) = None \<and>
   shown_error (add_field (remove_field 0 (blur_name 0 \<lparr>ip_schema = [f], ip_touched = []\<rparr>))) 0
     = Some Bad_name"
  if "length (ip_schema s) \<notin> set (ip_touched s)"
  using that
  by (simp add: shown_error_def add_field_def remove_field_schema blur_name_def emptyField_def
      inputFieldError_def nameRe_def Let_def) (simp add: remove_field_def)

theorem touched_survives_removal_witness:
  "shown_error (add_field \<lparr>ip_schema = [], ip_touched = []\<rparr>) 0 = None"
  using touched_survives_removal [of "\<lparr>ip_schema = [], ip_touched = []\<rparr>"] by simp

end
