(* ===== verification/Event_System.thy ===== *)
theory Event_System
  imports Prelude
begin

text \<open>
  Runs of the asynchronous components. A component gives a step relation labelled by its
  events; \<open>run\<close> is the labelled run. The locale \<open>trace_invariant\<close> is the contract of a
  property of the events so far and the state that every step keeps, \<open>state_refinement\<close>
  the contract of a component whose steps are, seen through an abstraction, steps of an
  abstract machine.
\<close>

inductive run :: "('s \<Rightarrow> 'e \<Rightarrow> 's \<Rightarrow> bool) \<Rightarrow> 's \<Rightarrow> 'e list \<Rightarrow> 's \<Rightarrow> bool"
  for step :: "'s \<Rightarrow> 'e \<Rightarrow> 's \<Rightarrow> bool" where
  run_nil: "run step s [] s"
| run_snoc: "run step s es s' \<Longrightarrow> step s' e s'' \<Longrightarrow> run step s (es @ [e]) s''"

lemma run_single: "step s e s' \<Longrightarrow> run step s [e] s'"
  using run_snoc [OF run_nil, of step s e s'] by simp

lemma run_append: "run step s' fs s'' \<Longrightarrow> run step s es s' \<Longrightarrow> run step s (es @ fs) s''"
proof (induction fs s'' rule: run.induct)
  case run_nil
  then show ?case by simp
next
  case (run_snoc fs t f t')
  from run.run_snoc [OF run_snoc.IH [OF run_snoc.prems] run_snoc.hyps(2)]
  show ?case by simp
qed

lemma run_Cons: "step s e s' \<Longrightarrow> run step s' es s'' \<Longrightarrow> run step s (e # es) s''"
  using run_append [OF _ run_single, of step s' es s'' s e] by simp

text \<open>A guarded handler run over a list of events: the run of a step relation it gives.\<close>

fun allowed :: "('s \<Rightarrow> 'e \<Rightarrow> bool) \<Rightarrow> ('e \<Rightarrow> 's \<Rightarrow> 's) \<Rightarrow> 'e list \<Rightarrow> 's \<Rightarrow> bool" where
  "allowed guard h [] s = True"
| "allowed guard h (e # es) s = (guard s e \<and> allowed guard h es (h e s))"

lemma allowed_run:
  assumes "\<And>s e. guard s e \<Longrightarrow> step s e (h e s)"
  shows "allowed guard h es s \<Longrightarrow> run step s es (fold h es s)"
proof (induction es arbitrary: s)
  case Nil
  show ?case by (simp add: run_nil)
next
  case (Cons e es)
  then have "run step (h e s) es (fold h es (h e s))" by simp
  with run_Cons [of step s e "h e s" es] assms Cons.prems show ?case by simp
qed

text \<open>Counting requests and answers.\<close>

definition count_of :: "('a \<Rightarrow> bool) \<Rightarrow> 'a list \<Rightarrow> nat" where
  "count_of P xs = length (filter P xs)"

lemma count_of_simps [simp]:
  "count_of P [] = 0" "count_of P (x # xs) = (if P x then 1 else 0) + count_of P xs"
  "count_of P (xs @ ys) = count_of P xs + count_of P ys"
  by (simp_all add: count_of_def)

locale trace_invariant =
  fixes step :: "'s \<Rightarrow> 'e \<Rightarrow> 's \<Rightarrow> bool"
    and J :: "'e list \<Rightarrow> 's \<Rightarrow> bool"
  assumes keeps: "J es s \<Longrightarrow> step s e s' \<Longrightarrow> J (es @ [e]) s'"
begin

lemma run_keeps: "run step s es s' \<Longrightarrow> J fs s \<Longrightarrow> J (fs @ es) s'"
proof (induction rule: run.induct)
  case (run_nil s)
  then show ?case by simp
next
  case (run_snoc s es t e t')
  from keeps [OF run_snoc.IH [OF run_snoc.prems] run_snoc.hyps(2)]
  show ?case by simp
qed

lemma from_start: "run step s es s' \<Longrightarrow> J [] s \<Longrightarrow> J es s'"
  using run_keeps [of s es s' "[]"] by simp

end

locale state_refinement =
  fixes step :: "'s \<Rightarrow> 'e \<Rightarrow> 's \<Rightarrow> bool"
    and astep :: "'a \<Rightarrow> 'e \<Rightarrow> 'a \<Rightarrow> bool"
    and abs :: "'s \<Rightarrow> 'a"
    and I :: "'s \<Rightarrow> bool"
  assumes keeps: "I s \<Longrightarrow> step s e s' \<Longrightarrow> I s'"
    and simulates: "I s \<Longrightarrow> step s e s' \<Longrightarrow> astep (abs s) e (abs s')"
begin

lemma run_invariant: "run step s es s' \<Longrightarrow> I s \<Longrightarrow> I s'"
  by (induction rule: run.induct) (auto intro: keeps)

lemma run_simulates: "run step s es s' \<Longrightarrow> I s \<Longrightarrow> run astep (abs s) es (abs s')"
proof (induction rule: run.induct)
  case (run_nil s)
  show ?case by (rule run.run_nil)
next
  case (run_snoc s es t e t')
  have "I t" by (rule run_invariant [OF run_snoc.hyps(1) run_snoc.prems])
  show ?case
    by (rule run.run_snoc [OF run_snoc.IH [OF run_snoc.prems]
          simulates [OF \<open>I t\<close> run_snoc.hyps(2)]])
qed

end

end
