(* ===== verification/Run_Canvas.thy ===== *)
theory Run_Canvas
  imports Run_View Run_Inputs Event_System Canvas_Editor
begin

text \<open>
  The run canvas as a state machine (\<open>workflow-canvas/RunCanvas.tsx\<close>): its dialogs and drawers,
  the selection, the requests to run and to cancel, and the effect that announces a finished
  run. The host and the queries change the properties by \<open>Set_Props\<close>; a handler returns the
  new state and its commands, which are logged. A mutation is pending from its request to its
  settlement, which is an event. The guards are those under which a control is shown and enabled.
\<close>

section \<open>State\<close>

record plan =
  pn_id :: jsstr
  pn_projectId :: jsstr
  pn_status :: jsstr
  pn_valid :: bool
  pn_fallbackUsed :: bool
  pn_createdAt :: jsstr
  pn_workflowId :: "jsstr option"

record run_props =
  rq_projectId :: jsstr
  rq_runId :: "jsstr option"
  rq_nodes :: "workflow_node list"
  rq_workflowId :: "jsstr option"
  rq_inputsSchema :: "input_field list option"
  rq_data :: "project_state option"
  rq_plans :: "plan list option"
  rq_assets :: "asset list option"
  rq_isDesktop :: bool

record run_ui =
  ru_runInputsOpen :: bool
  ru_leftDrawer :: bool
  ru_rightDrawer :: bool
  ru_selection :: "run_selection option"
  ru_gallery :: bool
  ru_preview :: bool
  ru_review :: bool
  ru_reviewSelected :: "jsstr option"
  ru_expanded :: "jsstr set"
  ru_settings :: topology_settings
  ru_seen :: "run_status \<times> project_status"
  ru_completeToast :: bool
  ru_runs :: "bool list"
  ru_cancels :: nat

text \<open>\<open>ru_seen\<close>: the dependencies of the completion effect when it last ran, the first of which is
  \<open>prevRunStatus\<close>. \<open>ru_runs\<close>: the run requests in flight, true for those of the inputs dialog.\<close>

datatype run_toast =
    T_fallback | T_started | T_quota | T_invalid jsstr | T_run_failed
  | T_canceled | T_cancel_failed | T_complete nat

datatype run_command =
    RC_run jsstr "input_value obj option"
  | RC_cancel jsstr
  | RC_select_run jsstr
  | RC_refetch_plans
  | RC_toast run_toast

definition wfState :: "run_props \<Rightarrow> project_state" where
  "wfState p = nullish (rq_data p) (empty_state (rq_projectId p))"

definition isRunning :: "run_ui \<Rightarrow> bool" where
  "isRunning u \<longleftrightarrow> ru_runs u \<noteq> [] \<or> ru_cancels u > 0"

definition isLatestPlan :: "run_props \<Rightarrow> bool" where
  "isLatestPlan p = (case rq_plans p of
       Some (pl # pls) \<Rightarrow> Some (pn_id pl) = rq_runId p | _ \<Rightarrow> False)"

definition canCancel :: "run_props \<Rightarrow> bool" where
  "canCancel p \<longleftrightarrow> isLatestPlan p
     \<and> (ps_status (wfState p) = PS_running \<or> ps_status (wfState p) = PS_planning)"

definition run_live :: "run_props \<Rightarrow> bool" where
  "run_live p \<longleftrightarrow> ps_runStatus (wfState p) \<noteq> R_done \<and> truthy (rq_runId p)"

definition has_inputs :: "run_props \<Rightarrow> bool" where
  "has_inputs p \<longleftrightarrow> nullish (rq_inputsSchema p) [] \<noteq> []"

definition inputs_shown :: "run_props \<Rightarrow> run_ui \<Rightarrow> bool" where
  "inputs_shown p u \<longleftrightarrow> ru_runInputsOpen u \<and> has_inputs p"

definition canvas_groups :: "run_props \<Rightarrow> (jsstr \<times> run_group) list" where
  "canvas_groups p = run_groups (rq_nodes p) (wfState p) (rq_assets p)"

definition is_group_node :: "run_props \<Rightarrow> jsstr \<Rightarrow> bool" where
  "is_group_node p i \<longleftrightarrow> map_of (canvas_groups p) i \<noteq> None
     \<and> (case find (\<lambda>n. wn_id n = i) (rq_nodes p) of None \<Rightarrow> False | Some n \<Rightarrow> wn_type n = js ''storyboard'')"

section \<open>Handlers\<close>

definition onToggleGroup :: "jsstr \<Rightarrow> run_ui \<Rightarrow> run_ui" where
  "onToggleGroup i u = u\<lparr>ru_expanded :=
     (if i \<in> ru_expanded u then ru_expanded u - {i} else insert i (ru_expanded u))\<rparr>"

definition onSelectPage :: "jsstr \<Rightarrow> jsstr \<Rightarrow> run_ui \<Rightarrow> run_ui" where
  "onSelectPage i key u = u\<lparr>ru_selection := Some (SelGroup i (Some key))\<rparr>"

fun own_drawer :: "run_selection \<Rightarrow> bool" where
  "own_drawer (SelScript t its) = True"
| "own_drawer (SelStoryboard t its) = True"
| "own_drawer s = False"

definition handleSelectNode :: "run_props \<Rightarrow> jsstr \<Rightarrow> run_ui \<Rightarrow> run_ui" where
  "handleSelectNode p i u = (case find (\<lambda>n. wn_id n = i) (rq_nodes p) of
       None \<Rightarrow> u
     | Some n \<Rightarrow>
         (case resolveSelection (wn_type n) (overlayRunStatus (rq_nodes p) (wfState p) i) of
            None \<Rightarrow> u
          | Some sel \<Rightarrow> u\<lparr>ru_selection := Some sel,
              ru_rightDrawer := (if \<not> rq_isDesktop p \<and> \<not> own_drawer sel then True else ru_rightDrawer u)\<rparr>))"

definition onNodeClick :: "run_props \<Rightarrow> jsstr \<Rightarrow> run_ui \<Rightarrow> run_ui" where
  "onNodeClick p i u =
     (if is_group_node p i
      then u\<lparr>ru_selection := Some (SelGroup i None),
             ru_rightDrawer := (if \<not> rq_isDesktop p then True else ru_rightDrawer u)\<rparr>
      else handleSelectNode p i u)"

text \<open>The request, and the settlement of the one at a position of those in flight.\<close>

definition doRunWorkflow :: "run_props \<Rightarrow> bool \<Rightarrow> input_value obj option \<Rightarrow> run_ui \<Rightarrow> run_ui \<times> run_command list" where
  "doRunWorkflow p dialog inputs u =
     (if \<not> truthy (rq_workflowId p)
      then (if dialog then u\<lparr>ru_runInputsOpen := False\<rparr> else u, [])
      else (u\<lparr>ru_runs := ru_runs u @ [dialog]\<rparr>, [RC_run (the (rq_workflowId p)) inputs]))"

definition handleRun :: "run_props \<Rightarrow> run_ui \<Rightarrow> run_ui \<times> run_command list" where
  "handleRun p u =
     (if \<not> truthy (rq_workflowId p) then (u, [])
      else if has_inputs p then (u\<lparr>ru_runInputsOpen := True\<rparr>, [])
      else doRunWorkflow p False None u)"

datatype run_result = RR_ok jsstr bool | RR_api nat jsstr | RR_other

definition run_reason :: "jsstr \<Rightarrow> jsstr" where
  "run_reason body = trim (strip_prefix (js ''custom workflow:'') (strip_prefix (js ''invalid workflow:'') body))"

fun run_outcome :: "run_result \<Rightarrow> run_command list" where
  "run_outcome (RR_ok planId fallbackUsed) =
     [RC_toast (if fallbackUsed then T_fallback else T_started), RC_select_run planId]"
| "run_outcome (RR_api status body) =
     [RC_toast (if status = 429 then T_quota else if status = 400 then T_invalid (run_reason body) else T_run_failed)]"
| "run_outcome RR_other = [RC_toast T_run_failed]"

definition run_settled :: "nat \<Rightarrow> run_result \<Rightarrow> run_ui \<Rightarrow> run_ui \<times> run_command list" where
  "run_settled k r u =
     (u\<lparr>ru_runs := take k (ru_runs u) @ drop (Suc k) (ru_runs u),
        ru_runInputsOpen := (if ru_runs u ! k then False else ru_runInputsOpen u)\<rparr>, run_outcome r)"

definition handleCancel :: "run_props \<Rightarrow> run_ui \<Rightarrow> run_ui \<times> run_command list" where
  "handleCancel p u = (u\<lparr>ru_cancels := ru_cancels u + 1\<rparr>, [RC_cancel (rq_projectId p)])"

definition cancel_settled :: "bool \<Rightarrow> run_ui \<Rightarrow> run_ui \<times> run_command list" where
  "cancel_settled ok u = (u\<lparr>ru_cancels := ru_cancels u - 1\<rparr>,
     if ok then [RC_toast T_canceled, RC_refetch_plans] else [RC_toast T_cancel_failed])"

text \<open>The effect on the dependencies \<open>[runStatus, status]\<close>, and the one that takes the toast away
  when one of the three full-screen dialogs opens.\<close>

definition completion_effect :: "run_props \<Rightarrow> run_ui \<Rightarrow> run_ui \<times> run_command list" where
  "completion_effect p u =
     (let st = wfState p; now = (ps_runStatus st, ps_status st);
          rise = (fst (ru_seen u) \<noteq> R_done \<and> ps_runStatus st = R_done);
          call = (rise \<and> ps_status st \<noteq> PS_failed \<and> ps_status st \<noteq> PS_canceled)
      in if ru_seen u = now then (u, [])
         else (u\<lparr>ru_seen := now, ru_completeToast := (ru_completeToast u \<or> call)\<rparr>,
               (if rise then [RC_refetch_plans] else [])
               @ (if call then [RC_toast (T_complete (as_pending (ps_assets st)))] else [])))"

definition dismiss_effect :: "run_ui \<Rightarrow> run_ui \<Rightarrow> run_ui" where
  "dismiss_effect u u' =
     (if (ru_gallery u', ru_preview u', ru_review u') \<noteq> (ru_gallery u, ru_preview u, ru_review u)
         \<and> (ru_gallery u' \<or> ru_preview u' \<or> ru_review u')
      then u'\<lparr>ru_completeToast := False\<rparr> else u')"

section \<open>Events\<close>

datatype run_event =
    Node_Click jsstr
  | Toggle_Group jsstr
  | Select_Page jsstr jsstr
  | Matrix_Page jsstr
  | Click_Run
  | Submit_Inputs "input_value obj"
  | Close_Inputs
  | Run_Settled nat run_result
  | Click_Cancel
  | Cancel_Settled bool
  | Pick_Run jsstr
  | Open_Gallery
  | Gallery_Change bool
  | Click_Preview
  | Preview_Change bool
  | Open_Review
  | Toast_Review
  | Toast_Gone
  | Review_Change bool
  | Review_Select "jsstr option"
  | Review_Back
  | Review_Preview
  | Artifact_Close
  | Left_Drawer bool
  | Right_Drawer bool
  | Set_Settings topology_settings
  | Clear_Hidden
  | Set_Props run_props

definition drawer_kind :: "run_ui \<Rightarrow> bool" where
  "drawer_kind u = (case ru_selection u of Some s \<Rightarrow> own_drawer s | None \<Rightarrow> False)"

fun rc_guard :: "run_props \<Rightarrow> run_ui \<Rightarrow> run_event \<Rightarrow> bool" where
  "rc_guard p u (Node_Click i) = (truthy (rq_runId p) \<and> i \<in> wn_id ` set (rq_nodes p))"
| "rc_guard p u (Toggle_Group i) = (truthy (rq_runId p) \<and> is_group_node p i)"
| "rc_guard p u (Select_Page i key) = (truthy (rq_runId p) \<and> is_group_node p i)"
| "rc_guard p u (Matrix_Page key) =
     (truthy (rq_runId p) \<and> (\<exists>g page. ru_selection u = Some (SelGroup g page)))"
| "rc_guard p u Click_Run =
     (\<not> isRunning u \<and> truthy (rq_workflowId p) \<and> (truthy (rq_runId p) \<longrightarrow> rq_nodes p \<noteq> []))"
| "rc_guard p u (Submit_Inputs v) = (inputs_shown p u \<and> ru_runs u = [])"
| "rc_guard p u Close_Inputs = inputs_shown p u"
| "rc_guard p u (Run_Settled k r) = (k < length (ru_runs u))"
| "rc_guard p u Click_Cancel = (truthy (rq_runId p) \<and> canCancel p \<and> \<not> isRunning u)"
| "rc_guard p u (Cancel_Settled ok) = (ru_cancels u > 0)"
| "rc_guard p u (Pick_Run r) = (truthy (rq_runId p) \<and> r \<in> pn_id ` set (nullish (rq_plans p) []))"
| "rc_guard p u Open_Gallery = (truthy (rq_runId p) \<and> length (done_pips (wfState p)) > 0)"
| "rc_guard p u Click_Preview = (truthy (rq_runId p) \<and> canPreview (wfState p))"
| "rc_guard p u Open_Review = (truthy (rq_runId p) \<and> readyForReview (wfState p))"
| "rc_guard p u Toast_Review = ru_completeToast u"
| "rc_guard p u Toast_Gone = ru_completeToast u"
| "rc_guard p u (Gallery_Change b) = ru_gallery u"
| "rc_guard p u (Preview_Change b) = ru_preview u"
| "rc_guard p u (Review_Change b) = ru_review u"
| "rc_guard p u (Review_Select i) = ru_review u"
| "rc_guard p u Review_Back = ru_review u"
| "rc_guard p u Review_Preview = ru_review u"
| "rc_guard p u Artifact_Close = drawer_kind u"
| "rc_guard p u (Left_Drawer b) = (\<not> rq_isDesktop p)"
| "rc_guard p u (Right_Drawer b) = (\<not> rq_isDesktop p)"
| "rc_guard p u e = True"

fun rc_handle :: "run_props \<Rightarrow> run_ui \<Rightarrow> run_event \<Rightarrow> run_ui \<times> run_command list" where
  "rc_handle p u (Node_Click i) = (onNodeClick p i u, [])"
| "rc_handle p u (Toggle_Group i) = (onToggleGroup i u, [])"
| "rc_handle p u (Select_Page i key) = (onSelectPage i key u, [])"
| "rc_handle p u (Matrix_Page key) = ((case ru_selection u of
       Some (SelGroup g page) \<Rightarrow> u\<lparr>ru_selection := Some (SelGroup g (Some key))\<rparr> | _ \<Rightarrow> u), [])"
| "rc_handle p u Click_Run = handleRun p u"
| "rc_handle p u (Submit_Inputs v) = doRunWorkflow p True (Some v) u"
| "rc_handle p u Close_Inputs = (u\<lparr>ru_runInputsOpen := False\<rparr>, [])"
| "rc_handle p u (Run_Settled k r) = run_settled k r u"
| "rc_handle p u Click_Cancel = handleCancel p u"
| "rc_handle p u (Cancel_Settled ok) = cancel_settled ok u"
| "rc_handle p u (Pick_Run r) = (u, [RC_select_run r])"
| "rc_handle p u Open_Gallery = (u\<lparr>ru_gallery := True\<rparr>, [])"
| "rc_handle p u (Gallery_Change b) = (u\<lparr>ru_gallery := b\<rparr>, [])"
| "rc_handle p u Click_Preview = (u\<lparr>ru_preview := True\<rparr>, [])"
| "rc_handle p u (Preview_Change b) = (u\<lparr>ru_preview := b\<rparr>, [])"
| "rc_handle p u Open_Review = (u\<lparr>ru_review := True\<rparr>, [])"
| "rc_handle p u Toast_Review = (u\<lparr>ru_review := True\<rparr>, [])"
| "rc_handle p u Toast_Gone = (u\<lparr>ru_completeToast := False\<rparr>, [])"
| "rc_handle p u (Review_Change b) =
     (u\<lparr>ru_review := b, ru_reviewSelected := (if b then ru_reviewSelected u else None)\<rparr>, [])"
| "rc_handle p u (Review_Select i) = (u\<lparr>ru_reviewSelected := i\<rparr>, [])"
| "rc_handle p u Review_Back = (u\<lparr>ru_review := False\<rparr>, [])"
| "rc_handle p u Review_Preview = (u\<lparr>ru_review := False, ru_preview := True\<rparr>, [])"
| "rc_handle p u Artifact_Close = (u\<lparr>ru_selection := None\<rparr>, [])"
| "rc_handle p u (Left_Drawer b) = (u\<lparr>ru_leftDrawer := b\<rparr>, [])"
| "rc_handle p u (Right_Drawer b) = (u\<lparr>ru_rightDrawer := b\<rparr>, [])"
| "rc_handle p u (Set_Settings st) = (u\<lparr>ru_settings := st\<rparr>, [])"
| "rc_handle p u Clear_Hidden = (u\<lparr>ru_settings := clear_filter (ru_settings u)\<rparr>, [])"
| "rc_handle p u (Set_Props p') = (u, [])"

record run_canvas =
  rc_props :: run_props
  rc_ui :: run_ui
  rc_log :: "run_command list"

definition next_props :: "run_props \<Rightarrow> run_event \<Rightarrow> run_props" where
  "next_props p e = (case e of Set_Props p' \<Rightarrow> p' | _ \<Rightarrow> p)"

text \<open>A handler, then the effects of the render it causes.\<close>

definition rc_result :: "run_props \<Rightarrow> run_ui \<Rightarrow> run_event \<Rightarrow> run_ui \<times> run_command list" where
  "rc_result p u e =
     (let r = rc_handle p u e; c = completion_effect (next_props p e) (dismiss_effect u (fst r))
      in (fst c, snd r @ snd c))"

definition rc_do :: "run_canvas \<Rightarrow> run_event \<Rightarrow> run_canvas" where
  "rc_do s e = (let r = rc_result (rc_props s) (rc_ui s) e in
     \<lparr>rc_props = next_props (rc_props s) e, rc_ui = fst r, rc_log = rc_log s @ snd r\<rparr>)"

inductive rc_step :: "run_canvas \<Rightarrow> run_event \<Rightarrow> run_canvas \<Rightarrow> bool" where
  "rc_guard (rc_props s) (rc_ui s) e \<Longrightarrow> rc_step s e (rc_do s e)"

inductive_cases rc_stepE: "rc_step s e s'"

definition rc_start :: "run_props \<Rightarrow> topology_settings \<Rightarrow> run_canvas" where
  "rc_start p st = \<lparr>rc_props = p, rc_ui = \<lparr>ru_runInputsOpen = False, ru_leftDrawer = False,
     ru_rightDrawer = False, ru_selection = None, ru_gallery = False, ru_preview = False,
     ru_review = False, ru_reviewSelected = None, ru_expanded = {}, ru_settings = st,
     ru_seen = (ps_runStatus (wfState p), ps_status (wfState p)), ru_completeToast = False,
     ru_runs = [], ru_cancels = 0\<rparr>, rc_log = []\<rparr>"

section \<open>Facts\<close>

fun is_run :: "run_command \<Rightarrow> bool" where
  "is_run (RC_run w v) = True"
| "is_run c = False"

fun is_cancel :: "run_command \<Rightarrow> bool" where
  "is_cancel (RC_cancel i) = True"
| "is_cancel c = False"

fun is_complete :: "run_command \<Rightarrow> bool" where
  "is_complete (RC_toast (T_complete n)) = True"
| "is_complete c = False"

fun ends_run :: "run_event \<Rightarrow> bool" where
  "ends_run (Run_Settled k r) = True"
| "ends_run e = False"

fun ends_cancel :: "run_event \<Rightarrow> bool" where
  "ends_cancel (Cancel_Settled ok) = True"
| "ends_cancel e = False"

definition statuses :: "run_props \<Rightarrow> run_status \<times> project_status" where
  "statuses p = (ps_runStatus (wfState p), ps_status (wfState p))"

text \<open>The effects send no request and leave the requests in flight alone.\<close>

lemma completion_effect_simps [simp]:
  "ru_runs (fst (completion_effect p u)) = ru_runs u"
  "ru_cancels (fst (completion_effect p u)) = ru_cancels u"
  "ru_selection (fst (completion_effect p u)) = ru_selection u"
  "ru_seen (fst (completion_effect p u)) = statuses p"
  "count_of is_run (snd (completion_effect p u)) = 0"
  "count_of is_cancel (snd (completion_effect p u)) = 0"
  by (auto simp: completion_effect_def Let_def statuses_def)

lemma dismiss_effect_simps [simp]:
  "ru_runs (dismiss_effect u u') = ru_runs u'" "ru_cancels (dismiss_effect u u') = ru_cancels u'"
  "ru_seen (dismiss_effect u u') = ru_seen u'" "ru_selection (dismiss_effect u u') = ru_selection u'"
  by (simp_all add: dismiss_effect_def)

lemma run_outcome_counts [simp]:
  "count_of is_run (run_outcome r) = 0" "count_of is_cancel (run_outcome r) = 0"
  "count_of is_complete (run_outcome r) = 0"
  by (induction r) simp_all

lemma onNodeClick_simps [simp]:
  "ru_runs (onNodeClick p i u) = ru_runs u" "ru_cancels (onNodeClick p i u) = ru_cancels u"
  "ru_seen (onNodeClick p i u) = ru_seen u"
  by (simp_all add: onNodeClick_def handleSelectNode_def split: option.split)

lemmas run_handler_defs = onToggleGroup_def onSelectPage_def doRunWorkflow_def handleRun_def
  run_settled_def handleCancel_def cancel_settled_def

text \<open>A handler keeps what the effect saw last, and counts a request when it sends one.\<close>

lemma rc_handle_seen [simp]: "ru_seen (fst (rc_handle p u e)) = ru_seen u"
  by (cases e) (simp_all add: run_handler_defs split: option.split run_selection.split)

lemma rc_handle_complete [simp]: "count_of is_complete (snd (rc_handle p u e)) = 0"
  by (cases e) (simp_all add: run_handler_defs)

lemma rc_handle_requests:
  assumes "rc_guard p u e" and "length (ru_runs u) \<le> 1" and "ru_cancels u \<le> 1"
  shows "length (ru_runs (fst (rc_handle p u e))) \<le> 1 \<and> ru_cancels (fst (rc_handle p u e)) \<le> 1
    \<and> length (ru_runs (fst (rc_handle p u e))) + (if ends_run e then 1 else 0)
        = length (ru_runs u) + count_of is_run (snd (rc_handle p u e))
    \<and> ru_cancels (fst (rc_handle p u e)) + (if ends_cancel e then 1 else 0)
        = ru_cancels u + count_of is_cancel (snd (rc_handle p u e))"
  using assms
  by (cases e) (auto simp: run_handler_defs isRunning_def split: option.split run_selection.split)

definition rc_ok :: "run_event list \<Rightarrow> run_canvas \<Rightarrow> bool" where
  "rc_ok es s \<longleftrightarrow> length (ru_runs (rc_ui s)) \<le> 1 \<and> ru_cancels (rc_ui s) \<le> 1
     \<and> count_of is_run (rc_log s) = count_of ends_run es + length (ru_runs (rc_ui s))
     \<and> count_of is_cancel (rc_log s) = count_of ends_cancel es + ru_cancels (rc_ui s)
     \<and> ru_seen (rc_ui s) = statuses (rc_props s)"

lemma rc_do_simps [simp]:
  "rc_props (rc_do s e) = next_props (rc_props s) e"
  "rc_ui (rc_do s e) = fst (rc_result (rc_props s) (rc_ui s) e)"
  "rc_log (rc_do s e) = rc_log s @ snd (rc_result (rc_props s) (rc_ui s) e)"
  by (simp_all add: rc_do_def Let_def)

lemma rc_result_simps [simp]:
  "ru_runs (fst (rc_result p u e)) = ru_runs (fst (rc_handle p u e))"
  "ru_cancels (fst (rc_result p u e)) = ru_cancels (fst (rc_handle p u e))"
  "ru_seen (fst (rc_result p u e)) = statuses (next_props p e)"
  "count_of is_run (snd (rc_result p u e)) = count_of is_run (snd (rc_handle p u e))"
  "count_of is_cancel (snd (rc_result p u e)) = count_of is_cancel (snd (rc_handle p u e))"
  by (simp_all add: rc_result_def Let_def)

lemma rc_keeps:
  assumes "rc_ok es s" and "rc_step s e s'"
  shows "rc_ok (es @ [e]) s'"
proof -
  from assms(2) have g: "rc_guard (rc_props s) (rc_ui s) e" and s': "s' = rc_do s e"
    by (auto elim: rc_stepE)
  from rc_handle_requests [OF g] assms(1) show ?thesis
    by (simp add: rc_ok_def s')
qed

interpretation run_trace: trace_invariant rc_step rc_ok
  by unfold_locales (rule rc_keeps)

lemma rc_start_ok: "rc_ok [] (rc_start p st)"
  by (simp add: rc_ok_def rc_start_def statuses_def)

lemmas rc_reachable_ok = run_trace.from_start [OF _ rc_start_ok]

definition new_run_commands :: "run_canvas \<Rightarrow> run_event \<Rightarrow> run_command list" where
  "new_run_commands s e = snd (rc_result (rc_props s) (rc_ui s) e)"

lemma filter_requests:
  "filter is_run (new_run_commands s e) = filter is_run (snd (rc_handle (rc_props s) (rc_ui s) e))"
  "filter is_cancel (new_run_commands s e) = filter is_cancel (snd (rc_handle (rc_props s) (rc_ui s) e))"
  using completion_effect_simps(5,6)
  by (simp_all add: new_run_commands_def rc_result_def Let_def count_of_def)

section \<open>Properties\<close>

text \<open>C8: In every run of the canvas at most one run request and at most one cancellation are in
  flight, and every one sent is in flight or has been settled by its own answer.\<close>

theorem run_requests_single_flight:
  assumes "run rc_step (rc_start p st) es s"
  shows "length (ru_runs (rc_ui s)) \<le> 1 \<and> ru_cancels (rc_ui s) \<le> 1
    \<and> count_of is_run (rc_log s) = count_of ends_run es + length (ru_runs (rc_ui s))
    \<and> count_of is_cancel (rc_log s) = count_of ends_cancel es + ru_cancels (rc_ui s)"
  using rc_reachable_ok [OF assms] by (simp add: rc_ok_def)

text \<open>C7: A workflow that declares inputs is never run without them: a request to run carries the
  workflow of the page and either the values of the inputs dialog or, when nothing is declared,
  no inputs; the project is cancelled only while the run shown is the newest of its runs, is
  planning or running, and no request is in flight.\<close>

theorem run_requests_guarded:
  assumes "rc_step s e s'"
  shows "filter is_run (new_run_commands s e) \<in>
      {[]} \<union> (case rq_workflowId (rc_props s) of
          None \<Rightarrow> {}
        | Some w \<Rightarrow> if ru_runs (rc_ui s) \<noteq> [] \<or> w = [] then {}
            else (if has_inputs (rc_props s) then {[RC_run w (Some v)] | v. e = Submit_Inputs v}
                  else {[RC_run w None]}))
    \<and> filter is_cancel (new_run_commands s e) \<in>
        {[]} \<union> (if isLatestPlan (rc_props s) \<and> \<not> isRunning (rc_ui s)
             \<and> ps_status (wfState (rc_props s)) \<in> {PS_running, PS_planning}
           then {[RC_cancel (rq_projectId (rc_props s))]} else {})"
proof -
  from assms have g: "rc_guard (rc_props s) (rc_ui s) e" by (auto elim: rc_stepE)
  have toasts: "filter is_run (run_outcome r) = []" "filter is_cancel (run_outcome r) = []" for r
    by (induction r) simp_all
  show ?thesis
    unfolding filter_requests
    using g
    by (cases e)
      (auto simp: run_handler_defs toasts inputs_shown_def isRunning_def canCancel_def truthy_def
        split: option.splits)
qed

definition demo_run_props :: "run_status \<Rightarrow> project_status \<Rightarrow> run_props" where
  "demo_run_props rs st = \<lparr>rq_projectId = js ''p'', rq_runId = Some (js ''r''),
     rq_nodes = [basic_node (js ''a'') (js ''script'') [] []], rq_workflowId = Some (js ''w''),
     rq_inputsSchema = None,
     rq_data = Some ((empty_state (js ''p''))\<lparr>ps_runStatus := rs, ps_status := st\<rparr>),
     rq_plans = None, rq_assets = None, rq_isDesktop = True\<rparr>"

definition demo_canvas :: run_canvas where
  "demo_canvas = rc_start (demo_run_props R_idle PS_draft) DEFAULT_TOPOLOGY_SETTINGS"

lemma demo_step: "rc_step demo_canvas Click_Run (rc_do demo_canvas Click_Run)"
  by (rule rc_step.intros)
    (simp add: demo_canvas_def rc_start_def isRunning_def demo_run_props_def)

theorem run_requests_guarded_witness:
  "filter is_cancel (new_run_commands demo_canvas Click_Run) = []"
  using run_requests_guarded [OF demo_step]
  by (simp add: demo_canvas_def rc_start_def isLatestPlan_def demo_run_props_def)

theorem run_requests_single_flight_witness:
  "length (ru_runs (rc_ui (rc_do demo_canvas Click_Run))) \<le> 1"
  using run_requests_single_flight [OF run_single [of rc_step, OF demo_step [unfolded demo_canvas_def]]]
  by (simp add: demo_canvas_def)

text \<open>The toast that announces a finished run, with the count of assets to review, is raised
  exactly when new properties take the state of the run from not done to done and the project
  has neither failed nor been cancelled. This includes the first answer for a run that had
  finished before the canvas was opened.\<close>

theorem completion_toast_exact:
  assumes "run rc_step (rc_start p st) es s"
  shows "filter is_complete (new_run_commands s e) =
      (if ps_runStatus (wfState (rc_props s)) \<noteq> R_done
          \<and> ps_runStatus (wfState (next_props (rc_props s) e)) = R_done
          \<and> ps_status (wfState (next_props (rc_props s) e)) \<notin> {PS_failed, PS_canceled}
       then [RC_toast (T_complete (as_pending (ps_assets (wfState (next_props (rc_props s) e)))))] else [])
    \<and> filter is_complete (new_run_commands (rc_start (demo_run_props R_idle PS_draft\<lparr>rq_data := None\<rparr>) st)
        (Set_Props (demo_run_props R_done PS_completed))) = [RC_toast (T_complete 0)]"
proof -
  have handle: "filter is_complete (snd (rc_handle q u e)) = []" for q u e
    using rc_handle_complete [of q u e] by (simp add: count_of_def)
  have eff: "filter is_complete (snd (completion_effect q u)) =
      (if fst (ru_seen u) \<noteq> R_done \<and> ps_runStatus (wfState q) = R_done
          \<and> ps_status (wfState q) \<notin> {PS_failed, PS_canceled}
       then [RC_toast (T_complete (as_pending (ps_assets (wfState q))))] else [])" for q u
    by (auto simp: completion_effect_def Let_def)
  have seen: "ru_seen (rc_ui s) = statuses (rc_props s)"
    using rc_reachable_ok [OF assms] by (simp add: rc_ok_def)
  have "filter is_complete (new_run_commands s e) =
      (if ps_runStatus (wfState (rc_props s)) \<noteq> R_done
          \<and> ps_runStatus (wfState (next_props (rc_props s) e)) = R_done
          \<and> ps_status (wfState (next_props (rc_props s) e)) \<notin> {PS_failed, PS_canceled}
       then [RC_toast (T_complete (as_pending (ps_assets (wfState (next_props (rc_props s) e)))))] else [])"
    by (simp add: new_run_commands_def rc_result_def Let_def handle eff seen statuses_def)
  moreover have "filter is_complete (new_run_commands
      (rc_start (demo_run_props R_idle PS_draft\<lparr>rq_data := None\<rparr>) st)
      (Set_Props (demo_run_props R_done PS_completed))) = [RC_toast (T_complete 0)]"
    by (simp add: new_run_commands_def rc_result_def Let_def eff rc_start_def next_props_def
        wfState_def demo_run_props_def empty_state_def)
  ultimately show ?thesis by blast
qed

theorem completion_toast_exact_witness:
  "filter is_complete (new_run_commands demo_canvas Click_Run) = []"
  using completion_toast_exact [of "demo_run_props R_idle PS_draft" DEFAULT_TOPOLOGY_SETTINGS "[]" demo_canvas Click_Run]
    run_nil [of rc_step demo_canvas]
  by (simp add: demo_canvas_def rc_start_def next_props_def)

text \<open>The selection is kept when the host switches to another run: an asset of the old run stays
  in the right panel.\<close>

lemma selection_survives_run_change:
  assumes "ru_selection (rc_ui s) = Some (SelAsset a None)" and "a \<noteq> []"
  shows "right_panel_of (ru_selection (rc_ui (rc_do s (Set_Props p')))) (canvas_groups p') (wfState p') = RP_asset a"
  using assms
  by (simp add: rc_result_def Let_def next_props_def right_panel_of_def fallback_panel_def preview_asset_def)

end
