(* ===== verification/Session.thy ===== *)
theory Session
  imports Event_System
begin

text \<open>
  The session of the client: \<open>lib/apiClient.ts\<close> (access token in memory, session marker in
  local storage, the refresh shared by concurrent 401 answers, one retry per call) and the
  login and logout of \<open>app/auth.tsx\<close>.

  The module is asynchronous: an event is the start of a call, the arrival of an answer or
  one of the two stages of the refresh. Everything between two events runs to completion in
  one turn of the event loop, so each event is one step of \<open>session_step\<close>. \<open>wire\<close> is the
  trace of the requests sent; it is what the theorems count. The status and the token an
  answer carries are arguments of the events: the server is not modelled.
\<close>

section \<open>State\<close>

type_synonym headers = "(jsstr \<times> jsstr) list"

record api_req =
  req_url :: jsstr
  req_headers :: headers

datatype api_outcome = Response nat | Auth_Error | Net_Error

datatype api_phase = Sent api_req | Awaiting api_req | Retried api_req | Ended api_outcome

datatype restore_phase = Restoring | Restored bool

text \<open>The promise of a refresh: the answer is awaited, or its body is being read.\<close>

datatype refresh_stage = Requesting | Reading

datatype wire_msg = Wire_Req jsstr headers | Wire_Refresh

record session =
  accessToken :: "jsstr option"
  items :: "jsstr \<rightharpoonup> jsstr"
  readable :: bool
  writable :: bool
  isAuthenticated :: bool
  refreshPromise :: "refresh_stage option"
  calls :: "api_phase list"
  restores :: "restore_phase list"
  wire :: "wire_msg list"

section \<open>Token and marker\<close>

definition SESSION_MARKER :: jsstr where
  "SESSION_MARKER = js ''studio_has_session''"

definition markSession :: "session \<Rightarrow> session" where
  "markSession s = (if writable s then s\<lparr>items := (items s)(SESSION_MARKER \<mapsto> js ''1'')\<rparr> else s)"

definition clearSessionMarker :: "session \<Rightarrow> session" where
  "clearSessionMarker s = (if writable s then s\<lparr>items := (items s)(SESSION_MARKER := None)\<rparr> else s)"

definition hasSessionMarker :: "session \<Rightarrow> bool" where
  "hasSessionMarker s \<longleftrightarrow> readable s \<and> items s SESSION_MARKER = Some (js ''1'')"

definition setAccessToken :: "jsstr option \<Rightarrow> session \<Rightarrow> session" where
  "setAccessToken t s =
     (let s' = s\<lparr>accessToken := t\<rparr> in if t \<noteq> None then markSession s' else s')"

text \<open>\<open>withAuth\<close>: header names are those of a \<open>Headers\<close> object, in lower case.\<close>

definition withAuth :: "headers \<Rightarrow> jsstr option \<Rightarrow> headers" where
  "withAuth hs t =
     (if truthy t then AList.update (js ''authorization'') (js ''Bearer '' @ the t) hs else hs)"

section \<open>Refresh, restore and calls\<close>

text \<open>\<open>refresh\<close> joins the refresh in flight or sends one.\<close>

definition refresh :: "session \<Rightarrow> session" where
  "refresh s = (case refreshPromise s of
       Some _ \<Rightarrow> s
     | None \<Rightarrow> s\<lparr>refreshPromise := Some Requesting, wire := wire s @ [Wire_Refresh]\<rparr>)"

definition apiFetch :: "api_req \<Rightarrow> session \<Rightarrow> session" where
  "apiFetch r s = s\<lparr>calls := calls s @ [Sent r],
     wire := wire s @ [Wire_Req (req_url r) (withAuth (req_headers r) (accessToken s))]\<rparr>"

text \<open>The answer to the request of call \<open>i\<close>: only the first 401 leads to a refresh.\<close>

definition on_response :: "nat \<Rightarrow> nat \<Rightarrow> session \<Rightarrow> session" where
  "on_response i status s = (case calls s ! i of
       Sent r \<Rightarrow>
         if status \<noteq> 401 then s\<lparr>calls := (calls s)[i := Ended (Response status)]\<rparr>
         else (let s' = refresh s in s'\<lparr>calls := (calls s')[i := Awaiting r]\<rparr>)
     | Retried r \<Rightarrow> s\<lparr>calls := (calls s)[i := Ended (Response status)]\<rparr>
     | _ \<Rightarrow> s)"

definition on_reject :: "nat \<Rightarrow> session \<Rightarrow> session" where
  "on_reject i s = (case calls s ! i of
       Sent r \<Rightarrow> s\<lparr>calls := (calls s)[i := Ended Net_Error]\<rparr>
     | Retried r \<Rightarrow> s\<lparr>calls := (calls s)[i := Ended Net_Error]\<rparr>
     | _ \<Rightarrow> s)"

text \<open>How a refresh ends: with a token, with a status that is not ok, or because \<open>fetch\<close> or
  the parsing of the body rejects.\<close>

datatype refresh_end = Refreshed jsstr | Refused | Broken

definition refresh_effect :: "refresh_end \<Rightarrow> session \<Rightarrow> session" where
  "refresh_effect e s = (case e of
       Refreshed t \<Rightarrow> setAccessToken (Some t) s
     | Refused \<Rightarrow> clearSessionMarker (setAccessToken None s)
     | Broken \<Rightarrow> s)"

text \<open>The continuation of a call that awaits the refresh, with the request it sends.\<close>

definition resume_call :: "refresh_end \<Rightarrow> api_phase \<Rightarrow> api_phase" where
  "resume_call e p = (case p of
       Awaiting r \<Rightarrow> (case e of
           Refreshed t \<Rightarrow> Retried r
         | Refused \<Rightarrow> Ended Auth_Error
         | Broken \<Rightarrow> Ended Net_Error)
     | _ \<Rightarrow> p)"

definition resend :: "refresh_end \<Rightarrow> api_phase \<Rightarrow> wire_msg list" where
  "resend e p = (case (p, e) of
       (Awaiting r, Refreshed t) \<Rightarrow> [Wire_Req (req_url r) (withAuth (req_headers r) (Some t))]
     | _ \<Rightarrow> [])"

definition resume_restore :: "refresh_end \<Rightarrow> restore_phase \<Rightarrow> restore_phase" where
  "resume_restore e p = (case p of
       Restoring \<Rightarrow> Restored (case e of Refreshed t \<Rightarrow> True | _ \<Rightarrow> False)
     | Restored b \<Rightarrow> Restored b)"

definition settle :: "refresh_end \<Rightarrow> session \<Rightarrow> session" where
  "settle e s = (let s' = refresh_effect e s in
     s'\<lparr>refreshPromise := None,
        calls := map (resume_call e) (calls s'),
        restores := map (resume_restore e) (restores s'),
        wire := wire s' @ concat (map (resend e) (calls s'))\<rparr>)"

definition tryRestoreSession :: "session \<Rightarrow> session" where
  "tryRestoreSession s =
     (if accessToken s \<noteq> None then s\<lparr>restores := restores s @ [Restored True]\<rparr>
      else if \<not> hasSessionMarker s then s\<lparr>restores := restores s @ [Restored False]\<rparr>
      else (let s' = refresh s in s'\<lparr>restores := restores s' @ [Restoring]\<rparr>))"

text \<open>\<open>apiJSON\<close> on an answer: not ok is an error with the status.\<close>

definition res_ok :: "nat \<Rightarrow> bool" where
  "res_ok status \<longleftrightarrow> 200 \<le> status \<and> status \<le> 299"

datatype 'a api_result = Api_Error nat jsstr | Parsed 'a

definition apiJSON :: "(jsstr \<Rightarrow> 'a) \<Rightarrow> nat \<Rightarrow> jsstr \<Rightarrow> 'a api_result" where
  "apiJSON parse status body = (if \<not> res_ok status then Api_Error status body else Parsed (parse body))"

text \<open>The end of a successful \<open>login\<close> (or \<open>verify\<close>), and of \<open>logout\<close>, whose \<open>finally\<close>
  runs whatever the request gave; the guard of the protected routes.\<close>

definition login :: "jsstr \<Rightarrow> session \<Rightarrow> session" where
  "login t s = (setAccessToken (Some t) s)\<lparr>isAuthenticated := True\<rparr>"

definition logout :: "session \<Rightarrow> session" where
  "logout s = (clearSessionMarker (setAccessToken None s))\<lparr>isAuthenticated := False\<rparr>"

definition authed_redirects :: "session \<Rightarrow> bool" where
  "authed_redirects s \<longleftrightarrow> accessToken s = None"

section \<open>Events and runs\<close>

datatype event =
    Call api_req
  | Answer nat nat
  | Fail nat
  | Restore
  | Refresh_Head
  | Refresh_End refresh_end
  | Login jsstr
  | Logout

inductive session_step :: "session \<Rightarrow> event \<Rightarrow> session \<Rightarrow> bool" where
  call: "session_step s (Call r) (apiFetch r s)"
| answer: "i < length (calls s) \<Longrightarrow> session_step s (Answer i st) (on_response i st s)"
| fail: "i < length (calls s) \<Longrightarrow> session_step s (Fail i) (on_reject i s)"
| restore: "session_step s Restore (tryRestoreSession s)"
| head: "refreshPromise s = Some Requesting
    \<Longrightarrow> session_step s Refresh_Head (s\<lparr>refreshPromise := Some Reading\<rparr>)"
| refused: "refreshPromise s = Some Requesting
    \<Longrightarrow> session_step s (Refresh_End Refused) (settle Refused s)"
| broken: "refreshPromise s \<noteq> None \<Longrightarrow> session_step s (Refresh_End Broken) (settle Broken s)"
| refreshed: "refreshPromise s = Some Reading
    \<Longrightarrow> session_step s (Refresh_End (Refreshed t)) (settle (Refreshed t) s)"
| login: "session_step s (Login t) (login t s)"
| logout: "session_step s Logout (logout s)"

inductive_cases session_stepE: "session_step s e s'"

text \<open>The same as a function, on which examples evaluate.\<close>

fun do_event :: "session \<Rightarrow> event \<Rightarrow> session option" where
  "do_event s (Call r) = Some (apiFetch r s)"
| "do_event s (Answer i st) = (if i < length (calls s) then Some (on_response i st s) else None)"
| "do_event s (Fail i) = (if i < length (calls s) then Some (on_reject i s) else None)"
| "do_event s Restore = Some (tryRestoreSession s)"
| "do_event s Refresh_Head =
     (if refreshPromise s = Some Requesting then Some (s\<lparr>refreshPromise := Some Reading\<rparr>) else None)"
| "do_event s (Refresh_End Refused) =
     (if refreshPromise s = Some Requesting then Some (settle Refused s) else None)"
| "do_event s (Refresh_End Broken) =
     (if refreshPromise s \<noteq> None then Some (settle Broken s) else None)"
| "do_event s (Refresh_End (Refreshed t)) =
     (if refreshPromise s = Some Reading then Some (settle (Refreshed t) s) else None)"
| "do_event s (Login t) = Some (login t s)"
| "do_event s Logout = Some (logout s)"

fun do_events :: "session \<Rightarrow> event list \<Rightarrow> session option" where
  "do_events s [] = Some s"
| "do_events s (e # es) = (case do_event s e of None \<Rightarrow> None | Some s' \<Rightarrow> do_events s' es)"

lemma do_event_step: "do_event s e = Some s' \<Longrightarrow> session_step s e s'"
  by (induction s e rule: do_event.induct) (auto split: if_splits intro: session_step.intros)

lemma do_events_run: "do_events s es = Some s' \<Longrightarrow> run session_step s es s'"
  by (induction s es rule: do_events.induct)
    (auto split: option.splits intro: run_nil run_Cons do_event_step)

text \<open>A page load: nothing in memory, the local storage as the last visit left it.\<close>

definition cold_start :: "(jsstr \<rightharpoonup> jsstr) \<Rightarrow> bool \<Rightarrow> bool \<Rightarrow> session" where
  "cold_start m rd wr = \<lparr>accessToken = None, items = m, readable = rd, writable = wr,
     isAuthenticated = False, refreshPromise = None, calls = [], restores = [], wire = []\<rparr>"

section \<open>Accounting\<close>

definition refreshes :: "wire_msg list \<Rightarrow> nat" where
  "refreshes ms = length (filter (\<lambda>m. m = Wire_Refresh) ms)"

definition requests :: "wire_msg list \<Rightarrow> nat" where
  "requests ms = length (filter (\<lambda>m. m \<noteq> Wire_Refresh) ms)"

fun is_end :: "event \<Rightarrow> bool" where
  "is_end (Refresh_End e) = True"
| "is_end e = False"

definition settled :: "event list \<Rightarrow> nat" where
  "settled es = length (filter is_end es)"

fun budget :: "api_phase \<Rightarrow> nat" where
  "budget (Sent r) = 1"
| "budget (Awaiting r) = 1"
| "budget (Retried r) = 2"
| "budget (Ended out) = 2"

fun waiting :: "api_phase \<Rightarrow> bool" where
  "waiting (Awaiting r) = True"
| "waiting p = False"

definition in_flight :: "session \<Rightarrow> nat" where
  "in_flight s = (if refreshPromise s = None then 0 else 1)"

text \<open>The invariant: nobody awaits a refresh that is not in flight, the refreshes sent are
  those that ended and the one in flight, and the requests are within the budget of the
  calls.\<close>

definition session_ok :: "event list \<Rightarrow> session \<Rightarrow> bool" where
  "session_ok es s \<longleftrightarrow>
     (refreshPromise s = None \<longrightarrow> \<not> list_ex waiting (calls s) \<and> Restoring \<notin> set (restores s))
   \<and> refreshes (wire s) = settled es + in_flight s
   \<and> requests (wire s) \<le> sum_list (map budget (calls s))"

named_theorems session_simps

lemma count_simps [session_simps, simp]:
  "refreshes [] = 0" "requests [] = 0"
  "refreshes (ms @ ns) = refreshes ms + refreshes ns"
  "requests (ms @ ns) = requests ms + requests ns"
  "refreshes (Wire_Refresh # ms) = Suc (refreshes ms)"
  "requests (Wire_Refresh # ms) = requests ms"
  "refreshes (Wire_Req u h # ms) = refreshes ms"
  "requests (Wire_Req u h # ms) = Suc (requests ms)"
  by (simp_all add: refreshes_def requests_def)

lemma settled_simps [session_simps, simp]:
  "settled [] = 0" "settled (es @ [e]) = settled es + (if is_end e then 1 else 0)"
  by (simp_all add: settled_def)

lemma token_frame [simp]:
  "refreshPromise (markSession s) = refreshPromise s" "calls (markSession s) = calls s"
  "restores (markSession s) = restores s" "wire (markSession s) = wire s"
  "accessToken (markSession s) = accessToken s"
  "refreshPromise (clearSessionMarker s) = refreshPromise s"
  "calls (clearSessionMarker s) = calls s"
  "restores (clearSessionMarker s) = restores s" "wire (clearSessionMarker s) = wire s"
  "accessToken (clearSessionMarker s) = accessToken s"
  "refreshPromise (setAccessToken t s) = refreshPromise s" "calls (setAccessToken t s) = calls s"
  "restores (setAccessToken t s) = restores s" "wire (setAccessToken t s) = wire s"
  "accessToken (setAccessToken t s) = t"
  by (simp_all add: markSession_def clearSessionMarker_def setAccessToken_def Let_def)

lemma effect_frame [simp]:
  "calls (refresh_effect e s) = calls s" "restores (refresh_effect e s) = restores s"
  "wire (refresh_effect e s) = wire s"
  by (cases e; simp add: refresh_effect_def)+

lemma refresh_facts [simp]:
  "refreshPromise (refresh s) \<noteq> None" "calls (refresh s) = calls s"
  "restores (refresh s) = restores s" "requests (wire (refresh s)) = requests (wire s)"
  "in_flight (refresh s) = 1"
  "refreshes (wire (refresh s)) = refreshes (wire s) + (1 - in_flight s)"
  by (cases "refreshPromise s"; simp add: refresh_def in_flight_def)+

lemma resend_counts [simp]:
  "refreshes (concat (map (resend e) ps)) = 0"
  "requests (concat (map (resend e) ps)) + sum_list (map budget ps)
     \<le> sum_list (map budget (map (resume_call e) ps))"
proof (induction ps)
  case Nil
  {
    case 1 show ?case by simp
  next
    case 2 show ?case by simp
  }
next
  case (Cons p ps)
  {
    case 1
    show ?case using Cons.IH
      by (cases p; cases e; simp add: resend_def)
  next
    case 2
    show ?case using Cons.IH
      by (cases p; cases e; simp add: resend_def resume_call_def)
  }
qed

lemma resumed_calls [simp]:
  "\<not> list_ex waiting (map (resume_call e) ps)" "Restoring \<notin> resume_restore e ` R"
  by (auto simp: list_ex_iff resume_call_def resume_restore_def split: api_phase.splits
      refresh_end.splits restore_phase.splits)

lemma sum_budget_update:
  "i < length ps \<Longrightarrow> budget (ps ! i) \<le> budget p
    \<Longrightarrow> sum_list (map budget ps) \<le> sum_list (map budget (ps[i := p]))"
  by (induction ps arbitrary: i) (auto split: nat.splits)

lemma waiting_update:
  "list_ex waiting (ps[i := p]) \<Longrightarrow> waiting p \<or> list_ex waiting ps"
  using set_update_subset_insert [of ps i p] by (auto simp: list_ex_iff)

lemma ok_cong:
  assumes "session_ok es s"
    and "refreshPromise s' = refreshPromise s" and "calls s' = calls s"
    and "restores s' = restores s" and "wire s' = wire s" and "\<not> is_end e"
  shows "session_ok (es @ [e]) s'"
  using assms by (simp add: session_ok_def in_flight_def)

lemma ok_call: "session_ok es s \<Longrightarrow> session_ok (es @ [Call r]) (apiFetch r s)"
  by (auto simp: session_ok_def apiFetch_def in_flight_def)

lemma ok_end_call:
  assumes "session_ok es s" and "i < length (calls s)" and "budget (calls s ! i) \<le> 2"
    and "\<not> is_end e"
  shows "session_ok (es @ [e]) (s\<lparr>calls := (calls s)[i := Ended out]\<rparr>)"
  using assms sum_budget_update [of i "calls s" "Ended out"] waiting_update [of "calls s" i "Ended out"]
  by (auto simp: session_ok_def in_flight_def)

lemma ok_await:
  assumes "session_ok es s" and i: "i < length (calls s)" and c: "calls s ! i = Sent r"
    and "\<not> is_end e"
  shows "session_ok (es @ [e]) ((refresh s)\<lparr>calls := (calls s)[i := Awaiting r]\<rparr>)"
proof -
  have "sum_list (map budget (calls s)) \<le> sum_list (map budget ((calls s)[i := Awaiting r]))"
    using i c by (intro sum_budget_update) simp_all
  moreover have "in_flight s \<le> 1" by (simp add: in_flight_def)
  ultimately show ?thesis
    using assms refresh_facts(1,5) [of s] by (auto simp: session_ok_def in_flight_def)
qed

lemma budget_le [simp]: "budget p \<le> 2"
  by (cases p) simp_all

lemma ok_answer:
  assumes "session_ok es s" and "i < length (calls s)"
  shows "session_ok (es @ [Answer i st]) (on_response i st s)"
  using assms
  by (cases "calls s ! i")
    (auto simp: on_response_def Let_def intro: ok_end_call ok_await ok_cong)

lemma ok_fail:
  assumes "session_ok es s" and "i < length (calls s)"
  shows "session_ok (es @ [Fail i]) (on_reject i s)"
  using assms
  by (cases "calls s ! i") (auto simp: on_reject_def intro: ok_end_call ok_cong)

lemma ok_restore: "session_ok es s \<Longrightarrow> session_ok (es @ [Restore]) (tryRestoreSession s)"
  using refresh_facts(1,5) [of s]
  by (auto simp: session_ok_def tryRestoreSession_def Let_def in_flight_def)

lemma ok_settle:
  assumes "session_ok es s" and "refreshPromise s \<noteq> None"
  shows "session_ok (es @ [Refresh_End e]) (settle e s)"
  using assms resend_counts(2) [of e "calls s"]
  by (auto simp: session_ok_def settle_def Let_def in_flight_def)

lemma ok_step:
  assumes "session_ok es s" and "session_step s e s'"
  shows "session_ok (es @ [e]) s'"
  using assms(2,1)
proof cases
  case (head)
  with assms(1) show ?thesis by (auto simp: session_ok_def in_flight_def)
qed (auto intro: ok_call ok_answer ok_fail ok_restore ok_settle
    ok_cong [OF assms(1)] simp: login_def logout_def)

interpretation session_trace: trace_invariant session_step session_ok
  by unfold_locales (rule ok_step)

lemma ok_cold: "session_ok [] (cold_start m rd wr)"
  by (simp add: session_ok_def cold_start_def in_flight_def)

section \<open>Progress\<close>

fun ended :: "api_phase \<Rightarrow> bool" where
  "ended (Ended out) = True"
| "ended p = False"

definition idle :: "session \<Rightarrow> bool" where
  "idle s \<longleftrightarrow> refreshPromise s = None \<and> Restoring \<notin> set (restores s)"

definition unfinished :: "session \<Rightarrow> nat" where
  "unfinished s = length (filter (\<lambda>p. \<not> ended p) (calls s))"

lemma reject_ends:
  assumes "i < length (calls s)" and "\<not> ended (calls s ! i)" and "\<not> waiting (calls s ! i)"
  shows "on_reject i s = s\<lparr>calls := (calls s)[i := Ended Net_Error]\<rparr>"
  using assms by (cases "calls s ! i") (auto simp: on_reject_def)

lemma filter_update_less:
  "i < length ps \<Longrightarrow> P (ps ! i) \<Longrightarrow> \<not> P p
    \<Longrightarrow> length (filter P (ps[i := p])) < length (filter P ps)"
  by (induction ps arbitrary: i) (auto split: nat.splits)

lemma idle_finishes:
  assumes "idle s" and "\<not> list_ex waiting (calls s)"
  shows "\<exists>es s'. run session_step s es s' \<and> list_all ended (calls s')
     \<and> restores s' = restores s \<and> wire s' = wire s"
  using assms
proof (induction "unfinished s" arbitrary: s rule: less_induct)
  case less
  show ?case
  proof (cases "list_all ended (calls s)")
    case True
    with run_nil [of session_step s] show ?thesis by blast
  next
    case False
    then obtain i where i: "i < length (calls s)" "\<not> ended (calls s ! i)"
      by (auto simp: list_all_length)
    with less.prems(2) have w: "\<not> waiting (calls s ! i)" by (auto simp: list_ex_length)
    let ?s = "s\<lparr>calls := (calls s)[i := Ended Net_Error]\<rparr>"
    have step: "session_step s (Fail i) ?s"
      using session_step.fail [OF i(1)] by (simp add: reject_ends [OF i w])
    have "unfinished ?s < unfinished s"
      using filter_update_less [of i "calls s" "\<lambda>p. \<not> ended p" "Ended Net_Error"] i
      by (simp add: unfinished_def)
    moreover have "idle ?s" using less.prems(1) by (simp add: idle_def)
    moreover have "\<not> list_ex waiting (calls ?s)"
      using waiting_update [of "calls s" i "Ended Net_Error"] less.prems(2) by auto
    ultimately obtain es s' where "run session_step ?s es s'" "list_all ended (calls s')"
      "restores s' = restores ?s" "wire s' = wire ?s"
      using less.hyps by blast
    moreover from this(1) have "run session_step s (Fail i # es) s'"
      by (rule run_Cons [of session_step, OF step])
    ultimately show ?thesis by (intro exI [of _ "Fail i # es"] exI [of _ s']) simp
  qed
qed

lemma settle_idle: "idle (settle e s)" "\<not> list_ex waiting (calls (settle e s))"
  by (simp_all add: idle_def settle_def Let_def)

section \<open>Properties\<close>

definition awaited :: "api_phase list \<Rightarrow> api_req list" where
  "awaited ps = concat (map (\<lambda>p. case p of Awaiting r \<Rightarrow> [r] | _ \<Rightarrow> []) ps)"

lemma resend_awaited:
  "concat (map (resend (Refreshed t)) ps)
     = map (\<lambda>r. Wire_Req (req_url r) (withAuth (req_headers r) (Some t))) (awaited ps)"
  "concat (map (resend Refused) ps) = []"
  by (induction ps) (simp_all add: awaited_def resend_def split: api_phase.split)


definition demo_req :: api_req where
  "demo_req = \<lparr>req_url = js ''/api/orgs'', req_headers = []\<rparr>"

text \<open>A concrete run: two calls are answered 401 and share one refresh.\<close>

definition demo_events :: "event list" where
  "demo_events = [Login (js ''t0''), Call demo_req, Call demo_req, Answer 0 401, Answer 1 401,
     Refresh_Head]"

definition demo_state :: session where
  "demo_state = \<lparr>accessToken = Some (js ''t0''), items = [SESSION_MARKER \<mapsto> js ''1''],
     readable = True, writable = True, isAuthenticated = True, refreshPromise = Some Reading,
     calls = [Awaiting demo_req, Awaiting demo_req], restores = [],
     wire = [Wire_Req (js ''/api/orgs'') [(js ''authorization'', js ''Bearer t0'')],
             Wire_Req (js ''/api/orgs'') [(js ''authorization'', js ''Bearer t0'')], Wire_Refresh]\<rparr>"

lemmas session_defs = login_def logout_def apiFetch_def on_response_def refresh_def
  setAccessToken_def markSession_def clearSessionMarker_def hasSessionMarker_def withAuth_def
  settle_def resume_call_def resend_def resume_restore_def refresh_effect_def cold_start_def

lemma demo_run: "run session_step (cold_start Map.empty True True) demo_events demo_state"
  by (rule do_events_run) (simp add: demo_events_def demo_state_def demo_req_def session_defs js_def)





text \<open>Restoring a session sends a refresh exactly when there is no token, a marker says that
  a session may exist and no refresh is in flight; with a token it succeeds at once, with
  neither it fails at once, and it never sends anything else.\<close>

theorem tryRestoreSession_sends:
  "wire (tryRestoreSession s) = wire s @
     (if accessToken s = None \<and> hasSessionMarker s \<and> refreshPromise s = None
      then [Wire_Refresh] else [])
   \<and> last (restores (tryRestoreSession s)) =
     (if accessToken s \<noteq> None then Restored True
      else if hasSessionMarker s then Restoring else Restored False)
   \<and> accessToken (tryRestoreSession s) = accessToken s"
  by (auto simp: tryRestoreSession_def refresh_def Let_def split: option.split)

text \<open>Logging out does not cancel a refresh in flight: its answer stores a new token and sets
  the marker again after \<open>logout\<close> cleared both, so that the protected routes stay open although
  the session was logged out.\<close>

theorem logout_refresh_race:
  "\<exists>s. run session_step (cold_start Map.empty True True)
        (demo_events @ [Logout, Refresh_End (Refreshed (js ''t1''))]) s
     \<and> accessToken s = Some (js ''t1'') \<and> hasSessionMarker s
     \<and> \<not> isAuthenticated s \<and> \<not> authed_redirects s"
proof -
  have "do_events demo_state [Logout, Refresh_End (Refreshed (js ''t1''))] \<noteq> None"
    by (simp add: demo_state_def session_defs)
  then obtain s where s: "do_events demo_state [Logout, Refresh_End (Refreshed (js ''t1''))] = Some s"
    by blast
  have "run session_step (cold_start Map.empty True True)
        (demo_events @ [Logout, Refresh_End (Refreshed (js ''t1''))]) s"
    by (rule run_append [OF do_events_run [OF s] demo_run])
  moreover have "accessToken s = Some (js ''t1'') \<and> hasSessionMarker s
     \<and> \<not> isAuthenticated s \<and> \<not> authed_redirects s"
    using s by (auto simp: demo_state_def session_defs authed_redirects_def)
  ultimately show ?thesis by blast
qed

end
