(* ===== verification/Crud.thy ===== *)
theory Crud
  imports Event_System
begin

text \<open>
  The state machine behind every management page (\<open>common/crud/useCrudResource.ts\<close>): which
  dialog is open, which item waits for the confirmation of its deletion, and the mutations in
  flight. The item type, \<open>getId\<close> and the messages are arguments. The guards of the events
  are those of the buttons: \<open>FormDialog.tsx\<close> disables its submit button while submitting,
  \<open>ConfirmDialog.tsx\<close> its confirm button while deleting, and both can be cancelled at any time.
\<close>

section \<open>State and operations\<close>

datatype crud_mode = Cr_create | Cr_edit

record 'a dialog_state =
  ds_mode :: crud_mode
  ds_target :: "'a option"

datatype 'v request = Create 'v | Update jsstr 'v | Remove jsstr

datatype 'm toast = Success_created | Success_updated | Success_deleted | Failure 'm

datatype action = Act_create | Act_update | Act_delete

text \<open>\<open>writes\<close> and \<open>removes\<close> are the promises that have not settled (a write remembers
  \<open>isEdit\<close>); \<open>sent\<close> and \<open>toasts\<close> list what was requested and shown.\<close>

record ('a, 'v, 'm) crud =
  cr_dialog :: "'a dialog_state option"
  deleteTarget :: "'a option"
  submitError :: "'m option"
  submitting :: bool
  deleting :: bool
  writes :: "bool list"
  removes :: nat
  sent :: "'v request list"
  toasts :: "'m toast list"

definition crud_init :: "('a, 'v, 'm) crud" where
  "crud_init = \<lparr>cr_dialog = None, deleteTarget = None, submitError = None, submitting = False,
     deleting = False, writes = [], removes = 0, sent = [], toasts = []\<rparr>"

definition openCreate :: "('a, 'v, 'm) crud \<Rightarrow> ('a, 'v, 'm) crud" where
  "openCreate s = s\<lparr>submitError := None, cr_dialog := Some \<lparr>ds_mode = Cr_create, ds_target = None\<rparr>\<rparr>"

definition openEdit :: "'a \<Rightarrow> ('a, 'v, 'm) crud \<Rightarrow> ('a, 'v, 'm) crud" where
  "openEdit item s =
     s\<lparr>submitError := None, cr_dialog := Some \<lparr>ds_mode = Cr_edit, ds_target = Some item\<rparr>\<rparr>"

definition closeDialog :: "('a, 'v, 'm) crud \<Rightarrow> ('a, 'v, 'm) crud" where
  "closeDialog s = s\<lparr>cr_dialog := None, submitError := None\<rparr>"

definition requestDelete :: "'a \<Rightarrow> ('a, 'v, 'm) crud \<Rightarrow> ('a, 'v, 'm) crud" where
  "requestDelete item s = s\<lparr>deleteTarget := Some item\<rparr>"

definition cancelDelete :: "('a, 'v, 'm) crud \<Rightarrow> ('a, 'v, 'm) crud" where
  "cancelDelete s = s\<lparr>deleteTarget := None\<rparr>"

definition submit :: "('a \<Rightarrow> jsstr) \<Rightarrow> 'v \<Rightarrow> ('a, 'v, 'm) crud \<Rightarrow> ('a, 'v, 'm) crud" where
  "submit getId v s = (case cr_dialog s of
       None \<Rightarrow> s
     | Some d \<Rightarrow>
         if ds_mode d = Cr_edit \<and> ds_target d = None then s\<lparr>submitting := False\<rparr>
         else (let isEdit = (ds_mode d = Cr_edit) in
           s\<lparr>submitting := True, submitError := None, writes := writes s @ [isEdit],
             sent := sent s @ [if isEdit then Update (getId (the (ds_target d))) v else Create v]\<rparr>))"

definition drop_nth :: "nat \<Rightarrow> 'b list \<Rightarrow> 'b list" where
  "drop_nth i xs = take i xs @ drop (Suc i) xs"

text \<open>The handlers on the promise of a write; \<open>None\<close> is success, \<open>Some e\<close> the rejection.\<close>

definition write_settled ::
  "(action \<Rightarrow> 'e \<Rightarrow> 'm) \<Rightarrow> nat \<Rightarrow> 'e option \<Rightarrow> ('a, 'v, 'm) crud \<Rightarrow> ('a, 'v, 'm) crud" where
  "write_settled msg i r s =
     (let isEdit = writes s ! i;
          s' = (case r of
              None \<Rightarrow> s\<lparr>toasts := toasts s @ [if isEdit then Success_updated else Success_created],
                        cr_dialog := None\<rparr>
            | Some e \<Rightarrow> s\<lparr>submitError := Some (msg (if isEdit then Act_update else Act_create) e)\<rparr>)
      in s'\<lparr>submitting := False, writes := drop_nth i (writes s)\<rparr>)"

definition confirmDelete :: "('a \<Rightarrow> jsstr) \<Rightarrow> ('a, 'v, 'm) crud \<Rightarrow> ('a, 'v, 'm) crud" where
  "confirmDelete getId s = (case deleteTarget s of
       None \<Rightarrow> s
     | Some item \<Rightarrow> s\<lparr>deleting := True, removes := Suc (removes s),
                      sent := sent s @ [Remove (getId item)]\<rparr>)"

definition remove_settled ::
  "(action \<Rightarrow> 'e \<Rightarrow> 'm) \<Rightarrow> 'e option \<Rightarrow> ('a, 'v, 'm) crud \<Rightarrow> ('a, 'v, 'm) crud" where
  "remove_settled msg r s =
     (let s' = (case r of
              None \<Rightarrow> s\<lparr>toasts := toasts s @ [Success_deleted], deleteTarget := None\<rparr>
            | Some e \<Rightarrow> s\<lparr>toasts := toasts s @ [Failure (msg Act_delete e)]\<rparr>)
      in s'\<lparr>deleting := False, removes := removes s - 1\<rparr>)"

section \<open>Events\<close>

datatype ('a, 'v, 'e) crud_event =
    Open_Create
  | Open_Edit 'a
  | Close
  | Submit 'v
  | Write_Settled nat "'e option"
  | Request_Delete 'a
  | Cancel_Delete
  | Confirm_Delete
  | Remove_Settled "'e option"

fun crud_guard :: "('a, 'v, 'm) crud \<Rightarrow> ('a, 'v, 'e) crud_event \<Rightarrow> bool" where
  "crud_guard s (Submit v) = (cr_dialog s \<noteq> None \<and> \<not> submitting s)"
| "crud_guard s (Write_Settled i r) = (i < length (writes s))"
| "crud_guard s Confirm_Delete = (deleteTarget s \<noteq> None \<and> \<not> deleting s)"
| "crud_guard s (Remove_Settled r) = (removes s > 0)"
| "crud_guard s e = True"

fun crud_do :: "('a \<Rightarrow> jsstr) \<Rightarrow> (action \<Rightarrow> 'e \<Rightarrow> 'm) \<Rightarrow> ('a, 'v, 'm) crud
    \<Rightarrow> ('a, 'v, 'e) crud_event \<Rightarrow> ('a, 'v, 'm) crud" where
  "crud_do getId msg s Open_Create = openCreate s"
| "crud_do getId msg s (Open_Edit item) = openEdit item s"
| "crud_do getId msg s Close = closeDialog s"
| "crud_do getId msg s (Submit v) = submit getId v s"
| "crud_do getId msg s (Write_Settled i r) = write_settled msg i r s"
| "crud_do getId msg s (Request_Delete item) = requestDelete item s"
| "crud_do getId msg s Cancel_Delete = cancelDelete s"
| "crud_do getId msg s Confirm_Delete = confirmDelete getId s"
| "crud_do getId msg s (Remove_Settled r) = remove_settled msg r s"

inductive crud_step :: "('a \<Rightarrow> jsstr) \<Rightarrow> (action \<Rightarrow> 'e \<Rightarrow> 'm) \<Rightarrow> ('a, 'v, 'm) crud
    \<Rightarrow> ('a, 'v, 'e) crud_event \<Rightarrow> ('a, 'v, 'm) crud \<Rightarrow> bool"
  for getId msg where
  "crud_guard s e \<Longrightarrow> crud_step getId msg s e (crud_do getId msg s e)"

inductive_cases crud_stepE: "crud_step getId msg s e s'"

section \<open>The abstract machine\<close>

text \<open>What the hook promises: one write and one deletion at a time, and a write ends before the
  next one starts.\<close>

record 'v mutex =
  mx_writing :: bool
  mx_deleting :: bool
  mx_sent :: "'v request list"

inductive mutex_step :: "'v mutex \<Rightarrow> ('a, 'v, 'e) crud_event \<Rightarrow> 'v mutex \<Rightarrow> bool" where
  start_write: "\<not> mx_writing m \<Longrightarrow> r = Create v \<or> (\<exists>i. r = Update i v) \<Longrightarrow>
    mutex_step m (Submit v) (m\<lparr>mx_writing := True, mx_sent := mx_sent m @ [r]\<rparr>)"
| end_write: "mx_writing m \<Longrightarrow> mutex_step m (Write_Settled i r) (m\<lparr>mx_writing := False\<rparr>)"
| start_remove: "\<not> mx_deleting m \<Longrightarrow>
    mutex_step m Confirm_Delete (m\<lparr>mx_deleting := True, mx_sent := mx_sent m @ [Remove i]\<rparr>)"
| end_remove: "mx_deleting m \<Longrightarrow> mutex_step m (Remove_Settled r) (m\<lparr>mx_deleting := False\<rparr>)"
| idle: "e \<in> {Open_Create, Close, Cancel_Delete} \<union> range Open_Edit \<union> range Request_Delete
    \<Longrightarrow> mutex_step m e m"

definition crud_abs :: "('a, 'v, 'm) crud \<Rightarrow> 'v mutex" where
  "crud_abs s = \<lparr>mx_writing = submitting s, mx_deleting = deleting s, mx_sent = sent s\<rparr>"

definition crud_ok :: "('a, 'v, 'm) crud \<Rightarrow> bool" where
  "crud_ok s \<longleftrightarrow>
     length (writes s) = (if submitting s then 1 else 0)
   \<and> removes s = (if deleting s then 1 else 0)
   \<and> (\<forall>d. cr_dialog s = Some d \<longrightarrow> (ds_mode d = Cr_edit \<longleftrightarrow> ds_target d \<noteq> None))"

lemmas crud_defs = openCreate_def openEdit_def closeDialog_def requestDelete_def cancelDelete_def
  submit_def write_settled_def confirmDelete_def remove_settled_def Let_def drop_nth_def

lemma crud_keeps: "crud_ok s \<Longrightarrow> crud_guard s e \<Longrightarrow> crud_ok (crud_do getId msg s e)"
  by (cases e) (auto simp: crud_ok_def crud_defs split: option.split if_splits)

lemma crud_simulates:
  "crud_ok s \<Longrightarrow> crud_guard s e
    \<Longrightarrow> mutex_step (crud_abs s) e (crud_abs (crud_do getId msg s e))"
proof (cases e)
  case (Submit v)
  assume ok: "crud_ok s" and g: "crud_guard s e"
  then obtain d where d: "cr_dialog s = Some d" "\<not> submitting s" using Submit by auto
  let ?r = "if ds_mode d = Cr_edit then Update (getId (the (ds_target d))) v else Create v"
  have "mutex_step (crud_abs s) (Submit v)
      ((crud_abs s)\<lparr>mx_writing := True, mx_sent := mx_sent (crud_abs s) @ [?r]\<rparr>)"
    using d by (intro mutex_step.start_write) (auto simp: crud_abs_def)
  moreover have "\<not> (ds_mode d = Cr_edit \<and> ds_target d = None)" using ok d by (auto simp: crud_ok_def)
  ultimately show ?thesis
    using d Submit by (cases "ds_mode d = Cr_edit") (auto simp: submit_def crud_abs_def Let_def)
next
  case (Write_Settled i r)
  assume "crud_ok s" and "crud_guard s e"
  with Write_Settled have "submitting s" by (auto simp: crud_ok_def split: if_splits)
  then show ?thesis
    using mutex_step.end_write [of "crud_abs s" i r] Write_Settled
    by (auto simp: crud_abs_def write_settled_def Let_def split: option.split)
next
  case Confirm_Delete
  assume "crud_guard s e"
  with Confirm_Delete obtain item where "deleteTarget s = Some item" "\<not> deleting s" by auto
  then show ?thesis
    using mutex_step.start_remove [of "crud_abs s" "getId item"] Confirm_Delete
    by (simp add: crud_abs_def confirmDelete_def)
next
  case (Remove_Settled r)
  assume "crud_ok s" and "crud_guard s e"
  with Remove_Settled have "deleting s" by (auto simp: crud_ok_def split: if_splits)
  then show ?thesis
    using mutex_step.end_remove [of "crud_abs s" r] Remove_Settled
    by (auto simp: crud_abs_def remove_settled_def Let_def split: option.split)
qed (auto intro!: mutex_step.idle simp: crud_abs_def crud_defs)

interpretation crud_machine:
  state_refinement "crud_step getId msg" mutex_step crud_abs crud_ok
  for getId :: "'a \<Rightarrow> jsstr" and msg :: "action \<Rightarrow> 'e \<Rightarrow> 'm"
  by unfold_locales (auto elim!: crud_stepE intro: crud_keeps crud_simulates)

lemma crud_ok_init: "crud_ok crud_init"
  by (simp add: crud_ok_def crud_init_def)

text \<open>Where the identifiers of the requests come from.\<close>

fun edited :: "('a, 'v, 'e) crud_event \<Rightarrow> 'a list" where
  "edited (Open_Edit item) = [item]"
| "edited e = []"

fun doomed :: "('a, 'v, 'e) crud_event \<Rightarrow> 'a list" where
  "doomed (Request_Delete item) = [item]"
| "doomed e = []"

definition updates_of :: "'v request list \<Rightarrow> jsstr set" where
  "updates_of rs = {i. \<exists>v. Update i v \<in> set rs}"

definition removes_of :: "'v request list \<Rightarrow> jsstr set" where
  "removes_of rs = {i. Remove i \<in> set rs}"

definition provenance ::
  "('a \<Rightarrow> jsstr) \<Rightarrow> ('a, 'v, 'e) crud_event list \<Rightarrow> ('a, 'v, 'm) crud \<Rightarrow> bool" where
  "provenance getId es s \<longleftrightarrow>
     crud_ok s
   \<and> set_option (deleteTarget s) \<subseteq> set (concat (map doomed es))
   \<and> (\<forall>d. cr_dialog s = Some d \<longrightarrow> set_option (ds_target d) \<subseteq> set (concat (map edited es)))
   \<and> updates_of (sent s) \<subseteq> getId ` set (concat (map edited es))
   \<and> removes_of (sent s) \<subseteq> getId ` set (concat (map doomed es))"

lemma provenance_step:
  assumes "provenance getId es s" and "crud_step getId msg s e s'"
  shows "provenance getId (es @ [e]) s'"
proof -
  from assms(2) have g: "crud_guard s e" and s': "s' = crud_do getId msg s e"
    by (auto elim: crud_stepE)
  have ok: "crud_ok s'" using assms(1) g s' crud_keeps by (auto simp: provenance_def)
  show ?thesis
  proof (cases e)
    case (Submit v)
    with g obtain d where d: "cr_dialog s = Some d" by auto
    have "crud_ok s" using assms(1) by (simp add: provenance_def)
    show ?thesis
    proof (cases "ds_mode d = Cr_edit")
      case True
      with \<open>crud_ok s\<close> d obtain item where "ds_target d = Some item" by (auto simp: crud_ok_def)
      with assms(1) ok s' Submit d True show ?thesis
        by (auto simp: provenance_def submit_def Let_def updates_of_def removes_of_def)
    next
      case False
      with assms(1) ok s' Submit d show ?thesis
        by (auto simp: provenance_def submit_def Let_def updates_of_def removes_of_def)
    qed
  next
    case Confirm_Delete
    with g obtain item where "deleteTarget s = Some item" by auto
    with assms(1) ok s' Confirm_Delete show ?thesis
      by (auto simp: provenance_def confirmDelete_def updates_of_def removes_of_def)
  next
    case (Write_Settled i r)
    with assms(1) ok s' show ?thesis
      by (auto simp: provenance_def write_settled_def Let_def split: option.splits)
  next
    case (Remove_Settled r)
    with assms(1) ok s' show ?thesis
      by (auto simp: provenance_def remove_settled_def Let_def split: option.splits)
  qed (use assms(1) ok s' in \<open>auto simp: provenance_def crud_defs\<close>)
qed

interpretation crud_trace: trace_invariant "crud_step getId msg" "provenance getId"
  for getId :: "'a \<Rightarrow> jsstr" and msg :: "action \<Rightarrow> 'e \<Rightarrow> 'm"
  by unfold_locales (rule provenance_step)

section \<open>Properties\<close>

text \<open>C16: The hook refines the abstract machine: seen from the server, every run starts a write or
  a deletion only when none of its kind is in flight, and the pending flags of the dialogs
  are those of the promises.\<close>

theorem crud_refines_mutex:
  assumes "run (crud_step getId msg) (crud_init :: ('a, 'v, 'm) crud) es s"
  shows "run mutex_step (crud_abs (crud_init :: ('a, 'v, 'm) crud)) es (crud_abs s)
    \<and> length (writes s) = (if submitting s then 1 else 0)
    \<and> removes s = (if deleting s then 1 else 0)"
  using crud_machine.run_simulates [OF assms crud_ok_init]
    crud_machine.run_invariant [OF assms crud_ok_init]
  by (simp add: crud_ok_def)

text \<open>A run in which an edit is submitted, the dialog is closed and another item is edited while
  the update is in flight.\<close>

definition demo_edits :: "(jsstr, nat, nat) crud_event list" where
  "demo_edits = [Open_Edit (js ''a''), Submit 7, Close, Open_Edit (js ''b'')]"

definition demo_editing :: "(jsstr, nat, nat) crud" where
  "demo_editing = \<lparr>cr_dialog = Some \<lparr>ds_mode = Cr_edit, ds_target = Some (js ''b'')\<rparr>,
     deleteTarget = None, submitError = None, submitting = True, deleting = False,
     writes = [True], removes = 0, sent = [Update (js ''a'') 7], toasts = []\<rparr>"

lemma crud_stepI:
  "crud_guard s e \<Longrightarrow> crud_do getId msg s e = s' \<Longrightarrow> crud_step getId msg s e s'"
  using crud_step.intros by metis

fun crud_runs :: "('a \<Rightarrow> jsstr) \<Rightarrow> (action \<Rightarrow> 'e \<Rightarrow> 'm) \<Rightarrow> ('a, 'v, 'm) crud
    \<Rightarrow> ('a, 'v, 'e) crud_event list \<Rightarrow> ('a, 'v, 'm) crud option" where
  "crud_runs getId msg s [] = Some s"
| "crud_runs getId msg s (e # es) =
     (if crud_guard s e then crud_runs getId msg (crud_do getId msg s e) es else None)"

lemma crud_runs_run: "crud_runs getId msg s es = Some s' \<Longrightarrow> run (crud_step getId msg) s es s'"
proof (induction es arbitrary: s)
  case Nil
  then show ?case by (simp add: run_nil)
next
  case (Cons e es)
  then have "crud_step getId msg s e (crud_do getId msg s e)"
    "run (crud_step getId msg) (crud_do getId msg s e) es s'"
    by (auto intro: crud_stepI split: if_splits)
  then show ?case by (rule run_Cons [of "crud_step getId msg"])
qed

lemma demo_edit_run:
  "run (crud_step (\<lambda>i. i) (\<lambda>a e. e)) crud_init demo_edits demo_editing"
  by (rule crud_runs_run) (simp add: demo_edits_def demo_editing_def crud_init_def crud_defs)

theorem crud_refines_mutex_witness:
  "length (writes demo_editing) = 1 \<and> removes demo_editing = 0"
  using crud_refines_mutex [OF demo_edit_run] by (simp add: demo_editing_def)

text \<open>An update is sent only for an item the user opened for editing, and a deletion only for
  an item whose deletion the user requested.\<close>

theorem crud_requests_provenance:
  assumes "run (crud_step getId msg) crud_init es s"
  shows "updates_of (sent s) \<subseteq> getId ` set (concat (map edited es))
    \<and> removes_of (sent s) \<subseteq> getId ` set (concat (map doomed es))"
proof -
  have "provenance getId [] (crud_init :: ('a, 'b, 'c) crud)"
    by (simp add: provenance_def crud_ok_def crud_init_def updates_of_def removes_of_def)
  from crud_trace.from_start [OF assms this] show ?thesis by (simp add: provenance_def)
qed

theorem crud_requests_provenance_witness:
  "updates_of (sent demo_editing) \<subseteq> {js ''a'', js ''b''}"
  using crud_requests_provenance [OF demo_edit_run] by (simp add: demo_edits_def)

text \<open>A success that arrives late closes the wrong dialog: when the user closed the dialog of
  the first item and opened another, the success of the first update closes the second
  dialog, and a late failure is shown as the error of the second.\<close>

theorem late_settlement_hits_other_dialog:
  "cr_dialog demo_editing = Some \<lparr>ds_mode = Cr_edit, ds_target = Some (js ''b'')\<rparr>
   \<and> crud_guard demo_editing (Write_Settled 0 None)
   \<and> cr_dialog (write_settled msg 0 None demo_editing) = None
   \<and> submitError (write_settled msg 0 (Some e) demo_editing) = Some (msg Act_update e)
   \<and> cr_dialog (write_settled msg 0 (Some e) demo_editing) = cr_dialog demo_editing"
  by (simp add: demo_editing_def write_settled_def Let_def)

end
