(* ===== verification/Type_Dialog.thy ===== *)
theory Type_Dialog
  imports Template_Vars Node_Color
begin

text \<open>
  The dialog that creates and edits an organisation's node types: the draft of
  \<open>custom-node-types/typeDraft.ts\<close>, the guards of \<open>TypeDialog.tsx\<close>, the handlers of the three
  parameter forms, and what \<open>useCustomNodeTypeCrud.ts\<close> submits. A draft keeps its kind beside
  its parameters, and the code reads the parameters by a cast to the kind: where it reads a
  property the parameters do not have, the model has no result.
\<close>

section \<open>Drafts\<close>

datatype node_kind = K_llm | K_http | K_script

record custom_node_type =
  ct_id :: jsstr
  ct_orgId :: jsstr
  ct_slug :: jsstr
  ct_label :: jsstr
  ct_color :: jsstr
  ct_kind :: node_kind
  ct_params :: node_params

record form_draft =
  fd_label :: jsstr
  fd_color :: jsstr
  fd_kind :: node_kind
  fd_params :: node_params

definition DEFAULT_LLM_PARAMS :: llm_params where
  "DEFAULT_LLM_PARAMS = \<lparr>lp_systemPrompt = None, lp_userPrompt = [], lp_model = None,
     lp_temperature = None, lp_outputFormat = None\<rparr>"

definition DEFAULT_HTTP_PARAMS :: http_params where
  "DEFAULT_HTTP_PARAMS = \<lparr>hp_method = M_GET, hp_url = [], hp_headers = [], hp_bodyTemplate = None,
     hp_outputFormat = Some TF_text, hp_allowResponseBody = None\<rparr>"

definition DEFAULT_SCRIPT_PARAMS :: script_params where
  "DEFAULT_SCRIPT_PARAMS = \<lparr>sp_code = [], sp_outputFormat = Some TF_text\<rparr>"

definition paramsForKind :: "node_kind \<Rightarrow> node_params" where
  "paramsForKind kind =
     (if kind = K_llm then P_llm DEFAULT_LLM_PARAMS
      else if kind = K_http then P_http DEFAULT_HTTP_PARAMS
      else P_script DEFAULT_SCRIPT_PARAMS)"

definition emptyDraft :: "node_kind \<Rightarrow> form_draft" where
  "emptyDraft kind = \<lparr>fd_label = [], fd_color = CUSTOM_PALETTE ! 0, fd_kind = kind,
     fd_params = paramsForKind kind\<rparr>"

definition draftFrom :: "custom_node_type \<Rightarrow> form_draft" where
  "draftFrom ct = \<lparr>fd_label = ct_label ct, fd_color = ct_color ct, fd_kind = ct_kind ct,
     fd_params = ct_params ct\<rparr>"

text \<open>\<open>SECRET_REF_RE\<close> is \<open>\{\{\s*secret:\<close>; the white space is what \<open>trim\<close> removes, and
  \<open>secret:\<close> does not begin with any, so the repetition takes all of it.\<close>

fun secret_ref :: "jsstr \<Rightarrow> bool" where
  "secret_ref [] = False"
| "secret_ref (c # s) =
     (startsWith (c # s) obrace \<and> startsWith (dropWhile is_ws (drop 1 s)) secret_prefix
      \<or> secret_ref s)"

definition isSecretBearing :: "form_draft \<Rightarrow> bool" where
  "isSecretBearing d =
     (if fd_kind d \<noteq> K_http then False
      else (case fd_params d of
          P_http p \<Rightarrow> list_ex secret_ref (obj_values (hp_headers p))
        | _ \<Rightarrow> False))"

definition draftValid :: "form_draft \<Rightarrow> bool option" where
  "draftValid d =
     (if trim (fd_label d) = [] then Some False
      else (case fd_kind d of
          K_llm \<Rightarrow> (case fd_params d of
              P_llm p \<Rightarrow> Some (trim (lp_userPrompt p) \<noteq> []) | _ \<Rightarrow> None)
        | K_script \<Rightarrow> (case fd_params d of
              P_script p \<Rightarrow> Some (trim (sp_code p) \<noteq> []) | _ \<Rightarrow> None)
        | K_http \<Rightarrow> (case fd_params d of
              P_http p \<Rightarrow> Some (trim (hp_url p) \<noteq> [] \<and> \<not> str_includes (hp_url p) obrace)
            | _ \<Rightarrow> None)))"

section \<open>The forms\<close>

text \<open>An empty input becomes \<open>undefined\<close>.\<close>

definition or_undefined :: "jsstr \<Rightarrow> jsstr option" where
  "or_undefined v = (if v = [] then None else Some v)"

definition llm_set_system :: "jsstr \<Rightarrow> llm_params \<Rightarrow> llm_params" where
  "llm_set_system v p = p\<lparr>lp_systemPrompt := or_undefined v\<rparr>"

definition llm_set_user :: "jsstr \<Rightarrow> llm_params \<Rightarrow> llm_params" where
  "llm_set_user v p = p\<lparr>lp_userPrompt := v\<rparr>"

definition llm_set_model :: "jsstr \<Rightarrow> llm_params \<Rightarrow> llm_params" where
  "llm_set_model v p = p\<lparr>lp_model := or_undefined v\<rparr>"

text \<open>The choices of the model, a pair of value and label: a chosen model that is no longer
  configured stays visible.\<close>

definition unconfigured :: "jsstr \<Rightarrow> jsstr" where
  "unconfigured m = m @ [0xFF08, 0x672A, 0x914D, 0x7F6E, 0xFF09]"

definition modelChoices :: "jsstr option \<Rightarrow> (jsstr \<times> jsstr) list \<Rightarrow> (jsstr \<times> jsstr) list" where
  "modelChoices m opts =
     (if truthy m \<and> \<not> list_ex (\<lambda>p. fst p = the m) opts
      then opts @ [(the m, unconfigured (the m))] else opts)"

definition toRows :: "jsstr obj \<Rightarrow> (jsstr \<times> jsstr) list" where
  "toRows h = h"

definition fromRows :: "(jsstr \<times> jsstr) list \<Rightarrow> jsstr obj" where
  "fromRows rows = obj_fill (filter (\<lambda>r. trim (fst r) \<noteq> []) rows) []"

definition patchRows :: "(jsstr \<times> jsstr) list \<Rightarrow> http_params \<Rightarrow> http_params" where
  "patchRows nxt p = p\<lparr>hp_headers := fromRows nxt\<rparr>"

text \<open>\<open>setRow\<close> with a new key or a new value; an index out of range changes no row.\<close>

definition setRow_key :: "nat \<Rightarrow> jsstr \<Rightarrow> http_params \<Rightarrow> http_params" where
  "setRow_key i k p = (let rows = toRows (hp_headers p) in
     patchRows (if i < length rows then rows[i := (k, snd (rows ! i))] else rows) p)"

definition setRow_value :: "nat \<Rightarrow> jsstr \<Rightarrow> http_params \<Rightarrow> http_params" where
  "setRow_value i v p = (let rows = toRows (hp_headers p) in
     patchRows (if i < length rows then rows[i := (fst (rows ! i), v)] else rows) p)"

definition addRow :: "http_params \<Rightarrow> http_params" where
  "addRow p = patchRows (toRows (hp_headers p) @ [(js ''Header-Name'', [])]) p"

definition removeRow :: "nat \<Rightarrow> http_params \<Rightarrow> http_params" where
  "removeRow i p = (let rows = toRows (hp_headers p) in
     patchRows (take i rows @ drop (Suc i) rows) p)"

definition insertSecretIntoRow :: "nat \<Rightarrow> jsstr \<Rightarrow> http_params \<Rightarrow> http_params" where
  "insertSecretIntoRow i secretName p =
     (if secretName = [] then p
      else (let rows = toRows (hp_headers p);
                cur = (if i < length rows then snd (rows ! i) else [])
            in setRow_value i (cur @ obrace @ secret_prefix @ secretName @ cbrace) p))"

definition http_set_body :: "jsstr \<Rightarrow> http_params \<Rightarrow> http_params" where
  "http_set_body v p = p\<lparr>hp_bodyTemplate := or_undefined v\<rparr>"

section \<open>The dialog\<close>

definition setKind :: "node_kind \<Rightarrow> form_draft \<Rightarrow> form_draft" where
  "setKind k d = d\<lparr>fd_kind := k, fd_params := paramsForKind k\<rparr>"

definition canSubmit :: "bool \<Rightarrow> form_draft \<Rightarrow> bool option" where
  "canSubmit isAdmin d =
     (let adminBlocked = isSecretBearing d \<and> \<not> isAdmin in
      map_option (\<lambda>v. v \<and> \<not> adminBlocked) (draftValid d))"

record upsert_input =
  ut_label :: jsstr
  ut_color :: jsstr
  ut_kind :: node_kind
  ut_params :: node_params

definition handleDialogSubmit :: "form_draft \<Rightarrow> upsert_input" where
  "handleDialogSubmit d = \<lparr>ut_label = trim (fd_label d), ut_color = fd_color d,
     ut_kind = fd_kind d, ut_params = fd_params d\<rparr>"

text \<open>The submit event of the form: an upsert, or nothing.\<close>

definition handleSubmit :: "bool \<Rightarrow> form_draft \<Rightarrow> upsert_input option" where
  "handleSubmit isAdmin d =
     (if canSubmit isAdmin d = Some True then Some (handleDialogSubmit d) else None)"

datatype crud_action = A_create | A_update | A_delete

datatype crud_error = E_api nat | E_error jsstr | E_other

datatype type_message = TM_needs_admin | TM_taken | TM_in_use | TM_text jsstr | TM_failed

definition type_error_message :: "crud_action \<Rightarrow> crud_error \<Rightarrow> type_message" where
  "type_error_message action err =
     (if action \<noteq> A_delete \<and> err = E_api 403 then TM_needs_admin
      else if action \<noteq> A_delete \<and> err = E_api 409 then TM_taken
      else if action = A_delete \<and> err = E_api 409 then TM_in_use
      else (case err of
          E_api st \<Rightarrow> TM_text (js ''api error '' @ dec st)
        | E_error m \<Rightarrow> TM_text m
        | E_other \<Rightarrow> TM_failed))"

text \<open>Everything a user can do to a draft. The forms are rendered for the kind of the draft and
  are given its parameters by the cast; the kind is a choice only while creating.\<close>

datatype dialog_mode = D_create | D_edit

inductive draft_step :: "dialog_mode \<Rightarrow> form_draft \<Rightarrow> form_draft \<Rightarrow> bool" for md where
  label: "draft_step md d (d\<lparr>fd_label := v\<rparr>)"
| color: "draft_step md d (d\<lparr>fd_color := c\<rparr>)"
| kind: "md = D_create \<Longrightarrow> draft_step md d (setKind k d)"
| llm: "fd_kind d = K_llm \<Longrightarrow> draft_step md d (d\<lparr>fd_params := P_llm p\<rparr>)"
| http: "fd_kind d = K_http \<Longrightarrow> draft_step md d (d\<lparr>fd_params := P_http p\<rparr>)"
| script: "fd_kind d = K_script \<Longrightarrow> draft_step md d (d\<lparr>fd_params := P_script p\<rparr>)"

fun kind_of :: "node_params \<Rightarrow> node_kind" where
  "kind_of (P_llm p) = K_llm"
| "kind_of (P_http p) = K_http"
| "kind_of (P_script p) = K_script"

definition draft_typed :: "form_draft \<Rightarrow> bool" where
  "draft_typed d \<longleftrightarrow> kind_of (fd_params d) = fd_kind d"

section \<open>Facts\<close>

lemma typed_start: "draft_typed (emptyDraft k)" "draft_typed (draftFrom ct) \<longleftrightarrow> kind_of (ct_params ct) = ct_kind ct"
  by (cases k) (simp_all add: draft_typed_def emptyDraft_def draftFrom_def paramsForKind_def)

lemma typed_step: "draft_step md d d' \<Longrightarrow> draft_typed d \<Longrightarrow> draft_typed d'"
proof (induction rule: draft_step.induct)
  case (kind d k)
  then show ?case by (cases k) (simp_all add: draft_typed_def setKind_def paramsForKind_def)
qed (simp_all add: draft_typed_def)

lemma typed_steps: "(draft_step md)\<^sup>*\<^sup>* d d' \<Longrightarrow> draft_typed d \<Longrightarrow> draft_typed d'"
  by (induction rule: rtranclp_induct) (auto intro: typed_step)

lemma typed_valid: "draft_typed d \<Longrightarrow> draftValid d \<noteq> None"
  by (cases "fd_kind d"; cases "fd_params d") (auto simp: draft_typed_def draftValid_def)

lemma ex_list: "(\<exists>a. P a) \<longleftrightarrow> P [] \<or> (\<exists>c a. P (c # a))"
  by (metis list.exhaust)

lemma secret_ref_iff:
  "secret_ref s \<longleftrightarrow> (\<exists>a r. s = a @ obrace @ r \<and> startsWith (dropWhile is_ws r) secret_prefix)"
proof (induction s)
  case (Cons c s)
  have "(\<exists>a r. c # s = a @ obrace @ r \<and> startsWith (dropWhile is_ws r) secret_prefix) \<longleftrightarrow>
      (\<exists>r. c # s = obrace @ r \<and> startsWith (dropWhile is_ws r) secret_prefix)
      \<or> (\<exists>a r. s = a @ obrace @ r \<and> startsWith (dropWhile is_ws r) secret_prefix)"
    by (subst ex_list) simp
  moreover have "(\<exists>r. c # s = obrace @ r \<and> startsWith (dropWhile is_ws r) secret_prefix)
      \<longleftrightarrow> startsWith (c # s) obrace \<and> startsWith (dropWhile is_ws (drop 1 s)) secret_prefix"
    by (cases s) auto
  ultimately show ?case using Cons.IH by simp
qed simp

lemma trim_prefix: "\<exists>w. dropWhile is_ws s = trim s @ w"
proof -
  let ?d = "dropWhile is_ws s"
  have "?d = rev (dropWhile is_ws (rev ?d)) @ rev (takeWhile is_ws (rev ?d))"
    by (metis rev_append rev_rev_ident takeWhile_dropWhile_id)
  then show ?thesis unfolding trim_def by blast
qed

lemma secret_token_ref:
  assumes "n \<in> set (tokens v)" and "startsWith (trim n) secret_prefix"
  shows "secret_ref v"
proof -
  from tokens_sound [OF assms(1)] obtain a b where v: "v = a @ obrace @ n @ cbrace @ b"
    by (auto simp: includes_iff)
  obtain w where w: "dropWhile is_ws n = trim n @ w" using trim_prefix by blast
  with assms(2) obtain r where r: "dropWhile is_ws n = secret_prefix @ r"
    by (auto simp: startsWith_iff)
  then have "\<exists>c \<in> set n. \<not> is_ws c"
    by (metis append_is_Nil_conv dropWhile_eq_Nil_conv js_Nil_iff list.distinct(1) secret_prefix_def)
  then have "dropWhile is_ws (n @ cbrace @ b) = secret_prefix @ r @ cbrace @ b"
    using r by (auto simp: dropWhile_append1)
  then show ?thesis unfolding secret_ref_iff v by (metis append.assoc startsWith_append)
qed

lemma no_brace_no_tokens: "\<not> str_includes s obrace \<Longrightarrow> tokens s = []"
  using tokens_sound [of "hd (tokens s)" s]
  by (cases "tokens s") (auto simp: includes_iff)

lemma submit_someD:
  assumes "handleSubmit isAdmin d = Some inp"
  shows "draftValid d = Some True" and "isSecretBearing d \<Longrightarrow> isAdmin"
    and "inp = handleDialogSubmit d"
  using assms by (auto simp: handleSubmit_def canSubmit_def split: if_splits)

section \<open>Properties\<close>

text \<open>C31: The parameters of a draft always have the shape of its kind: whatever the user does, from
  an empty draft or from a stored type of the right shape, the validation and the submit
  button read only properties that exist.\<close>

theorem draft_shape:
  assumes "(draft_step md)\<^sup>*\<^sup>* d0 d" and "d0 = emptyDraft k \<or> d0 = draftFrom ct"
    and "kind_of (ct_params ct) = ct_kind ct"
  shows "kind_of (fd_params d) = fd_kind d \<and> canSubmit isAdmin d \<noteq> None"
proof -
  have "draft_typed d0" using assms(2,3) typed_start by auto
  from typed_steps [OF assms(1) this] have "draft_typed d" .
  with typed_valid [OF this] show ?thesis by (simp add: draft_typed_def canSubmit_def)
qed

definition demo_type :: custom_node_type where
  "demo_type = \<lparr>ct_id = [], ct_orgId = [], ct_slug = [], ct_label = [], ct_color = [],
     ct_kind = K_script, ct_params = P_script DEFAULT_SCRIPT_PARAMS\<rparr>"

theorem draft_shape_witness:
  "canSubmit True ((emptyDraft K_http)\<lparr>fd_label := js ''x''\<rparr>) \<noteq> None"
  using draft_shape [OF r_into_rtranclp [of "draft_step D_create",
        OF draft_step.label [of D_create "emptyDraft K_http" "js ''x''"]], of K_http demo_type True]
  by (simp add: demo_type_def)

text \<open>C22: A user who is not an administrator cannot submit a request type whose headers refer to a
  secret: in what is submitted no header value holds a token that names a secret, the address
  holds no token at all, and the label is not blank.\<close>

theorem non_admin_submits_no_secret:
  assumes "handleSubmit False d = Some inp" and "ut_params inp = P_http p" and "ut_kind inp = K_http"
  shows "\<Union> (set ` tokens ` set (obj_values (hp_headers p)))
           \<inter> {n. startsWith (trim n) secret_prefix} = {}
     \<and> tokens (hp_url p) = [] \<and> ut_label inp \<noteq> []"
proof -
  note sub = submit_someD [OF assms(1)]
  from sub(3) assms(2,3) have kp: "fd_kind d = K_http" "fd_params d = P_http p"
    by (simp_all add: handleDialogSubmit_def)
  from sub(2) kp have "\<not> list_ex secret_ref (obj_values (hp_headers p))"
    by (auto simp: isSecretBearing_def)
  then have "\<Union> (set ` tokens ` set (obj_values (hp_headers p)))
      \<inter> {n. startsWith (trim n) secret_prefix} = {}"
    using secret_token_ref by (fastforce simp: list_ex_iff)
  moreover from sub(1) kp have "\<not> str_includes (hp_url p) obrace" "trim (fd_label d) \<noteq> []"
    by (auto simp: draftValid_def split: if_splits)
  ultimately show ?thesis
    using no_brace_no_tokens sub(3) by (simp add: handleDialogSubmit_def)
qed

definition demo_http :: http_params where
  "demo_http = \<lparr>hp_method = M_POST, hp_url = js ''https://a.b'',
     hp_headers = [(js ''X-Id'', js ''{{id}}'')], hp_bodyTemplate = None, hp_outputFormat = None,
     hp_allowResponseBody = None\<rparr>"

theorem non_admin_submits_no_secret_witness:
  "\<exists>inp. handleSubmit False \<lparr>fd_label = js ''call'', fd_color = [], fd_kind = K_http,
       fd_params = P_http demo_http\<rparr> = Some inp \<and> tokens (hp_url demo_http) = []"
proof -
  let ?d = "\<lparr>fd_label = js ''call'', fd_color = [], fd_kind = K_http, fd_params = P_http demo_http\<rparr>"
  have "handleSubmit False ?d = Some (handleDialogSubmit ?d)"
    by (simp add: handleSubmit_def canSubmit_def draftValid_def isSecretBearing_def demo_http_def
        js_def trim_def is_ws_def secret_prefix_def)
  from non_admin_submits_no_secret [OF this, of demo_http] this show ?thesis
    by (simp add: handleDialogSubmit_def)
qed

text \<open>The header rows of a request lose data: adding a row beside one that still has the
  placeholder name empties the value of the latter, renaming a header to an existing name
  drops one of the two, and clearing a name drops the header with its value.\<close>

theorem header_rows_lose_values:
  "hp_headers (addRow (DEFAULT_HTTP_PARAMS\<lparr>hp_headers := [(js ''Header-Name'', v)]\<rparr>))
     = [(js ''Header-Name'', [])]
   \<and> hp_headers (setRow_key 0 (js ''B'')
       (DEFAULT_HTTP_PARAMS\<lparr>hp_headers := [(js ''A'', v), (js ''B'', w)]\<rparr>)) = [(js ''B'', w)]
   \<and> hp_headers (setRow_key 0 [] (DEFAULT_HTTP_PARAMS\<lparr>hp_headers := [(js ''A'', v)]\<rparr>)) = []"
  by (simp add: addRow_def setRow_key_def patchRows_def fromRows_def toRows_def Let_def
      obj_put_def ins_key_def array_index_def js_def trim_def is_ws_def)

end
