(* ===== verification/Review_Board.thy ===== *)
theory Review_Board
  imports Library Event_System
begin

text \<open>
  The review board: the keyboard map (\<open>review/keyboard.ts\<close>), the view with its dialogs, batch
  bar and detail drawer (\<open>review/ReviewBoardPage.tsx\<close>) and the container that turns commands into
  requests (\<open>review/ReviewBoard.tsx\<close>, \<open>review/hitlError.ts\<close>).

  The view is a function of its properties and its own state; a handler returns the new state
  and the callbacks it calls, as commands. \<open>board_guard\<close> says which control is rendered and
  enabled. The host changes the properties by \<open>Set_Props\<close>. Controls behind an open dialog are
  not excluded, so the theorems hold for every host.
\<close>

section \<open>Keyboard\<close>

datatype review_action = RA_accept | RA_reject | RA_regenerate | RA_prev | RA_next

record key_context =
  kc_isAdmin :: bool
  kc_inInput :: bool

definition resolveReviewAction :: "jsstr \<Rightarrow> key_context \<Rightarrow> review_action option" where
  "resolveReviewAction key ctx =
     (if kc_inInput ctx then None
      else if key = js ''ArrowLeft'' then Some RA_prev
      else if key = js ''ArrowRight'' then Some RA_next
      else if key = js ''a'' \<or> key = js ''A'' then (if kc_isAdmin ctx then Some RA_accept else None)
      else if key = js ''r'' \<or> key = js ''R'' then (if kc_isAdmin ctx then Some RA_reject else None)
      else if key = js ''e'' \<or> key = js ''E'' then (if kc_isAdmin ctx then Some RA_regenerate else None)
      else None)"

text \<open>An event target: an element with its tag and whether its content is editable, or no element.\<close>

datatype dom_target = No_element | Element jsstr bool

fun isInputTarget :: "dom_target \<Rightarrow> bool" where
  "isInputTarget No_element = False"
| "isInputTarget (Element tag editable) =
     (tag = js ''INPUT'' \<or> tag = js ''TEXTAREA'' \<or> tag = js ''SELECT'' \<or> editable)"

section \<open>Properties and state of the view\<close>

record board_props =
  bp_queue :: "asset list option"
  bp_isLoading :: bool
  bp_isError :: bool
  bp_hasNextPage :: bool
  bp_isFetchingNextPage :: bool
  bp_isAdmin :: bool
  bp_projectFilter :: "jsstr option"
  bp_selectedId :: "jsstr option"
  bp_detail :: "asset_detail option"
  bp_detailLoading :: bool
  bp_onAcceptMany :: bool
  bp_onRejectMany :: bool
  bp_onBackToWork :: bool
  bp_onOpenPreview :: bool
  bp_actionPending :: bool

record board_ui =
  bu_editing :: bool
  bu_draftPrompt :: jsstr
  bu_rejectTarget :: "jsstr option"
  bu_rejectManyTarget :: "jsstr list option"
  bu_checkedIds :: "jsstr set"

datatype command =
    C_select "jsstr option"
  | C_accept jsstr
  | C_reject jsstr
  | C_regenerate jsstr jsstr
  | C_accept_many "jsstr list"
  | C_reject_many "jsstr list"
  | C_load_more
  | C_retry
  | C_clear_filter
  | C_back_to_work
  | C_open_preview

definition board_items :: "board_props \<Rightarrow> asset list" where
  "board_items p = nullish (bp_queue p) []"

fun findIndex :: "('a \<Rightarrow> bool) \<Rightarrow> 'a list \<Rightarrow> int" where
  "findIndex P [] = - 1"
| "findIndex P (x # xs) = (if P x then 0 else let i = findIndex P xs in if i < 0 then - 1 else i + 1)"

definition selectedIndex :: "board_props \<Rightarrow> int" where
  "selectedIndex p =
     (if truthy (bp_selectedId p)
      then findIndex (\<lambda>a. a_id a = the (bp_selectedId p)) (board_items p) else - 1)"

section \<open>Groups\<close>

text \<open>\<open>buildGroups\<close>: the order list and the map as one association list.\<close>

fun group_push :: "'k \<Rightarrow> 'a \<Rightarrow> ('k \<times> 'a list) list \<Rightarrow> ('k \<times> 'a list) list" where
  "group_push k a [] = [(k, [a])]"
| "group_push k a ((k', as) # gs) =
     (if k' = k then (k', as @ [a]) # gs else (k', as) # group_push k a gs)"

fun group_loop :: "('a \<Rightarrow> 'k) \<Rightarrow> 'a list \<Rightarrow> ('k \<times> 'a list) list \<Rightarrow> ('k \<times> 'a list) list" where
  "group_loop keyOf [] gs = gs"
| "group_loop keyOf (a # as) gs = group_loop keyOf as (group_push (keyOf a) a gs)"

definition buildGroups :: "('a \<Rightarrow> 'k) \<Rightarrow> 'a list \<Rightarrow> ('k \<times> 'a list) list" where
  "buildGroups keyOf items = group_loop keyOf items []"

definition groupByProject :: "board_props \<Rightarrow> bool" where
  "groupByProject p \<longleftrightarrow> card (a_projectId ` set (board_items p)) > 1"

definition hasShots :: "board_props \<Rightarrow> bool" where
  "hasShots p \<longleftrightarrow> \<not> groupByProject p \<and> list_ex (\<lambda>a. a_shotId a \<noteq> []) (board_items p)"

text \<open>What the body of the board shows.\<close>

datatype board_body =
    Body_loading
  | Body_error
  | Body_empty
  | Body_projects "(jsstr \<times> asset list) list"
  | Body_shots "(jsstr \<times> asset list) list"
  | Body_flat "asset list"

definition board_body :: "board_props \<Rightarrow> board_body" where
  "board_body p =
     (if bp_isLoading p then Body_loading
      else if bp_isError p then Body_error
      else if board_items p = [] then Body_empty
      else if groupByProject p then Body_projects (buildGroups a_projectId (board_items p))
      else if hasShots p then Body_shots (buildGroups a_shotId (board_items p))
      else Body_flat (board_items p))"

fun body_cards :: "board_body \<Rightarrow> asset list" where
  "body_cards (Body_projects gs) = concat (map snd gs)"
| "body_cards (Body_shots gs) = concat (map snd gs)"
| "body_cards (Body_flat as) = as"
| "body_cards b = []"

fun body_groups :: "board_body \<Rightarrow> (jsstr \<times> asset list) list" where
  "body_groups (Body_projects gs) = gs"
| "body_groups (Body_shots gs) = gs"
| "body_groups b = []"

section \<open>Handlers\<close>

definition checked_ids :: "board_props \<Rightarrow> board_ui \<Rightarrow> jsstr list" where
  "checked_ids p u = map a_id (filter (\<lambda>a. a_id a \<in> bu_checkedIds u) (board_items p))"

definition toggleCheck :: "jsstr \<Rightarrow> board_ui \<Rightarrow> board_ui" where
  "toggleCheck i u = u\<lparr>bu_checkedIds :=
     (if i \<in> bu_checkedIds u then bu_checkedIds u - {i} else insert i (bu_checkedIds u))\<rparr>"

definition acceptChecked :: "board_props \<Rightarrow> board_ui \<Rightarrow> board_ui \<times> command list" where
  "acceptChecked p u = (let ids = checked_ids p u in
     if ids = [] then (u, [])
     else (u\<lparr>bu_checkedIds := {}\<rparr>, if bp_onAcceptMany p then [C_accept_many ids] else []))"

definition acceptAll :: "board_props \<Rightarrow> board_ui \<Rightarrow> board_ui \<times> command list" where
  "acceptAll p u =
     (if board_items p = [] then (u, [])
      else (u\<lparr>bu_checkedIds := {}\<rparr>,
            if bp_onAcceptMany p then [C_accept_many (map a_id (board_items p))] else []))"

definition rejectChecked :: "board_props \<Rightarrow> board_ui \<Rightarrow> board_ui \<times> command list" where
  "rejectChecked p u = (let ids = checked_ids p u in
     if ids = [] then (u, []) else (u\<lparr>bu_rejectManyTarget := Some ids\<rparr>, []))"

definition step_selection :: "int \<Rightarrow> board_props \<Rightarrow> command list" where
  "step_selection delta p = (let items = board_items p in
     if items = [] then []
     else (let base = (if selectedIndex p < 0 then (if delta > 0 then - 1 else 0) else selectedIndex p);
               nxt = (base + delta + int (length items)) mod int (length items)
           in [C_select (Some (a_id (items ! nat nxt)))]))"

definition dispatch :: "review_action \<Rightarrow> board_props \<Rightarrow> board_ui \<Rightarrow> board_ui \<times> command list" where
  "dispatch action p u =
     (if action = RA_prev then (u, step_selection (- 1) p)
      else if action = RA_next then (u, step_selection 1 p)
      else if \<not> truthy (bp_selectedId p) then (u, [])
      else if action = RA_accept then
        (if bp_actionPending p then (u, []) else (u, [C_accept (the (bp_selectedId p))]))
      else if action = RA_reject then (u\<lparr>bu_rejectTarget := bp_selectedId p\<rparr>, [])
      else (u\<lparr>bu_draftPrompt := (case bp_detail p of None \<Rightarrow> [] | Some d \<Rightarrow> a_prompt (ad_asset d)),
              bu_editing := True\<rparr>, []))"

definition onKey :: "jsstr \<Rightarrow> dom_target \<Rightarrow> board_props \<Rightarrow> board_ui \<Rightarrow> board_ui \<times> command list" where
  "onKey key tgt p u =
     (case resolveReviewAction key \<lparr>kc_isAdmin = bp_isAdmin p, kc_inInput = isInputTarget tgt\<rparr> of
        None \<Rightarrow> (u, [])
      | Some action \<Rightarrow> dispatch action p u)"

definition confirmReject :: "board_ui \<Rightarrow> board_ui \<times> command list" where
  "confirmReject u = (u\<lparr>bu_rejectTarget := None\<rparr>,
     if truthy (bu_rejectTarget u) then [C_reject (the (bu_rejectTarget u))] else [])"

definition confirmRejectMany :: "board_props \<Rightarrow> board_ui \<Rightarrow> board_ui \<times> command list" where
  "confirmRejectMany p u =
     (let ids = nullish (bu_rejectManyTarget u) []; u' = u\<lparr>bu_rejectManyTarget := None\<rparr> in
      if ids = [] then (u', [])
      else (u'\<lparr>bu_checkedIds := {}\<rparr>, if bp_onRejectMany p then [C_reject_many ids] else []))"

text \<open>New properties: a change of the selection leaves the editing state.\<close>

definition receive_props :: "board_props \<Rightarrow> board_props \<Rightarrow> board_ui \<Rightarrow> board_ui" where
  "receive_props p p' u =
     (if bp_selectedId p \<noteq> bp_selectedId p' then u\<lparr>bu_editing := False\<rparr> else u)"

section \<open>Events\<close>

datatype board_event =
    Key jsstr dom_target
  | Select_Card jsstr
  | Toggle_Check jsstr
  | Accept_Checked
  | Reject_Checked
  | Accept_All
  | Accept_Group jsstr
  | Reject_Group jsstr
  | Load_More
  | Retry
  | Clear_Filter
  | Back_To_Work
  | Open_Preview
  | Close_Drawer
  | Draft_Change jsstr
  | Start_Edit
  | Cancel_Edit
  | Drawer_Accept
  | Drawer_Reject
  | Drawer_Regenerate
  | Reject_Close
  | Reject_Confirm
  | Reject_Many_Close
  | Reject_Many_Confirm
  | Set_Props board_props

text \<open>The detail drawer, in an overlay or inline, and its actions for administrators.\<close>

definition drawer :: "board_props \<Rightarrow> asset_detail option" where
  "drawer p = (if bp_selectedId p = None \<or> bp_detailLoading p then None else bp_detail p)"

definition drawer_actions :: "board_props \<Rightarrow> bool" where
  "drawer_actions p \<longleftrightarrow> drawer p \<noteq> None \<and> bp_isAdmin p"

fun board_guard :: "board_props \<Rightarrow> board_ui \<Rightarrow> board_event \<Rightarrow> bool" where
  "board_guard p u (Select_Card i) = (i \<in> a_id ` set (body_cards (board_body p)))"
| "board_guard p u (Toggle_Check i) =
     (bp_onAcceptMany p \<and> i \<in> a_id ` set (body_cards (board_body p)))"
| "board_guard p u Accept_Checked =
     (bp_onAcceptMany p \<and> board_items p \<noteq> [] \<and> checked_ids p u \<noteq> [] \<and> \<not> bp_actionPending p)"
| "board_guard p u Reject_Checked =
     (bp_onAcceptMany p \<and> board_items p \<noteq> [] \<and> bp_onRejectMany p
      \<and> checked_ids p u \<noteq> [] \<and> \<not> bp_actionPending p)"
| "board_guard p u Accept_All =
     (bp_onAcceptMany p \<and> board_items p \<noteq> [] \<and> \<not> bp_actionPending p)"
| "board_guard p u (Accept_Group k) =
     (bp_onAcceptMany p \<and> k \<in> fst ` set (body_groups (board_body p)))"
| "board_guard p u (Reject_Group k) =
     (bp_onRejectMany p \<and> (\<exists>gs. board_body p = Body_projects gs \<and> k \<in> fst ` set gs))"
| "board_guard p u Load_More = (bp_hasNextPage p \<and> \<not> bp_isFetchingNextPage p)"
| "board_guard p u Retry = (board_body p = Body_error)"
| "board_guard p u Clear_Filter = (bp_projectFilter p \<noteq> None)"
| "board_guard p u Back_To_Work = (board_body p = Body_empty \<and> bp_onBackToWork p)"
| "board_guard p u Open_Preview = (board_body p = Body_empty \<and> bp_onOpenPreview p)"
| "board_guard p u Close_Drawer = (bp_selectedId p \<noteq> None)"
| "board_guard p u (Draft_Change v) = (drawer p \<noteq> None \<and> bu_editing u)"
| "board_guard p u Start_Edit = (drawer_actions p \<and> \<not> bu_editing u)"
| "board_guard p u Cancel_Edit = (drawer_actions p \<and> bu_editing u)"
| "board_guard p u Drawer_Accept = (drawer_actions p \<and> \<not> bu_editing u \<and> \<not> bp_actionPending p)"
| "board_guard p u Drawer_Reject = (drawer_actions p \<and> \<not> bu_editing u \<and> \<not> bp_actionPending p)"
| "board_guard p u Drawer_Regenerate = (drawer_actions p \<and> bu_editing u \<and> \<not> bp_actionPending p)"
| "board_guard p u Reject_Close = (bu_rejectTarget u \<noteq> None)"
| "board_guard p u Reject_Confirm = (bu_rejectTarget u \<noteq> None)"
| "board_guard p u Reject_Many_Close = (bu_rejectManyTarget u \<noteq> None)"
| "board_guard p u Reject_Many_Confirm = (bu_rejectManyTarget u \<noteq> None)"
| "board_guard p u e = True"

definition detail_asset :: "board_props \<Rightarrow> asset" where
  "detail_asset p = ad_asset (the (bp_detail p))"

definition group_ids :: "jsstr \<Rightarrow> board_props \<Rightarrow> jsstr list" where
  "group_ids k p = map a_id (nullish (map_of (body_groups (board_body p)) k) [])"

fun board_handle :: "board_props \<Rightarrow> board_ui \<Rightarrow> board_event \<Rightarrow> board_ui \<times> command list" where
  "board_handle p u (Key k tgt) = onKey k tgt p u"
| "board_handle p u (Select_Card i) = (u, [C_select (Some i)])"
| "board_handle p u (Toggle_Check i) = (toggleCheck i u, [])"
| "board_handle p u Accept_Checked = acceptChecked p u"
| "board_handle p u Reject_Checked = rejectChecked p u"
| "board_handle p u Accept_All = acceptAll p u"
| "board_handle p u (Accept_Group k) = (u, [C_accept_many (group_ids k p)])"
| "board_handle p u (Reject_Group k) = (u\<lparr>bu_rejectManyTarget := Some (group_ids k p)\<rparr>, [])"
| "board_handle p u Load_More = (u, [C_load_more])"
| "board_handle p u Retry = (u, [C_retry])"
| "board_handle p u Clear_Filter = (u, [C_clear_filter])"
| "board_handle p u Back_To_Work = (u, [C_back_to_work])"
| "board_handle p u Open_Preview = (u, [C_open_preview])"
| "board_handle p u Close_Drawer = (u, [C_select None])"
| "board_handle p u (Draft_Change v) = (u\<lparr>bu_draftPrompt := v\<rparr>, [])"
| "board_handle p u Start_Edit =
     (u\<lparr>bu_draftPrompt := a_prompt (detail_asset p), bu_editing := True\<rparr>, [])"
| "board_handle p u Cancel_Edit = (u\<lparr>bu_editing := False\<rparr>, [])"
| "board_handle p u Drawer_Accept = (u, [C_accept (a_id (detail_asset p))])"
| "board_handle p u Drawer_Reject = (u\<lparr>bu_rejectTarget := Some (a_id (detail_asset p))\<rparr>, [])"
| "board_handle p u Drawer_Regenerate =
     (u, [C_regenerate (a_id (detail_asset p)) (bu_draftPrompt u)])"
| "board_handle p u Reject_Close = (u\<lparr>bu_rejectTarget := None\<rparr>, [])"
| "board_handle p u Reject_Confirm = confirmReject u"
| "board_handle p u Reject_Many_Close = (u\<lparr>bu_rejectManyTarget := None\<rparr>, [])"
| "board_handle p u Reject_Many_Confirm = confirmRejectMany p u"
| "board_handle p u (Set_Props p') = (receive_props p p' u, [])"

record board =
  bd_props :: board_props
  bd_ui :: board_ui
  bd_log :: "command list"

definition board_do :: "board \<Rightarrow> board_event \<Rightarrow> board" where
  "board_do s e = (let r = board_handle (bd_props s) (bd_ui s) e in
     \<lparr>bd_props = (case e of Set_Props p' \<Rightarrow> p' | _ \<Rightarrow> bd_props s),
      bd_ui = fst r, bd_log = bd_log s @ snd r\<rparr>)"

inductive board_step :: "board \<Rightarrow> board_event \<Rightarrow> board \<Rightarrow> bool" where
  "board_guard (bd_props s) (bd_ui s) e \<Longrightarrow> board_step s e (board_do s e)"

inductive_cases board_stepE: "board_step s e s'"

definition board_start :: "board_props \<Rightarrow> board" where
  "board_start p = \<lparr>bd_props = p, bd_ui = \<lparr>bu_editing = False, bu_draftPrompt = [],
     bu_rejectTarget = None, bu_rejectManyTarget = None, bu_checkedIds = {}\<rparr>, bd_log = []\<rparr>"

section \<open>The container\<close>

text \<open>The batch handlers: one request after the other, a failure is counted and does not stop
  the batch. The argument says which request succeeds.\<close>

fun many_loop :: "(jsstr \<Rightarrow> bool) \<Rightarrow> jsstr list \<Rightarrow> nat \<times> nat \<times> jsstr list \<Rightarrow> nat \<times> nat \<times> jsstr list" where
  "many_loop succeeds [] st = st"
| "many_loop succeeds (i # is) (n_ok, n_fail, sent) =
     many_loop succeeds is
       (if succeeds i then (n_ok + 1, n_fail, sent @ [i]) else (n_ok, n_fail + 1, sent @ [i]))"

datatype batch_toast = All_done nat | Some_failed nat nat

definition handle_many :: "(jsstr \<Rightarrow> bool) \<Rightarrow> jsstr list \<Rightarrow> jsstr list \<times> batch_toast \<times> command" where
  "handle_many succeeds is = (case many_loop succeeds is (0, 0, []) of
     (n_ok, n_fail, sent) \<Rightarrow>
       (sent, if n_fail > 0 then Some_failed n_ok n_fail else All_done n_ok, C_select None))"

datatype hitl_message = HM_already | HM_quota | HM_failed

definition hitlErrorMessage :: "nat option \<Rightarrow> hitl_message" where
  "hitlErrorMessage status = (case status of
       Some st \<Rightarrow> if st = 409 then HM_already else if st = 429 then HM_quota else HM_failed
     | None \<Rightarrow> HM_failed)"

section \<open>Facts\<close>

text \<open>The groups are those of the reference: one per key in order of first use, with the items of
  that key in their order.\<close>

definition groups_ref :: "('a \<Rightarrow> 'k) \<Rightarrow> 'a list \<Rightarrow> ('k \<times> 'a list) list" where
  "groups_ref keyOf items =
     map (\<lambda>k. (k, filter (\<lambda>a. keyOf a = k) items)) (rev (remdups (rev (map keyOf items))))"

lemma groups_ref_snoc:
  "groups_ref keyOf (items @ [a]) = group_push (keyOf a) a (groups_ref keyOf items)"
proof -
  let ?ks = "rev (remdups (rev (map keyOf items)))"
  have push_old: "group_push k a (map (\<lambda>k. (k, f k)) ks) =
      map (\<lambda>j. (j, if j = k then f j @ [a] else f j)) ks" if "k \<in> set ks" "distinct ks" for ks f k
    using that
  proof (induction ks)
    case (Cons j ks)
    then show ?case by (cases "j = k") (auto intro!: map_cong)
  qed simp
  have push_new: "group_push k a (map (\<lambda>k. (k, f k)) ks) = map (\<lambda>k. (k, f k)) ks @ [(k, [a])]"
    if "k \<notin> set ks" for ks f k
    using that by (induction ks) auto
  show ?thesis
  proof (cases "keyOf a \<in> set ?ks")
    case True
    then have ks: "rev (remdups (rev (map keyOf (items @ [a])))) = ?ks" by simp
    show ?thesis unfolding groups_ref_def ks push_old [OF True distinct_rev [THEN iffD2, OF distinct_remdups]]
      by (rule map_cong [OF refl]) simp
  next
    case False
    then have ks: "rev (remdups (rev (map keyOf (items @ [a])))) = ?ks @ [keyOf a]" by simp
    from False have "filter (\<lambda>x. keyOf x = keyOf a) items = []"
      by (auto simp: filter_empty_conv) (metis imageI)
    moreover have "filter (\<lambda>x. keyOf x = k) (items @ [a]) = filter (\<lambda>x. keyOf x = k) items"
      if "k \<in> set ?ks" for k using False that by auto
    ultimately show ?thesis unfolding groups_ref_def ks push_new [OF False]
      by (auto intro!: map_cong)
  qed
qed

lemma group_loop_ref: "group_loop keyOf items (groups_ref keyOf done_items) = groups_ref keyOf (done_items @ items)"
  by (induction items arbitrary: done_items)
    (simp_all add: groups_ref_snoc [symmetric])

lemma findIndex_nth:
  "distinct (map f xs) \<Longrightarrow> n < length xs \<Longrightarrow> findIndex (\<lambda>a. f a = f (xs ! n)) xs = int n"
proof (induction xs arbitrary: n)
  case (Cons x xs)
  show ?case
  proof (cases n)
    case (Suc m)
    with Cons.prems have "f x \<noteq> f (xs ! m)" by auto
    with Suc Cons.IH [of m] Cons.prems show ?thesis by simp
  qed simp
qed simp

lemma many_loop_spec:
  "many_loop succeeds is (a, b, sent) =
     (a + length (filter succeeds is), b + length (filter (\<lambda>i. \<not> succeeds i) is), sent @ is)"
  by (induction "is" arbitrary: a b sent) auto

text \<open>The commands of a step, and which of them an administrator's control sends.\<close>

definition new_commands :: "board \<Rightarrow> board_event \<Rightarrow> command set" where
  "new_commands s e = set (snd (board_handle (bd_props s) (bd_ui s) e))"

fun single_action :: "command \<Rightarrow> bool" where
  "single_action (C_accept i) = True"
| "single_action (C_reject i) = True"
| "single_action (C_regenerate i t) = True"
| "single_action c = False"

fun viewer_event :: "board_event \<Rightarrow> bool" where
  "viewer_event (Set_Props p) = (\<not> bp_isAdmin p)"
| "viewer_event e = True"

lemmas handler_defs = acceptChecked_def rejectChecked_def acceptAll_def confirmReject_def
  confirmRejectMany_def step_selection_def Let_def

definition viewer_ok :: "board_event list \<Rightarrow> board \<Rightarrow> bool" where
  "viewer_ok es s \<longleftrightarrow> (list_all viewer_event es \<longrightarrow>
     \<not> bp_isAdmin (bd_props s) \<and> bu_rejectTarget (bd_ui s) = None
   \<and> \<not> list_ex single_action (bd_log s))"

lemma viewer_keys:
  "resolveReviewAction k \<lparr>kc_isAdmin = False, kc_inInput = b\<rparr> \<in> {None, Some RA_prev, Some RA_next}"
  by (simp add: resolveReviewAction_def)

lemma step_selection_single [simp]: "\<not> list_ex single_action (step_selection d p)"
  by (simp add: step_selection_def Let_def)

lemma viewer_handle:
  assumes "board_guard p u e" and "\<not> bp_isAdmin p" and "bu_rejectTarget u = None"
  shows "bu_rejectTarget (fst (board_handle p u e)) = None
    \<and> \<not> list_ex single_action (snd (board_handle p u e))"
proof (cases e)
  case (Key k tgt)
  then show ?thesis
    using assms(2,3) viewer_keys [of k "isInputTarget tgt"]
    by (auto simp: onKey_def dispatch_def)
qed (use assms in \<open>auto simp: handler_defs drawer_actions_def toggleCheck_def receive_props_def\<close>)

lemma viewer_step: "viewer_ok es s \<Longrightarrow> board_step s e s' \<Longrightarrow> viewer_ok (es @ [e]) s'"
  using viewer_handle [of "bd_props s" "bd_ui s" e]
  by (cases e) (auto simp: viewer_ok_def board_do_def Let_def elim!: board_stepE)

interpretation viewer_trace: trace_invariant board_step viewer_ok
  by unfold_locales (rule viewer_step)

section \<open>Properties\<close>


definition demo_asset :: "string \<Rightarrow> string \<Rightarrow> asset" where
  "demo_asset i pr = (blank_asset (js i))\<lparr>a_projectId := js pr, a_prompt := js ''a cat''\<rparr>"

definition demo_props :: "bool \<Rightarrow> board_props" where
  "demo_props admin = \<lparr>bp_queue = Some [demo_asset ''x'' ''p'', demo_asset ''y'' ''p''],
     bp_isLoading = False, bp_isError = False, bp_hasNextPage = False, bp_isFetchingNextPage = False,
     bp_isAdmin = admin, bp_projectFilter = None, bp_selectedId = Some (js ''x''), bp_detail = None,
     bp_detailLoading = True, bp_onAcceptMany = True, bp_onRejectMany = True,
     bp_onBackToWork = False, bp_onOpenPreview = False, bp_actionPending = False\<rparr>"

lemma board_run_one: "board_guard (bd_props s) (bd_ui s) e \<Longrightarrow> run board_step s [e] (board_do s e)"
  by (rule run_single) (rule board_step.intros)

lemma demo_accept_all:
  "run board_step (board_start (demo_props False)) [Accept_All]
     (board_do (board_start (demo_props False)) Accept_All)"
  by (rule board_run_one) (simp add: board_start_def demo_props_def board_items_def)


text \<open>The batch controls do not look at the role: a member who is not an administrator is
  offered the button that accepts everything that waits, and using it requests it.\<close>

theorem batch_ignores_role:
  "board_guard (demo_props False) (bd_ui (board_start (demo_props False))) Accept_All
   \<and> bd_log (board_do (board_start (demo_props False)) Accept_All)
       = [C_accept_many [js ''x'', js ''y'']]
   \<and> \<not> bp_isAdmin (demo_props False)"
  by (simp add: board_start_def demo_props_def board_items_def board_do_def acceptAll_def
      demo_asset_def blank_asset_def)

text \<open>A rejection is requested only by the confirmation of its dialog and for the asset the
  dialog was opened for, a batch only for the assets its dialog was opened for; an acceptance
  of one asset and a regeneration only while no action is pending, by an administrator.\<close>

theorem hitl_commands_guarded:
  assumes "board_step s e s'"
  shows "{i. C_reject i \<in> new_commands s e} \<subseteq>
           (if e = Reject_Confirm then set_option (bu_rejectTarget (bd_ui s)) else {})
     \<and> {ids. C_reject_many ids \<in> new_commands s e} \<subseteq>
           (if e = Reject_Many_Confirm then set_option (bu_rejectManyTarget (bd_ui s)) - {[]} else {})
     \<and> (single_action ` new_commands s e \<subseteq> {False} \<or> e = Reject_Confirm
         \<or> bp_isAdmin (bd_props s) \<and> \<not> bp_actionPending (bd_props s))"
proof -
  from assms have g: "board_guard (bd_props s) (bd_ui s) e" by (auto elim: board_stepE)
  have key: "\<not> kc_isAdmin ctx \<Longrightarrow> resolveReviewAction k ctx \<in> {None, Some RA_prev, Some RA_next}"
    for k ctx by (simp add: resolveReviewAction_def)
  show ?thesis
  proof (cases e)
    case (Key k tgt)
    show ?thesis
      using key [of "\<lparr>kc_isAdmin = bp_isAdmin (bd_props s), kc_inInput = isInputTarget tgt\<rparr>" k] Key
      by (cases "bp_isAdmin (bd_props s)")
        (auto simp: new_commands_def onKey_def dispatch_def step_selection_def Let_def
          split: option.splits if_splits)
  next
    case Reject_Confirm
    then show ?thesis
      by (auto simp: new_commands_def confirmReject_def truthy_def split: option.splits)
  next
    case Reject_Many_Confirm
    then show ?thesis
      by (auto simp: new_commands_def confirmRejectMany_def Let_def nullish_def split: option.splits)
  qed (use g in \<open>auto simp: new_commands_def handler_defs drawer_actions_def\<close>)
qed

theorem hitl_commands_guarded_witness:
  "{i. C_reject i \<in> new_commands (board_start (demo_props False)) Accept_All} = {}"
proof -
  have "board_step (board_start (demo_props False)) Accept_All
      (board_do (board_start (demo_props False)) Accept_All)"
    by (rule board_step.intros) (simp add: board_start_def demo_props_def board_items_def)
  from hitl_commands_guarded [OF this] show ?thesis by simp
qed

text \<open>The groups of the board are those of the reference: one per project (or shot) in the
  order of first use, each with its assets in queue order, so that no asset is lost, repeated
  or put under another project.\<close>

theorem buildGroups_correct:
  "buildGroups keyOf items = groups_ref keyOf items
   \<and> map fst (buildGroups keyOf items) = rev (remdups (rev (map keyOf items)))
   \<and> set (concat (map snd (buildGroups keyOf items))) = set items"
proof -
  have eq: "buildGroups keyOf items = groups_ref keyOf items"
    using group_loop_ref [of keyOf items "[]"] by (simp add: buildGroups_def groups_ref_def)
  show ?thesis unfolding eq groups_ref_def by (auto simp: comp_def)
qed

text \<open>The arrow keys walk the queue in a circle: from the n-th asset, right selects the next and
  left the previous one, with the ends joined, and with nothing selected right starts at the
  first and left at the last.\<close>

theorem arrow_navigation:
  assumes "distinct (map a_id (board_items p))" and "n < length (board_items p)"
    and "bp_selectedId p = Some (a_id (board_items p ! n))" and "a_id (board_items p ! n) \<noteq> []"
  shows "step_selection 1 p =
       [C_select (Some (a_id (board_items p ! ((n + 1) mod length (board_items p)))))]
     \<and> step_selection (- 1) p =
       [C_select (Some (a_id (board_items p !
          (if n = 0 then length (board_items p) - 1 else n - 1))))]
     \<and> step_selection 1 (p\<lparr>bp_selectedId := None\<rparr>) = [C_select (Some (a_id (board_items p ! 0)))]
     \<and> step_selection (- 1) (p\<lparr>bp_selectedId := None\<rparr>) =
       [C_select (Some (a_id (board_items p ! (length (board_items p) - 1))))]"
proof -
  let ?k = "length (board_items p)"
  have idx: "selectedIndex p = int n"
    using findIndex_nth [OF assms(1,2)] assms(3,4) by (simp add: selectedIndex_def)
  have none: "selectedIndex (p\<lparr>bp_selectedId := None\<rparr>) = - 1" by (simp add: selectedIndex_def)
  have same: "board_items (p\<lparr>bp_selectedId := None\<rparr>) = board_items p"
    by (simp add: board_items_def)
  have k: "?k > 0" "board_items p \<noteq> []" using assms(2) by auto
  have "nat ((int n + 1 + int ?k) mod int ?k) = (n + 1) mod ?k"
    by (metis (no_types, lifting) mod_add_self2 nat_int of_nat_1 of_nat_add of_nat_mod)
  moreover have "nat ((int n + - 1 + int ?k) mod int ?k) = (if n = 0 then ?k - 1 else n - 1)"
  proof (cases "n = 0")
    case True
    have "(- 1 + int ?k) mod int ?k = - 1 + int ?k" using k by (intro mod_pos_pos_trivial) simp_all
    with True k show ?thesis by simp
  next
    case False
    have "(int n + - 1 + int ?k) mod int ?k = (int n - 1) mod int ?k" by (simp add: mod_add_self2)
    also have "\<dots> = int n - 1" using assms(2) False by (intro mod_pos_pos_trivial) simp_all
    finally show ?thesis using False by simp
  qed
  moreover have "nat ((- 1 + 1 + int ?k) mod int ?k) = 0" by simp
  moreover have "nat ((0 + - 1 + int ?k) mod int ?k) = ?k - 1"
  proof -
    have "(- 1 + int ?k) mod int ?k = - 1 + int ?k" using k by (intro mod_pos_pos_trivial) simp_all
    then show ?thesis by simp
  qed
  ultimately show ?thesis using k unfolding step_selection_def same idx none Let_def by simp
qed

theorem arrow_navigation_witness:
  "step_selection (- 1) (demo_props True) = [C_select (Some (js ''y''))]"
  using arrow_navigation [of "demo_props True" 0]
  by (simp add: demo_props_def board_items_def demo_asset_def blank_asset_def)

text \<open>The keys stay active behind a dialog and before the details arrive: after R, an A accepts
  the asset whose rejection is still to be confirmed, and the confirmation then requests its
  rejection too; an E before the details are loaded starts from an empty prompt.\<close>

theorem keys_behind_dialog:
  "bd_log (board_do (board_do (board_do (board_start (demo_props True))
       (Key (js ''r'') No_element)) (Key (js ''a'') No_element)) Reject_Confirm)
     = [C_accept (js ''x''), C_reject (js ''x'')]
   \<and> board_guard (demo_props True) (bd_ui (board_do (board_do (board_start (demo_props True))
       (Key (js ''r'') No_element)) (Key (js ''a'') No_element))) Reject_Confirm
   \<and> bu_draftPrompt (bd_ui (board_do (board_start (demo_props True)) (Key (js ''e'') No_element))) = []
   \<and> bu_editing (bd_ui (board_do (board_start (demo_props True)) (Key (js ''e'') No_element)))"
  by (simp add: board_do_def board_start_def onKey_def resolveReviewAction_def dispatch_def
      demo_props_def confirmReject_def Let_def)

end
