(* ===== verification/Config_Forms.thy ===== *)
theory Config_Forms
  imports Library
begin

text \<open>
  The forms of the management pages: a model configuration
  (\<open>cost/ModelConfigFields.schema.ts\<close>), a storage configuration
  (\<open>storage/StorageModeFields.schema.ts\<close>) and a project (\<open>projects/ProjectFields.schema.ts\<close>).
  A schema maps the values of a form to the parsed values, where the schema trims, or to
  nothing when it reports an issue. The texts of the issues are not modelled, nor is the
  parsing of the parameters of a model as JSON.
\<close>

section \<open>Storage configuration\<close>

datatype storage_mode = SM_localfs | SM_s3 | SM_oss | SM_cos | SM_github

record storage_config =
  sc_id :: jsstr
  sc_name :: jsstr
  sc_scope :: jsstr
  sc_orgId :: jsstr
  sc_mode :: storage_mode
  sc_endpoint :: jsstr
  sc_region :: jsstr
  sc_bucket :: jsstr
  sc_accessKeyId :: jsstr
  sc_publicPrefix :: jsstr
  sc_useSsl :: bool
  sc_enabled :: bool
  sc_isDefault :: bool
  sc_hasSecret :: bool

record storage_form =
  sf_name :: jsstr
  sf_mode :: storage_mode
  sf_endpoint :: jsstr
  sf_region :: jsstr
  sf_bucket :: jsstr
  sf_accessKeyId :: jsstr
  sf_secret :: jsstr
  sf_publicPrefix :: jsstr
  sf_useSsl :: bool
  sf_enabled :: bool

definition MODES :: "storage_mode list" where
  "MODES = [SM_localfs, SM_s3, SM_oss, SM_cos, SM_github]"

definition storage_trimmed :: "storage_form \<Rightarrow> storage_form" where
  "storage_trimmed v = v\<lparr>sf_name := trim (sf_name v), sf_endpoint := trim (sf_endpoint v),
     sf_region := trim (sf_region v), sf_bucket := trim (sf_bucket v),
     sf_accessKeyId := trim (sf_accessKeyId v), sf_publicPrefix := trim (sf_publicPrefix v)\<rparr>"

text \<open>The issues of the refinement, by the fields they point at.\<close>

definition storage_issues :: "storage_form \<Rightarrow> jsstr list" where
  "storage_issues v =
     (if sf_mode v = SM_s3 \<or> sf_mode v = SM_oss then
        (if sf_bucket v = [] then [js ''bucket''] else [])
        @ (if sf_endpoint v = [] then [js ''endpoint''] else []) else [])
   @ (if sf_mode v = SM_cos then
        (if sf_bucket v = [] then [js ''bucket''] else [])
        @ (if sf_region v = [] then [js ''region''] else []) else [])
   @ (if sf_mode v = SM_github then
        (if sf_accessKeyId v = [] then [js ''accessKeyId''] else [])
        @ (if sf_bucket v = [] then [js ''bucket''] else []) else [])"

definition storage_schema :: "storage_form \<Rightarrow> storage_form option" where
  "storage_schema v = (let t = storage_trimmed v in
     if sf_name t = [] \<or> storage_issues t \<noteq> [] then None else Some t)"

definition storage_defaults :: "storage_config option \<Rightarrow> storage_form" where
  "storage_defaults init = (case init of
       None \<Rightarrow> \<lparr>sf_name = [], sf_mode = SM_localfs, sf_endpoint = [], sf_region = [], sf_bucket = [],
           sf_accessKeyId = [], sf_secret = [], sf_publicPrefix = [], sf_useSsl = True,
           sf_enabled = True\<rparr>
     | Some c \<Rightarrow> \<lparr>sf_name = sc_name c, sf_mode = sc_mode c, sf_endpoint = sc_endpoint c,
           sf_region = sc_region c, sf_bucket = sc_bucket c, sf_accessKeyId = sc_accessKeyId c,
           sf_secret = [], sf_publicPrefix = sc_publicPrefix c, sf_useSsl = sc_useSsl c,
           sf_enabled = sc_enabled c\<rparr>)"

section \<open>Model configuration\<close>

record catalog_entry =
  ce_provider :: jsstr
  ce_model :: jsstr
  ce_kind :: jsstr
  ce_label :: jsstr
  ce_available :: bool

record model_config =
  mc_id :: jsstr
  mc_orgId :: jsstr
  mc_kind :: jsstr
  mc_provider :: jsstr
  mc_model :: jsstr
  mc_enabled :: bool
  mc_isDefault :: bool
  mc_baseUrl :: jsstr
  mc_hasApiKey :: bool
  mc_apiKey :: "jsstr option"

record model_form =
  mf_provider :: jsstr
  mf_kind :: jsstr
  mf_model :: jsstr
  mf_baseUrl :: jsstr
  mf_apiKey :: jsstr
  mf_enabled :: bool
  mf_isDefault :: bool
  mf_paramsText :: jsstr

definition COMPATIBLE_PROVIDER :: jsstr where
  "COMPATIBLE_PROVIDER = js ''openai-compatible''"

definition model_schema :: "model_form \<Rightarrow> model_form option" where
  "model_schema v = (let t = v\<lparr>mf_model := trim (mf_model v), mf_baseUrl := trim (mf_baseUrl v)\<rparr> in
     if mf_provider t = [] \<or> mf_kind t = [] \<or> mf_model t = []
        \<or> \<not> (mf_provider t \<noteq> COMPATIBLE_PROVIDER \<or> length (mf_baseUrl t) > 0)
     then None else Some t)"

definition providersFor :: "catalog_entry list \<Rightarrow> jsstr list" where
  "providersFor catalog = dedupe_by (\<lambda>p. p) [] (map ce_provider catalog)"

text \<open>The text of the stored parameters (\<open>JSON.stringify\<close>) is an argument.\<close>

definition model_defaults :: "model_config option \<Rightarrow> jsstr list \<Rightarrow> jsstr \<Rightarrow> model_form" where
  "model_defaults init providers paramsText = (case init of
       None \<Rightarrow> \<lparr>mf_provider = (case providers of [] \<Rightarrow> COMPATIBLE_PROVIDER | p # ps \<Rightarrow> p),
           mf_kind = js ''image'', mf_model = [], mf_baseUrl = [], mf_apiKey = [],
           mf_enabled = True, mf_isDefault = False, mf_paramsText = []\<rparr>
     | Some c \<Rightarrow> \<lparr>mf_provider = mc_provider c, mf_kind = mc_kind c, mf_model = mc_model c,
           mf_baseUrl = mc_baseUrl c, mf_apiKey = nullish (mc_apiKey c) [],
           mf_enabled = mc_enabled c, mf_isDefault = mc_isDefault c, mf_paramsText = paramsText\<rparr>)"

datatype save_message = SV_encryption | SV_credentials | SV_incomplete | SV_fields | SV_gone | SV_failed

text \<open>The messages of a failed save, by status and body; \<open>None\<close> is an error that is no answer.\<close>

definition modelConfigErrorMessage :: "(nat \<times> jsstr) option \<Rightarrow> save_message" where
  "modelConfigErrorMessage err = (case err of
       Some (status, body) \<Rightarrow>
         if status = 400 then
           (if str_includes body (js ''encryption'') \<or> str_includes body (js ''STUDIO_CONFIG_ENC_KEY'')
            then SV_encryption
            else if str_includes body (js ''credentials'') then SV_credentials else SV_incomplete)
         else SV_failed
     | None \<Rightarrow> SV_failed)"

definition storageConfigErrorMessage :: "(nat \<times> jsstr) option \<Rightarrow> save_message" where
  "storageConfigErrorMessage err = (case err of
       Some (status, body) \<Rightarrow>
         if status = 400 then
           (if str_includes body (js ''STUDIO_CONFIG_ENC_KEY'') then SV_encryption else SV_fields)
         else if status = 404 then SV_gone else SV_failed
     | None \<Rightarrow> SV_failed)"

section \<open>Project\<close>

record project_form =
  pf_name :: jsstr
  pf_brief :: jsstr
  pf_description :: jsstr
  pf_contentType :: jsstr
  pf_targetPlatform :: jsstr
  pf_style :: jsstr
  pf_plannerProvider :: jsstr
  pf_plannerModel :: jsstr
  pf_imageProvider :: jsstr
  pf_imageModel :: jsstr
  pf_storageConfigId :: jsstr

text \<open>The initial values: every property optional.\<close>

record project_initial =
  pi_name :: "jsstr option"
  pi_brief :: "jsstr option"
  pi_description :: "jsstr option"
  pi_contentType :: "jsstr option"
  pi_targetPlatform :: "jsstr option"
  pi_style :: "jsstr option"
  pi_plannerProvider :: "jsstr option"
  pi_plannerModel :: "jsstr option"
  pi_imageProvider :: "jsstr option"
  pi_imageModel :: "jsstr option"
  pi_storageConfigId :: "jsstr option"

definition projectFormSchema :: "project_form \<Rightarrow> project_form option" where
  "projectFormSchema v = (let t = v\<lparr>pf_name := trim (pf_name v)\<rparr> in
     if length (pf_name t) < 1 \<or> length (pf_name t) > 200 then None else Some t)"

definition createProjectFormSchema :: "project_form \<Rightarrow> project_form option" where
  "createProjectFormSchema v = (case projectFormSchema v of
       None \<Rightarrow> None
     | Some t \<Rightarrow> if length (pf_brief v) < 1 then None else Some t)"

definition project_defaults :: "project_initial option \<Rightarrow> project_form" where
  "project_defaults init = (let g = (\<lambda>f. case init of None \<Rightarrow> [] | Some p \<Rightarrow> nullish (f p) []) in
     \<lparr>pf_name = g pi_name, pf_brief = g pi_brief, pf_description = g pi_description,
      pf_contentType = g pi_contentType, pf_targetPlatform = g pi_targetPlatform,
      pf_style = g pi_style, pf_plannerProvider = g pi_plannerProvider,
      pf_plannerModel = g pi_plannerModel, pf_imageProvider = g pi_imageProvider,
      pf_imageModel = g pi_imageModel, pf_storageConfigId = g pi_storageConfigId\<rparr>)"

section \<open>Facts\<close>

text \<open>Trimming twice is trimming once.\<close>

lemma trim_idem [simp]: "trim (trim s) = trim s"
proof -
  let ?d = "dropWhile is_ws s"
  let ?t = "rev (dropWhile is_ws (rev ?d))"
  have suf: "?d = ?t @ rev (takeWhile is_ws (rev ?d))"
    by (metis rev_append rev_rev_ident takeWhile_dropWhile_id)
  have "dropWhile is_ws ?t = ?t"
  proof (cases "?t = []")
    case True
    then show ?thesis by (simp only: dropWhile.simps)
  next
    case False
    then have "hd ?t = hd ?d" using suf by (metis hd_append2)
    moreover have "?d \<noteq> []" using False suf by force
    then have "\<not> is_ws (hd ?d)" by (rule hd_dropWhile)
    ultimately show ?thesis using False by (cases ?t) simp_all
  qed
  then show ?thesis by (simp add: trim_def dropWhile_idem)
qed

lemma storage_trimmed_idem [simp]: "storage_trimmed (storage_trimmed v) = storage_trimmed v"
  by (simp add: storage_trimmed_def)

section \<open>Properties\<close>

definition config_of :: "storage_form \<Rightarrow> storage_config" where
  "config_of v = \<lparr>sc_id = [], sc_name = sf_name v, sc_scope = [], sc_orgId = [], sc_mode = sf_mode v,
     sc_endpoint = sf_endpoint v, sc_region = sf_region v, sc_bucket = sf_bucket v,
     sc_accessKeyId = sf_accessKeyId v, sc_publicPrefix = sf_publicPrefix v,
     sc_useSsl = sf_useSsl v, sc_enabled = sf_enabled v, sc_isDefault = False,
     sc_hasSecret = (sf_secret v \<noteq> [])\<rparr>"

text \<open>Editing what the form saved gives the form back: the values a schema accepted, stored and
  loaded into the edit form, are accepted unchanged, except that the secret is never filled
  in, for every storage mode; the parsed values of a project form are accepted again too.\<close>

theorem edit_forms_accept_saved:
  assumes "storage_schema v = Some t" and "projectFormSchema w = Some u"
  shows "storage_schema (storage_defaults (Some (config_of t))) = Some (t\<lparr>sf_secret := []\<rparr>)
    \<and> projectFormSchema u = Some u"
proof -
  from assms(1) have t: "t = storage_trimmed v" "sf_name t \<noteq> []" "storage_issues t = []"
    by (auto simp: storage_schema_def Let_def split: if_splits)
  then have fixed: "storage_trimmed t = t" by simp
  have d: "storage_defaults (Some (config_of t)) = t\<lparr>sf_secret := []\<rparr>"
    by (simp add: storage_defaults_def config_of_def)
  have "storage_trimmed (t\<lparr>sf_secret := []\<rparr>) = (storage_trimmed t)\<lparr>sf_secret := []\<rparr>"
    by (simp add: storage_trimmed_def)
  moreover have "storage_issues (t\<lparr>sf_secret := []\<rparr>) = storage_issues t"
    by (simp add: storage_issues_def)
  ultimately have "storage_schema (t\<lparr>sf_secret := []\<rparr>) = Some (t\<lparr>sf_secret := []\<rparr>)"
    using t(2,3) fixed by (simp add: storage_schema_def Let_def)
  moreover have "projectFormSchema u = Some u"
    using assms(2) by (auto simp: projectFormSchema_def Let_def split: if_splits)
  ultimately show ?thesis unfolding d by blast
qed

definition demo_storage :: storage_form where
  "demo_storage = \<lparr>sf_name = js '' main '', sf_mode = SM_cos, sf_endpoint = [],
     sf_region = js ''ap-guangzhou'', sf_bucket = js ''b-1'', sf_accessKeyId = [],
     sf_secret = js ''s'', sf_publicPrefix = [], sf_useSsl = True, sf_enabled = True\<rparr>"

definition demo_project :: project_form where
  "demo_project = (project_defaults None)\<lparr>pf_name := js ''film''\<rparr>"

theorem edit_forms_accept_saved_witness:
  "projectFormSchema demo_project = Some demo_project
   \<and> storage_schema (storage_defaults (Some (config_of (storage_trimmed demo_storage))))
       = Some ((storage_trimmed demo_storage)\<lparr>sf_secret := []\<rparr>)"
proof -
  have "storage_schema demo_storage = Some (storage_trimmed demo_storage)"
    by (simp add: storage_schema_def storage_trimmed_def demo_storage_def storage_issues_def Let_def
        js_def trim_def is_ws_def)
  moreover have "projectFormSchema demo_project = Some demo_project"
    by (simp add: projectFormSchema_def demo_project_def project_defaults_def Let_def js_def
        trim_def is_ws_def)
  ultimately show ?thesis using edit_forms_accept_saved by blast
qed

end
