(* ===== verification/Server_Contract.thy ===== *)
theory Server_Contract
  imports Run_Inputs Config_Forms
begin

text \<open>
  The checks of the server that the client's forms announce to mirror: the design-time and
  run-time validation of inputs (\<open>internal/runinputs/runinputs.go\<close>), the validation of a
  storage configuration (\<open>internal/storageconfig/store.go\<close>) and of a project name
  (\<open>internal/project/store.go\<close>). The theorems say where client and server agree.

  The server sees a string as Unicode code points (\<open>code_points\<close>). The length of a value on
  the wire and the check of a GitHub endpoint are arguments.
\<close>

section \<open>Inputs of a run\<close>

definition maxFields :: nat where
  "maxFields = 64"

definition maxValueBytes :: nat where
  "maxValueBytes = 8 * 1024"

datatype input_error =
    IE_too_many
  | IE_name jsstr
  | IE_options jsstr
  | IE_missing jsstr
  | IE_too_long jsstr
  | IE_number jsstr
  | IE_choice jsstr

text \<open>Types and targets are datatypes here, so the allow lists hold by construction.\<close>

definition checkFieldStructure :: "input_field \<Rightarrow> bool \<Rightarrow> input_error option" where
  "checkFieldStructure f requireOptions =
     (if \<not> nameRe (if_name f) then Some (IE_name (if_name f))
      else if requireOptions \<and> if_type f = IT_select \<and> nullish (if_options f) [] = []
        then Some (IE_options (if_name f))
      else None)"

fun check_fields :: "input_field list \<Rightarrow> input_error option" where
  "check_fields [] = None"
| "check_fields (f # fs) =
     (case checkFieldStructure f True of Some e \<Rightarrow> Some e | None \<Rightarrow> check_fields fs)"

definition ValidateSchema :: "input_field list \<Rightarrow> input_error option" where
  "ValidateSchema schema =
     (if length schema > maxFields then Some IE_too_many else check_fields schema)"

definition optionAllowed :: "input_field_option list \<Rightarrow> jsstr \<Rightarrow> bool" where
  "optionAllowed opts v = list_ex (\<lambda>opt. io_value opt = v) opts"

text \<open>The client sends strings and numbers (an infinite one as \<open>null\<close>, which decodes to no change).\<close>

definition checkValue :: "input_field \<Rightarrow> input_value \<Rightarrow> input_error option" where
  "checkValue f val =
     (if if_type f = IT_number then
        (case val of V_num n \<Rightarrow> None | V_str s \<Rightarrow> Some (IE_number (if_name f)))
      else if if_type f = IT_select then
        (case val of
           V_str s \<Rightarrow> if optionAllowed (nullish (if_options f) []) s then None
                     else Some (IE_choice (if_name f))
         | V_num n \<Rightarrow> Some (IE_choice (if_name f)))
      else None)"

text \<open>A value as text: the content of a string, the literal of a number (\<open>num_text\<close>).\<close>

fun rawToString :: "(js_number \<Rightarrow> jsstr) \<Rightarrow> input_value \<Rightarrow> jsstr" where
  "rawToString num_text (V_str s) = s"
| "rawToString num_text (V_num n) = num_text n"

record resolved =
  rs_Variables :: "jsstr \<rightharpoonup> jsstr"
  rs_BriefOverride :: "input_field_target \<rightharpoonup> jsstr"

definition assign_value :: "(js_number \<Rightarrow> jsstr) \<Rightarrow> input_field \<Rightarrow> input_value \<Rightarrow> resolved \<Rightarrow> resolved" where
  "assign_value num_text f val res =
     (if if_target f = TG_variable
      then res\<lparr>rs_Variables := (rs_Variables res)(if_name f \<mapsto> rawToString num_text val)\<rparr>
      else res\<lparr>rs_BriefOverride := (rs_BriefOverride res)(if_target f \<mapsto> rawToString num_text val)\<rparr>)"

text \<open>\<open>Validate\<close>: the first error, or the values distributed by target.\<close>

fun validate_loop ::
  "(input_value \<Rightarrow> nat) \<Rightarrow> (js_number \<Rightarrow> jsstr) \<Rightarrow> input_field list \<Rightarrow> input_value obj \<Rightarrow> resolved
   \<Rightarrow> input_error + resolved" where
  "validate_loop raw_len num_text [] vals res = Inr res"
| "validate_loop raw_len num_text (f # fs) vals res =
     (case checkFieldStructure f False of
        Some e \<Rightarrow> Inl e
      | None \<Rightarrow> (case obj_get vals (if_name f) of
            None \<Rightarrow> if if_required f = Some True then Inl (IE_missing (if_name f))
                    else validate_loop raw_len num_text fs vals res
          | Some val \<Rightarrow>
              if raw_len val > maxValueBytes then Inl (IE_too_long (if_name f))
              else (case checkValue f val of
                  Some e \<Rightarrow> Inl e
                | None \<Rightarrow> validate_loop raw_len num_text fs vals (assign_value num_text f val res))))"

definition Validate ::
  "(input_value \<Rightarrow> nat) \<Rightarrow> (js_number \<Rightarrow> jsstr) \<Rightarrow> input_field list \<Rightarrow> input_value obj
   \<Rightarrow> input_error + resolved" where
  "Validate raw_len num_text schema vals =
     (if length schema > maxFields then Inl IE_too_many
      else validate_loop raw_len num_text schema vals
        \<lparr>rs_Variables = Map.empty, rs_BriefOverride = Map.empty\<rparr>)"

section \<open>Storage and project\<close>

definition storage_validate :: "(jsstr \<Rightarrow> bool) \<Rightarrow> storage_form \<Rightarrow> bool" where
  "storage_validate api_base_ok v =
     (if sf_mode v \<in> {SM_s3, SM_cos, SM_oss} then \<not> (sf_bucket v = [] \<or> sf_endpoint v = [])
      else if sf_mode v = SM_github then
        \<not> (sf_bucket v = [] \<or> sf_accessKeyId v = [])
        \<and> (sf_endpoint v = [] \<or> api_base_ok (sf_endpoint v))
      else True)"

text \<open>\<open>strings.TrimSpace\<close> on code points, and the check of the name in \<open>Create\<close>.\<close>

definition go_space :: "nat \<Rightarrow> bool" where
  "go_space c \<longleftrightarrow> c \<in> {9, 10, 11, 12, 13, 32, 0x85, 160, 0x1680, 0x2028, 0x2029, 0x202F, 0x205F, 0x3000}
     \<or> (0x2000 \<le> c \<and> c \<le> 0x200A)"

definition TrimSpace :: "nat list \<Rightarrow> nat list" where
  "TrimSpace s = rev (dropWhile go_space (rev (dropWhile go_space s)))"

definition ProjectNameMaxLen :: nat where
  "ProjectNameMaxLen = 200"

datatype name_error = Err_empty_name | Err_name_too_long

definition create_name :: "jsstr \<Rightarrow> name_error + nat list" where
  "create_name s = (let name = TrimSpace (code_points s) in
     if name = [] then Inl Err_empty_name
     else if length name > ProjectNameMaxLen then Inl Err_name_too_long
     else Inr name)"

section \<open>Facts\<close>

lemma check_fields_ok: "check_fields fs = None \<longleftrightarrow> (\<forall>f \<in> set fs. checkFieldStructure f True = None)"
  by (induction fs) (auto split: option.splits)

lemma client_field_ok: "inputFieldError f = None \<Longrightarrow> checkFieldStructure f r = None"
  by (auto simp: inputFieldError_def checkFieldStructure_def nullish_def split: if_splits option.splits)

text \<open>What the server needs of one field of the payload.\<close>

definition field_ok :: "(input_value \<Rightarrow> nat) \<Rightarrow> input_value obj \<Rightarrow> input_field \<Rightarrow> bool" where
  "field_ok raw_len vals f \<longleftrightarrow> (case obj_get vals (if_name f) of
       None \<Rightarrow> if_required f \<noteq> Some True
     | Some val \<Rightarrow> raw_len val \<le> maxValueBytes \<and> checkValue f val = None)"

text \<open>Without an error every field present is distributed.\<close>

definition assign_from ::
  "(js_number \<Rightarrow> jsstr) \<Rightarrow> input_value obj \<Rightarrow> resolved \<Rightarrow> input_field \<Rightarrow> resolved" where
  "assign_from num_text vals res f = (case obj_get vals (if_name f) of
       None \<Rightarrow> res | Some val \<Rightarrow> assign_value num_text f val res)"

lemma validate_loop_result:
  assumes "\<And>f. f \<in> set fs \<Longrightarrow> checkFieldStructure f False = None"
  shows "validate_loop raw_len num_text fs vals res = Inr r \<longleftrightarrow>
    (\<forall>f \<in> set fs. field_ok raw_len vals f) \<and> r = foldl (assign_from num_text vals) res fs"
  using assms
proof (induction fs arbitrary: res)
  case (Cons f fs)
  show ?case
  proof (cases "obj_get vals (if_name f)")
    case None
    with Cons show ?thesis by (simp add: field_ok_def assign_from_def)
  next
    case (Some val)
    with Cons show ?thesis by (auto simp: field_ok_def assign_from_def split: option.split)
  qed
qed auto

lemma assign_from_other:
  "n \<notin> if_name ` set fs \<Longrightarrow>
     rs_Variables (foldl (assign_from num_text vals) res fs) n = rs_Variables res n"
  by (induction fs arbitrary: res)
    (auto simp: assign_from_def assign_value_def split: option.split)

lemma assign_from_variable:
  assumes "distinct (map if_name fs)" and "f \<in> set fs" and "if_target f = TG_variable"
    and "rs_Variables res (if_name f) = None"
  shows "rs_Variables (foldl (assign_from num_text vals) res fs) (if_name f)
     = map_option (rawToString num_text) (obj_get vals (if_name f))"
  using assms
proof (induction fs arbitrary: res)
  case (Cons g fs)
  show ?case
  proof (cases "g = f")
    case True
    have "rs_Variables (assign_from num_text vals res f) (if_name f)
        = map_option (rawToString num_text) (obj_get vals (if_name f))"
      using Cons.prems by (simp add: assign_from_def assign_value_def split: option.split)
    with True Cons.prems show ?thesis by (simp add: assign_from_other)
  next
    case False
    with Cons.prems have "if_name f \<in> if_name ` set fs" by simp
    with Cons.prems have "if_name f \<noteq> if_name g" by auto
    with Cons.prems have "rs_Variables (assign_from num_text vals res g) (if_name f) = None"
      by (auto simp: assign_from_def assign_value_def split: option.split)
    with False Cons show ?thesis by simp
  qed
qed simp

lemma Validate_result:
  assumes "length schema \<le> maxFields" and "\<And>f. f \<in> set schema \<Longrightarrow> checkFieldStructure f False = None"
  shows "Validate raw_len num_text schema vals = Inr r \<longleftrightarrow>
    (\<forall>f \<in> set schema. field_ok raw_len vals f)
    \<and> r = foldl (assign_from num_text vals) \<lparr>rs_Variables = Map.empty, rs_BriefOverride = Map.empty\<rparr> schema"
  using assms by (simp add: Validate_def validate_loop_result)

lemma validate_loop_Inr:
  "validate_loop raw_len num_text fs vals res = Inr r \<Longrightarrow> r = foldl (assign_from num_text vals) res fs"
  by (induction fs arbitrary: res) (auto simp: assign_from_def split: option.splits if_splits)

lemma Validate_Inr:
  "Validate raw_len num_text schema vals = Inr r \<Longrightarrow>
   r = foldl (assign_from num_text vals) \<lparr>rs_Variables = Map.empty, rs_BriefOverride = Map.empty\<rparr> schema"
  by (auto simp: Validate_def validate_loop_Inr split: if_splits)

lemma TrimSpace_length: "length (TrimSpace s) \<le> length s"
proof -
  have "length (dropWhile go_space (rev (dropWhile go_space s))) \<le> length (dropWhile go_space s)"
    using length_dropWhile_le [of go_space "rev (dropWhile go_space s)"] by simp
  also have "\<dots> \<le> length s" by (rule length_dropWhile_le)
  finally show ?thesis by (simp add: TrimSpace_def)
qed

lemma code_points_length: "length (code_points s) \<le> length s"
  by (induction s rule: code_points.induct) auto

definition repeat_units :: "nat \<Rightarrow> jsstr \<Rightarrow> jsstr" where
  "repeat_units n s = concat (replicate n s)"

lemma repeat_units_length: "length (repeat_units n s) = n * length s"
  by (induction n) (simp_all add: repeat_units_def)

lemma repeat_units_front: "repeat_units (Suc n) s = s @ repeat_units n s"
  by (simp add: repeat_units_def)

lemma repeat_units_back: "repeat_units (Suc n) s = repeat_units n s @ s"
  by (induction n) (simp_all add: repeat_units_def)

lemma code_points_repeat:
  "code_points (repeat_units n [0xD83D, 0xDE00]) = replicate n 0x1F600"
  by (induction n) (simp_all add: repeat_units_def)

lemma repeat_units_trim:
  "trim (repeat_units (Suc n) [0xD83D, 0xDE00]) = repeat_units (Suc n) [0xD83D, 0xDE00]"
proof (rule trim_id)
  show "repeat_units (Suc n) [0xD83D, 0xDE00] \<noteq> []"
    and "\<not> is_ws (hd (repeat_units (Suc n) [0xD83D, 0xDE00]))"
    by (simp_all add: repeat_units_front is_ws_def)
  show "\<not> is_ws (last (repeat_units (Suc n) [0xD83D, 0xDE00]))"
    unfolding repeat_units_back by (simp add: is_ws_def)
qed

section \<open>Properties\<close>


definition demo_select :: input_field where
  "demo_select = \<lparr>if_name = js ''tone'', if_label = None, if_type = IT_select,
     if_target = TG_variable, if_options = Some [\<lparr>io_value = js '' calm'', io_label = None\<rparr>],
     if_default = None, if_required = None\<rparr>"

lemma demo_select_ok: "inputFieldError demo_select = None"
  by (simp add: inputFieldError_def demo_select_def nameRe_def name_start_def name_char_def js_def
      trim_def is_ws_def)

lemma demo_select_submit:
  "snd (submit_inputs [demo_select] \<lparr>id_values = [(js ''tone'', js '' calm'')], id_errors = []\<rparr>)
     = Some [(js ''tone'', V_str (js ''calm''))]"
  by (simp add: submit_inputs_def requiredErrors_def buildInputs_def demo_select_def value_of_def
      obj_get_def obj_put_def ins_key_def array_index_def Let_def trim_def is_ws_def js_def)


text \<open>C6: From the dialog to the run: when the server accepts the payload, the variable of every
  declared input with target \<open>variable\<close> holds the trimmed text the user left in the field, or
  the literal of the number it denotes, and is absent when the field is blank or no number.\<close>

theorem client_inputs_delivered:
  assumes dist: "distinct (map if_name schema)" and "f \<in> set schema" and "if_target f = TG_variable"
    and sub: "snd (submit_inputs schema s) = Some payload"
    and val: "Validate raw_len num_text schema payload = Inr r"
  shows "rs_Variables r (if_name f) = (let t = value_of (id_values s) f in
     if t = [] then None
     else if if_type f = IT_number
       then (if to_number t = NaN then None else Some (num_text (to_number t)))
     else Some t)"
proof -
  from sub have payload: "payload = buildInputs schema (id_values s)"
    by (auto simp: submit_inputs_def Let_def split: if_splits)
  from val have "rs_Variables r (if_name f) = map_option (rawToString num_text) (obj_get payload (if_name f))"
    using Validate_Inr [OF val] assign_from_variable [OF assms(1-3)] by simp
  then show ?thesis
    using buildInputs_get [OF assms(1,2), of "id_values s"] by (simp add: payload Let_def)
qed

theorem client_inputs_delivered_witness:
  "\<exists>r. Validate (\<lambda>v. 0) (\<lambda>n. js ''12'') [demo_field (js ''n'') IT_number] [(js ''n'', V_num (Num 12))] = Inr r
     \<and> rs_Variables r (js ''n'') = Some (js ''12'')"
proof -
  let ?f = "demo_field (js ''n'') IT_number"
  have num: "to_number (js ''12'') = Num 12"
    using to_number_dec [of 12] by (simp add: dec.simps js_def)
  have sub: "snd (submit_inputs [?f] \<lparr>id_values = [(js ''n'', js ''12'')], id_errors = []\<rparr>)
      = Some [(js ''n'', V_num (Num 12))]"
    using num
    by (simp add: submit_inputs_def requiredErrors_def buildInputs_def demo_field_def value_of_def
        obj_get_def obj_put_def ins_key_def array_index_def Let_def trim_def is_ws_def js_def)
  have "Validate (\<lambda>v. 0) (\<lambda>n. js ''12'') [?f] [(js ''n'', V_num (Num 12))]
     = Inr (foldl (assign_from (\<lambda>n. js ''12'') [(js ''n'', V_num (Num 12))])
      \<lparr>rs_Variables = Map.empty, rs_BriefOverride = Map.empty\<rparr> [?f])"
    by (simp add: Validate_def maxFields_def checkFieldStructure_def demo_field_def nameRe_def
        name_start_def js_def obj_get_def maxValueBytes_def checkValue_def assign_from_def)
  with client_inputs_delivered [OF _ _ _ sub this, of ?f] num show ?thesis
    by (simp add: demo_field_def value_of_def obj_get_def js_def trim_def is_ws_def)
qed

text \<open>An option whose value has white space around it is accepted by panel and server, offered
  by the dialog and refused by the server when chosen, since the dialog trims what it sends.\<close>

theorem spaced_option_refused:
  "inputFieldError demo_select = None \<and> ValidateSchema [demo_select] = None
   \<and> map io_value (select_choices demo_select) = [js '' calm'']
   \<and> (\<exists>payload. snd (submit_inputs [demo_select]
          \<lparr>id_values = [(js ''tone'', js '' calm'')], id_errors = []\<rparr>) = Some payload
        \<and> Validate (\<lambda>v. 0) num_text [demo_select] payload = Inl (IE_choice (js ''tone'')))"
proof -
  have "nameRe (js ''tone'')" by (simp add: nameRe_def name_start_def name_char_def js_def)
  then have "Validate (\<lambda>v. 0) num_text [demo_select] [(js ''tone'', V_str (js ''calm''))]
      = Inl (IE_choice (js ''tone''))" "ValidateSchema [demo_select] = None"
    by (simp_all add: Validate_def ValidateSchema_def checkFieldStructure_def demo_select_def
        maxFields_def maxValueBytes_def obj_get_def checkValue_def optionAllowed_def)
  with demo_select_ok demo_select_submit show ?thesis
    by (simp add: select_choices_def) (simp add: demo_select_def)
qed

text \<open>Outside the modes of Tencent COS and GitHub the storage form accepts only what the server
  accepts; a COS form with bucket and region but without endpoint, which the form accepts, is
  refused by the server.\<close>

theorem storage_form_agreement:
  assumes "storage_schema v = Some t"
  shows "(sf_mode t \<notin> {SM_cos, SM_github} \<longrightarrow> storage_validate api_base_ok t)
    \<and> (sf_mode t = SM_github \<longrightarrow>
        storage_validate api_base_ok t = (sf_endpoint t = [] \<or> api_base_ok (sf_endpoint t)))
    \<and> (sf_mode t = SM_cos \<longrightarrow> storage_validate api_base_ok t = (sf_endpoint t \<noteq> []))
    \<and> storage_schema demo_storage = Some (storage_trimmed demo_storage)
    \<and> \<not> storage_validate api_base_ok (storage_trimmed demo_storage)"
proof -
  from assms have t: "storage_issues t = []"
    by (auto simp: storage_schema_def Let_def split: if_splits)
  have "storage_schema demo_storage = Some (storage_trimmed demo_storage)"
    "\<not> storage_validate api_base_ok (storage_trimmed demo_storage)"
    by (simp_all add: storage_schema_def storage_trimmed_def demo_storage_def storage_issues_def
        storage_validate_def Let_def js_def trim_def is_ws_def)
  moreover have "(sf_mode t \<notin> {SM_cos, SM_github} \<longrightarrow> storage_validate api_base_ok t)
    \<and> (sf_mode t = SM_github \<longrightarrow>
        storage_validate api_base_ok t = (sf_endpoint t = [] \<or> api_base_ok (sf_endpoint t)))
    \<and> (sf_mode t = SM_cos \<longrightarrow> storage_validate api_base_ok t = (sf_endpoint t \<noteq> []))"
    using t by (cases "sf_mode t") (auto simp: storage_issues_def storage_validate_def split: if_splits)
  ultimately show ?thesis by blast
qed

theorem storage_form_agreement_witness:
  "\<not> storage_validate (\<lambda>e. True) (storage_trimmed demo_storage)"
proof -
  have "storage_schema demo_storage = Some (storage_trimmed demo_storage)"
    by (simp add: storage_schema_def storage_trimmed_def demo_storage_def storage_issues_def Let_def
        js_def trim_def is_ws_def)
  from storage_form_agreement [OF this] show ?thesis by blast
qed

text \<open>A project name the form accepts is never too long for the server; the converse fails, as
  the form counts UTF-16 units and the server code points: 101 characters outside the basic
  plane are too long for the form only.\<close>

theorem project_name_bounds:
  assumes "projectFormSchema v = Some t"
  shows "create_name (pf_name t) \<noteq> Inl Err_name_too_long
    \<and> projectFormSchema (demo_project\<lparr>pf_name := repeat_units 101 [0xD83D, 0xDE00]\<rparr>) = None
    \<and> create_name (repeat_units 101 [0xD83D, 0xDE00]) = Inr (replicate 101 0x1F600)"
proof -
  let ?r = "repeat_units 101 [0xD83D, 0xDE00]"
  from assms have "length (pf_name t) \<le> 200"
    by (auto simp: projectFormSchema_def Let_def split: if_splits)
  then have "length (TrimSpace (code_points (pf_name t))) \<le> ProjectNameMaxLen"
    using TrimSpace_length [of "code_points (pf_name t)"] code_points_length [of "pf_name t"]
    by (simp add: ProjectNameMaxLen_def)
  then have "create_name (pf_name t) \<noteq> Inl Err_name_too_long"
    by (simp add: create_name_def Let_def)
  moreover have "trim ?r = ?r"
    using repeat_units_trim [of 100] by simp
  then have "projectFormSchema (demo_project\<lparr>pf_name := ?r\<rparr>) = None"
    by (simp add: projectFormSchema_def Let_def repeat_units_length)
  moreover have "TrimSpace (replicate 101 0x1F600) = replicate 101 0x1F600"
    by (simp add: TrimSpace_def dropWhile_replicate go_space_def)
  then have "create_name ?r = Inr (replicate 101 0x1F600)"
    unfolding create_name_def Let_def code_points_repeat by (simp add: ProjectNameMaxLen_def)
  ultimately show ?thesis by blast
qed

theorem project_name_bounds_witness:
  "create_name (pf_name demo_project) \<noteq> Inl Err_name_too_long"
proof -
  have "projectFormSchema demo_project = Some demo_project"
    by (simp add: projectFormSchema_def demo_project_def project_defaults_def Let_def js_def
        trim_def is_ws_def)
  from project_name_bounds [OF this] show ?thesis by blast
qed

end
