(* ===== verification/Cost.thy ===== *)
theory Cost
  imports Library
begin

text \<open>
  The cost centre: the helpers of \<open>cost/format.ts\<close> (range presets, ratios, the test for missing
  prices, the range filter of the ledger and its export as CSV), the paged fetch of the ledger
  (\<open>cost/api.ts\<close>), the export handler of the cost route and the figures of
  \<open>cost/CostCenterPage.tsx\<close>. Amounts are exact rationals in place of doubles. \<open>isoText\<close> and
  \<open>date_parse\<close> stand for \<open>toISOString\<close> and \<open>Date.parse\<close> on milliseconds; the answers of the
  endpoint are a function of the cursor, \<open>None\<close> for a request that fails.
\<close>

section \<open>Records\<close>

record aggregate =
  ag_generations :: int
  ag_tokens :: int
  ag_imageCount :: int
  ag_costMicros :: int

record project_aggregate = aggregate +
  pa_projectId :: jsstr
  pa_projectName :: jsstr

record member_aggregate =
  ma_userId :: jsstr
  ma_email :: jsstr
  ma_costMicros :: int
  ma_tokens :: int
  ma_imageCount :: int
  ma_generations :: int
  ma_unpriced :: bool

record ledger_entry =
  lg_id :: jsstr
  lg_projectId :: jsstr
  lg_projectName :: jsstr
  lg_kind :: jsstr
  lg_provider :: jsstr
  lg_model :: jsstr
  lg_tokens :: nat
  lg_imageCount :: nat
  lg_costMicros :: int
  lg_latencyMs :: int
  lg_createdAt :: jsstr

section \<open>Time ranges\<close>

record range_preset =
  rr_value :: jsstr
  rr_label :: jsstr
  rr_days :: "int option"

definition near_days :: "string \<Rightarrow> jsstr" where
  "near_days n = [0x8FD1, 32] @ js n @ [32, 0x5929]"

definition RANGE_PRESETS :: "range_preset list" where
  "RANGE_PRESETS =
     [\<lparr>rr_value = js ''7d'', rr_label = near_days ''7'', rr_days = Some 7\<rparr>,
      \<lparr>rr_value = js ''30d'', rr_label = near_days ''30'', rr_days = Some 30\<rparr>,
      \<lparr>rr_value = js ''90d'', rr_label = near_days ''90'', rr_days = Some 90\<rparr>,
      \<lparr>rr_value = js ''all'', rr_label = [0x5168, 0x90E8, 0x65F6, 0x95F4], rr_days = None\<rparr>]"

definition activePreset :: "jsstr \<Rightarrow> range_preset" where
  "activePreset rangeValue =
     nullish (find (\<lambda>p. rr_value p = rangeValue) RANGE_PRESETS) (RANGE_PRESETS ! 1)"

record time_range =
  tr_from :: "jsstr option"
  tr_to :: "jsstr option"

definition rangeToParams :: "(int \<Rightarrow> jsstr) \<Rightarrow> range_preset \<Rightarrow> int \<Rightarrow> time_range" where
  "rangeToParams isoText preset now = (case rr_days preset of
       None \<Rightarrow> \<lparr>tr_from = None, tr_to = None\<rparr>
     | Some days \<Rightarrow> \<lparr>tr_from = Some (isoText (now - days * 24 * 60 * 60 * 1000)), tr_to = Some (isoText now)\<rparr>)"

text \<open>A bound that does not parse is \<open>NaN\<close>, with which every comparison is false. The outer option
  is \<open>undefined\<close>, the inner one \<open>NaN\<close>.\<close>

definition bound_ms :: "(jsstr \<Rightarrow> int option) \<Rightarrow> jsstr option \<Rightarrow> int option option" where
  "bound_ms date_parse b = (if truthy b then Some (date_parse (the b)) else None)"

definition before :: "int \<Rightarrow> int option option \<Rightarrow> bool" where
  "before t b = (case b of Some (Some m) \<Rightarrow> t < m | _ \<Rightarrow> False)"

definition not_before :: "int \<Rightarrow> int option option \<Rightarrow> bool" where
  "not_before t b = (case b of Some (Some m) \<Rightarrow> t \<ge> m | _ \<Rightarrow> False)"

definition filterLedgerByRange ::
  "(jsstr \<Rightarrow> int option) \<Rightarrow> ledger_entry list \<Rightarrow> time_range \<Rightarrow> ledger_entry list" where
  "filterLedgerByRange date_parse rows rng =
     (let fromMs = bound_ms date_parse (tr_from rng); toMs = bound_ms date_parse (tr_to rng) in
      if fromMs = None \<and> toMs = None then rows
      else filter (\<lambda>r. case date_parse (lg_createdAt r) of
          None \<Rightarrow> True | Some t \<Rightarrow> \<not> before t fromMs \<and> \<not> not_before t toMs) rows)"

section \<open>Figures\<close>

definition costRatio :: "int \<Rightarrow> int \<Rightarrow> rat" where
  "costRatio costMicros maxMicros = (if maxMicros \<le> 0 then 0 else of_int costMicros / of_int maxMicros)"

definition isUnpriced :: "int \<Rightarrow> int \<Rightarrow> int option \<Rightarrow> int option \<Rightarrow> bool" where
  "isUnpriced costMicros tokens imageCount generations \<longleftrightarrow>
     costMicros = 0 \<and> (tokens > 0 \<or> nullish imageCount 0 > 0 \<or> nullish generations 0 > 0)"

definition project_unpriced :: "project_aggregate \<Rightarrow> bool" where
  "project_unpriced p = isUnpriced (ag_costMicros p) (ag_tokens p) (Some (ag_imageCount p)) (Some (ag_generations p))"

definition entry_unpriced :: "ledger_entry \<Rightarrow> bool" where
  "entry_unpriced r = isUnpriced (lg_costMicros r) (int (lg_tokens r)) (Some (int (lg_imageCount r))) None"

definition maxMicros :: "int list \<Rightarrow> int" where
  "maxMicros ms = fold max ms 0"

text \<open>The bars: label and ratio of each project.\<close>

definition project_bars :: "project_aggregate list option \<Rightarrow> (jsstr \<times> rat) list" where
  "project_bars projects = (let ps = nullish projects [] in
     map (\<lambda>p. (if pa_projectName p \<noteq> [] then pa_projectName p else pa_projectId p,
               costRatio (ag_costMicros p) (maxMicros (map ag_costMicros ps)))) ps)"

definition member_bars :: "member_aggregate list option \<Rightarrow> (jsstr \<times> rat) list" where
  "member_bars members = (let ms = nullish members [] in
     map (\<lambda>m. (if ma_email m \<noteq> [] then ma_email m else if ma_userId m \<noteq> [] then ma_userId m
                else [0x672A, 0x5F52, 0x5C5E, 0xFF08, 0x5386, 0x53F2, 0xFF09],
               costRatio (ma_costMicros m) (maxMicros (map ma_costMicros ms)))) ms)"

definition hasData :: "aggregate option \<Rightarrow> project_aggregate list option \<Rightarrow> bool" where
  "hasData agg projects = (case agg of None \<Rightarrow> False
     | Some a \<Rightarrow> ag_generations a > 0 \<or> length (nullish projects []) > 0)"

definition hasUnpriced ::
  "project_aggregate list option \<Rightarrow> member_aggregate list option \<Rightarrow> ledger_entry list option \<Rightarrow> bool" where
  "hasUnpriced projects members generations \<longleftrightarrow>
     list_ex project_unpriced (nullish projects []) \<or> list_ex ma_unpriced (nullish members [])
   \<or> list_ex entry_unpriced (nullish generations [])"

section \<open>The ledger as CSV\<close>

fun double_quotes :: "jsstr \<Rightarrow> jsstr" where
  "double_quotes [] = []"
| "double_quotes (c # s) = (if c = 34 then 34 # 34 # double_quotes s else c # double_quotes s)"

definition csvCell :: "jsstr \<Rightarrow> jsstr" where
  "csvCell v = (if list_ex (\<lambda>c. c = 34 \<or> c = 44 \<or> c = 10) v then 34 # double_quotes v @ [34] else v)"

fun join_with :: "nat \<Rightarrow> jsstr list \<Rightarrow> jsstr" where
  "join_with sep [] = []"
| "join_with sep [x] = x"
| "join_with sep (x # y # xs) = x @ sep # join_with sep (y # xs)"

text \<open>\<open>toFixed(2)\<close>.\<close>

definition fixed2_abs :: "rat \<Rightarrow> jsstr" where
  "fixed2_abs v = (let n = nat \<lfloor>v * 100 + 1 / 2\<rfloor> in
     dec (n div 100) @ [46, 48 + n div 10 mod 10, 48 + n mod 10])"

definition to_fixed2 :: "rat \<Rightarrow> jsstr" where
  "to_fixed2 v = (if v < 0 then 45 # fixed2_abs (- v) else fixed2_abs v)"

definition csv_header :: "jsstr list" where
  "csv_header = [[0x65F6, 0x95F4], [0x9879, 0x76EE], js ''Provider'' @ [0xB7] @ js ''Model'',
     [0x7C7B, 0x578B], [0x7528, 0x91CF], [0x91D1, 0x989D, 40, 0xA5, 41]]"

definition ledger_cells :: "ledger_entry \<Rightarrow> jsstr list" where
  "ledger_cells r = [lg_createdAt r,
     if lg_projectName r \<noteq> [] then lg_projectName r else lg_projectId r,
     lg_provider r @ [32, 0xB7, 32] @ lg_model r, lg_kind r,
     if lg_imageCount r > 0 then dec (lg_imageCount r) @ [32, 0x56FE] else dec (lg_tokens r) @ js '' tok'',
     if entry_unpriced r then [0x672A, 0x5B9A, 0x4EF7] else to_fixed2 (of_int (lg_costMicros r) / 1000000)]"

definition ledgerToCSV :: "ledger_entry list \<Rightarrow> jsstr" where
  "ledgerToCSV rows = join_with 10
     (join_with 44 csv_header # map (\<lambda>r. join_with 44 (map csvCell (ledger_cells r))) rows)"

section \<open>Fetching and exporting\<close>

text \<open>\<open>fetchAllGenerations\<close>: at most as many pages as the first argument says; a page that fails
  fails the whole.\<close>

fun ledger_pages :: "nat \<Rightarrow> (jsstr \<Rightarrow> 'a list_envelope option) \<Rightarrow> jsstr \<Rightarrow> 'a list option" where
  "ledger_pages 0 fetch cursor = Some []"
| "ledger_pages (Suc n) fetch cursor =
     (case fetch cursor of None \<Rightarrow> None
      | Some env \<Rightarrow>
          if le_next_cursor env = [] then Some (le_items env)
          else map_option (\<lambda>rest. le_items env @ rest) (ledger_pages n fetch (le_next_cursor env)))"

definition fetchAllGenerations :: "(jsstr \<Rightarrow> 'a list_envelope option) \<Rightarrow> 'a list option" where
  "fetchAllGenerations fetch = ledger_pages 1000 fetch []"

text \<open>The export handler: ignored while an export runs, a message when nothing is in range, a file
  with its name, text and number of rows, or the message of a failure.\<close>

datatype export_result = EX_ignored | EX_nothing | EX_file jsstr jsstr nat | EX_failed

definition export_name :: "range_preset \<Rightarrow> jsstr \<Rightarrow> jsstr" where
  "export_name preset nowText =
     [0x6210, 0x672C, 0x660E, 0x7EC6, 45] @ rr_label preset @ 45 # take 10 nowText @ js ''.csv''"

definition export_rows ::
  "(int \<Rightarrow> jsstr) \<Rightarrow> range_preset \<Rightarrow> int \<Rightarrow> ledger_entry list \<Rightarrow> export_result" where
  "export_rows isoText preset now rows =
     (if rows = [] then EX_nothing
      else EX_file (export_name preset (isoText now)) (0xFEFF # ledgerToCSV rows) (length rows))"

definition handleExport ::
  "bool \<Rightarrow> (int \<Rightarrow> jsstr) \<Rightarrow> (jsstr \<Rightarrow> int option) \<Rightarrow> (jsstr \<Rightarrow> ledger_entry list_envelope option)
   \<Rightarrow> jsstr \<Rightarrow> int \<Rightarrow> export_result" where
  "handleExport isExporting isoText date_parse fetch rangeValue now =
     (if isExporting then EX_ignored
      else (let preset = activePreset rangeValue in
        case fetchAllGenerations fetch of None \<Rightarrow> EX_failed
        | Some all \<Rightarrow> export_rows isoText preset now
            (filterLedgerByRange date_parse all (rangeToParams isoText preset now))))"

section \<open>Reading the CSV back\<close>

text \<open>A reader of the format of RFC 4180 with line feeds between the records: the reference the
  export is measured against. It recurses under a fuel, one for each cell.\<close>

fun csv_quoted :: "jsstr \<Rightarrow> (jsstr \<times> jsstr) option" where
  "csv_quoted [] = None"
| "csv_quoted (c # s) =
     (if c \<noteq> 34 then map_option (\<lambda>(v, r). (c # v, r)) (csv_quoted s)
      else (case s of
          [] \<Rightarrow> Some ([], [])
        | d # t \<Rightarrow> if d = 34 then map_option (\<lambda>(v, r). (34 # v, r)) (csv_quoted t) else Some ([], s)))"

definition csv_plain :: "nat \<Rightarrow> bool" where
  "csv_plain c \<longleftrightarrow> c \<noteq> 44 \<and> c \<noteq> 10"

definition csv_cell :: "jsstr \<Rightarrow> (jsstr \<times> jsstr) option" where
  "csv_cell s = (if s \<noteq> [] \<and> hd s = 34 then csv_quoted (tl s)
     else Some (takeWhile csv_plain s, dropWhile csv_plain s))"

fun csv_read :: "nat \<Rightarrow> jsstr \<Rightarrow> jsstr list list option" where
  "csv_read 0 s = None"
| "csv_read (Suc n) s = (case csv_cell s of
       None \<Rightarrow> None
     | Some (v, []) \<Rightarrow> Some [[v]]
     | Some (v, c # t) \<Rightarrow>
         if c = 44 then map_option (\<lambda>rows. (v # hd rows) # tl rows) (csv_read n t)
         else if c = 10 then map_option (\<lambda>rows. [v] # rows) (csv_read n t)
         else None)"

definition cell_end :: "jsstr \<Rightarrow> bool" where
  "cell_end r \<longleftrightarrow> r = [] \<or> hd r = 44 \<or> hd r = 10"

lemma csv_quoted_text: "cell_end r \<Longrightarrow> csv_quoted (double_quotes v @ 34 # r) = Some (v, r)"
proof (induction v)
  case Nil
  then show ?case by (cases r) (auto simp: cell_end_def)
qed simp

lemma csv_cell_text:
  assumes "cell_end r"
  shows "csv_cell (csvCell v @ r) = Some (v, r)"
proof (cases "list_ex (\<lambda>c. c = 34 \<or> c = 44 \<or> c = 10) v")
  case True
  then show ?thesis by (simp add: csvCell_def csv_cell_def csv_quoted_text [OF assms])
next
  case False
  then have v: "\<And>c. c \<in> set v \<Longrightarrow> csv_plain c \<and> c \<noteq> 34" by (auto simp: list_ex_iff csv_plain_def)
  have r: "takeWhile csv_plain r = []" "dropWhile csv_plain r = r"
    using assms by (cases r; auto simp: cell_end_def csv_plain_def)+
  have "\<not> (v @ r \<noteq> [] \<and> hd (v @ r) = 34)"
    using v assms by (cases v) (auto simp: cell_end_def)
  moreover have "takeWhile csv_plain (v @ r) = v" "dropWhile csv_plain (v @ r) = r"
    using v r by (simp_all add: takeWhile_append2 dropWhile_append2)
  ultimately show ?thesis using False by (simp only: csvCell_def csv_cell_def if_False)
qed

text \<open>One record, followed by nothing or by the rest of the file.\<close>

lemma csv_read_record:
  assumes "cells \<noteq> []"
  shows "length cells \<le> n \<Longrightarrow> csv_read n (join_with 44 (map csvCell cells)) = Some [cells]"
    and "length cells + m \<le> n \<Longrightarrow> (\<And>k. m \<le> k \<Longrightarrow> csv_read k rest = Some rows) \<Longrightarrow>
       csv_read n (join_with 44 (map csvCell cells) @ 10 # rest) = Some (cells # rows)"
proof -
  show "length cells \<le> n \<Longrightarrow> csv_read n (join_with 44 (map csvCell cells)) = Some [cells]"
    using assms
  proof (induction cells arbitrary: n)
    case (Cons c cs)
    then obtain k where n: "n = Suc k" by (cases n) auto
    show ?case
    proof (cases cs)
      case Nil
      with n csv_cell_text [of "[]" c] show ?thesis by (simp add: cell_end_def)
    next
      case (Cons d ds)
      with n Cons.prems Cons.IH [of k] csv_cell_text [of "44 # join_with 44 (map csvCell cs)" c]
      show ?thesis by (simp add: cell_end_def)
    qed
  qed simp
  show "length cells + m \<le> n \<Longrightarrow> (\<And>k. m \<le> k \<Longrightarrow> csv_read k rest = Some rows) \<Longrightarrow>
       csv_read n (join_with 44 (map csvCell cells) @ 10 # rest) = Some (cells # rows)"
    using assms
  proof (induction cells arbitrary: n)
    case (Cons c cs)
    then obtain k where n: "n = Suc k" by (cases n) auto
    show ?case
    proof (cases cs)
      case Nil
      with n Cons.prems csv_cell_text [of "10 # rest" c] show ?thesis by (simp add: cell_end_def)
    next
      case (Cons d ds)
      with n Cons.prems Cons.IH [of k] csv_cell_text [of "44 # join_with 44 (map csvCell cs) @ 10 # rest" c]
      show ?thesis by (simp add: cell_end_def)
    qed
  qed simp
qed

lemma csv_read_rows:
  assumes "list_all (\<lambda>cs. cs \<noteq> []) rows" and "rows \<noteq> []"
  shows "sum_list (map length rows) \<le> n \<Longrightarrow>
    csv_read n (join_with 10 (map (\<lambda>cs. join_with 44 (map csvCell cs)) rows)) = Some rows"
  using assms
proof (induction rows arbitrary: n)
  case (Cons r rs)
  show ?case
  proof (cases rs)
    case Nil
    with Cons.prems csv_read_record(1) [of r n] show ?thesis by simp
  next
    case (Cons q qs)
    have "csv_read n (join_with 44 (map csvCell r) @ 10 # join_with 10 (map (\<lambda>cs. join_with 44 (map csvCell cs)) rs))
        = Some (r # rs)"
      by (rule csv_read_record(2) [of _ "sum_list (map length rs)"])
        (use Cons.prems Cons.IH \<open>rs = q # qs\<close> in auto)
    then show ?thesis using \<open>rs = q # qs\<close> by simp
  qed
qed simp

lemma header_plain: "map csvCell csv_header = csv_header"
  by (simp add: csv_header_def csvCell_def js_def)

lemma csv_of_ledger:
  assumes "sum_list (map length (csv_header # map ledger_cells rows)) \<le> n"
  shows "csv_read n (ledgerToCSV rows) = Some (csv_header # map ledger_cells rows)"
proof -
  have "ledgerToCSV rows = join_with 10 (map (\<lambda>cs. join_with 44 (map csvCell cs)) (csv_header # map ledger_cells rows))"
    by (simp add: ledgerToCSV_def header_plain o_def)
  moreover have "list_all (\<lambda>cs. cs \<noteq> []) (csv_header # map ledger_cells rows)"
    by (simp add: list_all_iff csv_header_def ledger_cells_def)
  ultimately show ?thesis using csv_read_rows [OF _ _ assms] by (simp only: list.distinct simp_thms)
qed

section \<open>The paged fetch\<close>

text \<open>What the endpoint documents: the entries newest first in pages of \<open>lmt\<close>, with the cursor of
  the next page when a page is full. \<open>cur\<close> numbers the cursors; the first page has none.\<close>

definition serves_pages ::
  "(jsstr \<Rightarrow> 'a list_envelope option) \<Rightarrow> (nat \<Rightarrow> jsstr) \<Rightarrow> nat \<Rightarrow> 'a list \<Rightarrow> bool" where
  "serves_pages fetch cur lmt T \<longleftrightarrow> lmt > 0 \<and> cur 0 = [] \<and> (\<forall>k. cur (Suc k) \<noteq> [])
     \<and> (\<forall>k. \<exists>env. fetch (cur k) = Some env \<and> le_items env = take lmt (drop (k * lmt) T)
          \<and> le_next_cursor env = (if length (le_items env) = lmt then cur (Suc k) else []))"

lemma ledger_pages_take:
  assumes "serves_pages fetch cur lmt T"
  shows "ledger_pages n fetch (cur k) = Some (take (n * lmt) (drop (k * lmt) T))"
proof (induction n arbitrary: k)
  case (Suc n)
  from assms obtain env where env: "fetch (cur k) = Some env"
    and items: "le_items env = take lmt (drop (k * lmt) T)"
    and nxt: "le_next_cursor env = (if length (le_items env) = lmt then cur (Suc k) else [])"
    unfolding serves_pages_def by blast
  from assms have ne: "cur (Suc k) \<noteq> []" by (simp add: serves_pages_def)
  show ?case
  proof (cases "length (le_items env) = lmt")
    case True
    then have "ledger_pages (Suc n) fetch (cur k)
        = Some (take lmt (drop (k * lmt) T) @ take (n * lmt) (drop (Suc k * lmt) T))"
      using env items nxt ne Suc.IH [of "Suc k"] by simp
    also have "\<dots> = Some (take (lmt + n * lmt) (drop (k * lmt) T))"
      by (simp add: take_add add.commute)
    finally show ?thesis by simp
  next
    case False
    with items have short: "length (drop (k * lmt) T) \<le> lmt" by auto
    from False nxt env have "ledger_pages (Suc n) fetch (cur k) = Some (le_items env)" by simp
    with short items show ?thesis by simp
  qed
qed simp

lemma fetchAll_take:
  "serves_pages fetch cur lmt T \<Longrightarrow> fetchAllGenerations fetch = Some (take (1000 * lmt) T)"
  using ledger_pages_take [of fetch cur lmt T 1000 0]
  by (simp add: fetchAllGenerations_def serves_pages_def)

lemma filter_range:
  assumes "\<And>t. date_parse (isoText t) = Some t" and "\<And>t. isoText t \<noteq> []"
  shows "filterLedgerByRange date_parse rows (rangeToParams isoText preset now) =
    (case rr_days preset of None \<Rightarrow> rows
     | Some d \<Rightarrow> filter (\<lambda>r. case date_parse (lg_createdAt r) of None \<Rightarrow> True
         | Some t \<Rightarrow> now - d * 86400000 \<le> t \<and> t < now) rows)"
proof (cases "rr_days preset")
  case None
  then show ?thesis by (simp add: filterLedgerByRange_def rangeToParams_def bound_ms_def)
next
  case (Some d)
  have "(case date_parse (lg_createdAt r) of None \<Rightarrow> True
        | Some t \<Rightarrow> \<not> before t (Some (Some (now - 86400000 * d))) \<and> \<not> not_before t (Some (Some now))) =
      (case date_parse (lg_createdAt r) of None \<Rightarrow> True
        | Some t \<Rightarrow> now - d * 86400000 \<le> t \<and> t < now)" for r
    by (auto simp: before_def not_before_def split: option.split)
  then have f: "filter (\<lambda>r. case date_parse (lg_createdAt r) of None \<Rightarrow> True
        | Some t \<Rightarrow> \<not> before t (Some (Some (now - 86400000 * d))) \<and> \<not> not_before t (Some (Some now))) rows =
      filter (\<lambda>r. case date_parse (lg_createdAt r) of None \<Rightarrow> True
        | Some t \<Rightarrow> now - d * 86400000 \<le> t \<and> t < now) rows" by (intro filter_cong refl)
  have "d * 24 * 60 * 60 * 1000 = 86400000 * d" by simp
  with Some assms f show ?thesis
    by (simp only: filterLedgerByRange_def rangeToParams_def bound_ms_def Let_def option.simps
        time_range.simps truthy_def simp_thms option.sel if_True option.distinct if_False)
qed

lemma fold_max_bound: "x \<in> set (ms :: int list) \<Longrightarrow> x \<le> fold max ms a" and fold_max_start: "(a :: int) \<le> fold max ms a"
proof (induction ms arbitrary: a)
  case (Cons m ms)
  {
    case 1
    then show ?case using Cons.IH(1) [of "max m a"] Cons.IH(2) [of "max m a"] by auto
  next
    case 2
    then show ?case using Cons.IH(2) [of "max m a"] by simp
  }
qed simp_all

lemma fold_max_attained: "fold max ms (a :: int) = a \<or> fold max ms a \<in> set ms"
  by (induction ms arbitrary: a) (auto simp: max_def)

section \<open>Properties\<close>

text \<open>The export: with a ledger of at most a thousand pages the file, without its byte order mark,
  reads back under RFC 4180 as the header and one record per entry of the chosen range, in the
  order of the ledger, whatever commas, quotes and line feeds its texts contain; no entry in
  range means no file. A longer ledger is cut off after a thousand pages.\<close>

theorem ledger_export_correct:
  assumes iso: "\<And>t. date_parse (isoText t) = Some t" "\<And>t. isoText t \<noteq> []"
    and srv: "serves_pages fetch cur lmt T"
  shows "let rows = (case rr_days (activePreset v) of None \<Rightarrow> take (1000 * lmt) T
       | Some d \<Rightarrow> filter (\<lambda>r. case date_parse (lg_createdAt r) of None \<Rightarrow> True
           | Some t \<Rightarrow> now - d * 86400000 \<le> t \<and> t < now) (take (1000 * lmt) T))
     in (case handleExport False isoText date_parse fetch v now of
           EX_nothing \<Rightarrow> rows = []
         | EX_file name text n \<Rightarrow> n = length rows \<and> rows \<noteq> [] \<and> hd text = 0xFEFF
             \<and> csv_read (6 * (n + 1)) (tl text) = Some (csv_header # map ledger_cells rows)
         | _ \<Rightarrow> False)"
proof -
  have len: "sum_list (map length (csv_header # map ledger_cells rows)) \<le> 6 * (length rows + 1)" for rows
    by (induction rows) (simp_all add: csv_header_def ledger_cells_def)
  show ?thesis
    using csv_of_ledger [OF len]
    by (simp add: handleExport_def export_rows_def filter_range [OF iso] fetchAll_take [OF srv] Let_def
        split: option.split)
qed

text \<open>The bars: one per project in order, none longer than the scale when costs are not negative,
  and when some project has a cost the dearest one fills the scale.\<close>

theorem project_bars_bounded:
  assumes "list_all (\<lambda>p. ag_costMicros p \<ge> 0) ps"
  shows "length (project_bars (Some ps)) = length ps
    \<and> list_all (\<lambda>(l, r). 0 \<le> r \<and> r \<le> 1) (project_bars (Some ps))
    \<and> (list_ex (\<lambda>p. ag_costMicros p > 0) ps \<longrightarrow> list_ex (\<lambda>(l, r). r = 1) (project_bars (Some ps)))"
proof -
  let ?ms = "map ag_costMicros ps"
  have le: "ag_costMicros p \<le> maxMicros ?ms" if "p \<in> set ps" for p
    using that fold_max_bound [of "ag_costMicros p" ?ms 0] by (simp add: maxMicros_def)
  have bounded: "list_all (\<lambda>(l, r). 0 \<le> r \<and> r \<le> 1) (project_bars (Some ps))"
    using assms le by (auto simp: project_bars_def costRatio_def list_all_iff Let_def divide_le_eq)
  have full: "list_ex (\<lambda>(l, r). r = 1) (project_bars (Some ps))" if ex: "list_ex (\<lambda>p. ag_costMicros p > 0) ps"
  proof -
    from ex obtain q where q: "q \<in> set ps" "ag_costMicros q > 0" by (auto simp: list_ex_iff)
    with le have pos: "maxMicros ?ms > 0" by fastforce
    then obtain p where "p \<in> set ps" "ag_costMicros p = maxMicros ?ms"
      using fold_max_attained [of ?ms 0] by (auto simp: maxMicros_def)
    with pos show ?thesis
      by (auto simp: project_bars_def costRatio_def list_ex_iff Let_def intro!: bexI [of _ p])
  qed
  from bounded full show ?thesis by (simp add: project_bars_def Let_def)
qed

theorem project_bars_bounded_witness:
  "list_ex (\<lambda>(l, r). r = 1) (project_bars (Some
     [\<lparr>ag_generations = 1, ag_tokens = 2, ag_imageCount = 0, ag_costMicros = 50, pa_projectId = [1], pa_projectName = []\<rparr>]))"
  using project_bars_bounded [of "[\<lparr>ag_generations = 1, ag_tokens = 2, ag_imageCount = 0, ag_costMicros = 50,
      pa_projectId = [1], pa_projectName = []\<rparr>]"] by simp

definition demo_entry :: ledger_entry where
  "demo_entry = \<lparr>lg_id = js ''g'', lg_projectId = js ''p'', lg_projectName = js ''a,b'', lg_kind = js ''chat'',
     lg_provider = js ''x'', lg_model = js ''m'', lg_tokens = 12, lg_imageCount = 0, lg_costMicros = 0,
     lg_latencyMs = 3, lg_createdAt = js ''bad''\<rparr>"

definition demo_iso :: "int \<Rightarrow> jsstr" where
  "demo_iso t = [1, if t < 0 then 1 else 0, nat \<bar>t\<bar>]"

definition demo_parse :: "jsstr \<Rightarrow> int option" where
  "demo_parse s = (case s of [a, b, n] \<Rightarrow> Some (if b = 1 then - int n else int n) | _ \<Rightarrow> None)"

definition demo_fetch :: "jsstr \<Rightarrow> ledger_entry list_envelope option" where
  "demo_fetch c = Some \<lparr>le_items = (if c = [] then [demo_entry] else []), le_next_cursor = []\<rparr>"

theorem ledger_export_correct_witness:
  "case handleExport False demo_iso demo_parse demo_fetch (js ''7d'') 200 of
     EX_file name text n \<Rightarrow> n = 1 \<and> csv_read 12 (tl text) = Some [csv_header, ledger_cells demo_entry]
   | _ \<Rightarrow> False"
proof -
  have iso: "demo_parse (demo_iso t) = Some t" "demo_iso t \<noteq> []" for t
    by (simp_all add: demo_iso_def demo_parse_def)
  have srv: "serves_pages demo_fetch (\<lambda>k. replicate k 1) 2 [demo_entry]"
    by (auto simp: serves_pages_def demo_fetch_def gr0_conv_Suc)
  have bad: "demo_parse (lg_createdAt demo_entry) = Some 100"
    by (simp add: demo_entry_def demo_parse_def js_def)
  have days: "rr_days (activePreset (js ''7d'')) = Some 7"
    by (simp add: activePreset_def RANGE_PRESETS_def near_days_def js_def)
  show ?thesis
    using ledger_export_correct [where date_parse = demo_parse and isoText = demo_iso and fetch = demo_fetch
        and cur = "\<lambda>k. replicate k 1" and lmt = 2 and T = "[demo_entry]" and v = "js ''7d''" and now = 200, OF iso srv]
    by (simp add: days bad Let_def split: export_result.splits)
qed

end
