(* ===== verification/Run_Preview.thy ===== *)
theory Run_Preview
  imports Run_View
begin

text \<open>
  The preview of a finished run: the model of \<open>workflow-canvas/runPreviewModel.ts\<close>, the choice of
  the picture of a shot in \<open>workflow/storyboardAssets.ts\<close>, and the dialog of
  \<open>workflow-canvas/RunPreview.tsx\<close> with its reader and its music view. The JSON of a text node is
  parsed by the codec of \<open>JS_JSON\<close>. What a page shows is a value of \<open>reader_view\<close>.
\<close>

section \<open>Shots and assets\<close>

record shot =
  sh_id :: "jsstr option"
  sh_shotNo :: "int option"
  sh_camera :: "jsstr option"
  sh_scene :: "jsstr option"
  sh_action :: "jsstr option"
  sh_prompt :: "jsstr option"
  sh_duration :: "rat option"

record project_asset =
  pas_id :: jsstr
  pas_shotId :: jsstr
  pas_type :: jsstr
  pas_blobKey :: "jsstr option"
  pas_url :: "jsstr option"
  pas_prompt :: "jsstr option"
  pas_style :: "jsstr option"
  pas_provider :: "jsstr option"
  pas_model :: "jsstr option"
  pas_status :: jsstr
  pas_version :: "int option"
  pas_parentAssetId :: "jsstr option"

definition PREVIEW_IMAGE_STATUSES :: "jsstr list" where
  "PREVIEW_IMAGE_STATUSES = [js ''accepted'', js ''pending_acceptance'', js ''done'']"

definition previewable :: "project_asset \<Rightarrow> bool" where
  "previewable a \<longleftrightarrow> pas_type a = js ''image'' \<and> pas_shotId a \<noteq> [] \<and> pas_status a \<in> set PREVIEW_IMAGE_STATUSES"

definition version_of :: "project_asset \<Rightarrow> int" where
  "version_of a = nullish (pas_version a) 0"

definition keep_latest :: "project_asset \<Rightarrow> (jsstr \<rightharpoonup> project_asset) \<Rightarrow> (jsstr \<rightharpoonup> project_asset)" where
  "keep_latest a byShot =
     (if \<not> previewable a then byShot
      else case byShot (pas_shotId a) of
          None \<Rightarrow> byShot(pas_shotId a \<mapsto> a)
        | Some prev \<Rightarrow> if version_of a > version_of prev then byShot(pas_shotId a \<mapsto> a) else byShot)"

definition latestPreviewImageByShot :: "project_asset list \<Rightarrow> (jsstr \<rightharpoonup> project_asset)" where
  "latestPreviewImageByShot assets = fold keep_latest assets Map.empty"

definition previewImageAssetIdByShotId :: "project_asset list \<Rightarrow> (jsstr \<rightharpoonup> jsstr)" where
  "previewImageAssetIdByShotId assets s = map_option pas_id (latestPreviewImageByShot assets s)"

record preview_page =
  pp_shotId :: jsstr
  pp_imageAssetId :: "jsstr option"
  pp_text :: jsstr

definition pairPages :: "shot list \<Rightarrow> project_asset list \<Rightarrow> preview_page list" where
  "pairPages shots assets = (let imageByShot = previewImageAssetIdByShotId assets in
     map (\<lambda>shot. let shotId = nullish (sh_id shot) [] in
       \<lparr>pp_shotId = shotId, pp_imageAssetId = (if shotId \<noteq> [] then imageByShot shotId else None),
        pp_text = nullish (sh_action shot) []\<rparr>) shots)"

section \<open>Mode and document\<close>

datatype preview_mode = PM_reader | PM_music

text \<open>The words of \<open>MUSIC_HINT\<close>; its flag \<open>i\<close> folds ASCII letters.\<close>

definition music_words :: "jsstr list" where
  "music_words = [[0x8BCD], [0x6B4C], [0x66F2], [0x97F3, 0x4E50], js ''song'', js ''lyric'']"

definition fold_case :: "jsstr \<Rightarrow> jsstr" where
  "fold_case s = map (\<lambda>c. if 65 \<le> c \<and> c \<le> 90 then c + 32 else c) s"

definition MUSIC_HINT :: "jsstr \<Rightarrow> bool" where
  "MUSIC_HINT s = list_ex (str_includes (fold_case s)) music_words"

definition classifyPreviewMode :: "graph_node list \<Rightarrow> jsstr option \<Rightarrow> preview_mode" where
  "classifyPreviewMode nodes workflowName =
     (if truthy workflowName \<and> MUSIC_HINT (the workflowName) then PM_music
      else if list_ex (\<lambda>n. MUSIC_HINT (gn_type n) \<or> MUSIC_HINT (gn_label n)) nodes then PM_music
      else PM_reader)"

record story_doc =
  sd_title :: "jsstr option"
  sd_lyrics :: "jsstr option"
  sd_story :: "jsstr option"
  sd_mood :: "jsstr option"
  sd_coverPrompt :: "jsstr option"

definition str_member :: "(jsstr \<times> json) list \<Rightarrow> string \<Rightarrow> jsstr option" where
  "str_member kvs k = (case obj_get kvs (js k) of
       Some (JStr s) \<Rightarrow> if s \<noteq> [] then Some s else None | _ \<Rightarrow> None)"

definition doc_of :: "(jsstr \<times> json) list \<Rightarrow> story_doc" where
  "doc_of kvs = \<lparr>sd_title = str_member kvs ''title'', sd_lyrics = str_member kvs ''lyrics'',
     sd_story = str_member kvs ''story'', sd_mood = str_member kvs ''mood'',
     sd_coverPrompt = str_member kvs ''coverPrompt''\<rparr>"

text \<open>An array is an object too, with none of the members.\<close>

definition extractStoryDoc :: "graph_node list \<Rightarrow> story_doc option" where
  "extractStoryDoc nodes =
     (case find (\<lambda>n. startsWith (gn_type n) (js ''custom:'') \<and> truthy (gn_output n)) nodes of
        None \<Rightarrow> None
      | Some node \<Rightarrow> (case JSON_parse (the (gn_output node)) of
            Some (JObj kvs) \<Rightarrow> Some (doc_of kvs)
          | Some (JArr vs) \<Rightarrow> Some (doc_of [])
          | _ \<Rightarrow> None))"

definition hasMusicOutput :: "story_doc option \<Rightarrow> project_asset list \<Rightarrow> jsstr option \<Rightarrow> bool" where
  "hasMusicOutput doc assets audioAssetId \<longleftrightarrow>
     truthy (Option.bind doc sd_lyrics) \<or> truthy audioAssetId
   \<or> list_ex (\<lambda>a. pas_type a = js ''audio'') assets"

section \<open>The dialog\<close>

record preview_ui =
  pu_internalMode :: preview_mode
  pu_trackedOpen :: bool
  pu_exportOpen :: bool

definition preview_init :: "graph_node list \<Rightarrow> jsstr option \<Rightarrow> bool \<Rightarrow> preview_ui" where
  "preview_init nodes workflowName open_now = \<lparr>pu_internalMode = classifyPreviewMode nodes workflowName,
     pu_trackedOpen = open_now, pu_exportOpen = False\<rparr>"

text \<open>The adjustment at each render; \<open>mode\<close> is the controlled mode.\<close>

definition preview_render ::
  "graph_node list \<Rightarrow> jsstr option \<Rightarrow> preview_mode option \<Rightarrow> bool \<Rightarrow> preview_ui \<Rightarrow> preview_ui" where
  "preview_render nodes workflowName mode open_now u =
     (if pu_trackedOpen u \<noteq> open_now then
        u\<lparr>pu_trackedOpen := open_now,
          pu_internalMode := (if open_now \<and> mode = None then classifyPreviewMode nodes workflowName
                              else pu_internalMode u)\<rparr>
      else u)"

text \<open>\<open>setMode\<close>: to the owner when it listens, else to the state.\<close>

definition setMode :: "bool \<Rightarrow> preview_mode \<Rightarrow> preview_ui \<Rightarrow> preview_ui \<times> preview_mode option" where
  "setMode has_onModeChange m u =
     (if has_onModeChange then (u, Some m) else (u\<lparr>pu_internalMode := m\<rparr>, None))"

definition effectiveMode :: "bool \<Rightarrow> preview_mode option \<Rightarrow> preview_ui \<Rightarrow> preview_mode" where
  "effectiveMode hasMusic mode u = (if hasMusic then nullish mode (pu_internalMode u) else PM_reader)"

definition dedicatedCover :: "jsstr option \<Rightarrow> jsstr option" where
  "dedicatedCover coverAssetId = (case coverAssetId of None \<Rightarrow> None
     | Some c \<Rightarrow> if trim c = [] then None else Some (trim c))"

section \<open>The reader\<close>

definition first_image :: "preview_page list \<Rightarrow> jsstr option" where
  "first_image pages = (case pages of [] \<Rightarrow> None | p # ps \<Rightarrow> pp_imageAssetId p)"

definition coverImage :: "jsstr option \<Rightarrow> preview_page list \<Rightarrow> jsstr option" where
  "coverImage cover pages = (case cover of None \<Rightarrow> first_image pages | Some c \<Rightarrow> Some c)"

definition contentPages :: "jsstr option \<Rightarrow> preview_page list \<Rightarrow> preview_page list" where
  "contentPages cover pages = (if truthy cover then pages else drop 1 pages)"

definition total_pages :: "jsstr option \<Rightarrow> preview_page list \<Rightarrow> nat" where
  "total_pages cover pages = length (contentPages cover pages) + 1"

definition clamp_page :: "nat \<Rightarrow> int \<Rightarrow> int" where
  "clamp_page npages i = max 0 (min (int npages - 1) i)"

definition next_page :: "nat \<Rightarrow> int \<Rightarrow> int" where
  "next_page npages i = clamp_page npages (i + 1)"

definition prev_page :: "nat \<Rightarrow> int \<Rightarrow> int" where
  "prev_page npages i = clamp_page npages (i - 1)"

definition reader_key :: "nat \<Rightarrow> jsstr \<Rightarrow> int \<Rightarrow> int" where
  "reader_key npages key i = (if key = js ''ArrowLeft'' then prev_page npages i
     else if key = js ''ArrowRight'' then next_page npages i else i)"

datatype reader_view = Intro "jsstr option" jsstr "jsstr option" | Content "jsstr option" jsstr

text \<open>The intro with cover, title and story, or a page with its picture and caption. A picture
  without an id is not shown. An index behind the last page has no page: neither picture nor text.\<close>

definition only_truthy :: "jsstr option \<Rightarrow> jsstr option" where
  "only_truthy v = (if truthy v then v else None)"

definition caption :: "nat \<Rightarrow> jsstr \<Rightarrow> jsstr" where
  "caption index t = (if t \<noteq> [] then t else [0x955C, 0x5934, 32] @ dec index)"

definition reader_page ::
  "story_doc option \<Rightarrow> jsstr option \<Rightarrow> jsstr option \<Rightarrow> preview_page list \<Rightarrow> int \<Rightarrow> reader_view" where
  "reader_page doc workflowName cover pages index =
     (if index = 0 then Intro (only_truthy (coverImage cover pages))
          (nullish (Option.bind doc sd_title) (nullish workflowName [0x4F5C, 0x54C1]))
          (only_truthy (Option.bind doc sd_story))
      else (let ps = contentPages cover pages; k = nat (index - 1) in
        if k < length ps then Content (only_truthy (pp_imageAssetId (ps ! k))) (caption (nat index) (pp_text (ps ! k)))
        else Content None (caption (nat index) [])))"

text \<open>The controls: the arrows at the sides, the buttons at the bottom.\<close>

definition prev_shown :: "int \<Rightarrow> bool" where "prev_shown index \<longleftrightarrow> index > 0"
definition next_shown :: "nat \<Rightarrow> int \<Rightarrow> bool" where "next_shown npages index \<longleftrightarrow> index < int npages - 1"
definition prev_enabled :: "int \<Rightarrow> bool" where "prev_enabled index \<longleftrightarrow> index \<noteq> 0"
definition next_enabled :: "nat \<Rightarrow> int \<Rightarrow> bool" where "next_enabled npages index \<longleftrightarrow> index \<noteq> int npages - 1"

section \<open>The music view\<close>

fun split_lines :: "jsstr \<Rightarrow> jsstr list" where
  "split_lines [] = [[]]"
| "split_lines (c # s) =
     (if c = 10 then [] # split_lines s
      else case split_lines s of [] \<Rightarrow> [[c]] | l # ls \<Rightarrow> (c # l) # ls)"

definition isChorus :: "jsstr \<Rightarrow> bool" where
  "isChorus line = (let l = fold_case (trim line) in
     startsWith l [0x526F, 0x6B4C] \<or> startsWith l (js ''chorus''))"

definition lyric_lines :: "story_doc option \<Rightarrow> (jsstr \<times> bool) list option" where
  "lyric_lines doc = (if truthy (Option.bind doc sd_lyrics)
     then Some (map (\<lambda>l. (if l \<noteq> [] then l else [32], isChorus l)) (split_lines (the (Option.bind doc sd_lyrics))))
     else None)"

record music_ui =
  mu_audioId :: "jsstr option"
  mu_pending :: bool
  mu_isError :: bool

datatype transport = T_audio jsstr | T_generating | T_play bool bool

text \<open>A play button carries whether it is disabled and whether it offers a retry.\<close>

definition transport_bar :: "story_doc option \<Rightarrow> music_ui \<Rightarrow> transport" where
  "transport_bar doc u = (if truthy (mu_audioId u) then T_audio (the (mu_audioId u))
     else if mu_pending u then T_generating
     else T_play (\<not> truthy (Option.bind doc sd_lyrics)) (mu_isError u))"

definition music_init :: "jsstr option \<Rightarrow> music_ui" where
  "music_init audioAssetId = \<lparr>mu_audioId = audioAssetId, mu_pending = False, mu_isError = False\<rparr>"

text \<open>The click on play, with the text it sends, and the answer, with the id of the new asset.\<close>

definition click_play :: "story_doc option \<Rightarrow> music_ui \<Rightarrow> music_ui \<times> jsstr option" where
  "click_play doc u = (case transport_bar doc u of
       T_play False retry \<Rightarrow> (u\<lparr>mu_pending := True, mu_isError := False\<rparr>, Some (nullish (Option.bind doc sd_lyrics) []))
     | _ \<Rightarrow> (u, None))"

definition play_answer :: "jsstr option \<Rightarrow> music_ui \<Rightarrow> music_ui" where
  "play_answer r u = (case r of
       None \<Rightarrow> u\<lparr>mu_pending := False, mu_isError := True\<rparr>
     | Some i \<Rightarrow> u\<lparr>mu_pending := False, mu_audioId := Some i\<rparr>)"

section \<open>The newest picture\<close>

text \<open>The reference: the first of the assets with the greatest version.\<close>

definition newest :: "project_asset list \<Rightarrow> project_asset option" where
  "newest as = find (\<lambda>a. list_all (\<lambda>b. version_of b \<le> version_of a) as) as"

lemma newest_Nil [simp]: "newest [] = None"
  by (simp add: newest_def)

lemma newest_SomeD: "newest as = Some a \<Longrightarrow> a \<in> set as \<and> (\<forall>b \<in> set as. version_of b \<le> version_of a)"
  unfolding newest_def by (drule find_SomeD) (simp add: list_all_iff)

lemma newest_exists:
  assumes "as \<noteq> []"
  shows "newest as \<noteq> None"
proof -
  have "Max (version_of ` set as) \<in> version_of ` set as" using assms by (intro Max_in) auto
  then obtain a where "a \<in> set as" "version_of a = Max (version_of ` set as)" by auto
  then have "list_all (\<lambda>b. version_of b \<le> version_of a) as" by (simp add: list_all_iff)
  with \<open>a \<in> set as\<close> show ?thesis by (auto simp: newest_def find_None_iff_ball)
qed

lemma newest_snoc:
  "newest (as @ [a]) = (case newest as of None \<Rightarrow> Some a
     | Some p \<Rightarrow> if version_of a > version_of p then Some a else Some p)"
proof (cases "newest as")
  case None
  with newest_exists [of as] have "as = []" by auto
  then show ?thesis by (simp add: newest_def)
next
  case (Some p)
  note p = newest_SomeD [OF Some]
  let ?P = "\<lambda>x. list_all (\<lambda>b. version_of b \<le> version_of x) (as @ [a])"
  show ?thesis
  proof (cases "version_of a > version_of p")
    case True
    with p have "find ?P as = None" by (fastforce simp: find_None_iff_ball list_all_iff)
    moreover from True p have "?P a" by (fastforce simp: list_all_iff)
    ultimately show ?thesis using Some True by (simp add: newest_def find_append)
  next
    case False
    with p have "find ?P as = newest as"
      unfolding newest_def by (intro find_cong) (fastforce simp: list_all_iff)+
    with Some False show ?thesis by (simp add: newest_def [of "as @ [a]"] find_append)
  qed
qed

lemma latest_is_newest:
  "latestPreviewImageByShot assets s = newest (filter (\<lambda>a. previewable a \<and> pas_shotId a = s) assets)"
proof (induction assets rule: rev_induct)
  case Nil
  then show ?case by (simp add: latestPreviewImageByShot_def)
next
  case (snoc a as)
  then show ?case
    by (auto simp: latestPreviewImageByShot_def keep_latest_def newest_snoc split: option.split)
qed

section \<open>Turning the pages\<close>

definition view_images :: "reader_view \<Rightarrow> jsstr list" where
  "view_images v = (case v of Intro i t s \<Rightarrow> (case i of None \<Rightarrow> [] | Some x \<Rightarrow> [x])
     | Content i c \<Rightarrow> (case i of None \<Rightarrow> [] | Some x \<Rightarrow> [x]))"

definition view_captions :: "reader_view \<Rightarrow> jsstr list" where
  "view_captions v = (case v of Intro i t s \<Rightarrow> [] | Content i c \<Rightarrow> [c])"

definition image_list :: "jsstr option \<Rightarrow> jsstr list" where
  "image_list i = (if truthy i then [the i] else [])"

lemma image_list_cases: "(case only_truthy i of None \<Rightarrow> [] | Some x \<Rightarrow> [x]) = image_list i"
  by (cases i) (auto simp: only_truthy_def image_list_def)

lemma reader_index_bounds:
  "0 < n \<Longrightarrow> 0 \<le> i \<Longrightarrow> i < int n \<Longrightarrow> 0 \<le> fold (reader_key n) keys i \<and> fold (reader_key n) keys i < int n"
proof (induction keys arbitrary: i)
  case (Cons key keys)
  from Cons.prems have "0 \<le> reader_key n key i \<and> reader_key n key i < int n"
    by (simp add: reader_key_def next_page_def prev_page_def clamp_page_def min_def)
  with Cons show ?case by simp
qed simp

lemma press_right: "k < n \<Longrightarrow> fold (reader_key n) (replicate k (js ''ArrowRight'')) 0 = int k"
proof (induction k)
  case (Suc k)
  have "fold (reader_key n) (replicate (Suc k) (js ''ArrowRight'')) 0
      = reader_key n (js ''ArrowRight'') (fold (reader_key n) (replicate k (js ''ArrowRight'')) 0)"
    by (simp add: funpow_swap1)
  also have "\<dots> = reader_key n (js ''ArrowRight'') (int k)" using Suc by simp
  also have "\<dots> = int (Suc k)"
    using Suc.prems by (simp add: reader_key_def next_page_def clamp_page_def)
  finally show ?case .
qed simp

text \<open>The tour: the views met when the right arrow is pressed again and again.\<close>

definition reader_tour ::
  "story_doc option \<Rightarrow> jsstr option \<Rightarrow> jsstr option \<Rightarrow> preview_page list \<Rightarrow> reader_view list" where
  "reader_tour doc workflowName cover pages = (let n = total_pages cover pages in
     map (\<lambda>k. reader_page doc workflowName cover pages
                (fold (reader_key n) (replicate k (js ''ArrowRight'')) 0)) [0..<n])"

lemma reader_tour_pages:
  "reader_tour doc wname cover pages =
     reader_page doc wname cover pages 0 #
     map (\<lambda>(k, p). Content (only_truthy (pp_imageAssetId p)) (caption (k + 1) (pp_text p)))
       (enumerate 0 (contentPages cover pages))"
proof -
  let ?ps = "contentPages cover pages"
  have "reader_tour doc wname cover pages = map (\<lambda>k. reader_page doc wname cover pages (int k)) [0..<length ?ps + 1]"
    unfolding reader_tour_def total_pages_def Let_def
    by (rule map_cong [OF refl]) (subst press_right, auto simp: less_Suc_eq)
  also have "\<dots> = reader_page doc wname cover pages 0 # map (\<lambda>k. reader_page doc wname cover pages (int (Suc k))) [0..<length ?ps]"
    by (simp add: upt_conv_Cons map_Suc_upt [symmetric] del: upt_Suc)
  also have "map (\<lambda>k. reader_page doc wname cover pages (int (Suc k))) [0..<length ?ps]
      = map (\<lambda>(k, p). Content (only_truthy (pp_imageAssetId p)) (caption (k + 1) (pp_text p))) (enumerate 0 ?ps)"
    by (rule nth_equalityI) (simp_all add: reader_page_def nth_enumerate_eq Let_def nat_add_distrib)
  finally show ?thesis .
qed

lemma cover_images:
  assumes "cover = dedicatedCover c"
  shows "image_list (coverImage cover pages) @ concat (map (\<lambda>p. image_list (pp_imageAssetId p)) (contentPages cover pages))
    = image_list cover @ concat (map (\<lambda>p. image_list (pp_imageAssetId p)) pages)"
proof (cases cover)
  case None
  then show ?thesis
    by (cases pages) (simp_all add: coverImage_def contentPages_def first_image_def image_list_def)
next
  case (Some x)
  with assms have "x \<noteq> []" by (auto simp: dedicatedCover_def split: option.splits if_splits)
  with Some show ?thesis by (simp add: coverImage_def contentPages_def)
qed

lemma tour_images:
  "concat (map view_images (reader_tour doc wname cover pages)) =
     image_list (coverImage cover pages) @ concat (map (\<lambda>p. image_list (pp_imageAssetId p)) (contentPages cover pages))"
proof -
  have "concat (map view_images (map (\<lambda>(k, p). Content (only_truthy (pp_imageAssetId p)) (caption (k + 1) (pp_text p)))
        (enumerate n ps))) = concat (map (\<lambda>p. image_list (pp_imageAssetId p)) ps)" for n ps
    by (induction ps arbitrary: n) (simp_all add: view_images_def image_list_cases)
  then show ?thesis
    by (simp add: reader_tour_pages del: map_map) (simp add: reader_page_def view_images_def image_list_cases)
qed

lemma tour_captions:
  "concat (map view_captions (reader_tour doc wname cover pages)) =
     map (\<lambda>(k, t). caption (k + 1) t) (enumerate 0 (map pp_text (contentPages cover pages)))"
proof -
  have "concat (map view_captions (map (\<lambda>(k, p). Content (only_truthy (pp_imageAssetId p)) (caption (k + 1) (pp_text p)))
        (enumerate n ps))) = map (\<lambda>(k, t). caption (k + 1) t) (enumerate n (map pp_text ps))" for n ps
    by (induction ps arbitrary: n) (simp_all add: view_captions_def)
  then show ?thesis
    by (simp add: reader_tour_pages del: map_map) (simp add: reader_page_def view_captions_def)
qed

text \<open>The picture of a shot, by the reference.\<close>

definition shot_images :: "project_asset list \<Rightarrow> shot \<Rightarrow> jsstr list" where
  "shot_images assets sh = (let s = nullish (sh_id sh) [] in
     if s = [] then []
     else image_list (map_option pas_id (newest (filter (\<lambda>a. previewable a \<and> pas_shotId a = s) assets))))"

lemma pairPages_images:
  "concat (map (\<lambda>p. image_list (pp_imageAssetId p)) (pairPages shots assets)) = concat (map (shot_images assets) shots)"
  by (induction shots)
    (simp_all add: pairPages_def shot_images_def previewImageAssetIdByShotId_def latest_is_newest Let_def image_list_def)

lemma pairPages_content:
  "map pp_text (contentPages (dedicatedCover c) (pairPages shots assets)) =
     map (\<lambda>sh. nullish (sh_action sh) []) (if dedicatedCover c = None then drop 1 shots else shots)"
  by (simp add: contentPages_def pairPages_def dedicatedCover_def Let_def o_def drop_map [symmetric]
      split: option.split)

lemma enumerate_key: "map (\<lambda>(k, x). g k (f x)) (enumerate n xs) = map (\<lambda>(k, y). g k y) (enumerate n (map f xs))"
  by (induction xs arbitrary: n) simp_all

section \<open>Properties\<close>

text \<open>The picture of a shot is the newest of its previewable pictures, the first one among equal
  versions.\<close>

theorem preview_image_newest:
  "previewImageAssetIdByShotId assets s =
     map_option pas_id (newest (filter (\<lambda>a. previewable a \<and> pas_shotId a = s) assets))"
  by (simp add: previewImageAssetIdByShotId_def latest_is_newest)

text \<open>The reader: whatever arrow keys are pressed, the page stays within the book; turning the
  pages from the intro shows the dedicated cover of the project, if it has one, and then the newest
  previewable picture of every shot, each once and in the order of the shots; the captions are
  those of all shots with a dedicated cover, and of all but the first without one.\<close>

theorem reader_tour_correct:
  fixes shots :: "shot list" and assets :: "project_asset list" and c :: "jsstr option"
  defines "pages \<equiv> pairPages shots assets" and "cover \<equiv> dedicatedCover c"
  shows "0 \<le> fold (reader_key (total_pages cover pages)) keys 0
    \<and> fold (reader_key (total_pages cover pages)) keys 0 < int (total_pages cover pages)
    \<and> concat (map view_images (reader_tour doc wname cover pages))
        = image_list cover @ concat (map (shot_images assets) shots)
    \<and> concat (map view_captions (reader_tour doc wname cover pages))
        = map (\<lambda>(k, sh). caption (k + 1) (nullish (sh_action sh) []))
            (enumerate 0 (if cover = None then drop 1 shots else shots))"
proof (intro conjI)
  note dd = pages_def cover_def
  show "0 \<le> fold (reader_key (total_pages cover pages)) keys 0"
    and "fold (reader_key (total_pages cover pages)) keys 0 < int (total_pages cover pages)"
    using reader_index_bounds [of "total_pages cover pages" 0 keys] by (simp_all add: total_pages_def)
  show "concat (map view_images (reader_tour doc wname cover pages))
      = image_list cover @ concat (map (shot_images assets) shots)"
    using cover_images [of cover c pages]
    by (simp add: tour_images cover_def) (simp add: pages_def pairPages_images)
  show "concat (map view_captions (reader_tour doc wname cover pages))
      = map (\<lambda>(k, sh). caption (k + 1) (nullish (sh_action sh) []))
            (enumerate 0 (if cover = None then drop 1 shots else shots))"
    unfolding tour_captions pages_def cover_def pairPages_content by (rule enumerate_key [symmetric])
qed

end
