(* ===== verification/Export_Dialog.thy ===== *)
theory Export_Dialog
  imports Event_System
begin

text \<open>
  The export dialog (\<open>workflow/ExportDialog.tsx\<close>) with its creation request and the polled job
  (\<open>useCreateExport\<close> and \<open>useExportJob\<close> of \<open>workflow/api.ts\<close>). The dialog stays mounted while
  it is closed; the answers of the job query are kept by job id, as the query cache keeps them.
\<close>

section \<open>State\<close>

datatype export_format = EF_pdf | EF_epub | EF_zip
datatype job_status = JS_pending | JS_running | JS_done | JS_failed

record export_job =
  xj_id :: jsstr
  xj_format :: jsstr
  xj_status :: job_status
  xj_sizeBytes :: "nat option"
  xj_error :: "jsstr option"
  xj_createdAt :: jsstr

datatype export_toast = X_started | X_quota | X_failed | X_job_failed "jsstr option"

datatype export_command = X_create export_format "jsstr option" | X_close | X_toast export_toast

text \<open>\<open>xd_creating\<close> counts the creations in flight, \<open>xd_jobs\<close> is the query cache, \<open>xd_seen\<close> what
  the effect on \<open>[status, job?.error]\<close> saw last.\<close>

record export_dialog =
  xd_open :: bool
  xd_planId :: "jsstr option"
  xd_format :: export_format
  xd_jobId :: "jsstr option"
  xd_creating :: nat
  xd_jobs :: "jsstr \<rightharpoonup> export_job"
  xd_seen :: "job_status option \<times> jsstr option"
  xd_log :: "export_command list"

definition shown_job :: "export_dialog \<Rightarrow> export_job option" where
  "shown_job d = (if truthy (xd_jobId d) then xd_jobs d (the (xd_jobId d)) else None)"

definition job_state :: "export_dialog \<Rightarrow> job_status option" where
  "job_state d = map_option xj_status (shown_job d)"

definition job_error :: "export_dialog \<Rightarrow> jsstr option" where
  "job_error d = Option.bind (shown_job d) xj_error"

definition polling :: "export_dialog \<Rightarrow> bool" where
  "polling d \<longleftrightarrow> truthy (xd_jobId d) \<and> job_state d \<noteq> Some JS_done \<and> job_state d \<noteq> Some JS_failed"

definition busy :: "export_dialog \<Rightarrow> bool" where
  "busy d \<longleftrightarrow> xd_creating d > 0 \<or> polling d"

text \<open>The query asks again after every answer whose status is not final.\<close>

definition poll_again :: "export_dialog \<Rightarrow> bool" where
  "poll_again d \<longleftrightarrow> truthy (xd_jobId d) \<and> \<not> (job_state d = Some JS_done \<or> job_state d = Some JS_failed)"

definition downloadUrl :: "(jsstr \<Rightarrow> jsstr) \<Rightarrow> jsstr \<Rightarrow> jsstr option \<Rightarrow> export_dialog \<Rightarrow> jsstr" where
  "downloadUrl encode origin token d = (if truthy (xd_jobId d)
     then origin @ js ''/api/exports/'' @ the (xd_jobId d) @ js ''/content''
        @ (if truthy token then js ''?token='' @ encode (the token) else [])
     else [])"

section \<open>Steps\<close>

datatype export_event =
    Export_Open "jsstr option"
  | Export_Close
  | Click_Format export_format
  | Click_Export
  | Create_Answer "jsstr + nat option"
  | Job_Answer export_job

fun export_guard :: "export_dialog \<Rightarrow> export_event \<Rightarrow> bool" where
  "export_guard d (Export_Open planId) = (\<not> xd_open d)"
| "export_guard d Export_Close = xd_open d"
| "export_guard d (Click_Format f) = (xd_open d \<and> \<not> busy d)"
| "export_guard d Click_Export = (xd_open d \<and> \<not> busy d)"
| "export_guard d (Create_Answer r) = (xd_creating d > 0)"
| "export_guard d (Job_Answer j) = True"

text \<open>An answer of the job query may come at any time, also after the dialog has let go of the job.\<close>

definition say :: "export_toast \<Rightarrow> export_dialog \<Rightarrow> export_dialog" where
  "say t d = d\<lparr>xd_log := xd_log d @ [X_toast t]\<rparr>"

text \<open>The reset that follows a change of \<open>open\<close>, the answer of a creation and of the query.\<close>

definition close_export :: "export_dialog \<Rightarrow> export_dialog" where
  "close_export d = d\<lparr>xd_open := False, xd_jobId := None, xd_format := EF_pdf, xd_log := xd_log d @ [X_close]\<rparr>"

definition submit_export :: "export_dialog \<Rightarrow> export_dialog" where
  "submit_export d = d\<lparr>xd_creating := xd_creating d + 1,
     xd_log := xd_log d @ [X_create (xd_format d) (if truthy (xd_planId d) then xd_planId d else None)]\<rparr>"

fun create_answered :: "jsstr + nat option \<Rightarrow> export_dialog \<Rightarrow> export_dialog" where
  "create_answered (Inl jobId) d = say X_started (d\<lparr>xd_creating := xd_creating d - 1, xd_jobId := Some jobId\<rparr>)"
| "create_answered (Inr code) d =
     say (if code = Some 429 then X_quota else X_failed) (d\<lparr>xd_creating := xd_creating d - 1\<rparr>)"

fun export_handle :: "export_event \<Rightarrow> export_dialog \<Rightarrow> export_dialog" where
  "export_handle (Export_Open planId) d = d\<lparr>xd_open := True, xd_planId := planId\<rparr>"
| "export_handle Export_Close d = close_export d"
| "export_handle (Click_Format f) d = d\<lparr>xd_format := f\<rparr>"
| "export_handle Click_Export d = submit_export d"
| "export_handle (Create_Answer r) d = create_answered r d"
| "export_handle (Job_Answer j) d = d\<lparr>xd_jobs := (xd_jobs d)(xj_id j \<mapsto> j)\<rparr>"

definition failed_effect :: "export_dialog \<Rightarrow> export_dialog" where
  "failed_effect d = (let now = (job_state d, job_error d) in
     if xd_seen d = now then d
     else (if job_state d = Some JS_failed
           then say (X_job_failed (if truthy (job_error d) then job_error d else None)) (d\<lparr>xd_seen := now\<rparr>)
           else d\<lparr>xd_seen := now\<rparr>))"

definition export_do :: "export_event \<Rightarrow> export_dialog \<Rightarrow> export_dialog" where
  "export_do e d = failed_effect (export_handle e d)"

inductive export_step :: "export_dialog \<Rightarrow> export_event \<Rightarrow> export_dialog \<Rightarrow> bool" where
  "export_guard d e \<Longrightarrow> export_step d e (export_do e d)"

inductive_cases export_stepE: "export_step d e d'"

definition export_start :: export_dialog where
  "export_start = \<lparr>xd_open = False, xd_planId = None, xd_format = EF_pdf, xd_jobId = None, xd_creating = 0,
     xd_jobs = Map.empty, xd_seen = (None, None), xd_log = []\<rparr>"

section \<open>Facts\<close>

fun is_create :: "export_command \<Rightarrow> bool" where
  "is_create (X_create f p) = True"
| "is_create c = False"

fun is_job_failure :: "export_command \<Rightarrow> bool" where
  "is_job_failure (X_toast (X_job_failed e)) = True"
| "is_job_failure c = False"

fun answers_create :: "export_event \<Rightarrow> bool" where
  "answers_create (Create_Answer r) = True"
| "answers_create e = False"

definition job_view :: "export_dialog \<Rightarrow> job_status option \<times> jsstr option" where
  "job_view d = (job_state d, job_error d)"

lemma view_fields:
  "xd_jobId d = xd_jobId d' \<Longrightarrow> xd_jobs d = xd_jobs d' \<Longrightarrow> job_view d = job_view d'"
  by (simp add: job_view_def job_state_def job_error_def shown_job_def)

lemma failed_effect_simps [simp]:
  "xd_creating (failed_effect d) = xd_creating d" "xd_seen (failed_effect d) = job_view d"
  "count_of is_create (xd_log (failed_effect d)) = count_of is_create (xd_log d)"
  "xd_open (failed_effect d) = xd_open d" "xd_jobId (failed_effect d) = xd_jobId d"
  "xd_format (failed_effect d) = xd_format d" "xd_jobs (failed_effect d) = xd_jobs d"
  by (simp_all add: failed_effect_def job_view_def say_def Let_def)

lemma failed_effect_view [simp]: "job_view (failed_effect d) = job_view d"
  by (rule view_fields) simp_all

lemma failed_effect_log:
  "count_of is_job_failure (xd_log (failed_effect d)) = count_of is_job_failure (xd_log d)
     + (if xd_seen d \<noteq> job_view d \<and> fst (job_view d) = Some JS_failed then 1 else 0)"
  by (auto simp: failed_effect_def job_view_def say_def Let_def)

lemmas export_handler_defs = close_export_def submit_export_def say_def

lemma export_handle_counts:
  assumes "export_guard d e" and "xd_creating d \<le> 1"
  shows "xd_creating (export_handle e d) \<le> 1
    \<and> xd_creating (export_handle e d) + (if answers_create e then 1 else 0) + count_of is_create (xd_log d)
      = xd_creating d + count_of is_create (xd_log (export_handle e d))
    \<and> count_of is_job_failure (xd_log (export_handle e d)) = count_of is_job_failure (xd_log d)
    \<and> xd_seen (export_handle e d) = xd_seen d"
proof (cases e)
  case (Create_Answer r)
  with assms show ?thesis by (cases r) (auto simp: export_handler_defs)
qed (use assms in \<open>auto simp: export_handler_defs busy_def\<close>)

definition export_ok :: "export_event list \<Rightarrow> export_dialog \<Rightarrow> bool" where
  "export_ok es d \<longleftrightarrow> xd_creating d \<le> 1 \<and> xd_seen d = job_view d
     \<and> count_of is_create (xd_log d) = count_of answers_create es + xd_creating d"

lemma export_keeps:
  assumes "export_ok es d" and "export_step d e d'"
  shows "export_ok (es @ [e]) d'"
proof -
  from assms(2) have g: "export_guard d e" and d': "d' = failed_effect (export_handle e d)"
    by (auto elim: export_stepE simp: export_do_def)
  from export_handle_counts [OF g] assms(1) show ?thesis by (auto simp: export_ok_def d')
qed

interpretation export_trace: trace_invariant export_step export_ok
  by unfold_locales (rule export_keeps)

lemma export_start_ok: "export_ok [] export_start"
  by (simp add: export_ok_def export_start_def job_view_def job_state_def job_error_def shown_job_def)

lemma export_run_ok: "run export_step export_start es d \<Longrightarrow> export_ok es d"
  using export_trace.from_start export_start_ok by blast

section \<open>Properties\<close>

text \<open>In every run of the dialog at most one creation is in flight and each is answered before the
  next, and a step reports the failure of a job exactly when what the dialog shows of the job
  changes to a failure.\<close>

theorem export_requests:
  assumes "run export_step export_start es d" and "export_step d e d'"
  shows "xd_creating d' \<le> 1
    \<and> count_of is_create (xd_log d') = count_of answers_create (es @ [e]) + xd_creating d'
    \<and> count_of is_job_failure (xd_log d') = count_of is_job_failure (xd_log d)
        + (if job_view d' \<noteq> job_view d \<and> fst (job_view d') = Some JS_failed then 1 else 0)"
proof -
  note ok = export_run_ok [OF assms(1)]
  from assms(2) have g: "export_guard d e" and d': "d' = failed_effect (export_handle e d)"
    by (auto elim: export_stepE simp: export_do_def)
  from ok have "xd_creating d \<le> 1" "xd_seen d = job_view d" by (simp_all add: export_ok_def)
  with export_handle_counts [OF g] failed_effect_log [of "export_handle e d"]
  have "count_of is_job_failure (xd_log d') = count_of is_job_failure (xd_log d)
        + (if job_view d' \<noteq> job_view d \<and> fst (job_view d') = Some JS_failed then 1 else 0)"
    by (auto simp: d')
  with export_keeps [OF ok assms(2)] show ?thesis by (simp add: export_ok_def)
qed

definition demo_job :: "job_status \<Rightarrow> export_job" where
  "demo_job st = \<lparr>xj_id = [1], xj_format = js ''pdf'', xj_status = st, xj_sizeBytes = None, xj_error = None,
     xj_createdAt = []\<rparr>"

lemma export_run: "allowed export_guard export_do es d \<Longrightarrow> run export_step d es (fold export_do es d)"
  by (rule allowed_run) (rule export_step.intros)

lemmas export_eval = busy_def polling_def job_state_def shown_job_def export_handler_defs failed_effect_def
  job_error_def job_view_def Let_def export_start_def demo_job_def
  export_do_def

theorem export_requests_witness:
  "let es = [Export_Open None, Click_Export, Create_Answer (Inl [1])]; d = fold export_do es export_start;
       d' = export_do (Job_Answer (demo_job JS_failed)) d
   in count_of is_job_failure (xd_log d) = 0 \<and> count_of is_job_failure (xd_log d') = 1"
proof -
  let ?es = "[Export_Open None, Click_Export, Create_Answer (Inl [1])]"
  let ?d = "fold export_do ?es export_start"
  have r: "run export_step export_start ?es ?d" by (rule export_run) (simp add: export_eval)
  have st: "export_step ?d (Job_Answer (demo_job JS_failed)) (export_do (Job_Answer (demo_job JS_failed)) ?d)"
    by (rule export_step.intros) simp
  have v: "job_view ?d = (None, None)" "job_view (export_do (Job_Answer (demo_job JS_failed)) ?d) = (Some JS_failed, None)"
    by (simp_all add: export_eval)
  have "count_of is_job_failure (xd_log ?d) = 0" by (simp add: export_eval)
  with export_requests [OF r st] v show ?thesis by (simp only: Let_def) simp
qed

text \<open>Closing the dialog forgets the job without ending it: after reopening a second export is
  created while the first still runs; and a creation answered after the dialog was closed leaves
  its job in the closed dialog, so the next opening does not start anew.\<close>

theorem export_close_forgets:
  "(\<exists>es d. run export_step export_start es d \<and> count_of is_create (xd_log d) = 2
      \<and> list_all (\<lambda>e. case e of Job_Answer j \<Rightarrow> xj_status j = JS_running | _ \<Rightarrow> True) es)
   \<and> (\<exists>d. run export_step export_start
        [Export_Open None, Click_Export, Export_Close, Create_Answer (Inl [1]), Export_Open None] d
      \<and> xd_jobId d = Some [1])"
proof (intro conjI exI)
  let ?es = "[Export_Open None, Click_Export, Create_Answer (Inl [1]), Job_Answer (demo_job JS_running),
      Export_Close, Export_Open None, Click_Export]"
  show "run export_step export_start ?es (fold export_do ?es export_start)"
    by (rule export_run) (simp add: export_eval)
  show "count_of is_create (xd_log (fold export_do ?es export_start)) = 2" by (simp add: export_eval)
  show "list_all (\<lambda>e. case e of Job_Answer j \<Rightarrow> xj_status j = JS_running | _ \<Rightarrow> True) ?es"
    by (simp add: demo_job_def)
  let ?fs = "[Export_Open None, Click_Export, Export_Close, Create_Answer (Inl [1]), Export_Open None]"
  show "run export_step export_start ?fs (fold export_do ?fs export_start)"
    by (rule export_run) (simp add: export_eval)
  show "xd_jobId (fold export_do ?fs export_start) = Some [1]" by (simp add: export_eval)
qed

end
