(* ===== verification/Org_Server.thy ===== *)
theory Org_Server
  imports Server_Contract "HOL-Library.AList"
begin

text \<open>
  The server's organisations: members (\<open>internal/studiosvc/members.go\<close>), invites
  (\<open>invites.go\<close> on the store of \<open>internal/orginvite\<close>) and platform administrators
  (\<open>platform.go\<close>), with the HTTP handlers in front of them. The tables are the state; each call
  of a service is a function on it, and the check and the write of a guarded call are separate
  definitions, as they are separate statements in the code. The table of memberships belongs to
  the authz library: its functions are the fields of \<open>authz\<close>, an argument. Random ids and tokens
  and the clock are arguments; errors of the database are not modelled.
\<close>

section \<open>State\<close>

datatype org_role = OR_viewer | OR_editor | OR_admin | OR_org_admin

definition role_text :: "org_role \<Rightarrow> jsstr" where
  "role_text r = (case r of OR_viewer \<Rightarrow> js ''viewer'' | OR_editor \<Rightarrow> js ''editor''
     | OR_admin \<Rightarrow> js ''admin'' | OR_org_admin \<Rightarrow> js ''org_admin'')"

lemma role_text_inject [simp]: "role_text a = role_text b \<longleftrightarrow> a = b"
  by (cases a; cases b) (simp_all add: role_text_def)

datatype invite_status = IS_pending | IS_accepted | IS_revoked

record org_user =
  ou_id :: jsstr
  ou_email :: "nat list"
  ou_deleted :: bool

record org_invite =
  iv_id :: jsstr
  iv_orgId :: jsstr
  iv_email :: "nat list"
  iv_role :: org_role
  iv_token :: jsstr
  iv_status :: invite_status
  iv_invitedBy :: jsstr
  iv_createdAt :: int
  iv_acceptedAt :: "int option"
  iv_expiresAt :: int

type_synonym members = "((jsstr \<times> jsstr) \<times> org_role) list"

record org_server =
  os_users :: "org_user list"
  os_members :: members
  os_platform :: "jsstr list"
  os_invites :: "org_invite list"

datatype org_error = OE_user_not_found | OE_member_not_found | OE_last_org_admin | OE_already_member
  | OE_not_found | OE_not_pending | OE_expired | OE_email_mismatch | OE_email_required | OE_duplicate

text \<open>What belongs to other code: \<open>strings.ToLower\<close>, and of the authz library the upsert of a
  membership, the order of roles, their parser and the role of a caller in an organisation.\<close>

record authz =
  az_lower :: "nat list \<Rightarrow> nat list"
  az_upsert :: "members \<Rightarrow> jsstr \<Rightarrow> jsstr \<Rightarrow> org_role \<Rightarrow> members"
  az_ge :: "org_role \<Rightarrow> org_role \<Rightarrow> bool"
  az_parse :: "jsstr \<Rightarrow> org_role option"
  az_resolve :: "org_server \<Rightarrow> jsstr \<Rightarrow> jsstr \<Rightarrow> org_role option"

section \<open>Members\<close>

definition normalizePlatformEmail :: "authz \<Rightarrow> nat list \<Rightarrow> nat list" where
  "normalizePlatformEmail az e = az_lower az (TrimSpace e)"

definition live_user :: "org_server \<Rightarrow> jsstr \<Rightarrow> org_user option" where
  "live_user s uid = find (\<lambda>u. ou_id u = uid \<and> \<not> ou_deleted u) (os_users s)"

definition userIDByEmail :: "authz \<Rightarrow> org_server \<Rightarrow> nat list \<Rightarrow> jsstr option" where
  "userIDByEmail az s email = map_option ou_id
     (find (\<lambda>u. ou_email u = normalizePlatformEmail az email \<and> \<not> ou_deleted u) (os_users s))"

definition currentOrgRole :: "org_server \<Rightarrow> jsstr \<Rightarrow> jsstr \<Rightarrow> org_role option" where
  "currentOrgRole s org uid = map_of (os_members s) (org, uid)"

definition countOrgAdmins :: "members \<Rightarrow> jsstr \<Rightarrow> nat" where
  "countOrgAdmins t org = length (filter (\<lambda>((o', u), r). o' = org \<and> r = OR_org_admin) t)"

text \<open>The roster: members whose user is not deleted. The database sorts it by address.\<close>

definition ListMembers :: "org_server \<Rightarrow> jsstr \<Rightarrow> (jsstr \<times> nat list \<times> org_role) list" where
  "ListMembers s org = concat (map (\<lambda>((o', u), r). if o' \<noteq> org then []
     else (case live_user s u of None \<Rightarrow> [] | Some x \<Rightarrow> [(u, ou_email x, r)])) (os_members s))"

definition AddMemberByEmail ::
  "authz \<Rightarrow> jsstr \<Rightarrow> nat list \<Rightarrow> org_role \<Rightarrow> org_server
   \<Rightarrow> (org_error + jsstr) \<times> org_server" where
  "AddMemberByEmail az org email r s = (case userIDByEmail az s email of
       None \<Rightarrow> (Inl OE_user_not_found, s)
     | Some uid \<Rightarrow> (Inr uid, s\<lparr>os_members := az_upsert az (os_members s) org uid r\<rparr>))"

definition set_role_check ::
  "authz \<Rightarrow> jsstr \<Rightarrow> jsstr \<Rightarrow> org_role \<Rightarrow> org_server \<Rightarrow> org_error option" where
  "set_role_check az org uid r s = (case currentOrgRole s org uid of
       None \<Rightarrow> Some OE_member_not_found
     | Some cur \<Rightarrow>
         if cur = OR_org_admin \<and> \<not> az_ge az r OR_org_admin \<and> countOrgAdmins (os_members s) org = 1
         then Some OE_last_org_admin else None)"

definition set_role_write :: "authz \<Rightarrow> jsstr \<Rightarrow> jsstr \<Rightarrow> org_role \<Rightarrow> org_server \<Rightarrow> org_server" where
  "set_role_write az org uid r s = s\<lparr>os_members := az_upsert az (os_members s) org uid r\<rparr>"

definition SetMemberRole ::
  "authz \<Rightarrow> jsstr \<Rightarrow> jsstr \<Rightarrow> org_role \<Rightarrow> org_server
   \<Rightarrow> org_error option \<times> org_server" where
  "SetMemberRole az org uid r s = (case set_role_check az org uid r s of
       Some e \<Rightarrow> (Some e, s) | None \<Rightarrow> (None, set_role_write az org uid r s))"

definition remove_check :: "jsstr \<Rightarrow> jsstr \<Rightarrow> org_server \<Rightarrow> org_error option" where
  "remove_check org uid s = (case currentOrgRole s org uid of
       None \<Rightarrow> Some OE_member_not_found
     | Some cur \<Rightarrow> if cur = OR_org_admin \<and> countOrgAdmins (os_members s) org = 1
         then Some OE_last_org_admin else None)"

text \<open>The deletion, which reports a row that has gone in the meantime.\<close>

definition remove_write :: "jsstr \<Rightarrow> jsstr \<Rightarrow> org_server \<Rightarrow> org_error option \<times> org_server" where
  "remove_write org uid s =
     (if map_of (os_members s) (org, uid) = None then (Some OE_member_not_found, s)
      else (None, s\<lparr>os_members := filter (\<lambda>(k, r). k \<noteq> (org, uid)) (os_members s)\<rparr>))"

definition RemoveMember :: "jsstr \<Rightarrow> jsstr \<Rightarrow> org_server \<Rightarrow> org_error option \<times> org_server" where
  "RemoveMember org uid s = (case remove_check org uid s of
       Some e \<Rightarrow> (Some e, s) | None \<Rightarrow> remove_write org uid s)"

section \<open>Invites\<close>

definition inviteTTL :: int where
  "inviteTTL = 14 * 24 * 3600"

definition isOrgMember :: "org_server \<Rightarrow> jsstr \<Rightarrow> nat list \<Rightarrow> bool" where
  "isOrgMember s org email \<longleftrightarrow> list_ex (\<lambda>((o', u), r). o' = org
     \<and> list_ex (\<lambda>x. ou_id x = u \<and> ou_email x = email \<and> \<not> ou_deleted x) (os_users s)) (os_members s)"

definition revoke_where :: "(org_invite \<Rightarrow> bool) \<Rightarrow> org_invite list \<Rightarrow> org_invite list" where
  "revoke_where P invites = map (\<lambda>i. if P i \<and> iv_status i = IS_pending then i\<lparr>iv_status := IS_revoked\<rparr> else i) invites"

definition RevokePendingByEmail :: "jsstr \<Rightarrow> nat list \<Rightarrow> org_invite list \<Rightarrow> org_invite list" where
  "RevokePendingByEmail org email invites = (if org = [] \<or> email = [] then invites
     else revoke_where (\<lambda>i. iv_orgId i = org \<and> iv_email i = email) invites)"

text \<open>The insertion; the primary key, the unique token and the partial index refuse a duplicate.\<close>

definition insert_invite :: "org_invite \<Rightarrow> org_invite list \<Rightarrow> (org_error + org_invite list)" where
  "insert_invite i invites =
     (if iv_orgId i = [] \<or> iv_email i = [] then Inl OE_email_required
      else if list_ex (\<lambda>j. iv_id j = iv_id i \<or> iv_token j = iv_token i
          \<or> (iv_status j = IS_pending \<and> iv_orgId j = iv_orgId i \<and> iv_email j = iv_email i)) invites
      then Inl OE_duplicate else Inr (invites @ [i]))"

definition CreateInvite ::
  "authz \<Rightarrow> jsstr \<Rightarrow> jsstr \<Rightarrow> int \<Rightarrow> jsstr \<Rightarrow> nat list \<Rightarrow> org_role \<Rightarrow> jsstr \<Rightarrow> org_server
   \<Rightarrow> (org_error + org_invite) \<times> org_server" where
  "CreateInvite az new_id new_token now org email r invitedBy s =
     (let normalized = normalizePlatformEmail az email in
      if normalized = [] then (Inl OE_email_required, s)
      else if isOrgMember s org normalized then (Inl OE_already_member, s)
      else (let cleared = RevokePendingByEmail org normalized (os_invites s);
                i = \<lparr>iv_id = new_id, iv_orgId = org, iv_email = normalized, iv_role = r, iv_token = new_token,
                     iv_status = IS_pending, iv_invitedBy = invitedBy, iv_createdAt = now, iv_acceptedAt = None,
                     iv_expiresAt = now + inviteTTL\<rparr>
            in case insert_invite i cleared of
                 Inl e \<Rightarrow> (Inl e, s\<lparr>os_invites := cleared\<rparr>)
               | Inr invites \<Rightarrow> (Inr i, s\<lparr>os_invites := invites\<rparr>)))"

definition ListInvites :: "org_server \<Rightarrow> jsstr \<Rightarrow> org_invite list" where
  "ListInvites s org = filter (\<lambda>i. iv_orgId i = org \<and> iv_status i = IS_pending) (os_invites s)"

definition RevokeInvite :: "jsstr \<Rightarrow> jsstr \<Rightarrow> org_server \<Rightarrow> org_error option \<times> org_server" where
  "RevokeInvite org i s =
     (if org = [] \<or> i = [] \<or> \<not> list_ex (\<lambda>x. iv_orgId x = org \<and> iv_id x = i \<and> iv_status x = IS_pending) (os_invites s)
      then (Some OE_not_found, s)
      else (None, s\<lparr>os_invites := revoke_where (\<lambda>x. iv_orgId x = org \<and> iv_id x = i) (os_invites s)\<rparr>))"

definition GetByToken :: "jsstr \<Rightarrow> org_server \<Rightarrow> org_invite option" where
  "GetByToken token s = (if TrimSpace (code_points token) = [] then None
     else find (\<lambda>i. iv_token i = token) (os_invites s))"

definition MarkAccepted :: "jsstr \<Rightarrow> int \<Rightarrow> org_server \<Rightarrow> org_error option \<times> org_server" where
  "MarkAccepted i now s =
     (if i = [] \<or> \<not> list_ex (\<lambda>x. iv_id x = i \<and> iv_status x = IS_pending) (os_invites s)
      then (Some OE_not_found, s)
      else (None, s\<lparr>os_invites := map (\<lambda>x. if iv_id x = i \<and> iv_status x = IS_pending
              then x\<lparr>iv_status := IS_accepted, iv_acceptedAt := Some now\<rparr> else x) (os_invites s)\<rparr>))"

definition AcceptInvite ::
  "authz \<Rightarrow> int \<Rightarrow> jsstr \<Rightarrow> jsstr \<Rightarrow> org_server
   \<Rightarrow> (org_error + jsstr \<times> org_role) \<times> org_server" where
  "AcceptInvite az now token uid s = (case GetByToken token s of
       None \<Rightarrow> (Inl OE_not_found, s)
     | Some ivt \<Rightarrow>
         if iv_status ivt \<noteq> IS_pending then (Inl OE_not_pending, s)
         else if iv_expiresAt ivt < now then (Inl OE_expired, s)
         else (case (if uid = [] then None else live_user s uid) of
             None \<Rightarrow> (Inl OE_user_not_found, s)
           | Some u \<Rightarrow>
               if normalizePlatformEmail az (ou_email u) \<noteq> iv_email ivt then (Inl OE_email_mismatch, s)
               else (case MarkAccepted (iv_id ivt) now
                        (s\<lparr>os_members := az_upsert az (os_members s) (iv_orgId ivt) uid (iv_role ivt)\<rparr>) of
                   (Some e, s') \<Rightarrow> (Inl e, s')
                 | (None, s') \<Rightarrow> (Inr (iv_orgId ivt, iv_role ivt), s'))))"

section \<open>Platform administrators\<close>

definition ListAdmins :: "org_server \<Rightarrow> jsstr list" where
  "ListAdmins s = filter (\<lambda>u. live_user s u \<noteq> None) (os_platform s)"

text \<open>Granting is an upsert of the platform membership.\<close>

definition GrantByEmail :: "authz \<Rightarrow> nat list \<Rightarrow> org_server \<Rightarrow> (org_error + jsstr) \<times> org_server" where
  "GrantByEmail az email s = (case userIDByEmail az s email of
       None \<Rightarrow> (Inl OE_user_not_found, s)
     | Some uid \<Rightarrow> (Inr uid, s\<lparr>os_platform := (if uid \<in> set (os_platform s) then os_platform s else os_platform s @ [uid])\<rparr>))"

definition last_platform_admin :: "jsstr \<Rightarrow> org_server \<Rightarrow> bool" where
  "last_platform_admin target s \<longleftrightarrow> length (ListAdmins s) \<le> 1 \<and> target \<in> set (ListAdmins s)"

definition Revoke :: "jsstr \<Rightarrow> org_server \<Rightarrow> org_server" where
  "Revoke target s = s\<lparr>os_platform := filter (\<lambda>u. u \<noteq> target) (os_platform s)\<rparr>"

definition DeleteUser :: "jsstr \<Rightarrow> org_server \<Rightarrow> org_error option \<times> org_server" where
  "DeleteUser target s = (if live_user s target = None then (Some OE_user_not_found, s)
     else (None, s\<lparr>os_users := map (\<lambda>u. if ou_id u = target then u\<lparr>ou_deleted := True\<rparr> else u) (os_users s)\<rparr>))"

definition sole_org_admin :: "org_server \<Rightarrow> jsstr \<Rightarrow> jsstr \<Rightarrow> bool" where
  "sole_org_admin s uid org \<longleftrightarrow>
     countOrgAdmins (os_members s) org = 1 \<and> currentOrgRole s org uid = Some OR_org_admin"

text \<open>The password of a reset: its bytes are counted.\<close>

definition password_too_short :: "jsstr \<Rightarrow> bool" where
  "password_too_short p \<longleftrightarrow> length (concat (map utf8 (code_points p))) < 8"

section \<open>Handlers\<close>

text \<open>The requests on an organisation, with the ids, tokens and times an invitation is given. The
  answer is its status code. \<open>MQ_accept\<close> is open to every user, the others demand a role.\<close>

record fresh =
  fr_id :: jsstr
  fr_token :: jsstr
  fr_now :: int

datatype member_request =
    MQ_add jsstr jsstr
  | MQ_set_role jsstr jsstr
  | MQ_remove jsstr
  | MQ_invite jsstr jsstr
  | MQ_revoke jsstr
  | MQ_accept jsstr

fun error_code :: "org_error \<Rightarrow> nat" where
  "error_code OE_user_not_found = 404"
| "error_code OE_member_not_found = 404"
| "error_code OE_last_org_admin = 409"
| "error_code OE_already_member = 409"
| "error_code OE_not_found = 404"
| "error_code OE_not_pending = 409"
| "error_code OE_expired = 410"
| "error_code OE_email_mismatch = 403"
| "error_code OE_email_required = 500"
| "error_code OE_duplicate = 500"

definition addMemberHandler :: "authz \<Rightarrow> jsstr \<Rightarrow> jsstr \<Rightarrow> jsstr \<Rightarrow> org_server \<Rightarrow> nat \<times> org_server" where
  "addMemberHandler az org email role s = (if email = [] then (400, s)
     else case az_parse az role of None \<Rightarrow> (400, s)
       | Some r \<Rightarrow> (case AddMemberByEmail az org (code_points email) r s of
             (Inl e, s') \<Rightarrow> (error_code e, s') | (Inr u, s') \<Rightarrow> (201, s')))"

definition setMemberRoleHandler :: "authz \<Rightarrow> jsstr \<Rightarrow> jsstr \<Rightarrow> jsstr \<Rightarrow> org_server \<Rightarrow> nat \<times> org_server" where
  "setMemberRoleHandler az org uid role s = (if uid = [] then (400, s)
     else case az_parse az role of None \<Rightarrow> (400, s)
       | Some r \<Rightarrow> (case SetMemberRole az org uid r s of
             (Some e, s') \<Rightarrow> (error_code e, s') | (None, s') \<Rightarrow> (200, s')))"

definition removeMemberHandler :: "jsstr \<Rightarrow> jsstr \<Rightarrow> org_server \<Rightarrow> nat \<times> org_server" where
  "removeMemberHandler org uid s = (if uid = [] then (400, s)
     else case RemoveMember org uid s of (Some e, s') \<Rightarrow> (error_code e, s') | (None, s') \<Rightarrow> (200, s'))"

definition createInviteHandler ::
  "authz \<Rightarrow> fresh \<Rightarrow> jsstr \<Rightarrow> jsstr \<Rightarrow> jsstr \<Rightarrow> jsstr \<Rightarrow> org_server \<Rightarrow> nat \<times> org_server" where
  "createInviteHandler az fr caller org email role s = (if email = [] then (400, s)
     else case az_parse az role of None \<Rightarrow> (400, s)
       | Some r \<Rightarrow> (case CreateInvite az (fr_id fr) (fr_token fr) (fr_now fr) org (code_points email) r caller s of
             (Inl e, s') \<Rightarrow> (error_code e, s') | (Inr i, s') \<Rightarrow> (201, s')))"

definition revokeInviteHandler :: "jsstr \<Rightarrow> jsstr \<Rightarrow> org_server \<Rightarrow> nat \<times> org_server" where
  "revokeInviteHandler org i s = (if i = [] then (400, s)
     else case RevokeInvite org i s of (Some e, s') \<Rightarrow> (error_code e, s') | (None, s') \<Rightarrow> (200, s'))"

definition acceptInviteHandler :: "authz \<Rightarrow> fresh \<Rightarrow> jsstr \<Rightarrow> jsstr \<Rightarrow> org_server \<Rightarrow> nat \<times> org_server" where
  "acceptInviteHandler az fr token caller s = (if token = [] then (400, s)
     else case AcceptInvite az (fr_now fr) token caller s of
         (Inl e, s') \<Rightarrow> (if e = OE_user_not_found then 500 else error_code e, s')
       | (Inr x, s') \<Rightarrow> (200, s'))"

text \<open>The mount: \<open>scoped(roleAdmin, orgScope, h)\<close> in front of all but the acceptance.\<close>

definition scoped_admin ::
  "authz \<Rightarrow> jsstr \<Rightarrow> jsstr \<Rightarrow> (org_server \<Rightarrow> nat \<times> org_server) \<Rightarrow> org_server \<Rightarrow> nat \<times> org_server" where
  "scoped_admin az caller org h s = (case az_resolve az s caller org of
       None \<Rightarrow> (403, s) | Some r \<Rightarrow> if az_ge az r OR_admin then h s else (403, s))"

fun org_serve :: "authz \<Rightarrow> fresh \<Rightarrow> jsstr \<Rightarrow> jsstr \<Rightarrow> member_request \<Rightarrow> org_server \<Rightarrow> nat \<times> org_server" where
  "org_serve az fr caller org (MQ_add email role) s = scoped_admin az caller org (addMemberHandler az org email role) s"
| "org_serve az fr caller org (MQ_set_role uid role) s = scoped_admin az caller org (setMemberRoleHandler az org uid role) s"
| "org_serve az fr caller org (MQ_remove uid) s = scoped_admin az caller org (removeMemberHandler org uid) s"
| "org_serve az fr caller org (MQ_invite email role) s = scoped_admin az caller org (createInviteHandler az fr caller org email role) s"
| "org_serve az fr caller org (MQ_revoke i) s = scoped_admin az caller org (revokeInviteHandler org i) s"
| "org_serve az fr caller org (MQ_accept token) s = acceptInviteHandler az fr token caller s"

text \<open>The platform's guards: neither the caller itself nor the last administrator is removed.\<close>

definition platformGrantAdminHandler :: "authz \<Rightarrow> jsstr \<Rightarrow> org_server \<Rightarrow> nat \<times> org_server" where
  "platformGrantAdminHandler az email s = (if email = [] then (400, s)
     else case GrantByEmail az (code_points email) s of
         (Inl e, s') \<Rightarrow> (error_code e, s') | (Inr u, s') \<Rightarrow> (200, s'))"

definition platformRevokeAdminHandler :: "jsstr \<Rightarrow> org_server \<Rightarrow> nat \<times> org_server" where
  "platformRevokeAdminHandler target s = (if target = [] then (400, s)
     else if last_platform_admin target s then (409, s) else (200, Revoke target s))"

definition platformDeleteUserHandler :: "jsstr \<Rightarrow> jsstr \<Rightarrow> org_server \<Rightarrow> nat \<times> org_server" where
  "platformDeleteUserHandler caller target s = (if target = [] then (400, s)
     else if target = caller then (409, s)
     else if last_platform_admin target s then (409, s)
     else case DeleteUser target s of (Some e, s') \<Rightarrow> (error_code e, s') | (None, s') \<Rightarrow> (200, s'))"

end
