(* ===== verification/Org_Safety.thy ===== *)
theory Org_Safety
  imports Org_Server
begin

text \<open>
  What the server of \<open>Org_Server\<close> keeps: an organisation with an administrator keeps one under the
  guarded requests, an invitation is used once and by its addressee, the platform keeps an
  administrator; and where the guard has gaps. \<open>upsert_law\<close> and \<open>ge_law\<close> state what the code relies
  on of the authz library: an upsert sets the one row of its key, and no role but \<open>org_admin\<close> itself
  is at least \<open>org_admin\<close>.
\<close>

definition upsert_law :: "authz \<Rightarrow> bool" where
  "upsert_law az \<longleftrightarrow> (\<forall>t org u r. map_of (az_upsert az t org u r) = (map_of t)((org, u) \<mapsto> r)
     \<and> (distinct (map fst t) \<longrightarrow> distinct (map fst (az_upsert az t org u r))))"

definition ge_law :: "authz \<Rightarrow> bool" where
  "ge_law az \<longleftrightarrow> (\<forall>r. az_ge az r OR_org_admin \<longleftrightarrow> r = OR_org_admin)"

definition org_admins :: "members \<Rightarrow> jsstr \<Rightarrow> jsstr set" where
  "org_admins t org = {u. map_of t (org, u) = Some OR_org_admin}"

definition has_org_admin :: "org_server \<Rightarrow> jsstr \<Rightarrow> bool" where
  "has_org_admin s org \<longleftrightarrow> org_admins (os_members s) org \<noteq> {}"

definition keyed :: "org_server \<Rightarrow> bool" where
  "keyed s \<longleftrightarrow> distinct (map fst (os_members s))"

section \<open>Counting administrators\<close>

lemma finite_org_admins [simp]: "finite (org_admins t org)"
proof (rule finite_subset)
  show "org_admins t org \<subseteq> snd ` fst ` set t"
    by (force simp: org_admins_def dest: map_of_SomeD)
qed simp

lemma count_is_card:
  assumes "distinct (map fst t)"
  shows "countOrgAdmins t org = card (org_admins t org)"
proof -
  let ?P = "\<lambda>((o', u), r). o' = org \<and> r = OR_org_admin"
  let ?f = "\<lambda>u. ((org, u), OR_org_admin)"
  have "set (filter ?P t) = ?f ` org_admins t org"
    using assms by (auto simp: org_admins_def)
  moreover have "distinct (filter ?P t)" using assms by (simp add: distinct_map)
  ultimately have "countOrgAdmins t org = card (?f ` org_admins t org)"
    unfolding countOrgAdmins_def by (metis distinct_card)
  then show ?thesis by (simp add: card_image inj_on_def)
qed

lemma other_admin:
  assumes "distinct (map fst t)" and "u \<in> org_admins t org" and "countOrgAdmins t org \<noteq> 1"
  shows "\<exists>v. v \<noteq> u \<and> v \<in> org_admins t org"
proof (rule ccontr)
  assume "\<not> ?thesis"
  with assms(2) have "org_admins t org = {u}" by auto
  with assms(3) show False by (simp add: count_is_card [OF assms(1)])
qed

lemma upsert_roles:
  assumes "upsert_law az"
  shows "map_of (az_upsert az t org u r) = (map_of t)((org, u) \<mapsto> r)"
    and "distinct (map fst t) \<Longrightarrow> distinct (map fst (az_upsert az t org u r))"
  using assms by (simp_all add: upsert_law_def)

lemma map_of_without: "map_of (filter (\<lambda>(k, r). k \<noteq> k0) t) = (map_of t)(k0 := None)"
  by (rule ext) (induction t; auto)

lemma distinct_without: "distinct (map fst t) \<Longrightarrow> distinct (map fst (filter P t))"
  by (induction t) auto

section \<open>Guarded requests\<close>

fun keeps_admins :: "member_request \<Rightarrow> bool" where
  "keeps_admins (MQ_add email role) = False"
| "keeps_admins (MQ_accept token) = False"
| "keeps_admins q = True"

lemma set_role_keeps:
  assumes law: "upsert_law az" "ge_law az" and "keyed s" "has_org_admin s org"
    and "SetMemberRole az o' u r s = (res, s')"
  shows "keyed s' \<and> has_org_admin s' org"
proof (cases "set_role_check az o' u r s")
  case (Some e)
  with assms show ?thesis by (simp add: SetMemberRole_def)
next
  case None
  with assms(5) have s': "s' = set_role_write az o' u r s" by (simp add: SetMemberRole_def)
  have k: "keyed s'" using assms(3) upsert_roles(2) [OF law(1)] by (simp add: s' set_role_write_def keyed_def)
  have roles: "org_admins (os_members s') org
      = {v. ((map_of (os_members s))((o', u) \<mapsto> r)) (org, v) = Some OR_org_admin}"
    by (simp add: s' set_role_write_def org_admins_def upsert_roles(1) [OF law(1)])
  show ?thesis
  proof (cases "o' = org \<and> u \<in> org_admins (os_members s) org \<and> r \<noteq> OR_org_admin")
    case True
    with None law(2) have "countOrgAdmins (os_members s) org \<noteq> 1"
      by (auto simp: set_role_check_def currentOrgRole_def org_admins_def ge_law_def split: option.splits if_splits)
    with other_admin [of "os_members s" u org] True assms(3) obtain v
      where "v \<noteq> u" "v \<in> org_admins (os_members s) org" by (auto simp: keyed_def)
    then have "v \<in> org_admins (os_members s') org" by (simp add: roles) (simp add: org_admins_def)
    with k show ?thesis by (auto simp: has_org_admin_def)
  next
    case False
    from assms(4) obtain v where v: "v \<in> org_admins (os_members s) org" by (auto simp: has_org_admin_def)
    with False have "v \<in> org_admins (os_members s') org"
      by (auto simp: roles) (auto simp: org_admins_def)
    with k show ?thesis by (auto simp: has_org_admin_def)
  qed
qed

lemma remove_keeps:
  assumes "keyed s" "has_org_admin s org" and "RemoveMember o' u s = (res, s')"
  shows "keyed s' \<and> has_org_admin s' org"
proof (cases "s' = s")
  case False
  with assms(3) have chk: "remove_check o' u s = None"
    and s': "s' = s\<lparr>os_members := filter (\<lambda>(k, r). k \<noteq> (o', u)) (os_members s)\<rparr>"
    by (auto simp: RemoveMember_def remove_write_def split: option.splits if_splits)
  have k: "keyed s'" using assms(1) by (simp add: s' keyed_def distinct_without)
  have roles: "v \<in> org_admins (os_members s') org \<longleftrightarrow> v \<in> org_admins (os_members s) org \<and> (org, v) \<noteq> (o', u)" for v
    by (auto simp: s' org_admins_def map_of_without)
  show ?thesis
  proof (cases "o' = org \<and> u \<in> org_admins (os_members s) org")
    case True
    with chk have "countOrgAdmins (os_members s) org \<noteq> 1"
      by (auto simp: remove_check_def currentOrgRole_def org_admins_def split: option.splits if_splits)
    with other_admin [of "os_members s" u org] True assms(1) obtain v
      where "v \<noteq> u" "v \<in> org_admins (os_members s) org" by (auto simp: keyed_def)
    with k roles show ?thesis by (auto simp: has_org_admin_def)
  next
    case False
    with assms(2) k roles show ?thesis by (auto simp: has_org_admin_def)
  qed
qed (use assms in simp)

lemma invite_members:
  "os_members (snd (CreateInvite az i tk now org email r caller s)) = os_members s"
  "os_members (snd (RevokeInvite org i s)) = os_members s"
  by (simp_all add: CreateInvite_def RevokeInvite_def Let_def split: sum.split)

type_synonym org_call = "fresh \<times> jsstr \<times> jsstr \<times> member_request"

definition org_do :: "authz \<Rightarrow> org_call \<Rightarrow> org_server \<Rightarrow> org_server" where
  "org_do az q s = (case q of (fr, caller, org, req) \<Rightarrow> snd (org_serve az fr caller org req s))"

lemma same_members: "os_members s' = os_members s \<Longrightarrow> keyed s \<Longrightarrow> has_org_admin s org \<Longrightarrow> keyed s' \<and> has_org_admin s' org"
  by (simp add: keyed_def has_org_admin_def)

lemma guarded_keeps:
  assumes law: "upsert_law az" "ge_law az" and s: "keyed s" "has_org_admin s org"
    and "keeps_admins req"
  shows "keyed (snd (org_serve az fr caller o' req s)) \<and> has_org_admin (snd (org_serve az fr caller o' req s)) org"
proof -
  have adm: "keyed (snd (scoped_admin az caller o' h s)) \<and> has_org_admin (snd (scoped_admin az caller o' h s)) org"
    if "keyed (snd (h s)) \<and> has_org_admin (snd (h s)) org" for h
    using that s by (simp add: scoped_admin_def split: option.split)
  show ?thesis
  proof (cases req)
    case (MQ_set_role u role)
    have "keyed (snd (setMemberRoleHandler az o' u role s)) \<and> has_org_admin (snd (setMemberRoleHandler az o' u role s)) org"
    proof (cases "u = [] \<or> az_parse az role = None")
      case False
      then obtain r where r: "az_parse az role = Some r" "u \<noteq> []" by auto
      obtain res s' where x: "SetMemberRole az o' u r s = (res, s')" by fastforce
      with r set_role_keeps [OF law s x] show ?thesis by (simp add: setMemberRoleHandler_def split: option.split)
    qed (use s in \<open>auto simp: setMemberRoleHandler_def\<close>)
    with adm MQ_set_role show ?thesis by simp
  next
    case (MQ_remove u)
    obtain res s' where x: "RemoveMember o' u s = (res, s')" by fastforce
    from remove_keeps [OF s x] s x
    have "keyed (snd (removeMemberHandler o' u s)) \<and> has_org_admin (snd (removeMemberHandler o' u s)) org"
      by (simp add: removeMemberHandler_def split: option.split)
    with adm MQ_remove show ?thesis by simp
  next
    case (MQ_invite email role)
    have "os_members (snd (createInviteHandler az fr caller o' email role s)) = os_members s"
      using invite_members(1) by (auto simp: createInviteHandler_def split: option.split prod.split sum.split) (metis snd_conv)+
    with same_members [OF _ s] adm [of "createInviteHandler az fr caller o' email role"] MQ_invite
    show ?thesis by simp
  next
    case (MQ_revoke i)
    have "os_members (snd (revokeInviteHandler o' i s)) = os_members s"
      using invite_members(2) by (auto simp: revokeInviteHandler_def split: option.split prod.split) (metis snd_conv)+
    with same_members [OF _ s] adm [of "revokeInviteHandler o' i"] MQ_revoke show ?thesis by simp
  qed (use assms in simp_all)
qed

lemma guarded_run_keeps:
  assumes law: "upsert_law az" "ge_law az"
  shows "keyed s \<Longrightarrow> has_org_admin s org \<Longrightarrow> list_all (\<lambda>(fr, c, o', q). keeps_admins q) reqs \<Longrightarrow>
    has_org_admin (fold (org_do az) reqs s) org"
proof (induction reqs arbitrary: s)
  case (Cons q reqs)
  obtain fr c o' r where q: "q = (fr, c, o', r)" by (cases q)
  from Cons.prems q guarded_keeps [OF law Cons.prems(1,2), of r fr c o']
  have "keyed (org_do az q s) \<and> has_org_admin (org_do az q s) org" by (simp add: org_do_def)
  with Cons.IH [of "org_do az q s"] Cons.prems show ?case by simp
qed simp

section \<open>Invitations\<close>

definition invites_ok :: "org_server \<Rightarrow> bool" where
  "invites_ok s \<longleftrightarrow> distinct (map iv_id (os_invites s)) \<and> distinct (map iv_token (os_invites s))
     \<and> distinct (map (\<lambda>i. (iv_orgId i, iv_email i)) (filter (\<lambda>i. iv_status i = IS_pending) (os_invites s)))"

lemma revoke_where_keys [simp]:
  "map iv_id (revoke_where P t) = map iv_id t" "map iv_token (revoke_where P t) = map iv_token t"
  by (simp_all add: revoke_where_def)

lemma revoke_where_pending:
  "filter (\<lambda>i. iv_status i = IS_pending) (revoke_where P t) = filter (\<lambda>i. \<not> P i) (filter (\<lambda>i. iv_status i = IS_pending) t)"
  by (induction t) (auto simp: revoke_where_def)

lemma distinct_map_sub: "distinct (map f (filter P t)) \<Longrightarrow> distinct (map f (filter (\<lambda>x. P x \<and> Q x) t))"
  by (induction t) (auto split: if_splits)

lemma invites_ok_revoke: "invites_ok s \<Longrightarrow> invites_ok (s\<lparr>os_invites := revoke_where P (os_invites s)\<rparr>)"
  by (simp add: invites_ok_def revoke_where_pending distinct_map_sub)

lemma invites_ok_members [simp]: "invites_ok (s\<lparr>os_members := t\<rparr>) = invites_ok s"
  by (simp add: invites_ok_def)

lemma invites_ok_create:
  assumes "invites_ok s"
  shows "invites_ok (snd (CreateInvite az i tk now org email r caller s))"
proof -
  let ?n = "normalizePlatformEmail az email"
  let ?c = "RevokePendingByEmail org ?n (os_invites s)"
  have c: "invites_ok (s\<lparr>os_invites := ?c\<rparr>)"
    using assms invites_ok_revoke by (simp add: RevokePendingByEmail_def)
  have ins: "invites_ok (s\<lparr>os_invites := t\<rparr>)" if "insert_invite x ?c = Inr t" for x t
    using that c
    by (simp add: insert_invite_def invites_ok_def list_ex_iff split: if_splits) (auto, (metis+)?)
  show ?thesis using assms c ins by (simp add: CreateInvite_def Let_def split: sum.split)
qed

lemma mark_keys:
  "map iv_id (map (\<lambda>x. if P x then x\<lparr>iv_status := st, iv_acceptedAt := a\<rparr> else x) t) = map iv_id t"
  "map iv_token (map (\<lambda>x. if P x then x\<lparr>iv_status := st, iv_acceptedAt := a\<rparr> else x) t) = map iv_token t"
  by simp_all

lemma mark_pending:
  "filter (\<lambda>i. iv_status i = IS_pending)
     (map (\<lambda>x. if iv_id x = i \<and> iv_status x = IS_pending then x\<lparr>iv_status := IS_accepted, iv_acceptedAt := a\<rparr> else x) t)
   = filter (\<lambda>x. iv_id x \<noteq> i) (filter (\<lambda>i. iv_status i = IS_pending) t)"
  by (induction t) auto

lemma invites_ok_mark: "invites_ok s \<Longrightarrow> invites_ok (snd (MarkAccepted i now s))"
  by (simp add: MarkAccepted_def invites_ok_def mark_keys mark_pending distinct_map_sub del: map_map)

lemma invites_ok_accept:
  assumes "invites_ok s"
  shows "invites_ok (snd (AcceptInvite az now token uid s))"
proof -
  have "invites_ok (snd (MarkAccepted i now (s\<lparr>os_members := t\<rparr>)))" for i t
    using assms invites_ok_mark [of "s\<lparr>os_members := t\<rparr>"] by simp
  then show ?thesis using assms
    by (auto simp: AcceptInvite_def split: option.split prod.split) (metis snd_conv)+
qed

lemma invites_ok_serve:
  assumes "invites_ok s"
  shows "invites_ok (snd (org_serve az fr caller org req s))"
proof -
  note ok = assms invites_ok_create invites_ok_accept
  have adm: "invites_ok (snd (h s)) \<Longrightarrow> invites_ok (snd (scoped_admin az caller org h s))" for h
    using assms by (simp add: scoped_admin_def split: option.split)
  show ?thesis
  proof (cases req)
    case (MQ_add email role)
    have "invites_ok (snd (addMemberHandler az org email role s))"
      using assms by (simp add: addMemberHandler_def AddMemberByEmail_def split: option.split)
    with adm MQ_add show ?thesis by simp
  next
    case (MQ_set_role u role)
    have "invites_ok (snd (setMemberRoleHandler az org u role s))"
      using assms by (simp add: setMemberRoleHandler_def SetMemberRole_def set_role_write_def split: option.split)
    with adm MQ_set_role show ?thesis by simp
  next
    case (MQ_remove u)
    have "invites_ok (snd (removeMemberHandler org u s))"
      using assms by (simp add: removeMemberHandler_def RemoveMember_def remove_write_def split: option.split)
    with adm MQ_remove show ?thesis by simp
  next
    case (MQ_invite email role)
    have "invites_ok (snd (createInviteHandler az fr caller org email role s))"
      using assms invites_ok_create
      by (auto simp: createInviteHandler_def split: option.split prod.split sum.split) (metis snd_conv)+
    with adm [of "createInviteHandler az fr caller org email role"] MQ_invite show ?thesis by simp
  next
    case (MQ_revoke i)
    have "invites_ok (snd (revokeInviteHandler org i s))"
      using assms invites_ok_revoke by (simp add: revokeInviteHandler_def RevokeInvite_def)
    with adm MQ_revoke show ?thesis by simp
  next
    case (MQ_accept token)
    with invites_ok_accept [OF assms] show ?thesis
      by (auto simp: acceptInviteHandler_def assms split: prod.split sum.split) (metis snd_conv)+
  qed
qed

lemma invites_ok_run: "invites_ok s \<Longrightarrow> invites_ok (fold (org_do az) reqs s)"
proof (induction reqs arbitrary: s)
  case (Cons q reqs)
  then have "invites_ok (org_do az q s)" by (cases q) (simp add: org_do_def invites_ok_serve)
  with Cons.IH show ?case by simp
qed simp

definition mark_invite :: "jsstr \<Rightarrow> int \<Rightarrow> org_invite \<Rightarrow> org_invite" where
  "mark_invite i now x = (if iv_id x = i \<and> iv_status x = IS_pending
     then x\<lparr>iv_status := IS_accepted, iv_acceptedAt := Some now\<rparr> else x)"

lemma find_map_key: "(\<And>j. g (f j) = g j) \<Longrightarrow> find (\<lambda>j. g j = k) (map f t) = map_option f (find (\<lambda>j. g j = k) t)"
  by (induction t) auto

section \<open>Platform administrators\<close>

datatype platform_request = PQ_grant jsstr | PQ_revoke jsstr | PQ_delete jsstr jsstr

fun platform_do :: "authz \<Rightarrow> platform_request \<Rightarrow> org_server \<Rightarrow> org_server" where
  "platform_do az (PQ_grant email) s = snd (platformGrantAdminHandler az email s)"
| "platform_do az (PQ_revoke target) s = snd (platformRevokeAdminHandler target s)"
| "platform_do az (PQ_delete caller target) s = snd (platformDeleteUserHandler caller target s)"

lemma find_after_delete:
  "u \<noteq> target \<Longrightarrow> find (\<lambda>x. ou_id x = u \<and> \<not> ou_deleted x)
     (map (\<lambda>x. if ou_id x = target then x\<lparr>ou_deleted := True\<rparr> else x) us)
   = find (\<lambda>x. ou_id x = u \<and> \<not> ou_deleted x) us"
  by (induction us) auto

lemma live_after_delete:
  "u \<noteq> target \<Longrightarrow> live_user (snd (DeleteUser target s)) u = live_user s u"
  using find_after_delete [of u target "os_users s"] by (simp add: DeleteUser_def live_user_def)

lemma survivor:
  assumes "ListAdmins s \<noteq> []" and "\<not> last_platform_admin target s" and "distinct (os_platform s)"
  shows "\<exists>v. v \<noteq> target \<and> v \<in> set (ListAdmins s)"
proof (rule ccontr)
  assume none: "\<not> ?thesis"
  then have sub: "set (ListAdmins s) \<subseteq> {target}" by auto
  with assms(1) have mem: "target \<in> set (ListAdmins s)" by (cases "ListAdmins s") auto
  have "distinct (ListAdmins s)" using assms(3) by (simp add: ListAdmins_def)
  then have "length (ListAdmins s) = card (set (ListAdmins s))" by (simp add: distinct_card)
  also have "\<dots> \<le> 1" using card_mono [OF _ sub] by simp
  finally show False using assms(2) mem by (simp add: last_platform_admin_def)
qed

definition platform_ok :: "org_server \<Rightarrow> bool" where
  "platform_ok s \<longleftrightarrow> ListAdmins s \<noteq> [] \<and> distinct (os_platform s)"

lemma admins_iff: "v \<in> set (ListAdmins s) \<longleftrightarrow> v \<in> set (os_platform s) \<and> live_user s v \<noteq> None"
  by (simp add: ListAdmins_def)

lemma platform_okI: "v \<in> set (ListAdmins s) \<Longrightarrow> distinct (os_platform s) \<Longrightarrow> platform_ok s"
  by (auto simp: platform_ok_def)

lemma platform_ok_do: 
  assumes "platform_ok s"
  shows "platform_ok (platform_do az q s)"
proof (cases q)
  case (PQ_grant email)
  from assms obtain v where v: "v \<in> set (ListAdmins s)" "distinct (os_platform s)"
    by (cases "ListAdmins s") (auto simp: platform_ok_def)
  let ?s = "platform_do az q s"
  have "os_users ?s = os_users s" "set (os_platform s) \<subseteq> set (os_platform ?s)" "distinct (os_platform ?s)"
    using v(2) by (auto simp: PQ_grant platformGrantAdminHandler_def GrantByEmail_def split: option.split)
  then have "v \<in> set (ListAdmins ?s)" using v(1) by (auto simp: admins_iff live_user_def)
  with \<open>distinct (os_platform ?s)\<close> show ?thesis by (rule platform_okI [rotated])
next
  case (PQ_revoke target)
  show ?thesis
  proof (cases "target = [] \<or> last_platform_admin target s")
    case False
    with survivor [of s target] assms obtain v where v: "v \<noteq> target" "v \<in> set (ListAdmins s)"
      by (auto simp: platform_ok_def)
    have "v \<in> set (ListAdmins (Revoke target s))"
      using v by (simp add: admins_iff Revoke_def live_user_def)
    with False assms show ?thesis
      using platform_okI by (auto simp: PQ_revoke platformRevokeAdminHandler_def platform_ok_def Revoke_def)
  qed (use assms in \<open>auto simp: PQ_revoke platformRevokeAdminHandler_def\<close>)
next
  case (PQ_delete caller target)
  show ?thesis
  proof (cases "target = [] \<or> target = caller \<or> last_platform_admin target s")
    case False
    with survivor [of s target] assms obtain v where v: "v \<noteq> target" "v \<in> set (ListAdmins s)"
      by (auto simp: platform_ok_def)
    have same: "os_platform (snd (DeleteUser target s)) = os_platform s" by (simp add: DeleteUser_def)
    have "v \<in> set (ListAdmins (snd (DeleteUser target s)))"
      using v live_after_delete [of v target s] by (simp add: admins_iff same)
    then have "platform_ok (snd (DeleteUser target s))"
      by (rule platform_okI) (use assms in \<open>simp add: same platform_ok_def\<close>)
    with False show ?thesis
      by (cases "DeleteUser target s") (simp add: PQ_delete platformDeleteUserHandler_def split: option.split)
  qed (use assms in \<open>auto simp: PQ_delete platformDeleteUserHandler_def\<close>)
qed

section \<open>Properties\<close>

text \<open>C9: An organisation with an administrator keeps one under every sequence of role changes,
  removals, invitations and revocations, by whomever they are asked for.\<close>

theorem org_keeps_admin:
  assumes "upsert_law az" and "ge_law az" and "keyed s" and "has_org_admin s org"
    and "list_all (\<lambda>(fr, c, o', q). keeps_admins q) reqs"
  shows "has_org_admin (fold (org_do az) reqs s) org"
  by (rule guarded_run_keeps [OF assms])

text \<open>C10: Adding a member by address sets the role of a member who is there already, past the guard of
  the role change: for the sole administrator of an organisation the role change is refused with
  409, the addition of the same address with the same role succeeds and leaves the organisation
  without an administrator.\<close>

theorem add_member_bypasses_guard:
  assumes law: "upsert_law az" "ge_law az" and "keyed s" and sole: "sole_org_admin s u org"
    and user: "userIDByEmail az s (code_points email) = Some u" "u \<noteq> []" "email \<noteq> []"
    and role: "az_parse az role = Some r" "r \<noteq> OR_org_admin"
    and gate: "az_resolve az s caller org = Some c" "az_ge az c OR_admin"
  shows "org_serve az fr caller org (MQ_set_role u role) s = (409, s)
    \<and> fst (org_serve az fr caller org (MQ_add email role) s) = 201
    \<and> \<not> has_org_admin (snd (org_serve az fr caller org (MQ_add email role) s)) org"
proof -
  have "card (org_admins (os_members s) org) = 1" and u: "u \<in> org_admins (os_members s) org"
    using sole assms(3) by (simp_all add: sole_org_admin_def count_is_card keyed_def org_admins_def currentOrgRole_def)
  then have one: "org_admins (os_members s) org = {u}" by (metis card_1_singletonE singletonD)
  have "v \<notin> org_admins (az_upsert az (os_members s) org u r) org" for v
  proof (cases "v = u")
    case False
    with one have "v \<notin> org_admins (os_members s) org" by simp
    with False show ?thesis by (simp add: org_admins_def upsert_roles(1) [OF law(1)])
  qed (use role(2) in \<open>simp add: org_admins_def upsert_roles(1) [OF law(1)]\<close>)
  then have none: "org_admins (az_upsert az (os_members s) org u r) org = {}" by blast
  have "az_ge az r OR_org_admin = False" using law(2) role(2) by (simp add: ge_law_def)
  with sole user role gate none show ?thesis
    by (simp add: scoped_admin_def setMemberRoleHandler_def SetMemberRole_def set_role_check_def sole_org_admin_def
        addMemberHandler_def AddMemberByEmail_def has_org_admin_def)
qed

text \<open>C11: In every state the server reaches no two invitations share a token or are pending for the
  same address in the same organisation. Who accepts an invitation is a live user with the invited
  address; the invitation was pending and not expired; the role it carries is the only membership
  that changes; and the same token is refused from then on, whoever shows it.\<close>

theorem accept_invite_correct:
  assumes law: "upsert_law az" and "invites_ok s0" and "s = fold (org_do az) reqs s0"
    and acc: "AcceptInvite az now token uid s = (Inr (org, r), s')"
  shows "invites_ok s \<and> (\<exists>i u. GetByToken token s = Some i \<and> iv_status i = IS_pending \<and> now \<le> iv_expiresAt i
      \<and> iv_orgId i = org \<and> iv_role i = r \<and> live_user s uid = Some u
      \<and> normalizePlatformEmail az (ou_email u) = iv_email i)
    \<and> currentOrgRole s' org uid = Some r
    \<and> (\<forall>org' v. currentOrgRole s' org' v = (if (org', v) = (org, uid) then Some r else currentOrgRole s org' v))
    \<and> AcceptInvite az now' token uid' s' = (Inl OE_not_pending, s')"
proof -
  have ok: "invites_ok s" using invites_ok_run [OF assms(2)] assms(3) by simp
  from acc obtain i u where i: "GetByToken token s = Some i" "iv_status i = IS_pending" "now \<le> iv_expiresAt i"
    and u: "live_user s uid = Some u" "normalizePlatformEmail az (ou_email u) = iv_email i"
    and m: "MarkAccepted (iv_id i) now (s\<lparr>os_members := az_upsert az (os_members s) (iv_orgId i) uid (iv_role i)\<rparr>) = (None, s')"
    and x: "iv_orgId i = org" "iv_role i = r"
    by (auto simp: AcceptInvite_def split: option.splits if_splits prod.splits)
  from m have mem: "os_members s' = az_upsert az (os_members s) org uid r"
    and ivs: "os_invites s' = map (\<lambda>x. if iv_id x = iv_id i \<and> iv_status x = IS_pending
        then x\<lparr>iv_status := IS_accepted, iv_acceptedAt := Some now\<rparr> else x) (os_invites s)"
    by (auto simp: MarkAccepted_def x split: if_splits)
  from i(1) have tok: "TrimSpace (code_points token) \<noteq> []" "find (\<lambda>j. iv_token j = token) (os_invites s) = Some i"
    by (auto simp: GetByToken_def split: if_splits)
  have "find (\<lambda>j. iv_token j = token) (os_invites s') = map_option (mark_invite (iv_id i) now) (Some i)"
    unfolding ivs mark_invite_def [symmetric] tok(2) [symmetric] by (rule find_map_key) (simp add: mark_invite_def)
  with tok(1) i(2) have "GetByToken token s' = Some (i\<lparr>iv_status := IS_accepted, iv_acceptedAt := Some now\<rparr>)"
    by (simp add: GetByToken_def mark_invite_def)
  then have again: "AcceptInvite az now' token uid' s' = (Inl OE_not_pending, s')" by (simp add: AcceptInvite_def)
  have roles: "currentOrgRole s' org' v = (if (org', v) = (org, uid) then Some r else currentOrgRole s org' v)" for org' v
    by (simp add: currentOrgRole_def mem upsert_roles(1) [OF law])
  show ?thesis
  proof (intro conjI exI allI)
    show "currentOrgRole s' org uid = Some r" by (simp add: roles)
  qed (fact ok i u x roles again)+
qed

text \<open>The platform keeps an administrator whose account is live, under every sequence of grants,
  revocations and deletions of users.\<close>

theorem platform_keeps_admin:
  assumes "ListAdmins s \<noteq> []" and "distinct (os_platform s)"
  shows "ListAdmins (fold (platform_do az) reqs s) \<noteq> []"
proof -
  have "platform_ok (fold (platform_do az) reqs s)" if "platform_ok s" for s
    using that by (induction reqs arbitrary: s) (simp_all add: platform_ok_do)
  with assms show ?thesis by (simp add: platform_ok_def)
qed

section \<open>Instances\<close>

text \<open>An authz library on association lists, and a state with two administrators.\<close>

definition role_rank :: "org_role \<Rightarrow> nat" where
  "role_rank r = (case r of OR_viewer \<Rightarrow> 1 | OR_editor \<Rightarrow> 2 | OR_admin \<Rightarrow> 3 | OR_org_admin \<Rightarrow> 4)"

definition demo_authz :: authz where
  "demo_authz = \<lparr>az_lower = map (\<lambda>c. if 65 \<le> c \<and> c \<le> 90 then c + 32 else c),
     az_upsert = (\<lambda>t org u r. AList.update (org, u) r t),
     az_ge = (\<lambda>a b. role_rank a \<ge> role_rank b),
     az_parse = (\<lambda>t. if t = js ''viewer'' then Some OR_viewer else if t = js ''editor'' then Some OR_editor
        else if t = js ''admin'' then Some OR_admin else if t = js ''org_admin'' then Some OR_org_admin else None),
     az_resolve = (\<lambda>s u org. map_of (os_members s) (org, u))\<rparr>"

lemma demo_laws: "upsert_law demo_authz" "ge_law demo_authz"
proof -
  have "map_of (AList.update k r t) = (map_of t)(k \<mapsto> r)" for k :: "jsstr \<times> jsstr" and r :: org_role and t
    by (rule ext) (simp add: update_conv)
  then show "upsert_law demo_authz"
    by (simp add: upsert_law_def demo_authz_def distinct_update)
  show "ge_law demo_authz"
    by (simp add: ge_law_def demo_authz_def role_rank_def split: org_role.split)
qed

definition demo_user :: "jsstr \<Rightarrow> org_user" where
  "demo_user u = \<lparr>ou_id = u, ou_email = u, ou_deleted = False\<rparr>"

definition demo_org :: "(jsstr \<times> org_role) list \<Rightarrow> org_server" where
  "demo_org ms = \<lparr>os_users = map (demo_user \<circ> fst) ms, os_members = map (\<lambda>(u, r). (([1], u), r)) ms,
     os_platform = [[9]], os_invites = []\<rparr>"

definition demo_fresh :: fresh where
  "demo_fresh = \<lparr>fr_id = [5], fr_token = [97], fr_now = 0\<rparr>"

theorem org_keeps_admin_witness:
  "has_org_admin (fold (org_do demo_authz) [(demo_fresh, [97], [1], MQ_remove [98]), (demo_fresh, [97], [1], MQ_remove [97])]
     (demo_org [([97], OR_org_admin), ([98], OR_org_admin)])) [1]"
  by (rule org_keeps_admin [OF demo_laws])
    (auto simp: keyed_def demo_org_def has_org_admin_def org_admins_def intro!: exI [of _ "[97]"])

theorem add_member_bypasses_guard_witness:
  "\<not> has_org_admin (snd (org_serve demo_authz demo_fresh [97] [1] (MQ_add [97] (js ''viewer'')) (demo_org [([97], OR_org_admin)]))) [1]"
  using add_member_bypasses_guard [OF demo_laws, of "demo_org [([97], OR_org_admin)]" "[97]" "[1]" "[97]"
      "js ''viewer''" OR_viewer "[97]" OR_org_admin demo_fresh]
  by (simp add: keyed_def demo_org_def sole_org_admin_def countOrgAdmins_def currentOrgRole_def userIDByEmail_def
      normalizePlatformEmail_def demo_authz_def demo_user_def TrimSpace_def go_space_def role_rank_def js_def)

theorem platform_keeps_admin_witness:
  "ListAdmins (fold (platform_do demo_authz) [PQ_grant [98], PQ_delete [98] [9], PQ_revoke [98]]
     ((demo_org [([9], OR_viewer), ([98], OR_viewer)]))) \<noteq> []"
  by (rule platform_keeps_admin) (simp_all add: ListAdmins_def demo_org_def live_user_def demo_user_def)

definition invited_org :: org_server where
  "invited_org = (demo_org [([97], OR_org_admin)])\<lparr>os_users := [demo_user [97], demo_user [98]]\<rparr>"

lemmas demo_eval = demo_org_def demo_user_def demo_authz_def demo_fresh_def role_rank_def currentOrgRole_def
  TrimSpace_def go_space_def normalizePlatformEmail_def live_user_def js_def

lemma invited_state:
  "org_do demo_authz (demo_fresh, [97], [1], MQ_invite [98] (js ''editor'')) invited_org
   = invited_org\<lparr>os_invites := [\<lparr>iv_id = [5], iv_orgId = [1], iv_email = [98], iv_role = OR_editor, iv_token = [97],
       iv_status = IS_pending, iv_invitedBy = [97], iv_createdAt = 0, iv_acceptedAt = None, iv_expiresAt = 1209600\<rparr>]\<rparr>"
  by (simp add: org_do_def scoped_admin_def createInviteHandler_def CreateInvite_def invited_org_def isOrgMember_def
      RevokePendingByEmail_def revoke_where_def insert_invite_def inviteTTL_def demo_eval Let_def)

theorem accept_invite_correct_witness:
  "\<exists>s s'. AcceptInvite demo_authz 7 [97] [98] s = (Inr ([1], OR_editor), s')
     \<and> currentOrgRole s' [1] [98] = Some OR_editor
     \<and> AcceptInvite demo_authz 8 [97] [98] s' = (Inl OE_not_pending, s')"
proof -
  let ?reqs = "[(demo_fresh, [97], [1], MQ_invite [98] (js ''editor''))]"
  let ?s = "fold (org_do demo_authz) ?reqs invited_org"
  have ok: "invites_ok invited_org" by (simp add: invites_ok_def invited_org_def demo_org_def)
  have "fst (AcceptInvite demo_authz 7 [97] [98] ?s) = Inr ([1], OR_editor)"
    unfolding fold_simps invited_state
    by (simp add: AcceptInvite_def GetByToken_def MarkAccepted_def invited_org_def demo_eval)
  then obtain s' where acc: "AcceptInvite demo_authz 7 [97] [98] ?s = (Inr ([1], OR_editor), s')"
    by (metis prod.collapse)
  from accept_invite_correct [OF demo_laws(1) ok refl acc] acc show ?thesis by blast
qed

text \<open>Two gaps of the guard of the last administrator. Two demotions whose checks both run before
  the writes leave the organisation without one; and a deleted user still counts, so after the
  deletion of one administrator the other can be demoted and no live member administers the
  organisation.\<close>

theorem last_admin_guard_gaps:
  "let s = demo_org [([97], OR_org_admin), ([98], OR_org_admin)] in
     (set_role_check demo_authz [1] [97] OR_viewer s = None \<and> set_role_check demo_authz [1] [98] OR_viewer s = None
      \<and> countOrgAdmins (os_members (set_role_write demo_authz [1] [98] OR_viewer
            (set_role_write demo_authz [1] [97] OR_viewer s))) [1] = 0)
   \<and> (let s1 = snd (platformDeleteUserHandler [9] [98] s);
          s2 = snd (org_serve demo_authz demo_fresh [97] [1] (MQ_set_role [97] (js ''viewer'')) s1)
      in ListMembers s1 [1] = [([97], [97], OR_org_admin)] \<and> ListMembers s2 [1] = [([97], [97], OR_viewer)])"
  by (simp add: set_role_check_def set_role_write_def countOrgAdmins_def platformDeleteUserHandler_def
      last_platform_admin_def ListAdmins_def DeleteUser_def ListMembers_def scoped_admin_def setMemberRoleHandler_def
      SetMemberRole_def demo_eval)

text \<open>A password the reset dialog lets through has eight code units at least, and so eight bytes.\<close>

lemma utf8_length: "length (utf8 c) \<ge> 1" "0x10000 \<le> c \<Longrightarrow> length (utf8 c) \<ge> 2"
  by (simp_all add: utf8_def)

lemma utf8_of_text: "length s \<le> length (concat (map utf8 (code_points s)))"
proof (induction s rule: code_points.induct)
  case (2 c)
  then show ?case using utf8_length(1) [of "if 0xD800 \<le> c \<and> c < 0xE000 then 0xFFFD else c"] by simp
next
  case (3 c d s)
  show ?case
  proof (cases "0xD800 \<le> c \<and> c < 0xDC00 \<and> 0xDC00 \<le> d \<and> d < 0xE000")
    case True
    with 3 utf8_length(2) [of "0x10000 + (c - 0xD800) * 0x400 + (d - 0xDC00)"] show ?thesis by simp
  next
    case False
    with 3 utf8_length(1) [of "if 0xD800 \<le> c \<and> c < 0xE000 then 0xFFFD else c"] show ?thesis by auto
  qed
qed simp

end
