(* ===== verification/Members_Page.thy ===== *)
theory Members_Page
  imports Org_Safety Crud
begin

text \<open>
  The pages that administer members: \<open>members/MembersPage.tsx\<close> (adding, inviting, changing roles,
  revoking invitations; removals run through the machine of \<open>Crud\<close>), the page that accepts an
  invitation (\<open>routes/invites.$token.tsx\<close>) and the users of the platform
  (\<open>platform/sections/UsersSection.tsx\<close>), each as handlers on the page's state with the
  mutations in flight. The messages are measured against the server of \<open>Org_Server\<close>. A call of a
  mutation replaces the callbacks of the one before; the settlement events of deletions and resets,
  which are not limited to one, may therefore come or not.
\<close>

section \<open>Roles and answers\<close>

definition ROLE_OPTIONS :: "org_role list" where
  "ROLE_OPTIONS = [OR_viewer, OR_editor, OR_admin, OR_org_admin]"

record org_member =
  om_userId :: jsstr
  om_email :: jsstr
  om_role :: org_role

text \<open>How a mutation settles: success, an \<open>ApiError\<close> with status and body, or another error.\<close>

datatype settled = Ok | Api_error nat jsstr | Other_error

definition answer_of :: "nat \<Rightarrow> settled" where
  "answer_of code = (if code < 400 then Ok else Api_error code [])"

datatype member_toast =
    MT_added | MT_no_such_user | MT_bad_role | MT_add_failed
  | MT_invited | MT_already_member | MT_bad_invite | MT_invite_failed
  | MT_copied | MT_link jsstr
  | MT_revoked | MT_invite_gone | MT_revoke_failed
  | MT_role_set | MT_last_admin | MT_not_member | MT_role_failed | MT_remove_failed

fun add_message :: "settled \<Rightarrow> member_toast" where
  "add_message Ok = MT_added"
| "add_message (Api_error n b) = (if n = 404 then MT_no_such_user else if n = 400 then MT_bad_role else MT_add_failed)"
| "add_message Other_error = MT_add_failed"

fun invite_message :: "settled \<Rightarrow> member_toast" where
  "invite_message Ok = MT_invited"
| "invite_message (Api_error n b) = (if n = 409 then MT_already_member else if n = 400 then MT_bad_invite else MT_invite_failed)"
| "invite_message Other_error = MT_invite_failed"

fun revoke_message :: "settled \<Rightarrow> member_toast" where
  "revoke_message Ok = MT_revoked"
| "revoke_message (Api_error n b) = (if n = 404 then MT_invite_gone else MT_revoke_failed)"
| "revoke_message Other_error = MT_revoke_failed"

fun role_message :: "settled \<Rightarrow> member_toast" where
  "role_message Ok = MT_role_set"
| "role_message (Api_error n b) = (if n = 409 then MT_last_admin else if n = 404 then MT_not_member else MT_role_failed)"
| "role_message Other_error = MT_role_failed"

text \<open>The error message of a removal, the argument of the page's \<open>useCrudResource\<close>.\<close>

fun remove_message :: "settled \<Rightarrow> member_toast" where
  "remove_message (Api_error n b) = (if n = 409 then MT_last_admin else if n = 404 then MT_not_member else MT_remove_failed)"
| "remove_message e = MT_remove_failed"

definition inviteLinkOf :: "jsstr \<Rightarrow> jsstr \<Rightarrow> jsstr" where
  "inviteLinkOf origin token = origin @ js ''/invites/'' @ token"

section \<open>The members page\<close>

datatype page_command = PC_request member_request | PC_toast member_toast

record members_page =
  mb_email :: jsstr
  mb_addRole :: org_role
  mb_inviteEmail :: jsstr
  mb_inviteRole :: org_role
  mb_adding :: nat
  mb_inviting :: nat
  mb_setting :: nat
  mb_revoking :: nat
  mb_log :: "page_command list"

definition members_start :: members_page where
  "members_start = \<lparr>mb_email = [], mb_addRole = OR_viewer, mb_inviteEmail = [], mb_inviteRole = OR_viewer,
     mb_adding = 0, mb_inviting = 0, mb_setting = 0, mb_revoking = 0, mb_log = []\<rparr>"

definition emit :: "page_command list \<Rightarrow> members_page \<Rightarrow> members_page" where
  "emit cs p = p\<lparr>mb_log := mb_log p @ cs\<rparr>"

datatype members_event =
    Type_Email jsstr
  | Pick_Add_Role org_role
  | Click_Add
  | Add_Settled settled
  | Type_Invite_Email jsstr
  | Pick_Invite_Role org_role
  | Click_Invite
  | Invite_Settled settled jsstr bool
  | Pick_Member_Role org_member org_role
  | Role_Settled settled
  | Click_Revoke jsstr
  | Revoke_Settled settled
  | Click_Copy jsstr bool

fun members_guard :: "members_page \<Rightarrow> members_event \<Rightarrow> bool" where
  "members_guard p Click_Add = (mb_adding p = 0 \<and> trim (mb_email p) \<noteq> [])"
| "members_guard p (Add_Settled r) = (mb_adding p > 0)"
| "members_guard p Click_Invite = (mb_inviting p = 0 \<and> trim (mb_inviteEmail p) \<noteq> [])"
| "members_guard p (Invite_Settled r t c) = (mb_inviting p > 0)"
| "members_guard p (Pick_Member_Role m r) = (mb_setting p = 0)"
| "members_guard p (Role_Settled r) = (mb_setting p > 0)"
| "members_guard p (Click_Revoke i) = (mb_revoking p = 0)"
| "members_guard p (Revoke_Settled r) = (mb_revoking p > 0)"
| "members_guard p e = True"

definition handleAdd :: "members_page \<Rightarrow> members_page" where
  "handleAdd p = (let v = trim (mb_email p) in
     if v = [] then p else emit [PC_request (MQ_add v (role_text (mb_addRole p)))] (p\<lparr>mb_adding := mb_adding p + 1\<rparr>))"

definition handleInvite :: "members_page \<Rightarrow> members_page" where
  "handleInvite p = (let v = trim (mb_inviteEmail p) in
     if v = [] then p
     else emit [PC_request (MQ_invite v (role_text (mb_inviteRole p)))] (p\<lparr>mb_inviting := mb_inviting p + 1\<rparr>))"

definition handleSetRole :: "org_member \<Rightarrow> org_role \<Rightarrow> members_page \<Rightarrow> members_page" where
  "handleSetRole m r p = (if r = om_role m then p
     else emit [PC_request (MQ_set_role (om_userId m) (role_text r))] (p\<lparr>mb_setting := mb_setting p + 1\<rparr>))"

definition handleRevokeInvite :: "jsstr \<Rightarrow> members_page \<Rightarrow> members_page" where
  "handleRevokeInvite i p = emit [PC_request (MQ_revoke i)] (p\<lparr>mb_revoking := mb_revoking p + 1\<rparr>)"

text \<open>The last argument says whether the clipboard took the link.\<close>

definition copyInviteLink :: "jsstr \<Rightarrow> jsstr \<Rightarrow> bool \<Rightarrow> page_command list" where
  "copyInviteLink origin token copied = [PC_toast (if copied then MT_copied else MT_link (inviteLinkOf origin token))]"

definition add_settled :: "settled \<Rightarrow> members_page \<Rightarrow> members_page" where
  "add_settled r p = emit [PC_toast (add_message r)]
     (if r = Ok then p\<lparr>mb_adding := mb_adding p - 1, mb_email := [], mb_addRole := OR_viewer\<rparr>
      else p\<lparr>mb_adding := mb_adding p - 1\<rparr>)"

definition invite_settled :: "jsstr \<Rightarrow> settled \<Rightarrow> jsstr \<Rightarrow> bool \<Rightarrow> members_page \<Rightarrow> members_page" where
  "invite_settled origin r token copied p =
     emit (PC_toast (invite_message r) # (if r = Ok then copyInviteLink origin token copied else []))
     (if r = Ok then p\<lparr>mb_inviting := mb_inviting p - 1, mb_inviteEmail := [], mb_inviteRole := OR_viewer\<rparr>
      else p\<lparr>mb_inviting := mb_inviting p - 1\<rparr>)"

fun members_handle :: "jsstr \<Rightarrow> members_event \<Rightarrow> members_page \<Rightarrow> members_page" where
  "members_handle origin (Type_Email s) p = p\<lparr>mb_email := s\<rparr>"
| "members_handle origin (Pick_Add_Role r) p = p\<lparr>mb_addRole := r\<rparr>"
| "members_handle origin Click_Add p = handleAdd p"
| "members_handle origin (Add_Settled r) p = add_settled r p"
| "members_handle origin (Type_Invite_Email s) p = p\<lparr>mb_inviteEmail := s\<rparr>"
| "members_handle origin (Pick_Invite_Role r) p = p\<lparr>mb_inviteRole := r\<rparr>"
| "members_handle origin Click_Invite p = handleInvite p"
| "members_handle origin (Invite_Settled r t c) p = invite_settled origin r t c p"
| "members_handle origin (Pick_Member_Role m r) p = handleSetRole m r p"
| "members_handle origin (Role_Settled r) p = emit [PC_toast (role_message r)] (p\<lparr>mb_setting := mb_setting p - 1\<rparr>)"
| "members_handle origin (Click_Revoke i) p = handleRevokeInvite i p"
| "members_handle origin (Revoke_Settled r) p = emit [PC_toast (revoke_message r)] (p\<lparr>mb_revoking := mb_revoking p - 1\<rparr>)"
| "members_handle origin (Click_Copy t c) p = emit (copyInviteLink origin t c) p"

inductive members_step :: "jsstr \<Rightarrow> members_page \<Rightarrow> members_event \<Rightarrow> members_page \<Rightarrow> bool" for origin :: jsstr where
  "members_guard p e \<Longrightarrow> members_step origin p e (members_handle origin e p)"

inductive_cases members_stepE: "members_step origin p e p'"

section \<open>Accepting an invitation\<close>

datatype accept_message = AM_other_mailbox | AM_missing | AM_settled | AM_expired | AM_failed

fun acceptErrorMessage :: "settled \<Rightarrow> accept_message" where
  "acceptErrorMessage (Api_error n b) = (if n = 403 then AM_other_mailbox else if n = 404 then AM_missing
     else if n = 409 then AM_settled else if n = 410 then AM_expired else AM_failed)"
| "acceptErrorMessage e = AM_failed"

record accept_page =
  ap_pending :: bool
  ap_error :: "accept_message option"
  ap_target :: "jsstr option"

definition handleAccept :: "accept_page \<Rightarrow> accept_page" where
  "handleAccept p = p\<lparr>ap_pending := True, ap_error := None\<rparr>"

definition accept_settled :: "settled \<Rightarrow> jsstr \<Rightarrow> accept_page \<Rightarrow> accept_page" where
  "accept_settled r org p = (if r = Ok then p\<lparr>ap_target := Some (js ''/orgs/'' @ org @ js ''/projects'')\<rparr>
     else p\<lparr>ap_error := Some (acceptErrorMessage r), ap_pending := False\<rparr>)"

section \<open>Users of the platform\<close>

record platform_user =
  pf_userId :: jsstr
  pf_email :: jsstr
  pf_isPlatformAdmin :: bool

datatype user_toast = UT_revoked | UT_last_admin | UT_failed | UT_granted | UT_no_such_user
  | UT_deleted | UT_not_yourself | UT_delete_failed
  | UT_reset jsstr | UT_weak_password | UT_bad_request | UT_reset_failed

fun toggle_message :: "bool \<Rightarrow> settled \<Rightarrow> user_toast" where
  "toggle_message wasAdmin Ok = (if wasAdmin then UT_revoked else UT_granted)"
| "toggle_message wasAdmin (Api_error n b) = (if wasAdmin then (if n = 409 then UT_last_admin else UT_failed)
     else if n = 404 then UT_no_such_user else UT_failed)"
| "toggle_message wasAdmin Other_error = UT_failed"

fun delete_message :: "settled \<Rightarrow> user_toast" where
  "delete_message Ok = UT_deleted"
| "delete_message (Api_error n b) = (if n = 409 then (if str_includes b (js ''yourself'') then UT_not_yourself else UT_last_admin)
     else UT_delete_failed)"
| "delete_message Other_error = UT_delete_failed"

fun reset_message :: "jsstr \<Rightarrow> settled \<Rightarrow> user_toast" where
  "reset_message email Ok = UT_reset email"
| "reset_message email (Api_error n b) = (if n = 400 then (if str_includes b (js ''password'') then UT_weak_password else UT_bad_request)
     else if n = 404 then UT_no_such_user else UT_reset_failed)"
| "reset_message email Other_error = UT_reset_failed"

datatype user_command = UC_revoke jsstr | UC_grant jsstr | UC_delete jsstr | UC_reset jsstr jsstr | UC_toast user_toast

record users_page =
  up_detail :: "platform_user option"
  up_pendingDelete :: "platform_user option"
  up_pendingReset :: "platform_user option"
  up_pwd :: jsstr
  up_confirm :: jsstr
  up_showNew :: bool
  up_showConfirm :: bool
  up_granting :: nat
  up_revoking :: nat
  up_log :: "user_command list"

definition users_start :: users_page where
  "users_start = \<lparr>up_detail = None, up_pendingDelete = None, up_pendingReset = None, up_pwd = [], up_confirm = [],
     up_showNew = False, up_showConfirm = False, up_granting = 0, up_revoking = 0, up_log = []\<rparr>"

definition tooShort :: "users_page \<Rightarrow> bool" where
  "tooShort p \<longleftrightarrow> length (up_pwd p) > 0 \<and> length (up_pwd p) < 8"

definition mismatch :: "users_page \<Rightarrow> bool" where
  "mismatch p \<longleftrightarrow> length (up_confirm p) > 0 \<and> up_pwd p \<noteq> up_confirm p"

definition canConfirm :: "users_page \<Rightarrow> bool" where
  "canConfirm p \<longleftrightarrow> length (up_pwd p) \<ge> 8 \<and> up_pwd p = up_confirm p"

definition handleToggleAdmin :: "platform_user \<Rightarrow> users_page \<Rightarrow> users_page" where
  "handleToggleAdmin u p = (if pf_isPlatformAdmin u
     then p\<lparr>up_revoking := up_revoking p + 1, up_log := up_log p @ [UC_revoke (pf_userId u)]\<rparr>
     else p\<lparr>up_granting := up_granting p + 1, up_log := up_log p @ [UC_grant (pf_email u)]\<rparr>)"

definition handleDelete :: "platform_user \<Rightarrow> users_page \<Rightarrow> users_page" where
  "handleDelete u p = p\<lparr>up_pendingDelete := None, up_log := up_log p @ [UC_delete (pf_userId u)]\<rparr>"

definition handleResetPassword :: "platform_user \<Rightarrow> jsstr \<Rightarrow> users_page \<Rightarrow> users_page" where
  "handleResetPassword u pwd p = p\<lparr>up_pendingReset := None, up_log := up_log p @ [UC_reset (pf_userId u) pwd]\<rparr>"

definition close_reset :: "users_page \<Rightarrow> users_page" where
  "close_reset p = p\<lparr>up_pwd := [], up_confirm := [], up_showNew := False, up_showConfirm := False, up_pendingReset := None\<rparr>"

definition confirm_reset :: "users_page \<Rightarrow> users_page" where
  "confirm_reset p = (case up_pendingReset p of None \<Rightarrow> p
     | Some u \<Rightarrow> if canConfirm p then (handleResetPassword u (up_pwd p) p)\<lparr>up_pwd := [], up_confirm := []\<rparr> else p)"

datatype users_event =
    Toggle_Admin platform_user
  | Toggle_Settled bool settled
  | Open_Detail platform_user
  | Close_Detail
  | Open_Delete platform_user
  | Cancel_Delete
  | Confirm_Delete
  | Delete_Settled settled
  | Open_Reset platform_user
  | Close_Reset
  | Type_Password jsstr
  | Type_Confirm jsstr
  | Show_Password
  | Show_Confirm
  | Confirm_Reset
  | Reset_Settled jsstr settled

fun users_guard :: "users_page \<Rightarrow> users_event \<Rightarrow> bool" where
  "users_guard p (Toggle_Admin u) = (up_granting p = 0 \<and> up_revoking p = 0)"
| "users_guard p (Toggle_Settled wasAdmin r) = (if wasAdmin then up_revoking p > 0 else up_granting p > 0)"
| "users_guard p Confirm_Delete = (up_pendingDelete p \<noteq> None)"
| "users_guard p (Open_Reset u) = (up_pendingReset p = None)"
| "users_guard p Close_Reset = (up_pendingReset p \<noteq> None)"
| "users_guard p (Type_Password s) = (up_pendingReset p \<noteq> None)"
| "users_guard p (Type_Confirm s) = (up_pendingReset p \<noteq> None)"
| "users_guard p Show_Password = (up_pendingReset p \<noteq> None)"
| "users_guard p Show_Confirm = (up_pendingReset p \<noteq> None)"
| "users_guard p Confirm_Reset = (up_pendingReset p \<noteq> None \<and> canConfirm p)"
| "users_guard p e = True"

definition user_say :: "user_toast \<Rightarrow> users_page \<Rightarrow> users_page" where
  "user_say t p = p\<lparr>up_log := up_log p @ [UC_toast t]\<rparr>"

fun users_handle :: "users_event \<Rightarrow> users_page \<Rightarrow> users_page" where
  "users_handle (Toggle_Admin u) p = handleToggleAdmin u p"
| "users_handle (Toggle_Settled wasAdmin r) p = user_say (toggle_message wasAdmin r)
     (if wasAdmin then p\<lparr>up_revoking := up_revoking p - 1\<rparr> else p\<lparr>up_granting := up_granting p - 1\<rparr>)"
| "users_handle (Open_Detail u) p = p\<lparr>up_detail := Some u\<rparr>"
| "users_handle Close_Detail p = p\<lparr>up_detail := None\<rparr>"
| "users_handle (Open_Delete u) p = p\<lparr>up_pendingDelete := Some u\<rparr>"
| "users_handle Cancel_Delete p = p\<lparr>up_pendingDelete := None\<rparr>"
| "users_handle Confirm_Delete p = (case up_pendingDelete p of None \<Rightarrow> p | Some u \<Rightarrow> handleDelete u p)"
| "users_handle (Delete_Settled r) p = user_say (delete_message r) p"
| "users_handle (Open_Reset u) p = p\<lparr>up_pendingReset := Some u\<rparr>"
| "users_handle Close_Reset p = close_reset p"
| "users_handle (Type_Password s) p = p\<lparr>up_pwd := s\<rparr>"
| "users_handle (Type_Confirm s) p = p\<lparr>up_confirm := s\<rparr>"
| "users_handle Show_Password p = p\<lparr>up_showNew := \<not> up_showNew p\<rparr>"
| "users_handle Show_Confirm p = p\<lparr>up_showConfirm := \<not> up_showConfirm p\<rparr>"
| "users_handle Confirm_Reset p = confirm_reset p"
| "users_handle (Reset_Settled email r) p = user_say (reset_message email r) p"

inductive users_step :: "users_page \<Rightarrow> users_event \<Rightarrow> users_page \<Rightarrow> bool" where
  "users_guard p e \<Longrightarrow> users_step p e (users_handle e p)"

inductive_cases users_stepE: "users_step p e p'"

section \<open>Facts\<close>

fun is_add :: "page_command \<Rightarrow> bool" where
  "is_add (PC_request (MQ_add e r)) = True" | "is_add c = False"

fun is_invite :: "page_command \<Rightarrow> bool" where
  "is_invite (PC_request (MQ_invite e r)) = True" | "is_invite c = False"

fun is_set_role :: "page_command \<Rightarrow> bool" where
  "is_set_role (PC_request (MQ_set_role u r)) = True" | "is_set_role c = False"

fun is_revoke :: "page_command \<Rightarrow> bool" where
  "is_revoke (PC_request (MQ_revoke i)) = True" | "is_revoke c = False"

fun settles_add :: "members_event \<Rightarrow> bool" where
  "settles_add (Add_Settled r) = True" | "settles_add e = False"

fun settles_invite :: "members_event \<Rightarrow> bool" where
  "settles_invite (Invite_Settled r t c) = True" | "settles_invite e = False"

fun settles_role :: "members_event \<Rightarrow> bool" where
  "settles_role (Role_Settled r) = True" | "settles_role e = False"

fun settles_revoke :: "members_event \<Rightarrow> bool" where
  "settles_revoke (Revoke_Settled r) = True" | "settles_revoke e = False"

text \<open>A request the page may send: a trimmed address that is not empty, a role of the selection.\<close>

fun good_command :: "page_command \<Rightarrow> bool" where
  "good_command (PC_request (MQ_add e r)) = (e \<noteq> [] \<and> trim e = e \<and> r \<in> role_text ` set ROLE_OPTIONS)"
| "good_command (PC_request (MQ_invite e r)) = (e \<noteq> [] \<and> trim e = e \<and> r \<in> role_text ` set ROLE_OPTIONS)"
| "good_command (PC_request (MQ_set_role u r)) = (r \<in> role_text ` set ROLE_OPTIONS)"
| "good_command (PC_request (MQ_revoke i)) = True"
| "good_command (PC_request q) = False"
| "good_command (PC_toast t) = True"

definition in_flight :: "(page_command \<Rightarrow> bool) \<Rightarrow> (members_event \<Rightarrow> bool) \<Rightarrow> nat \<Rightarrow> members_event list \<Rightarrow> members_page \<Rightarrow> bool" where
  "in_flight sends settles n es p \<longleftrightarrow> n \<le> 1 \<and> count_of sends (mb_log p) = count_of settles es + n"

definition members_ok :: "members_event list \<Rightarrow> members_page \<Rightarrow> bool" where
  "members_ok es p \<longleftrightarrow> in_flight is_add settles_add (mb_adding p) es p
     \<and> in_flight is_invite settles_invite (mb_inviting p) es p
     \<and> in_flight is_set_role settles_role (mb_setting p) es p
     \<and> in_flight is_revoke settles_revoke (mb_revoking p) es p
     \<and> list_all good_command (mb_log p)"

lemma all_roles [simp]: "role_text r \<in> role_text ` set ROLE_OPTIONS"
  by (cases r) (simp_all add: ROLE_OPTIONS_def)

lemmas members_defs = handleAdd_def handleInvite_def handleSetRole_def handleRevokeInvite_def add_settled_def
  invite_settled_def copyInviteLink_def emit_def Let_def

lemma members_keeps:
  assumes "members_ok es p" and "members_step origin p e p'"
  shows "members_ok (es @ [e]) p'"
proof -
  from assms(2) have g: "members_guard p e" and p': "p' = members_handle origin e p"
    by (auto elim: members_stepE)
  show ?thesis using assms(1) g
    by (cases e) (auto simp: p' members_ok_def in_flight_def members_defs trim_idem)
qed

interpretation members_trace: trace_invariant "members_step origin" members_ok
  by unfold_locales (rule members_keeps)

lemma members_start_ok: "members_ok [] members_start"
  by (simp add: members_ok_def in_flight_def members_start_def)

definition reset_ok :: "users_event list \<Rightarrow> users_page \<Rightarrow> bool" where
  "reset_ok es p \<longleftrightarrow> (up_pendingReset p = None \<longrightarrow> up_pwd p = [] \<and> up_confirm p = [])
     \<and> list_all (\<lambda>c. case c of UC_reset u pwd \<Rightarrow> length pwd \<ge> 8 | _ \<Rightarrow> True) (up_log p)
     \<and> up_granting p + up_revoking p \<le> 1"

lemma reset_keeps:
  assumes "reset_ok es p" and "users_step p e p'"
  shows "reset_ok (es @ [e]) p'"
proof -
  from assms(2) have g: "users_guard p e" and p': "p' = users_handle e p"
    by (auto elim: users_stepE)
  show ?thesis using assms(1) g
    by (cases e) (auto simp: p' reset_ok_def handleToggleAdmin_def user_say_def handleDelete_def close_reset_def
        confirm_reset_def handleResetPassword_def canConfirm_def split: option.splits)
qed

interpretation users_trace: trace_invariant users_step reset_ok
  by unfold_locales (rule reset_keeps)

lemma users_start_ok: "reset_ok [] users_start"
  by (simp add: reset_ok_def users_start_def)

definition parse_law :: "authz \<Rightarrow> bool" where
  "parse_law az \<longleftrightarrow> (\<forall>r. az_parse az (role_text r) = Some r)"

lemma set_role_outcome:
  assumes "upsert_law az" and "ge_law az" and "parse_law az" and "uid \<noteq> []"
  shows "setMemberRoleHandler az org uid (role_text r) s =
    (case currentOrgRole s org uid of None \<Rightarrow> (404, s)
     | Some c \<Rightarrow> if sole_org_admin s uid org \<and> r \<noteq> OR_org_admin then (409, s)
         else (200, set_role_write az org uid r s))"
  using assms
  by (auto simp: setMemberRoleHandler_def parse_law_def ge_law_def SetMemberRole_def set_role_check_def
      sole_org_admin_def split: option.split)

lemma set_role_write_role: "upsert_law az \<Longrightarrow> currentOrgRole (set_role_write az org uid r s) org uid = Some r"
  by (simp add: currentOrgRole_def set_role_write_def upsert_roles(1))

lemma remove_outcome:
  assumes "uid \<noteq> []"
  shows "removeMemberHandler org uid s =
    (if currentOrgRole s org uid = None then (404, s)
     else if sole_org_admin s uid org then (409, s)
     else (200, s\<lparr>os_members := filter (\<lambda>(k, r). k \<noteq> (org, uid)) (os_members s)\<rparr>))"
  using assms
  by (auto simp: removeMemberHandler_def RemoveMember_def remove_check_def remove_write_def sole_org_admin_def
      currentOrgRole_def split: option.split)

section \<open>Properties\<close>

text \<open>What the members page tells its user is what the server did: a role change or a removal is
  reported as done exactly when it took effect, as the last administrator exactly when it would have
  left the organisation without one, as no member exactly when there is no such membership; an
  addition names a missing user exactly when no live user has the address.\<close>

theorem member_messages_true:
  assumes law: "upsert_law az" "ge_law az" "parse_law az" and "uid \<noteq> []" and "email \<noteq> []"
    and setr: "setMemberRoleHandler az org uid (role_text r) s = (n1, s1)"
    and rem: "removeMemberHandler org uid s = (n2, s2)"
    and add: "addMemberHandler az org email (role_text r) s = (n3, s3)"
  shows "(role_message (answer_of n1) = MT_role_set \<longleftrightarrow>
            currentOrgRole s org uid \<noteq> None \<and> \<not> (sole_org_admin s uid org \<and> r \<noteq> OR_org_admin))
    \<and> (if role_message (answer_of n1) = MT_role_set then currentOrgRole s1 org uid = Some r else s1 = s)
    \<and> (role_message (answer_of n1) = MT_last_admin \<longleftrightarrow> sole_org_admin s uid org \<and> r \<noteq> OR_org_admin)
    \<and> (role_message (answer_of n1) = MT_not_member \<longleftrightarrow> currentOrgRole s org uid = None)
    \<and> (answer_of n2 = Ok \<longleftrightarrow> currentOrgRole s org uid \<noteq> None \<and> \<not> sole_org_admin s uid org)
    \<and> (if answer_of n2 = Ok then currentOrgRole s2 org uid = None else s2 = s)
    \<and> (remove_message (answer_of n2) = MT_last_admin \<longleftrightarrow> sole_org_admin s uid org)
    \<and> (remove_message (answer_of n2) = MT_not_member \<longleftrightarrow> currentOrgRole s org uid = None)
    \<and> (add_message (answer_of n3) = MT_no_such_user \<longleftrightarrow> userIDByEmail az s (code_points email) = None)
    \<and> (add_message (answer_of n3) = MT_added \<longleftrightarrow> userIDByEmail az s (code_points email) \<noteq> None)"
proof -
  have sole: "sole_org_admin s uid org \<Longrightarrow> currentOrgRole s org uid \<noteq> None" by (simp add: sole_org_admin_def)
  have p: "az_parse az (role_text r) = Some r" using law(3) by (simp add: parse_law_def)
  have c1: "(n1, s1) = (case currentOrgRole s org uid of None \<Rightarrow> (404, s)
     | Some c \<Rightarrow> if sole_org_admin s uid org \<and> r \<noteq> OR_org_admin then (409, s)
         else (200, set_role_write az org uid r s))"
    using set_role_outcome [OF law assms(4)] setr by simp
  have c2: "(n2, s2) = (if currentOrgRole s org uid = None then (404, s)
     else if sole_org_admin s uid org then (409, s)
     else (200, s\<lparr>os_members := filter (\<lambda>(k, r). k \<noteq> (org, uid)) (os_members s)\<rparr>))"
    using remove_outcome [OF assms(4)] rem by simp
  have c3: "n3 = (if userIDByEmail az s (code_points email) = None then 404 else 201)"
    using add p assms(5) by (auto simp: addMemberHandler_def AddMemberByEmail_def split: option.splits)
  have part1: "(role_message (answer_of n1) = MT_role_set \<longleftrightarrow>
            currentOrgRole s org uid \<noteq> None \<and> \<not> (sole_org_admin s uid org \<and> r \<noteq> OR_org_admin))
    \<and> (if role_message (answer_of n1) = MT_role_set then currentOrgRole s1 org uid = Some r else s1 = s)
    \<and> (role_message (answer_of n1) = MT_last_admin \<longleftrightarrow> sole_org_admin s uid org \<and> r \<noteq> OR_org_admin)
    \<and> (role_message (answer_of n1) = MT_not_member \<longleftrightarrow> currentOrgRole s org uid = None)"
    using c1 sole set_role_write_role [OF law(1)] by (auto simp: answer_of_def split: option.splits if_splits)
  have part2: "(answer_of n2 = Ok \<longleftrightarrow> currentOrgRole s org uid \<noteq> None \<and> \<not> sole_org_admin s uid org)
    \<and> (if answer_of n2 = Ok then currentOrgRole s2 org uid = None else s2 = s)
    \<and> (remove_message (answer_of n2) = MT_last_admin \<longleftrightarrow> sole_org_admin s uid org)
    \<and> (remove_message (answer_of n2) = MT_not_member \<longleftrightarrow> currentOrgRole s org uid = None)"
    using c2 sole by (auto simp: answer_of_def currentOrgRole_def map_of_without split: if_splits)
  from part1 part2 show ?thesis by (simp add: c3 answer_of_def)
qed

lemma demo_parse_law: "parse_law demo_authz"
  by (simp add: parse_law_def demo_authz_def role_text_def split: org_role.split)

theorem member_messages_true_witness:
  "role_message (answer_of (fst (setMemberRoleHandler demo_authz [1] [97] (role_text OR_viewer)
      (demo_org [([97], OR_org_admin)])))) = MT_last_admin"
proof -
  let ?s = "demo_org [([97], OR_org_admin)]"
  obtain n1 s1 n2 s2 n3 s3 where h: "setMemberRoleHandler demo_authz [1] [97] (role_text OR_viewer) ?s = (n1, s1)"
    "removeMemberHandler [1] [97] ?s = (n2, s2)" "addMemberHandler demo_authz [1] [97] (role_text OR_viewer) ?s = (n3, s3)"
    by (meson prod.exhaust)
  have "sole_org_admin ?s [97] [1]"
    by (simp add: sole_org_admin_def countOrgAdmins_def currentOrgRole_def demo_org_def)
  with member_messages_true [OF demo_laws demo_parse_law _ _ h] h(1) show ?thesis by simp
qed

text \<open>In every run of the members page at most one request of each kind is in flight and each is
  settled by its own answer; an address is sent trimmed and never empty, a role is one of the four.\<close>

theorem members_requests:
  assumes "run (members_step origin) members_start es p"
  shows "mb_adding p \<le> 1 \<and> mb_inviting p \<le> 1 \<and> mb_setting p \<le> 1 \<and> mb_revoking p \<le> 1
    \<and> count_of is_add (mb_log p) = count_of settles_add es + mb_adding p
    \<and> count_of is_invite (mb_log p) = count_of settles_invite es + mb_inviting p
    \<and> count_of is_set_role (mb_log p) = count_of settles_role es + mb_setting p
    \<and> count_of is_revoke (mb_log p) = count_of settles_revoke es + mb_revoking p
    \<and> list_all good_command (mb_log p)"
  using members_trace.from_start [OF assms members_start_ok] by (simp add: members_ok_def in_flight_def)

lemma members_run:
  "allowed members_guard (members_handle origin) es p \<Longrightarrow>
     run (members_step origin) p es (fold (members_handle origin) es p)"
  by (rule allowed_run) (rule members_step.intros)

theorem members_requests_witness:
  "list_all good_command (mb_log (fold (members_handle []) [Type_Email [32, 97], Click_Add] members_start))"
  using members_requests [OF members_run [of "[]" "[Type_Email [32, 97], Click_Add]" members_start]]
  by (simp add: members_start_def trim_def is_ws_def members_defs)

text \<open>In every run of the users page the password fields are empty whenever the dialog is closed,
  every reset sent has a password the server finds long enough, and of the switches of
  administrators one at most is in flight.\<close>

theorem reset_dialog_safe:
  assumes "run users_step users_start es p"
  shows "(up_pendingReset p = None \<longrightarrow> up_pwd p = [] \<and> up_confirm p = [])
    \<and> list_all (\<lambda>c. case c of UC_reset u pwd \<Rightarrow> \<not> password_too_short pwd | _ \<Rightarrow> True) (up_log p)
    \<and> up_granting p + up_revoking p \<le> 1"
proof -
  have short: "length pwd \<ge> 8 \<Longrightarrow> \<not> password_too_short pwd" for pwd
    using utf8_of_text [of pwd] by (simp add: password_too_short_def)
  from users_trace.from_start [OF assms users_start_ok] show ?thesis
    by (auto simp: reset_ok_def short list_all_iff split: user_command.splits)
qed

lemma users_run: "allowed users_guard users_handle es p \<Longrightarrow> run users_step p es (fold users_handle es p)"
  by (rule allowed_run) (rule users_step.intros)

definition demo_platform_user :: platform_user where
  "demo_platform_user = \<lparr>pf_userId = [7], pf_email = [8], pf_isPlatformAdmin = False\<rparr>"

definition demo_reset :: "users_event list" where
  "demo_reset = [Open_Reset demo_platform_user, Show_Password, Type_Password (js ''12345678''),
     Type_Confirm (js ''12345678''), Confirm_Reset]"

lemmas reset_eval = demo_reset_def users_start_def confirm_reset_def canConfirm_def handleResetPassword_def

theorem reset_dialog_safe_witness:
  "up_log (fold users_handle demo_reset users_start) = [UC_reset [7] (js ''12345678'')]
   \<and> \<not> password_too_short (js ''12345678'')"
proof -
  have "run users_step users_start demo_reset (fold users_handle demo_reset users_start)"
    by (rule users_run) (simp add: reset_eval demo_platform_user_def)
  from reset_dialog_safe [OF this] show ?thesis by (simp add: reset_eval demo_platform_user_def)
qed

text \<open>The answer to an addition clears the field, also when another address was typed while the
  request was under way; and after a confirmed reset the dialog of the next user opens with the
  password shown in clear when it was shown before.\<close>

theorem pages_keep_or_lose_input:
  "(let p = fold (members_handle []) [Type_Email [97], Click_Add, Type_Email [98]] members_start in
      allowed members_guard (members_handle []) [Type_Email [97], Click_Add, Type_Email [98], Add_Settled Ok] members_start
      \<and> mb_email p = [98] \<and> mb_email (members_handle [] (Add_Settled Ok) p) = [])
   \<and> up_showNew (fold users_handle (demo_reset @ [Open_Reset demo_platform_user]) users_start)"
  by (simp add: members_start_def members_defs trim_def is_ws_def reset_eval demo_platform_user_def)

end
