(* ===== verification/Org_Access.thy ===== *)
theory Org_Access
  imports Org_Safety Session
begin

text \<open>
  Who sees which page: the role probe (\<open>app/rbac.ts\<close>), the gates in front of the pages
  (\<open>cost/AdminGate.tsx\<close>, \<open>platform/PlatformAdminPage.tsx\<close>), the navigation
  (\<open>app/nav.ts\<close>, \<open>app/AppShell.tsx\<close>), the organisation in the address (\<open>app/org.ts\<close>), and on
  the server the roles that the routes of \<open>httpapi.go\<close> demand for what the pages read. The
  order of roles and the role of a caller belong to the authz library (\<open>authz\<close>).
\<close>

section \<open>The role of the user\<close>

text \<open>The answer of a probe: a status and the field \<open>role\<close> of the body, or no answer.\<close>

datatype role_answer = RA_answer nat "jsstr option" | RA_failed

record client_role =
  ro_role :: jsstr
  ro_isAdmin :: bool
  ro_canWrite :: bool
  ro_isLoading :: bool

text \<open>\<open>None\<close>: the query fails and has no data.\<close>

definition probeRole :: "role_answer \<Rightarrow> jsstr option" where
  "probeRole a = (case a of RA_failed \<Rightarrow> None
     | RA_answer status r \<Rightarrow> Some (if res_ok status then nullish r [] else []))"

definition useRole :: "jsstr \<Rightarrow> jsstr option \<Rightarrow> bool \<Rightarrow> client_role" where
  "useRole org data loading =
     (let r = nullish data []; adm = r = js ''admin'' \<or> r = js ''org_admin'' in
      \<lparr>ro_role = r, ro_isAdmin = adm, ro_canWrite = adm \<or> r = js ''editor'',
       ro_isLoading = org \<noteq> [] \<and> loading\<rparr>)"

datatype gate_view = GV_checking | GV_denied | GV_content

definition AdminGate :: "client_role \<Rightarrow> gate_view" where
  "AdminGate r = (if ro_isLoading r then GV_checking else if \<not> ro_isAdmin r then GV_denied else GV_content)"

definition PlatformGate :: "bool \<Rightarrow> bool option \<Rightarrow> gate_view" where
  "PlatformGate loading whoami = (if loading then GV_checking
     else if \<not> nullish whoami False then GV_denied else GV_content)"

section \<open>Navigation\<close>

record nav_item =
  ni_to :: jsstr
  ni_label :: jsstr
  ni_adminOnly :: bool
  ni_orgScoped :: bool

record nav_section =
  ns_id :: jsstr
  ns_title :: jsstr
  ns_items :: "nav_item list"
  ns_platformOnly :: bool

definition org_item :: "string \<Rightarrow> jsstr \<Rightarrow> bool \<Rightarrow> nav_item" where
  "org_item page label adm = \<lparr>ni_to = js ''/orgs/$org/'' @ js page, ni_label = label, ni_adminOnly = adm, ni_orgScoped = True\<rparr>"

definition platform_item :: "string \<Rightarrow> jsstr \<Rightarrow> nav_item" where
  "platform_item to label = \<lparr>ni_to = js to, ni_label = label, ni_adminOnly = False, ni_orgScoped = False\<rparr>"

definition workspace_items :: "nav_item list" where
  "workspace_items =
    [org_item ''projects'' [39033, 30446] False,
     org_item ''tasks'' [20219, 21153, 20013, 24515] False,
     org_item ''review'' [23457, 26680] True,
     org_item ''assets'' [36164, 20135] False,
     org_item ''prompt'' [25552, 31034, 35789] False]"

definition config_items :: "nav_item list" where
  "config_items =
    [org_item ''cost'' [25104, 26412] True,
     org_item ''model-configs'' [27169, 22411] True,
     org_item ''storage-config'' [23384, 20648] True,
     org_item ''builtin-node-types'' [20869, 32622, 33410, 28857] True,
     org_item ''custom-node-types'' [33258, 23450, 20041, 33410, 28857] True,
     org_item ''secrets'' [23494, 38053] True,
     org_item ''alerts'' [21578, 35686] True,
     org_item ''members'' [25104, 21592] True,
     org_item ''audit'' [23457, 35745] True]"

definition platform_items :: "nav_item list" where
  "platform_items =
    [platform_item ''/platform'' [24179, 21488],
     platform_item ''/platform/orgs'' [20840, 37096, 32452, 32455],
     platform_item ''/platform/users'' [29992, 25143, 31649, 29702],
     platform_item ''/platform/health'' [30417, 25511]]"

definition NAV_SECTIONS :: "nav_section list" where
  "NAV_SECTIONS =
    [\<lparr>ns_id = js ''workspace'', ns_title = [24037, 20316, 21306], ns_items = workspace_items, ns_platformOnly = False\<rparr>,
     \<lparr>ns_id = js ''config'', ns_title = [37197, 32622], ns_items = config_items, ns_platformOnly = False\<rparr>,
     \<lparr>ns_id = js ''platform'', ns_title = [24179, 21488, 31649, 29702], ns_items = platform_items, ns_platformOnly = True\<rparr>]"

text \<open>\<open>s.replace(pat, repl)\<close> with a text as pattern: the first occurrence is replaced, and
  \<open>$$\<close>, \<open>$&\<close>, \<open>$`\<close> and \<open>$'\<close> in the replacement are expanded.\<close>

fun expand_replacement :: "jsstr \<Rightarrow> jsstr \<Rightarrow> jsstr \<Rightarrow> jsstr \<Rightarrow> jsstr" where
  "expand_replacement pre m post (c # d # r) =
     (if c = 36 \<and> d = 36 then 36 # expand_replacement pre m post r
      else if c = 36 \<and> d = 38 then m @ expand_replacement pre m post r
      else if c = 36 \<and> d = 96 then pre @ expand_replacement pre m post r
      else if c = 36 \<and> d = 39 then post @ expand_replacement pre m post r
      else c # expand_replacement pre m post (d # r))"
| "expand_replacement pre m post r = r"

fun replace_first :: "jsstr \<Rightarrow> jsstr \<Rightarrow> jsstr \<Rightarrow> jsstr \<Rightarrow> jsstr" where
  "replace_first pat repl pre [] = (if pat = [] then expand_replacement pre [] [] repl else [])"
| "replace_first pat repl pre (c # s) =
     (if startsWith (c # s) pat
      then expand_replacement pre pat (drop (length pat) (c # s)) repl @ drop (length pat) (c # s)
      else c # replace_first pat repl (pre @ [c]) s)"

definition nav_resolved :: "jsstr \<Rightarrow> nav_item \<Rightarrow> jsstr" where
  "nav_resolved org i = (if ni_orgScoped i then replace_first (js ''$org'') org [] (ni_to i) else ni_to i)"

definition nav_matches :: "jsstr \<Rightarrow> jsstr \<Rightarrow> bool" where
  "nav_matches pathname r \<longleftrightarrow> pathname = r \<or> startsWith pathname (r @ js ''/'')"

text \<open>The loop over sections and items: the best match so far and its length.\<close>

fun active_loop :: "jsstr \<Rightarrow> jsstr \<Rightarrow> nav_item list \<Rightarrow> (jsstr \<times> nat) option \<Rightarrow> (jsstr \<times> nat) option" where
  "active_loop pathname org [] best = best"
| "active_loop pathname org (i # is) best =
     (let r = nav_resolved org i in active_loop pathname org is
        (if nav_matches pathname r \<and> (case best of None \<Rightarrow> True | Some (l, n) \<Rightarrow> length r > n)
         then Some (ni_label i, length r) else best))"

definition nav_items :: "nav_item list" where
  "nav_items = concat (map ns_items NAV_SECTIONS)"

definition findActiveLabel :: "jsstr \<Rightarrow> jsstr \<Rightarrow> jsstr option" where
  "findActiveLabel pathname org = map_option fst (active_loop pathname org nav_items None)"

section \<open>The shell\<close>

definition sectionVisibleItems :: "bool \<Rightarrow> nav_section \<Rightarrow> nav_item list" where
  "sectionVisibleItems isAdmin sec = filter (\<lambda>i. \<not> ni_adminOnly i \<or> isAdmin) (ns_items sec)"

definition shouldShowSection :: "bool \<Rightarrow> bool \<Rightarrow> nav_section \<Rightarrow> nav_item list \<Rightarrow> bool" where
  "shouldShowSection isPlatformAdmin hasOrg sec visible =
     (if ns_platformOnly sec \<and> \<not> isPlatformAdmin then False
      else if visible = [] then False
      else if list_all ni_orgScoped (ns_items sec) \<and> \<not> hasOrg then False
      else True)"

definition cleanOrg :: "jsstr option \<Rightarrow> jsstr" where
  "cleanOrg v = nullish (map_option trim v) []"

text \<open>The sections that \<open>renderSection\<close> renders, with their items.\<close>

definition shown_sections :: "jsstr \<Rightarrow> bool \<Rightarrow> bool \<Rightarrow> (nav_section \<times> nav_item list) list" where
  "shown_sections org isAdmin isPlatformAdmin =
     filter (\<lambda>(sec, v). shouldShowSection isPlatformAdmin (cleanOrg (Some org) \<noteq> []) sec v)
       (map (\<lambda>sec. (sec, sectionVisibleItems isAdmin sec)) NAV_SECTIONS)"

definition shown_items :: "jsstr \<Rightarrow> bool \<Rightarrow> bool \<Rightarrow> nav_item list" where
  "shown_items org isAdmin isPlatformAdmin = concat (map snd (shown_sections org isAdmin isPlatformAdmin))"

text \<open>The identity block. Upper case is a function of the platform.\<close>

definition orgLabel :: "(jsstr \<times> jsstr) list option \<Rightarrow> jsstr \<Rightarrow> jsstr" where
  "orgLabel myOrgs org = (let name = nullish (map_option snd (find (\<lambda>o'. fst o' = cleanOrg (Some org)) (nullish myOrgs []))) []
     in if name \<noteq> [] then name else cleanOrg (Some org))"

definition orgInitials :: "(jsstr \<Rightarrow> jsstr) \<Rightarrow> jsstr \<Rightarrow> jsstr" where
  "orgInitials toUpperCase label = toUpperCase (take 2 (if label \<noteq> [] then label else [8212]))"

definition COLLAPSE_KEY :: jsstr where
  "COLLAPSE_KEY = js ''studio-nav-collapsed''"

definition readNavCollapsed :: "bool \<Rightarrow> (jsstr \<rightharpoonup> jsstr) \<Rightarrow> bool" where
  "readNavCollapsed blocked st \<longleftrightarrow> \<not> blocked \<and> st COLLAPSE_KEY = Some (js ''1'')"

definition writeNavCollapsed :: "bool \<Rightarrow> bool \<Rightarrow> (jsstr \<rightharpoonup> jsstr) \<Rightarrow> (jsstr \<rightharpoonup> jsstr)" where
  "writeNavCollapsed blocked v st = (if blocked then st else st(COLLAPSE_KEY \<mapsto> (if v then js ''1'' else js ''0'')))"

definition toggleCollapsed :: "bool \<Rightarrow> bool \<times> (jsstr \<rightharpoonup> jsstr) \<Rightarrow> bool \<times> (jsstr \<rightharpoonup> jsstr)" where
  "toggleCollapsed blocked = (\<lambda>(prev, st). (\<not> prev, writeNavCollapsed blocked (\<not> prev) st))"

section \<open>The organisation in the address\<close>

fun some_suffix :: "(jsstr \<Rightarrow> bool) \<Rightarrow> jsstr \<Rightarrow> bool" where
  "some_suffix P [] = P []"
| "some_suffix P (c # s) = (P (c # s) \<or> some_suffix P s)"

text \<open>\<open>(\/|$)\<close> at the front of the rest of a path.\<close>

definition segment_end :: "jsstr \<Rightarrow> bool" where
  "segment_end s \<longleftrightarrow> s = [] \<or> startsWith s (js ''/'')"

definition EMPTY_ORG_PAGES :: "jsstr list" where
  "EMPTY_ORG_PAGES = [js ''projects'', js ''review'', js ''assets'', js ''prompt'', js ''cost'', js ''model-configs'']"

definition hasEmptyOrgPath :: "jsstr \<Rightarrow> bool" where
  "hasEmptyOrgPath path \<longleftrightarrow>
     some_suffix (\<lambda>s. startsWith s (js ''/orgs/'') \<and> segment_end (drop 6 s)) path
     \<or> (startsWith path (js ''/orgs/'')
        \<and> list_ex (\<lambda>p. startsWith (drop 6 path) p \<and> segment_end (drop (length p) (drop 6 path))) EMPTY_ORG_PAGES)"

definition sanitizeLoginRedirect :: "jsstr option \<Rightarrow> jsstr" where
  "sanitizeLoginRedirect to' = (case to' of None \<Rightarrow> js ''/'' | Some p \<Rightarrow> if hasEmptyOrgPath p then js ''/'' else p)"

text \<open>The target of the redirect that \<open>requireOrgParam\<close> throws.\<close>

definition requireOrgParam :: "jsstr option \<Rightarrow> jsstr option" where
  "requireOrgParam org = (if cleanOrg org = [] then Some (js ''/'') else None)"

section \<open>The gates on both sides\<close>

text \<open>The gate of a page, by its entry in the navigation: \<open>AdminGate\<close> in the route's component,
  \<open>PlatformGate\<close> in the layout of the platform section, none for the others.\<close>

datatype page_gate = PG_open | PG_admin | PG_platform

definition gate_of_page :: "jsstr \<Rightarrow> page_gate" where
  "gate_of_page to' =
     (if to' \<in> set (map js [''/orgs/$org/projects'', ''/orgs/$org/tasks'', ''/orgs/$org/assets'', ''/orgs/$org/prompt'']) then PG_open
      else if startsWith to' (js ''/platform'') then PG_platform else PG_admin)"

definition page_view :: "client_role \<Rightarrow> bool option \<Rightarrow> jsstr \<Rightarrow> gate_view" where
  "page_view role whoami to' = (case gate_of_page to' of
       PG_open \<Rightarrow> GV_content | PG_admin \<Rightarrow> AdminGate role | PG_platform \<Rightarrow> PlatformGate False whoami)"

text \<open>What a page reads for its content, by the route on the server.\<close>

definition page_table :: "(string \<times> string list) list" where
  "page_table =
    [(''/orgs/$org/projects'', [''/api/orgs/{org}/projects'', ''/api/prompt-styles'']),
     (''/orgs/$org/tasks'', [''/api/orgs/{org}/tasks'']),
     (''/orgs/$org/review'', [''/api/orgs/{org}/assets'', ''/api/orgs/{org}/projects'']),
     (''/orgs/$org/assets'', [''/api/orgs/{org}/assets'', ''/api/orgs/{org}/projects'', ''/api/prompt-styles'']),
     (''/orgs/$org/prompt'', [''/api/orgs/{org}/prompts'', ''/api/prompt-styles'']),
     (''/orgs/$org/cost'', [''/api/orgs/{org}/cost'', ''/api/orgs/{org}/cost/projects'',
        ''/api/orgs/{org}/cost/by-member'', ''/api/orgs/{org}/generations'']),
     (''/orgs/$org/model-configs'', [''/api/orgs/{org}/model-configs'', ''/api/model-catalog'']),
     (''/orgs/$org/storage-config'', [''/api/orgs/{org}/storage-configs'']),
     (''/orgs/$org/builtin-node-types'', [''/api/node-types/builtin'']),
     (''/orgs/$org/custom-node-types'', [''/api/orgs/{org}/custom-node-types'', ''/api/orgs/{org}/secrets'',
        ''/api/orgs/{org}/model-configs'']),
     (''/orgs/$org/secrets'', [''/api/orgs/{org}/secrets'']),
     (''/orgs/$org/alerts'', [''/api/orgs/{org}/alert-settings'']),
     (''/orgs/$org/members'', [''/api/orgs/{org}/members'', ''/api/orgs/{org}/invites'']),
     (''/orgs/$org/audit'', [''/api/orgs/{org}/audit-log'']),
     (''/platform'', [''/api/platform/storage-config/global'', ''/api/platform/mail-config/global'',
        ''/api/platform/admins'']),
     (''/platform/orgs'', [''/api/platform/orgs'']),
     (''/platform/users'', [''/api/platform/users'']),
     (''/platform/health'', [''/api/platform/health'', ''/api/platform/health/events''])]"

definition page_reads :: "jsstr \<Rightarrow> string list" where
  "page_reads to' = nullish (map_of (map (\<lambda>(p, us). (js p, us)) page_table) to') []"

text \<open>What the project page asks besides: lists for the dialogs, empty when refused.\<close>

definition project_page_extras :: "string list" where
  "project_page_extras = [''/api/orgs/{org}/model-configs'', ''/api/orgs/{org}/storage-configs'']"

datatype route_gate = RG_auth | RG_org org_role | RG_platform

definition read_routes :: "(string \<times> route_gate) list" where
  "read_routes =
    [(''/api/orgs/{org}/projects'', RG_org OR_viewer),
     (''/api/orgs/{org}/tasks'', RG_org OR_viewer),
     (''/api/node-types/builtin'', RG_auth),
     (''/api/prompt-styles'', RG_auth),
     (''/api/prompt-presets'', RG_auth),
     (''/api/orgs/{org}/prompts'', RG_org OR_viewer),
     (''/api/orgs/{org}/assets'', RG_org OR_viewer),
     (''/api/model-catalog'', RG_auth),
     (''/api/orgs/{org}/model-configs'', RG_org OR_admin),
     (''/api/orgs/{org}/storage-configs'', RG_org OR_admin),
     (''/api/orgs/{org}/node-types'', RG_org OR_viewer),
     (''/api/orgs/{org}/custom-node-types'', RG_org OR_viewer),
     (''/api/orgs/{org}/secrets'', RG_org OR_admin),
     (''/api/orgs/{org}/alert-settings'', RG_org OR_admin),
     (''/api/orgs/{org}/audit-log'', RG_org OR_admin),
     (''/api/orgs/{org}/members'', RG_org OR_viewer),
     (''/api/orgs/{org}/members/me'', RG_org OR_viewer),
     (''/api/orgs/{org}/invites'', RG_org OR_admin),
     (''/api/platform/whoami'', RG_auth),
     (''/api/platform/storage-config/global'', RG_platform),
     (''/api/platform/mail-config/global'', RG_platform),
     (''/api/platform/orgs'', RG_platform),
     (''/api/platform/admins'', RG_platform),
     (''/api/platform/users'', RG_platform),
     (''/api/platform/health'', RG_platform),
     (''/api/platform/health/events'', RG_platform),
     (''/api/orgs/{org}/cost'', RG_org OR_admin),
     (''/api/orgs/{org}/cost/projects'', RG_org OR_admin),
     (''/api/orgs/{org}/cost/by-member'', RG_org OR_admin),
     (''/api/orgs/{org}/generations'', RG_org OR_admin)]"

text \<open>\<open>scoped\<close>, \<open>platformAdmin\<close> and \<open>authOnly\<close>: whether a request of a logged-in user passes.
  \<open>pres\<close> is the role of a user on the platform's own scope.\<close>

definition role_reaches :: "authz \<Rightarrow> org_role option \<Rightarrow> org_role \<Rightarrow> bool" where
  "role_reaches az r m = (case r of None \<Rightarrow> False | Some x \<Rightarrow> az_ge az x m)"

definition route_admits ::
  "authz \<Rightarrow> (jsstr \<Rightarrow> org_role option) \<Rightarrow> org_server \<Rightarrow> jsstr \<Rightarrow> jsstr \<Rightarrow> route_gate \<Rightarrow> bool" where
  "route_admits az pres s uid org g = (case g of RG_auth \<Rightarrow> True
     | RG_org m \<Rightarrow> role_reaches az (az_resolve az s uid org) m
     | RG_platform \<Rightarrow> role_reaches az (pres uid) OR_admin)"

definition read_admitted ::
  "authz \<Rightarrow> (jsstr \<Rightarrow> org_role option) \<Rightarrow> org_server \<Rightarrow> jsstr \<Rightarrow> jsstr \<Rightarrow> string \<Rightarrow> bool" where
  "read_admitted az pres s uid org u =
     (case map_of read_routes u of None \<Rightarrow> False | Some g \<Rightarrow> route_admits az pres s uid org g)"

definition meRoleHandler :: "authz \<Rightarrow> org_server \<Rightarrow> jsstr \<Rightarrow> jsstr \<Rightarrow> role_answer" where
  "meRoleHandler az s uid org = (case az_resolve az s uid org of
       None \<Rightarrow> RA_answer 403 None
     | Some r \<Rightarrow> if az_ge az r OR_viewer then RA_answer 200 (Some (role_text r)) else RA_answer 403 None)"

definition IsPlatformAdmin :: "authz \<Rightarrow> (jsstr \<Rightarrow> org_role option) \<Rightarrow> jsstr \<Rightarrow> bool" where
  "IsPlatformAdmin az pres uid = (if uid = [] then False else role_reaches az (pres uid) OR_admin)"

section \<open>What the client shows is what the server serves\<close>

text \<open>The order of roles in the authz library.\<close>

definition rank_law :: "authz \<Rightarrow> bool" where
  "rank_law az \<longleftrightarrow> (\<forall>a b. az_ge az a b \<longleftrightarrow> role_rank b \<le> role_rank a)"

definition role_for :: "authz \<Rightarrow> org_server \<Rightarrow> jsstr \<Rightarrow> jsstr \<Rightarrow> client_role" where
  "role_for az s uid org = useRole org (probeRole (meRoleHandler az s uid org)) False"

lemma role_for_member:
  assumes law: "rank_law az" and r: "az_resolve az s uid org = Some r"
  shows "ro_isAdmin (role_for az s uid org) \<longleftrightarrow> r \<in> {OR_admin, OR_org_admin}"
    and "ro_canWrite (role_for az s uid org) \<longleftrightarrow> r \<noteq> OR_viewer"
    and "\<not> ro_isLoading (role_for az s uid org)"
proof -
  have "az_ge az r OR_viewer" using law by (cases r) (simp_all add: rank_law_def role_rank_def)
  with r have "role_for az s uid org = useRole org (Some (role_text r)) False"
    by (simp add: role_for_def meRoleHandler_def probeRole_def res_ok_def)
  then show "ro_isAdmin (role_for az s uid org) \<longleftrightarrow> r \<in> {OR_admin, OR_org_admin}"
    and "ro_canWrite (role_for az s uid org) \<longleftrightarrow> r \<noteq> OR_viewer"
    and "\<not> ro_isLoading (role_for az s uid org)"
    by (cases r; simp add: useRole_def Let_def role_text_def)+
qed

lemma role_reaches_admin:
  assumes "rank_law az"
  shows "role_reaches az (Some r) OR_admin \<longleftrightarrow> r \<in> {OR_admin, OR_org_admin}"
    and "role_reaches az (Some r) OR_viewer"
  using assms by (cases r; simp add: role_reaches_def rank_law_def role_rank_def)+


lemmas nav_defs = nav_items_def NAV_SECTIONS_def workspace_items_def config_items_def platform_items_def
  org_item_def platform_item_def

lemma shown_items_iff:
  "i \<in> set (shown_items org adm plat) \<longleftrightarrow> i \<in> set nav_items \<and> (ni_adminOnly i \<longrightarrow> adm)
     \<and> (if ni_orgScoped i then cleanOrg (Some org) \<noteq> [] else plat)"
proof -
  have "\<exists>x\<in>set workspace_items. \<not> ni_adminOnly x"
    by (simp add: workspace_items_def org_item_def)
  moreover have "list_all ni_orgScoped workspace_items" "list_all ni_adminOnly config_items"
    "list_all ni_orgScoped config_items" "list_all (\<lambda>i. \<not> ni_orgScoped i \<and> \<not> ni_adminOnly i) platform_items"
    "config_items \<noteq> []" "platform_items \<noteq> []"
    by (simp_all add: workspace_items_def config_items_def platform_items_def org_item_def platform_item_def)
  ultimately show ?thesis
    by (auto simp: shown_items_def shown_sections_def sectionVisibleItems_def shouldShowSection_def
        NAV_SECTIONS_def nav_items_def list_all_iff filter_empty_conv split: if_splits)
qed

lemma startsWith_js: "startsWith (js s) (js p) \<longleftrightarrow> take (length p) s = p"
proof
  assume "startsWith (js s) (js p)"
  then obtain r where "js s = js p @ r" by (auto simp: startsWith_iff)
  then have "take (length p) (js s) = js p" by simp
  then have "js (take (length p) s) = js p" by (simp add: js_def take_map)
  then show "take (length p) s = p" by simp
next
  assume t: "take (length p) s = p"
  have "js s = js p @ js (drop (length p) s)"
    using append_take_drop_id [of "length p" s] t by (metis js_def map_append)
  then show "startsWith (js s) (js p)" by (simp add: startsWith_iff)
qed

definition gate_by_name :: "string \<Rightarrow> page_gate" where
  "gate_by_name p =
     (if p \<in> set [''/orgs/$org/projects'', ''/orgs/$org/tasks'', ''/orgs/$org/assets'', ''/orgs/$org/prompt''] then PG_open
      else if take (length ''/platform'') p = ''/platform'' then PG_platform else PG_admin)"

lemma gate_of_page_js: "gate_of_page (js p) = gate_by_name p"
  unfolding gate_of_page_def gate_by_name_def startsWith_js by simp

lemma gate_of_nav_item:
  assumes "i \<in> set nav_items"
  shows "gate_of_page (ni_to i) = (if ni_orgScoped i then (if ni_adminOnly i then PG_admin else PG_open) else PG_platform)"
proof -
  have app: "js a @ js b = js (a @ b)" for a b by (simp add: js_def)
  have "list_all (\<lambda>i. gate_of_page (ni_to i) =
      (if ni_orgScoped i then (if ni_adminOnly i then PG_admin else PG_open) else PG_platform)) nav_items"
    by (simp add: nav_defs app gate_of_page_js gate_by_name_def)
  with assms show ?thesis by (simp add: list_all_iff)
qed

text \<open>The strongest demand of what a page reads is that of its gate.\<close>

definition gate_covers :: "page_gate \<Rightarrow> route_gate \<Rightarrow> bool" where
  "gate_covers p g = (case g of RG_auth \<Rightarrow> True
     | RG_org m \<Rightarrow> m = OR_viewer \<and> p \<noteq> PG_platform \<or> m = OR_admin \<and> p = PG_admin
     | RG_platform \<Rightarrow> p = PG_platform)"

lemma page_reads_js: "page_reads (js p) = nullish (map_of page_table p) []"
proof -
  have "map_of (map (\<lambda>(k, v). (js k, v)) xs) (js p) = map_of xs p" for xs :: "(string \<times> string list) list"
    by (induction xs) auto
  then show ?thesis by (simp add: page_reads_def)
qed

lemma page_reads_covered:
  assumes "i \<in> set nav_items" and "u \<in> set (page_reads (ni_to i))"
  shows "\<exists>g. map_of read_routes u = Some g \<and> gate_covers (gate_of_page (ni_to i)) g"
proof -
  have tab: "list_all (\<lambda>(p, us). list_all (\<lambda>u. case map_of read_routes u of None \<Rightarrow> False
      | Some g \<Rightarrow> gate_covers (gate_by_name p) g) us) page_table"
    by code_simp
  have sub: "page_reads t = [] \<or> (\<exists>p us. t = js p \<and> (p, us) \<in> set page_table \<and> page_reads t = us)" for t
    by (auto simp: page_reads_def nullish_def dest!: map_of_SomeD split: option.splits)
  from sub [of "ni_to i"] assms(2) obtain p us where
    "ni_to i = js p" "(p, us) \<in> set page_table" "u \<in> set us" by auto
  with tab show ?thesis by (force simp: list_all_iff gate_of_page_js split: option.splits)
qed

lemma shown_is_page:
  assumes law: "rank_law az" and mem: "az_resolve az s uid org = Some r"
    and org: "trim org \<noteq> []" and uid: "uid \<noteq> []" and i: "i \<in> set nav_items"
  shows "i \<in> set (shown_items org (ro_isAdmin (role_for az s uid org)) (IsPlatformAdmin az pres uid))
      \<longleftrightarrow> page_view (role_for az s uid org) (Some (IsPlatformAdmin az pres uid)) (ni_to i) = GV_content"
proof -
  note role = role_for_member [OF law mem]
  show "i \<in> set (shown_items org (ro_isAdmin (role_for az s uid org)) (IsPlatformAdmin az pres uid))
      \<longleftrightarrow> page_view (role_for az s uid org) (Some (IsPlatformAdmin az pres uid)) (ni_to i) = GV_content"
  proof -
    have "\<not> ni_adminOnly i" if "\<not> ni_orgScoped i"
    proof -
      have "list_all (\<lambda>i. ni_orgScoped i \<or> \<not> ni_adminOnly i) nav_items" by (simp add: nav_defs js_def)
      with i that show ?thesis by (auto simp: list_all_iff)
    qed
    then show ?thesis
      using org by (auto simp: shown_items_iff i gate_of_nav_item page_view_def AdminGate_def PlatformGate_def
          cleanOrg_def role(3))
  qed
qed

lemma page_reads_admitted:
  assumes law: "rank_law az" and mem: "az_resolve az s uid org = Some r"
    and org: "trim org \<noteq> []" and uid: "uid \<noteq> []" and i: "i \<in> set nav_items"
    and v: "page_view (role_for az s uid org) (Some (IsPlatformAdmin az pres uid)) (ni_to i) = GV_content"
    and u: "u \<in> set (page_reads (ni_to i))"
  shows "read_admitted az pres s uid org u"
proof -
  note role = role_for_member [OF law mem]
  from page_reads_covered [OF i u] obtain g where
    g: "map_of read_routes u = Some g" "gate_covers (gate_of_page (ni_to i)) g" by blast
  have "route_admits az pres s uid org g"
    using g(2) v role_reaches_admin [OF law] role(1) uid
    by (auto simp: route_admits_def gate_covers_def page_view_def AdminGate_def PlatformGate_def mem
        IsPlatformAdmin_def split: route_gate.splits page_gate.splits if_splits)
  with g(1) show "read_admitted az pres s uid org u" by (simp add: read_admitted_def)
qed


text \<open>The lists behind the dialogs of the project page are refused to everybody but
  administrators, though editors may create projects: their dialogs offer no models.\<close>

lemma project_page_extras_refused:
  assumes "rank_law az" "az_resolve az s uid org = Some OR_editor" "u \<in> set project_page_extras"
  shows "ro_canWrite (role_for az s uid org) \<and> \<not> read_admitted az pres s uid org u"
proof -
  have "list_all (\<lambda>u. map_of read_routes u = Some (RG_org OR_admin)) project_page_extras" by code_simp
  with assms(3) have "map_of read_routes u = Some (RG_org OR_admin)" by (simp add: list_all_iff)
  then show ?thesis
    using assms role_for_member(2) [OF assms(1,2)] role_reaches_admin(1) [OF assms(1), of OR_editor]
    by (simp add: read_admitted_def route_admits_def)
qed

section \<open>The label of the page\<close>

lemma expand_plain: "36 \<notin> set r \<Longrightarrow> expand_replacement pre m post r = r"
  by (induction pre m post r rule: expand_replacement.induct) auto

lemma nav_resolved_org:
  assumes "36 \<notin> set org" and "ni_orgScoped i" and "ni_to i = js ''/orgs/$org/'' @ page"
  shows "nav_resolved org i = js ''/orgs/'' @ org @ 47 # page"
  using assms by (simp add: nav_resolved_def js_def expand_plain)

lemma nav_org_page:
  assumes "i \<in> set nav_items" and "ni_orgScoped i"
  obtains page where "ni_to i = js ''/orgs/$org/'' @ page" and "47 \<notin> set page"
proof -
  have "list_all (\<lambda>i. ni_orgScoped i \<longrightarrow> ni_to i = js ''/orgs/$org/'' @ drop 11 (ni_to i)
      \<and> 47 \<notin> set (drop 11 (ni_to i))) nav_items"
    by (simp add: nav_defs js_def)
  with assms that show ?thesis by (auto simp: list_all_iff)
qed

lemma active_loop_snoc:
  "active_loop p org (its @ [i]) best = (let b = active_loop p org its best; r = nav_resolved org i in
     if nav_matches p r \<and> (case b of None \<Rightarrow> True | Some (l, n) \<Rightarrow> length r > n)
     then Some (ni_label i, length r) else b)"
  by (induction its arbitrary: best) (simp_all add: Let_def)

text \<open>The loop keeps the first of the longest matches.\<close>

definition best_match :: "jsstr \<Rightarrow> jsstr \<Rightarrow> nav_item list \<Rightarrow> nav_item \<Rightarrow> bool" where
  "best_match p org its i \<longleftrightarrow> (\<exists>as bs. its = as @ i # bs \<and> nav_matches p (nav_resolved org i)
     \<and> (\<forall>j \<in> set as. nav_matches p (nav_resolved org j) \<longrightarrow> length (nav_resolved org j) < length (nav_resolved org i))
     \<and> (\<forall>j \<in> set bs. nav_matches p (nav_resolved org j) \<longrightarrow> length (nav_resolved org j) \<le> length (nav_resolved org i)))"

lemma active_loop_best:
  "case active_loop p org its None of
     None \<Rightarrow> (\<forall>i \<in> set its. \<not> nav_matches p (nav_resolved org i))
   | Some (l, n) \<Rightarrow> (\<exists>i. best_match p org its i \<and> l = ni_label i \<and> n = length (nav_resolved org i))"
proof (induction its rule: rev_induct)
  case Nil
  show ?case by simp
next
  case (snoc x xs)
  let ?m = "nav_matches p (nav_resolved org x)"
  show ?case
  proof (cases "active_loop p org xs None")
    case None
    with snoc.IH have no: "\<forall>i \<in> set xs. \<not> nav_matches p (nav_resolved org i)" by simp
    then have "best_match p org (xs @ [x]) x" if ?m
      unfolding best_match_def using that by (intro exI [of _ xs] exI [of _ "[]"]) simp
    with None no show ?thesis by (auto simp: active_loop_snoc Let_def)
  next
    case (Some b)
    obtain l n where b: "b = (l, n)" by fastforce
    from snoc.IH Some b obtain i where i: "best_match p org xs i" "l = ni_label i" "n = length (nav_resolved org i)"
      by auto
    then obtain as bs where ab: "xs = as @ i # bs" "nav_matches p (nav_resolved org i)"
      "\<forall>j \<in> set as. nav_matches p (nav_resolved org j) \<longrightarrow> length (nav_resolved org j) < n"
      "\<forall>j \<in> set bs. nav_matches p (nav_resolved org j) \<longrightarrow> length (nav_resolved org j) \<le> n"
      by (auto simp: best_match_def)
    show ?thesis
    proof (cases "?m \<and> length (nav_resolved org x) > n")
      case True
      have "\<forall>j \<in> set xs. nav_matches p (nav_resolved org j) \<longrightarrow> length (nav_resolved org j) < length (nav_resolved org x)"
        using ab True i(3) by fastforce
      then have "best_match p org (xs @ [x]) x"
        unfolding best_match_def using True by (intro exI [of _ xs] exI [of _ "[]"]) simp
      with True Some b show ?thesis by (auto simp: active_loop_snoc Let_def)
    next
      case False
      have "best_match p org (xs @ [x]) i"
        unfolding best_match_def using ab False i(3)
        by (intro exI [of _ as] exI [of _ "bs @ [x]"]) auto
      with False Some b i show ?thesis by (auto simp: active_loop_snoc Let_def)
    qed
  qed
qed

lemma best_matchD:
  assumes "best_match p org its k"
  shows "k \<in> set its" and "nav_matches p (nav_resolved org k)"
    and "j \<in> set its \<Longrightarrow> nav_matches p (nav_resolved org j) \<Longrightarrow> length (nav_resolved org j) \<le> length (nav_resolved org k)"
  using assms by (auto simp: best_match_def less_imp_le)

lemma segment_unique:
  assumes "a @ r = b @ t" "47 \<notin> set a" "47 \<notin> set b" "segment_end r" "segment_end t"
  shows "a = b"
proof -
  have tw: "takeWhile (\<lambda>c. c \<noteq> 47) (x @ y) = x" if "47 \<notin> set x" "segment_end y" for x y :: jsstr
  proof -
    have "takeWhile (\<lambda>c. c \<noteq> 47) y = []"
      using that(2) by (cases y) (auto simp: segment_end_def js_def)
    moreover have "\<And>z. z \<in> set x \<Longrightarrow> z \<noteq> 47" using that(1) by auto
    ultimately show ?thesis by (simp add: takeWhile_append2)
  qed
  show ?thesis using tw [OF assms(2,4)] tw [OF assms(3,5)] assms(1) by metis
qed

lemma nav_matches_iff: "nav_matches p r \<longleftrightarrow> (\<exists>t. p = r @ t \<and> segment_end t)"
  by (auto simp: nav_matches_def segment_end_def startsWith_iff js_def)

lemma platform_item_cases:
  assumes "i \<in> set nav_items" and "\<not> ni_orgScoped i"
  shows "nav_resolved org i = ni_to i \<and> ni_to i \<in> {js ''/platform'', js ''/platform/orgs'', js ''/platform/users'', js ''/platform/health''}"
  using assms by (auto simp: nav_defs nav_resolved_def)

lemma nav_match_unique:
  assumes plain: "36 \<notin> set org" and i: "i \<in> set nav_items" and j: "j \<in> set nav_items"
    and t: "segment_end t" and root: "ni_to i = js ''/platform'' \<Longrightarrow> t = []"
    and m: "nav_matches (nav_resolved org i @ t) (nav_resolved org j)"
  shows "j = i \<or> length (nav_resolved org j) < length (nav_resolved org i)"
proof -
  have inj: "j = i" if "ni_to j = ni_to i"
  proof -
    have "distinct (map ni_to nav_items)" by (simp add: nav_defs js_def)
    with i j that show ?thesis by (auto simp: distinct_map inj_on_def)
  qed
  from m obtain t' where t': "nav_resolved org i @ t = nav_resolved org j @ t'" "segment_end t'"
    by (auto simp: nav_matches_iff)
  show ?thesis
  proof (cases "ni_orgScoped i")
    case True
    from nav_org_page [OF i True] obtain a where a: "ni_to i = js ''/orgs/$org/'' @ a" "47 \<notin> set a" .
    note ri = nav_resolved_org [OF plain True a(1)]
    show ?thesis
    proof (cases "ni_orgScoped j")
      case True
      from nav_org_page [OF j True] obtain b where b: "ni_to j = js ''/orgs/$org/'' @ b" "47 \<notin> set b" .
      from t' ri nav_resolved_org [OF plain True b(1)] have "a @ t = b @ t'" by simp
      from segment_unique [OF this a(2) b(2) t t'(2)] a b inj show ?thesis by simp
    next
      case False
      from platform_item_cases [OF j False, of org] t' ri show ?thesis by (auto simp: js_def)
    qed
  next
    case False
    note ci = platform_item_cases [OF i False, of org]
    show ?thesis
    proof (cases "ni_orgScoped j")
      case True
      from nav_org_page [OF j True] obtain b where b: "ni_to j = js ''/orgs/$org/'' @ b" "47 \<notin> set b" .
      from ci t' nav_resolved_org [OF plain True b(1)] show ?thesis by (auto simp: js_def)
    next
      case False
      from ci platform_item_cases [OF j False, of org] t' inj root show ?thesis
        by (auto simp: js_def segment_end_def)
    qed
  qed
qed

text \<open>On every page of the navigation and below it the shell shows the label of that page: the
  longest match is the entry itself, also for the pages below \<open>/platform\<close>. Without a matching
  entry it shows none.\<close>

theorem active_label_of_page:
  assumes "36 \<notin> set org" and "i \<in> set nav_items" and "segment_end t"
    and "ni_to i = js ''/platform'' \<Longrightarrow> t = []"
  shows "findActiveLabel (nav_resolved org i @ t) org = Some (ni_label i)"
    and "(\<forall>j \<in> set nav_items. \<not> nav_matches p (nav_resolved org j)) \<longleftrightarrow> findActiveLabel p org = None"
proof -
  let ?p = "nav_resolved org i @ t"
  have mi: "nav_matches ?p (nav_resolved org i)" using assms(3) by (auto simp: nav_matches_iff)
  note spec = active_loop_best [where p = ?p and org = org and its = nav_items]
  show "findActiveLabel ?p org = Some (ni_label i)"
  proof (cases "active_loop ?p org nav_items None")
    case None
    with spec mi assms(2) show ?thesis by auto
  next
    case (Some b)
    with spec obtain k where k: "best_match ?p org nav_items k" "fst b = ni_label k" by (auto split: prod.splits)
    note km = best_matchD [OF k(1)]
    from nav_match_unique [OF assms(1,2) km(1) assms(3,4) km(2)] km(3) [OF assms(2) mi]
    have "k = i" by auto
    with Some k show ?thesis by (simp add: findActiveLabel_def)
  qed
  show "(\<forall>j \<in> set nav_items. \<not> nav_matches p (nav_resolved org j)) \<longleftrightarrow> findActiveLabel p org = None"
    using active_loop_best [where p = p and org = org and its = nav_items]
    by (auto simp: findActiveLabel_def split: option.splits prod.splits
        intro!: bexI [OF best_matchD(2) best_matchD(1)])
qed

section \<open>Addresses without an organisation\<close>

lemma some_suffix_iff: "some_suffix P s \<longleftrightarrow> (\<exists>a b. s = a @ b \<and> P b)"
proof (induction s)
  case Nil
  show ?case by simp
next
  case (Cons c s)
  have "(\<exists>a b. c # s = a @ b \<and> P b) \<longleftrightarrow> P (c # s) \<or> (\<exists>a b. s = a @ b \<and> P b)"
    by (metis append_Cons append_Nil list.exhaust_sel list.inject)
  with Cons.IH show ?case by simp
qed

text \<open>An address whose organisation got lost, \<open>/orgs/\<close> with the page directly behind it, is
  recognised for six of the fourteen pages only.\<close>

lemma empty_org_path_of_page:
  assumes "47 \<notin> set page" and "page \<noteq> []"
  shows "hasEmptyOrgPath (js ''/orgs/'' @ page) \<longleftrightarrow> page \<in> set EMPTY_ORG_PAGES"
proof -
  have "\<not> some_suffix (\<lambda>s. startsWith s (js ''/orgs/'') \<and> segment_end (drop 6 s)) (js ''/orgs/'' @ page)"
  proof -
    have "False" if e: "js ''/orgs/'' @ page = a @ b" and b: "startsWith b (js ''/orgs/'')" "segment_end (drop 6 b)" for a b
    proof (cases a)
      case Nil
      with e b(2) assms show False by (auto simp: segment_end_def js_def startsWith_iff)
    next
      case (Cons c a')
      from b(1) obtain t where t: "b = js ''/orgs/'' @ t" by (auto simp: startsWith_iff)
      have "filter (\<lambda>x. x = 47) page = []" using assms(1) by (auto simp: filter_empty_conv)
      then have "length (filter (\<lambda>x. x = 47) (js ''/orgs/'' @ page)) = 2" by (simp add: js_def)
      moreover have "c = 47" using e Cons by (simp add: js_def)
      then have "length (filter (\<lambda>x. x = 47) (a @ b)) \<ge> 3" by (simp add: Cons t js_def)
      ultimately show False by (simp add: e)
    qed
    then show ?thesis by (auto simp: some_suffix_iff)
  qed
  moreover have "startsWith page p \<and> segment_end (drop (length p) page) \<longleftrightarrow> page = p" for p
  proof
    assume a: "startsWith page p \<and> segment_end (drop (length p) page)"
    then obtain t where t: "page = p @ t" by (auto simp: startsWith_iff)
    with a assms(1) show "page = p" by (auto simp: segment_end_def startsWith_iff js_def)
  qed (simp add: segment_end_def startsWith_iff)
  moreover have "drop 6 (js ''/orgs/'' @ page) = page" by (simp add: js_def)
  ultimately show ?thesis
    unfolding hasEmptyOrgPath_def by (simp add: list_ex_iff)
qed

text \<open>The login leads back to the page the visitor asked for: the guard of the protected layout
  hands the address to the login page, and the address of every page of an organisation, with
  whatever follows, passes the check there, unless the organisation's id is one of the six page
  names the check looks for or \<open>/orgs/\<close> occurs once more.\<close>

theorem login_returns_to_page:
  assumes org: "org \<noteq> []" "47 \<notin> set org" "org \<notin> set EMPTY_ORG_PAGES"
    and rest: "segment_end rest" "\<not> str_includes (drop 1 (js ''/orgs/'' @ org @ rest)) (js ''/orgs/'')"
  shows "sanitizeLoginRedirect (Some (js ''/orgs/'' @ org @ rest)) = js ''/orgs/'' @ org @ rest"
proof -
  let ?p = "js ''/orgs/'' @ org @ rest"
  have "False" if e: "?p = a @ b" and b: "startsWith b (js ''/orgs/'')" "segment_end (drop 6 b)" for a b
  proof (cases a)
    case Nil
    with e b(2) org(1,2) show False by (cases org) (auto simp: segment_end_def js_def startsWith_iff)
  next
    case (Cons c a')
    with e have "drop 1 ?p = a' @ b" by simp
    moreover obtain t where "b = js ''/orgs/'' @ t" using b(1) by (auto simp: startsWith_iff)
    ultimately show False using rest(2) by (auto simp: includes_iff)
  qed
  then have one: "\<not> some_suffix (\<lambda>s. startsWith s (js ''/orgs/'') \<and> segment_end (drop 6 s)) ?p"
    by (auto simp: some_suffix_iff)
  have "org = p" if "startsWith (org @ rest) p" "segment_end (drop (length p) (org @ rest))" "p \<in> set EMPTY_ORG_PAGES" for p
  proof -
    from that(1) obtain t where t: "org @ rest = p @ t" by (auto simp: startsWith_iff)
    have "47 \<notin> set p" using that(3) by (auto simp: EMPTY_ORG_PAGES_def js_def)
    from segment_unique [OF t org(2) this rest(1)] that(2) t show ?thesis by simp
  qed
  then have two: "\<not> list_ex (\<lambda>p. startsWith (org @ rest) p \<and> segment_end (drop (length p) (org @ rest))) EMPTY_ORG_PAGES"
    using org(3) by (auto simp: list_ex_iff)
  have "drop 6 ?p = org @ rest" by (simp add: js_def)
  with one two show ?thesis by (simp add: sanitizeLoginRedirect_def hasEmptyOrgPath_def)
qed

section \<open>Witnesses\<close>

lemma demo_rank_law: "rank_law demo_authz"
  by (simp add: rank_law_def demo_authz_def)


theorem active_label_of_page_witness:
  "findActiveLabel (js ''/orgs/x/projects/7'') (js ''x'') = Some [39033, 30446]"
proof -
  have "org_item ''projects'' [39033, 30446] False \<in> set nav_items" "36 \<notin> set (js ''x'')" "segment_end (js ''/7'')"
    "ni_to (org_item ''projects'' [39033, 30446] False) = js ''/platform'' \<Longrightarrow> js ''/7'' = []"
    by (simp_all add: nav_items_def NAV_SECTIONS_def workspace_items_def segment_end_def js_def org_item_def)
  from active_label_of_page(1) [OF this(2,1,3,4)] show ?thesis
    by (simp add: nav_resolved_def org_item_def js_def)
qed

theorem login_returns_to_page_witness:
  "sanitizeLoginRedirect (Some (js ''/orgs/7f/tasks'')) = js ''/orgs/7f/tasks''"
proof -
  have "sanitizeLoginRedirect (Some (js ''/orgs/'' @ js ''7f'' @ js ''/tasks'')) = js ''/orgs/'' @ js ''7f'' @ js ''/tasks''"
    by (rule login_returns_to_page) (simp_all add: EMPTY_ORG_PAGES_def segment_end_def js_def)
  then show ?thesis by (simp add: js_def)
qed

end
