(* ===== verification/Task_Center.thy ===== *)
theory Task_Center
  imports Run_View
begin

text \<open>
  The task centre: the board the server reads from its tables (\<open>studiosvc/taskboard.go\<close>,
  \<open>httpapi/taskboard_handlers.go\<close>) with the status that \<open>internal/project\<close> derives and stores, and
  the page that filters and counts it (\<open>tasks/status.ts\<close>, \<open>tasks/TaskCenterPage.tsx\<close>,
  \<open>tasks/relativeTime.ts\<close>, \<open>lib/projectName.ts\<close>), with the summary of a run
  (\<open>workflow/RunSummary.schema.ts\<close>).
\<close>

section \<open>Projects on the server\<close>

record todo =
  td_status :: jsstr
  td_agent :: jsstr
  td_type :: jsstr
  td_updatedAt :: int

text \<open>A project with the todos of its plans, the newest plan first, and the tallies of assets
  that hang on the newest plan.\<close>

record board_project =
  bp_id :: jsstr
  bp_org :: jsstr
  bp_name :: jsstr
  bp_status :: jsstr
  bp_deleted :: bool
  bp_plans :: "todo list list"
  bp_pendingAssets :: nat
  bp_inFlightRegen :: nat
  bp_updatedAt :: int
  bp_lastEvent :: "int option"

record todo_counts =
  tc_total :: nat
  tc_ready :: nat
  tc_running :: nat
  tc_blocked :: nat
  tc_done :: nat
  tc_failed :: nat
  tc_canceled :: nat
  tc_pendingAssets :: nat
  tc_inFlightRegen :: nat

definition DeriveStatus :: "todo_counts \<Rightarrow> jsstr" where
  "DeriveStatus c =
     (if tc_total c = 0 then js ''planning''
      else if tc_running c > 0 \<or> tc_ready c > 0 \<or> tc_blocked c > 0 then js ''running''
      else if tc_failed c > 0 then js ''failed''
      else if tc_canceled c > 0 then js ''canceled''
      else if tc_pendingAssets c > 0 \<or> tc_inFlightRegen c > 0 then js ''review''
      else if tc_done c = tc_total c then js ''completed''
      else js ''running'')"

definition with_status :: "string \<Rightarrow> todo list \<Rightarrow> nat" where
  "with_status s ts = length (filter (\<lambda>t. td_status t = js s) ts)"

definition tally :: "board_project \<Rightarrow> todo list \<Rightarrow> todo_counts" where
  "tally p ts = \<lparr>tc_total = length ts, tc_ready = with_status ''ready'' ts, tc_running = with_status ''running'' ts,
     tc_blocked = with_status ''blocked'' ts, tc_done = with_status ''done'' ts,
     tc_failed = with_status ''failed'' ts, tc_canceled = with_status ''canceled'' ts,
     tc_pendingAssets = bp_pendingAssets p, tc_inFlightRegen = bp_inFlightRegen p\<rparr>"

text \<open>Without a plan the stored status stays; a cancelled project is never moved.\<close>

definition RefreshStatus :: "board_project \<Rightarrow> board_project" where
  "RefreshStatus p = (case bp_plans p of [] \<Rightarrow> p
     | ts # old \<Rightarrow> if bp_status p = js ''canceled'' then p else p\<lparr>bp_status := DeriveStatus (tally p ts)\<rparr>)"

definition cancel_todo :: "todo \<Rightarrow> todo" where
  "cancel_todo t = (if td_status t \<in> set (map js [''pending'', ''ready'', ''blocked'', ''running''])
     then t\<lparr>td_status := js ''canceled''\<rparr> else t)"

definition SoftDelete :: "jsstr \<Rightarrow> board_project list \<Rightarrow> board_project list option" where
  "SoftDelete i ps = (if \<not> list_ex (\<lambda>p. bp_id p = i \<and> \<not> bp_deleted p) ps then None
     else Some (map (\<lambda>p. if bp_id p = i \<and> \<not> bp_deleted p
       then p\<lparr>bp_deleted := True, bp_plans := map (map cancel_todo) (bp_plans p), bp_status := js ''canceled''\<rparr>
       else p) ps))"

text \<open>The gate of every route of a project, and the list of an organisation's projects.\<close>

definition requireLiveProject :: "jsstr \<Rightarrow> board_project list \<Rightarrow> nat option" where
  "requireLiveProject i ps = (case find (\<lambda>p. bp_id p = i) ps of
     None \<Rightarrow> Some 404 | Some p \<Rightarrow> if bp_deleted p then Some 404 else None)"

definition ListByOrg :: "jsstr \<Rightarrow> nat \<Rightarrow> jsstr \<Rightarrow> board_project list \<Rightarrow> board_project list" where
  "ListByOrg org l cursor ps = take (if l = 0 \<or> l > 100 then 50 else l)
     (sort_key bp_id (filter (\<lambda>p. bp_org p = org \<and> \<not> bp_deleted p \<and> cursor < bp_id p) ps))"

section \<open>The board\<close>

record task_row =
  tr_projectId :: jsstr
  tr_name :: jsstr
  tr_status :: jsstr
  tr_progressDone :: nat
  tr_progressTotal :: nat
  tr_pendingReview :: nat
  tr_failed :: bool
  tr_failingAgent :: jsstr
  tr_lastActivityAt :: int

definition newest_todos :: "board_project \<Rightarrow> todo list" where
  "newest_todos p = (case bp_plans p of [] \<Rightarrow> [] | ts # old \<Rightarrow> ts)"

definition failing_agent :: "board_project \<Rightarrow> jsstr" where
  "failing_agent p = (case sort_key (\<lambda>t. - td_updatedAt t)
       (filter (\<lambda>t. td_status t = js ''failed'') (concat (bp_plans p))) of
     [] \<Rightarrow> [] | t # ts \<Rightarrow> if td_agent t = [] then td_type t else td_agent t)"

definition last_activity :: "board_project \<Rightarrow> int" where
  "last_activity p = max (bp_updatedAt p) (nullish (bp_lastEvent p) (bp_updatedAt p))"

definition board_row :: "board_project \<Rightarrow> task_row" where
  "board_row p = \<lparr>tr_projectId = bp_id p, tr_name = bp_name p, tr_status = bp_status p,
     tr_progressDone = with_status ''done'' (newest_todos p),
     tr_progressTotal = length (filter (\<lambda>t. td_status t \<noteq> js ''canceled'') (newest_todos p)),
     tr_pendingReview = (if bp_plans p = [] then 0 else bp_pendingAssets p),
     tr_failed = (bp_status p = js ''failed''), tr_failingAgent = failing_agent p,
     tr_lastActivityAt = last_activity p\<rparr>"

definition Board :: "jsstr \<Rightarrow> board_project list \<Rightarrow> task_row list" where
  "Board org ps = map board_row (sort_key (\<lambda>p. - last_activity p)
     (sort_key bp_id (filter (\<lambda>p. bp_org p = org) ps)))"

definition bump :: "string \<Rightarrow> (jsstr \<rightharpoonup> nat) \<Rightarrow> (jsstr \<rightharpoonup> nat)" where
  "bump k c = c(js k \<mapsto> (case c (js k) of None \<Rightarrow> 0 | Some n \<Rightarrow> n) + 1)"

definition count_row :: "task_row \<Rightarrow> (jsstr \<rightharpoonup> nat) \<Rightarrow> (jsstr \<rightharpoonup> nat)" where
  "count_row r c = (let c = bump ''all'' c in
     if tr_status r = js ''planning'' \<or> tr_status r = js ''running'' then bump ''running'' c
     else if tr_status r = js ''review'' then bump ''review'' c
     else if tr_status r = js ''failed'' then bump ''failed'' c
     else if tr_status r = js ''completed'' then bump ''completed'' c
     else if tr_status r = js ''draft'' then bump ''draft'' c
     else c)"

definition zero_counts :: "jsstr \<rightharpoonup> nat" where
  "zero_counts = map_of (map (\<lambda>k. (js k, 0)) [''all'', ''running'', ''review'', ''failed'', ''completed'', ''draft''])"

definition taskboardHandler :: "jsstr \<Rightarrow> board_project list \<Rightarrow> task_row list \<times> (jsstr \<rightharpoonup> nat)" where
  "taskboardHandler org ps = (let items = Board org ps in (items, fold count_row items zero_counts))"

section \<open>The page\<close>

text \<open>The buckets stand for their Chinese names.\<close>

datatype task_bucket = TB_running | TB_review | TB_completed | TB_failed | TB_draft | TB_canceled

definition isGenerationDone :: "task_row \<Rightarrow> bool" where
  "isGenerationDone r \<longleftrightarrow> tr_progressTotal r > 0 \<and> tr_progressDone r \<ge> tr_progressTotal r"

definition taskBucket :: "jsstr \<Rightarrow> task_bucket" where
  "taskBucket st =
     (if st = js ''planning'' \<or> st = js ''running'' then TB_running
      else if st = js ''review'' then TB_review
      else if st = js ''completed'' then TB_completed
      else if st = js ''failed'' then TB_failed
      else if st = js ''canceled'' then TB_canceled
      else TB_draft)"

datatype action_label = AL_review | AL_open

record quick_action =
  qa_label :: action_label
  qa_to :: jsstr
  qa_params :: "(jsstr \<times> jsstr) list"
  qa_search :: "(jsstr \<times> jsstr) list option"

definition quickAction :: "task_row \<Rightarrow> jsstr \<Rightarrow> quick_action" where
  "quickAction r org =
     (if tr_status r = js ''review''
      then \<lparr>qa_label = AL_review, qa_to = js ''/orgs/$org/review'', qa_params = [(js ''org'', org)],
            qa_search = Some [(js ''project'', tr_projectId r)]\<rparr>
      else \<lparr>qa_label = AL_open, qa_to = js ''/orgs/$org/projects/$id'',
            qa_params = [(js ''org'', org), (js ''id'', tr_projectId r)], qa_search = None\<rparr>)"

record task_tab =
  tt_label :: jsstr
  tt_bucket :: "task_bucket option"
  tt_countKey :: "jsstr option"
  tt_predicate :: "(task_row \<Rightarrow> bool) option"

definition TABS :: "task_tab list" where
  "TABS =
    [\<lparr>tt_label = [20840, 37096], tt_bucket = None, tt_countKey = Some (js ''all''), tt_predicate = None\<rparr>,
     \<lparr>tt_label = [36816, 34892, 20013], tt_bucket = Some TB_running, tt_countKey = Some (js ''running''), tt_predicate = None\<rparr>,
     \<lparr>tt_label = [29983, 25104, 23436, 25104], tt_bucket = None, tt_countKey = None, tt_predicate = Some isGenerationDone\<rparr>,
     \<lparr>tt_label = [24453, 23457, 26680], tt_bucket = Some TB_review, tt_countKey = Some (js ''review''), tt_predicate = None\<rparr>,
     \<lparr>tt_label = [24050, 20132, 20184], tt_bucket = Some TB_completed, tt_countKey = Some (js ''completed''), tt_predicate = None\<rparr>,
     \<lparr>tt_label = [22833, 36133], tt_bucket = Some TB_failed, tt_countKey = Some (js ''failed''), tt_predicate = None\<rparr>]"

definition visible_rows :: "task_row list option \<Rightarrow> jsstr \<Rightarrow> task_row list" where
  "visible_rows rows activeTab = filter (\<lambda>r. case find (\<lambda>t. tt_label t = activeTab) TABS of
       None \<Rightarrow> True
     | Some tab \<Rightarrow> (case tt_predicate tab of Some P \<Rightarrow> P r
         | None \<Rightarrow> (case tt_bucket tab of None \<Rightarrow> True | Some b \<Rightarrow> taskBucket (tr_status r) = b)))
     (nullish rows [])"

definition tabCount :: "task_row list option \<Rightarrow> (jsstr \<rightharpoonup> nat) option \<Rightarrow> task_tab \<Rightarrow> nat option" where
  "tabCount rows counts tab = (case tt_predicate tab of
       Some P \<Rightarrow> Some (length (filter P (nullish rows [])))
     | None \<Rightarrow> (case tt_countKey tab of None \<Rightarrow> None
         | Some k \<Rightarrow> (case counts of None \<Rightarrow> None | Some c \<Rightarrow> c k)))"

definition progress_ratio :: "task_row \<Rightarrow> rat" where
  "progress_ratio r = of_nat (tr_progressDone r) / of_nat (tr_progressTotal r)"

definition fillCount :: "task_row \<Rightarrow> rat" where
  "fillCount r = (if taskBucket (tr_status r) = TB_completed then 5
     else if tr_progressTotal r = 0 then 0 else min 5 (math_round (progress_ratio r * 5)))"

definition pct :: "task_row \<Rightarrow> rat" where
  "pct r = (if taskBucket (tr_status r) = TB_completed then 100
     else if tr_progressTotal r = 0 then 0 else math_round (progress_ratio r * 100))"

text \<open>\<open>formatRelative\<close>: \<open>t\<close> is the parsed time, \<open>None\<close> when \<open>Date.parse\<close> gives \<open>NaN\<close>.\<close>

datatype relative_time = RT_raw | RT_now | RT_minutes int | RT_hours int | RT_days int | RT_date int

definition formatRelative :: "int option \<Rightarrow> int \<Rightarrow> relative_time" where
  "formatRelative parsed now = (case parsed of None \<Rightarrow> RT_raw
     | Some t \<Rightarrow> (let diffMs = now - t; minute = 60 * 1000; hour = 60 * minute; day = 24 * hour in
         if diffMs < 0 then RT_now
         else if diffMs < minute then RT_now
         else if diffMs < hour then RT_minutes (diffMs div minute)
         else if diffMs < day then RT_hours (diffMs div hour)
         else if diffMs < 30 * day then RT_days (diffMs div day)
         else RT_date t))"

definition projectDisplayName :: "jsstr option \<Rightarrow> jsstr \<Rightarrow> jsstr" where
  "projectDisplayName name i = (let trimmed = trim (nullish name []) in
     if trimmed \<noteq> [] then trimmed else [26410, 21629, 21517, 39033, 30446, 32, 183, 32] @ take 8 i)"

section \<open>The summary of a run\<close>

datatype run_label = RL_failed | RL_canceled | RL_running | RL_done | RL_idle

record run_summary =
  rs_runLabel :: run_label
  rs_variant :: badge_variant
  rs_stagesDone :: nat
  rs_stagesTotal :: nat
  rs_assetsDone :: nat
  rs_assetsTotal :: nat
  rs_ratio :: rat

definition runLabel :: "project_state \<Rightarrow> run_label \<times> badge_variant" where
  "runLabel s = (if ps_status s = PS_failed then (RL_failed, B_rejected)
     else if ps_status s = PS_canceled then (RL_canceled, B_rejected)
     else if ps_runStatus s = R_running then (RL_running, B_running)
     else if ps_runStatus s = R_done then (RL_done, B_done)
     else (RL_idle, B_pending))"

definition run_units :: "project_state \<Rightarrow> stage_status list" where
  "run_units s = (if ps_isCustom s then map gn_status (ps_nodes s) else map st_status (ps_stages s))"

definition computeRunSummary :: "project_state \<Rightarrow> run_summary" where
  "computeRunSummary s =
     (let units = run_units s;
          stagesTotal = length units;
          stagesDone = length (filter (\<lambda>u. u = S_done) units)
      in \<lparr>rs_runLabel = fst (runLabel s), rs_variant = snd (runLabel s), rs_stagesDone = stagesDone,
          rs_stagesTotal = stagesTotal, rs_assetsDone = as_done (ps_assets s), rs_assetsTotal = as_total (ps_assets s),
          rs_ratio = (if stagesTotal = 0 then 0 else of_nat stagesDone / of_nat stagesTotal)\<rparr>)"

section \<open>Counts and rows\<close>

definition known_status :: "jsstr \<Rightarrow> bool" where
  "known_status st \<longleftrightarrow> st \<in> set (map js [''draft'', ''planning'', ''running'', ''review'', ''completed'', ''failed'', ''canceled''])"

lemma bump_apply: "bump k c (js j) = (if j = k then Some (nullish (c (js k)) 0 + 1) else c (js j))"
  by (auto simp: bump_def nullish_def)

definition row_keys :: "task_row \<Rightarrow> string list" where
  "row_keys r = ''all'' # (case taskBucket (tr_status r) of TB_running \<Rightarrow> [''running''] | TB_review \<Rightarrow> [''review'']
     | TB_completed \<Rightarrow> [''completed''] | TB_failed \<Rightarrow> [''failed''] | TB_canceled \<Rightarrow> []
     | TB_draft \<Rightarrow> if tr_status r = js ''draft'' then [''draft''] else [])"

lemma count_row_keys: "count_row r c = fold bump (row_keys r) c"
  by (auto simp: count_row_def row_keys_def taskBucket_def Let_def)

lemma row_keys_distinct: "distinct (row_keys r)"
  by (auto simp: row_keys_def split: task_bucket.split)

lemma fold_bump:
  assumes "c (js k) = Some n" and "distinct ks"
  shows "fold bump ks c (js k) = Some (n + (if k \<in> set ks then 1 else 0))"
  using assms
proof (induction ks arbitrary: c n)
  case Nil
  then show ?case by simp
next
  case (Cons j ks)
  have "bump j c (js k) = Some (n + (if k = j then 1 else 0))"
    using Cons.prems(1) by (cases "k = j") (simp_all add: bump_apply)
  from Cons.IH [where c = "bump j c", OF this] Cons.prems(2) show ?case by auto
qed

lemma fold_count_row:
  "c (js k) = Some n \<Longrightarrow> fold count_row rows c (js k) = Some (n + length (filter (\<lambda>r. k \<in> set (row_keys r)) rows))"
proof (induction rows arbitrary: c n)
  case Nil
  then show ?case by simp
next
  case (Cons r rows)
  have "count_row r c (js k) = Some (n + (if k \<in> set (row_keys r) then 1 else 0))"
    using fold_bump [where c = c and k = k, OF Cons.prems row_keys_distinct] by (simp add: count_row_keys)
  from Cons.IH [where c = "count_row r c", OF this] show ?case by simp
qed

lemma row_keys_in:
  "''all'' \<in> set (row_keys r)" "''running'' \<in> set (row_keys r) \<longleftrightarrow> taskBucket (tr_status r) = TB_running"
  "''review'' \<in> set (row_keys r) \<longleftrightarrow> taskBucket (tr_status r) = TB_review"
  "''completed'' \<in> set (row_keys r) \<longleftrightarrow> taskBucket (tr_status r) = TB_completed"
  "''failed'' \<in> set (row_keys r) \<longleftrightarrow> taskBucket (tr_status r) = TB_failed"
  by (auto simp: row_keys_def split: task_bucket.split)

text \<open>The number on every tab of the task centre is the number of rows under it: the buckets the
  server counts are the buckets the page filters by.\<close>

theorem tab_counts_match:
  assumes "taskboardHandler org ps = (items, counts)" and "tab \<in> set TABS"
  shows "tabCount (Some items) (Some counts) tab = Some (length (visible_rows (Some items) (tt_label tab)))"
proof -
  have z: "zero_counts (js k) = Some 0" if "k \<in> set [''all'', ''running'', ''review'', ''failed'', ''completed'']" for k
    using that by (auto simp: zero_counts_def)
  have c: "counts (js k) = Some (length (filter (\<lambda>r. k \<in> set (row_keys r)) items))"
    if "k \<in> set [''all'', ''running'', ''review'', ''failed'', ''completed'']" for k
    using fold_count_row [where c = zero_counts, OF z [OF that]] assms(1) by (auto simp: taskboardHandler_def Let_def)
  have "counts (js ''all'') = Some (length items)"
    and "counts (js ''running'') = Some (length (filter (\<lambda>r. taskBucket (tr_status r) = TB_running) items))"
    and "counts (js ''review'') = Some (length (filter (\<lambda>r. taskBucket (tr_status r) = TB_review) items))"
    and "counts (js ''completed'') = Some (length (filter (\<lambda>r. taskBucket (tr_status r) = TB_completed) items))"
    and "counts (js ''failed'') = Some (length (filter (\<lambda>r. taskBucket (tr_status r) = TB_failed) items))"
    using c [of "''all''"] c [of "''running''"] c [of "''review''"] c [of "''completed''"] c [of "''failed''"]
    by (simp_all only: row_keys_in filter_True) simp_all
  moreover have "distinct (map tt_label TABS)" by (simp add: TABS_def)
  then have "find (\<lambda>t. tt_label t = tt_label tab) TABS = Some tab" using assms(2) by (rule find_distinct_key)
  moreover have "tt_predicate tab = Some isGenerationDone \<or> tt_predicate tab = None
      \<and> (tt_bucket tab, tt_countKey tab) \<in> {(None, Some (js ''all'')), (Some TB_running, Some (js ''running'')),
        (Some TB_review, Some (js ''review'')), (Some TB_completed, Some (js ''completed'')), (Some TB_failed, Some (js ''failed''))}"
    using assms(2) by (auto simp: TABS_def)
  ultimately show ?thesis by (elim disjE) (auto simp: tabCount_def visible_rows_def)
qed

lemma with_status_le: "with_status s ts \<le> length ts"
  by (simp add: with_status_def)

lemma with_status_zero: "with_status s ts = 0 \<longleftrightarrow> (\<forall>t \<in> set ts. td_status t \<noteq> js s)"
  by (auto simp: with_status_def filter_empty_conv)

lemma filter_all_iff: "length (filter P xs) = length xs \<longleftrightarrow> (\<forall>x \<in> set xs. P x)"
  by (induction xs) (auto simp: le_imp_less_Suc [THEN less_imp_neq])

lemma done_le_total: "tr_progressDone (board_row p) \<le> tr_progressTotal (board_row p)"
proof -
  have "length (filter (\<lambda>t. td_status t = js ''done'') ts) \<le> length (filter (\<lambda>t. td_status t \<noteq> js ''canceled'') ts)"
    for ts :: "todo list"
    by (induction ts) auto
  then show ?thesis by (simp add: board_row_def with_status_def)
qed

text \<open>The statuses a todo of a plan can have when the status of the project is derived.\<close>

definition todo_ok :: "todo \<Rightarrow> bool" where
  "todo_ok t \<longleftrightarrow> td_type t \<noteq> []
     \<and> td_status t \<in> set (map js [''ready'', ''running'', ''blocked'', ''done'', ''failed'', ''canceled''])"

lemma derived_done:
  assumes st: "DeriveStatus (tally p ts) = js ''completed'' \<or> DeriveStatus (tally p ts) = js ''review''"
    and ok: "\<forall>t \<in> set ts. todo_ok t"
  shows "ts \<noteq> []" and "\<forall>t \<in> set ts. td_status t = js ''done''"
proof -
  from st show "ts \<noteq> []" by (auto simp: DeriveStatus_def tally_def split: if_splits)
  from st have "with_status s ts = 0" if "s \<in> set [''ready'', ''running'', ''blocked'', ''failed'', ''canceled'']" for s
    using that by (auto simp: DeriveStatus_def tally_def split: if_splits)
  then show "\<forall>t \<in> set ts. td_status t = js ''done''"
    using ok by (auto simp: with_status_zero todo_ok_def)
qed

lemma failing_agent_named:
  assumes "t \<in> set (concat (bp_plans p))" "td_status t = js ''failed''" "\<forall>u \<in> set (concat (bp_plans p)). td_type u \<noteq> []"
  shows "failing_agent p \<noteq> []"
proof -
  let ?l = "sort_key (\<lambda>t. - td_updatedAt t) (filter (\<lambda>t. td_status t = js ''failed'') (concat (bp_plans p)))"
  from assms(1,2) have "t \<in> set ?l" by auto
  then have "?l \<noteq> []" by (metis empty_iff empty_set)
  then obtain u us where u: "?l = u # us" by (cases ?l) auto
  then have "u \<in> set ?l" by simp
  then have "u \<in> set (concat (bp_plans p))" by simp
  with assms(3) u show ?thesis by (auto simp: failing_agent_def)
qed

lemma row_progress_bounds: "0 \<le> fillCount (board_row q) \<and> fillCount (board_row q) \<le> 5 \<and> 0 \<le> pct (board_row q) \<and> pct (board_row q) \<le> 100"
proof -
  let ?x = "progress_ratio (board_row q)"
  have x: "0 \<le> ?x" "?x \<le> 1"
    using done_le_total [of q] by (auto simp: progress_ratio_def divide_le_eq_1)
  have m: "0 \<le> math_round (?x * of_nat n)" "math_round (?x * of_nat n) \<le> of_nat n" for n :: nat
  proof -
    have "0 \<le> ?x * of_nat n" using x by simp
    then have "0 \<le> \<lfloor>?x * of_nat n + 1 / 2\<rfloor>" by simp
    then show "0 \<le> math_round (?x * of_nat n)" by (simp add: math_round_def)
    have "?x * of_nat n \<le> of_nat n" using x by (simp add: mult_left_le_one_le)
    then have "\<lfloor>?x * of_nat n + 1 / 2\<rfloor> \<le> \<lfloor>of_nat n + 1 / 2 :: rat\<rfloor>" by (intro floor_mono) simp
    then show "math_round (?x * of_nat n) \<le> of_nat n"
      using math_round_of_nat [of n] by (simp add: math_round_def)
  qed
  from m [of 5] m [of 100] show ?thesis by (simp add: fillCount_def pct_def)
qed

lemma refreshed_row:
  assumes ok: "\<forall>t \<in> set (concat (bp_plans p)). todo_ok t" and plan: "bp_plans p \<noteq> []"
    and live: "bp_status p \<noteq> js ''canceled''"
  defines "r \<equiv> board_row (RefreshStatus p)"
  shows "taskBucket (tr_status r) \<in> {TB_completed, TB_review} \<Longrightarrow> isGenerationDone r \<and> fillCount r = 5 \<and> pct r = 100"
    and "taskBucket (tr_status r) = TB_completed \<Longrightarrow> tr_pendingReview r = 0"
    and "tr_failed r \<Longrightarrow> tr_failingAgent r \<noteq> []"
proof -
  from plan obtain ts old where p: "bp_plans p = ts # old" by (cases "bp_plans p") auto
  have R: "RefreshStatus p = p\<lparr>bp_status := DeriveStatus (tally p ts)\<rparr>"
    using p live by (simp add: RefreshStatus_def)
  have st: "tr_status r = DeriveStatus (tally p ts)" by (simp add: r_def R board_row_def)
  have okts: "\<forall>t \<in> set ts. todo_ok t" using ok p by simp
  have nt: "newest_todos (RefreshStatus p) = ts" using p by (simp add: R newest_todos_def)
  show "isGenerationDone r \<and> fillCount r = 5 \<and> pct r = 100" if "taskBucket (tr_status r) \<in> {TB_completed, TB_review}"
  proof -
    from that st have "DeriveStatus (tally p ts) = js ''completed'' \<or> DeriveStatus (tally p ts) = js ''review''"
      by (auto simp: taskBucket_def split: if_splits)
    note d = derived_done [OF this okts]
    then have "tr_progressDone r = length ts" "tr_progressTotal r = length ts"
      by (simp_all add: r_def board_row_def nt with_status_def)
    moreover have "math_round 5 = 5" "math_round 100 = 100"
      using math_round_of_nat [of 5] math_round_of_nat [of 100] by simp_all
    ultimately show ?thesis using d(1)
      by (simp add: isGenerationDone_def fillCount_def pct_def progress_ratio_def)
  qed
  show "tr_pendingReview r = 0" if "taskBucket (tr_status r) = TB_completed"
  proof -
    from that st have "DeriveStatus (tally p ts) = js ''completed''"
      by (simp add: taskBucket_def split: if_splits)
    then have "bp_pendingAssets p = 0" by (simp add: DeriveStatus_def tally_def split: if_splits)
    then show ?thesis by (simp add: r_def R board_row_def)
  qed
  show "tr_failingAgent r \<noteq> []" if "tr_failed r"
  proof -
    from that st have "DeriveStatus (tally p ts) = js ''failed''" by (simp add: r_def board_row_def)
    then have "with_status ''failed'' ts \<noteq> 0" by (auto simp: DeriveStatus_def tally_def split: if_splits)
    then obtain t where t: "t \<in> set ts" "td_status t = js ''failed''" by (auto simp: with_status_zero)
    then have "failing_agent (RefreshStatus p) \<noteq> []"
      using ok p by (intro failing_agent_named [of t]) (auto simp: R todo_ok_def)
    then show ?thesis by (simp add: r_def board_row_def)
  qed
qed

text \<open>C19: A row agrees with itself. After the status of a project was derived, a delivered project and
  one in review show a finished generation with all five marks, a delivered one has nothing left
  to accept, and a failed one names what failed; the progress of every row lies between none and
  all, and shows neither more than 100 percent nor more than five marks.\<close>

theorem board_row_consistent:
  assumes "\<forall>t \<in> set (concat (bp_plans p)). todo_ok t" "bp_plans p \<noteq> []" "bp_status p \<noteq> js ''canceled''"
  shows "(taskBucket (tr_status (board_row (RefreshStatus p))) \<in> {TB_completed, TB_review} \<longrightarrow>
      isGenerationDone (board_row (RefreshStatus p)) \<and> fillCount (board_row (RefreshStatus p)) = 5
      \<and> pct (board_row (RefreshStatus p)) = 100)
    \<and> (taskBucket (tr_status (board_row (RefreshStatus p))) = TB_completed \<longrightarrow>
      tr_pendingReview (board_row (RefreshStatus p)) = 0)
    \<and> (tr_failed (board_row (RefreshStatus p)) \<longleftrightarrow> taskBucket (tr_status (board_row (RefreshStatus p))) = TB_failed)
    \<and> (tr_failed (board_row (RefreshStatus p)) \<longrightarrow> tr_failingAgent (board_row (RefreshStatus p)) \<noteq> [])
    \<and> 0 \<le> fillCount (board_row q) \<and> fillCount (board_row q) \<le> 5 \<and> 0 \<le> pct (board_row q) \<and> pct (board_row q) \<le> 100"
  using refreshed_row [OF assms] row_progress_bounds [of q]
  by (auto simp: board_row_def taskBucket_def)

text \<open>A deleted project stays on the board: the board does not leave out deleted projects, though
  every route of the project answers 404 and the list of projects leaves it out.\<close>

theorem deleted_project_on_board:
  assumes "p \<in> set ps" "\<not> bp_deleted p" "distinct (map bp_id ps)"
  shows "\<exists>ps'. SoftDelete (bp_id p) ps = Some ps'
    \<and> (\<exists>r \<in> set (Board (bp_org p) ps'). tr_projectId r = bp_id p \<and> taskBucket (tr_status r) = TB_canceled
         \<and> quickAction r (bp_org p) = \<lparr>qa_label = AL_open, qa_to = js ''/orgs/$org/projects/$id'',
             qa_params = [(js ''org'', bp_org p), (js ''id'', bp_id p)], qa_search = None\<rparr>)
    \<and> requireLiveProject (bp_id p) ps' = Some 404
    \<and> bp_id p \<notin> bp_id ` set (ListByOrg (bp_org p) l cursor ps')"
proof -
  let ?q = "p\<lparr>bp_deleted := True, bp_plans := map (map cancel_todo) (bp_plans p), bp_status := js ''canceled''\<rparr>"
  have "list_ex (\<lambda>x. bp_id x = bp_id p \<and> \<not> bp_deleted x) ps" using assms(1,2) by (auto simp: list_ex_iff)
  then obtain ps' where ps': "SoftDelete (bp_id p) ps = Some ps'" by (simp add: SoftDelete_def)
  have map': "ps' = map (\<lambda>x. if x = p then ?q else x) ps"
    using ps' assms by (auto simp: SoftDelete_def distinct_map inj_on_def split: if_splits)
  have q: "?q \<in> set ps'" using assms(1) unfolding map' by auto
  have ids: "map bp_id ps' = map bp_id ps" unfolding map' by auto
  then have d: "distinct (map bp_id ps')" using assms(3) by simp
  have r: "board_row ?q \<in> set (Board (bp_org p) ps')" using q by (auto simp: Board_def)
  have f: "find (\<lambda>x. bp_id x = bp_id p) ps' = Some ?q"
    using find_distinct_key [OF d q] by simp
  have n: "x = ?q" if "x \<in> set ps'" "bp_id x = bp_id p" for x
    using d q that by (auto simp: distinct_map inj_on_def)
  have "bp_id p \<notin> bp_id ` set (ListByOrg (bp_org p) l cursor ps')"
  proof
    assume "bp_id p \<in> bp_id ` set (ListByOrg (bp_org p) l cursor ps')"
    then obtain x where "x \<in> set (ListByOrg (bp_org p) l cursor ps')" "bp_id x = bp_id p" by auto
    then have x: "x \<in> set ps'" "\<not> bp_deleted x" "bp_id x = bp_id p"
      by (auto simp: ListByOrg_def dest!: in_set_takeD)
    from n [OF x(1,3)] x(2) show False by simp
  qed
  with ps' r f show ?thesis
    by (auto simp: requireLiveProject_def board_row_def taskBucket_def quickAction_def intro!: bexI [OF _ r])
qed

text \<open>The relative time stays within its unit: minutes below sixty, hours below a day, days below
  thirty; a time in the future counts as now.\<close>

theorem formatRelative_bounds:
  "(case formatRelative parsed now of
      RT_minutes n \<Rightarrow> 1 \<le> n \<and> n < 60 | RT_hours n \<Rightarrow> 1 \<le> n \<and> n < 24 | RT_days n \<Rightarrow> 1 \<le> n \<and> n < 30
    | RT_now \<Rightarrow> parsed \<noteq> None | RT_raw \<Rightarrow> parsed = None | RT_date t \<Rightarrow> parsed = Some t)"
proof (cases parsed)
  case None
  then show ?thesis by (simp add: formatRelative_def)
next
  case (Some t)
  then show ?thesis
    by (auto simp: formatRelative_def Let_def div_less_iff_less_mult pos_imp_zdiv_pos_iff int_one_le_iff_zero_less)
qed

text \<open>The summary of a run counts its finished stages: the ratio lies between 0 and 1, and is 1
  exactly when there are stages and all are done.\<close>

theorem run_summary_bounds:
  "rs_stagesDone (computeRunSummary s) \<le> rs_stagesTotal (computeRunSummary s)"
  "0 \<le> rs_ratio (computeRunSummary s) \<and> rs_ratio (computeRunSummary s) \<le> 1"
  "rs_ratio (computeRunSummary s) = 1 \<longleftrightarrow> run_units s \<noteq> [] \<and> (\<forall>u \<in> set (run_units s). u = S_done)"
proof -
  let ?f = "filter (\<lambda>u. u = S_done) (run_units s)"
  have r: "rs_stagesDone (computeRunSummary s) = length ?f" "rs_stagesTotal (computeRunSummary s) = length (run_units s)"
    "rs_ratio (computeRunSummary s) = (if length (run_units s) = 0 then 0 else of_nat (length ?f) / of_nat (length (run_units s)))"
    by (simp_all add: computeRunSummary_def Let_def)
  have le: "length ?f \<le> length (run_units s)" by simp
  then show "rs_stagesDone (computeRunSummary s) \<le> rs_stagesTotal (computeRunSummary s)" by (simp add: r)
  show "0 \<le> rs_ratio (computeRunSummary s) \<and> rs_ratio (computeRunSummary s) \<le> 1"
    using le by (simp add: r divide_le_eq_1)
  have "length ?f = length (run_units s) \<longleftrightarrow> (\<forall>u \<in> set (run_units s). u = S_done)"
    by (rule filter_all_iff)
  then show "rs_ratio (computeRunSummary s) = 1 \<longleftrightarrow> run_units s \<noteq> [] \<and> (\<forall>u \<in> set (run_units s). u = S_done)"
    by (auto simp: r)
qed

section \<open>Witnesses\<close>

definition demo_todo :: "string \<Rightarrow> todo" where
  "demo_todo st = \<lparr>td_status = js st, td_agent = [], td_type = js ''asset'', td_updatedAt = 0\<rparr>"

definition demo_board :: "string \<Rightarrow> todo list \<Rightarrow> board_project" where
  "demo_board st ts = \<lparr>bp_id = js ''p'', bp_org = js ''o'', bp_name = js ''n'', bp_status = js st, bp_deleted = False,
     bp_plans = [ts], bp_pendingAssets = 0, bp_inFlightRegen = 0, bp_updatedAt = 0, bp_lastEvent = None\<rparr>"

theorem tab_counts_match_witness:
  "tabCount (Some (fst (taskboardHandler (js ''o'') [demo_board ''failed'' []])))
     (Some (snd (taskboardHandler (js ''o'') [demo_board ''failed'' []]))) (hd TABS)
   = Some (length (visible_rows (Some (fst (taskboardHandler (js ''o'') [demo_board ''failed'' []]))) (tt_label (hd TABS))))"
  by (rule tab_counts_match [OF surjective_pairing]) (simp add: TABS_def)

theorem board_row_consistent_witness:
  "isGenerationDone (board_row (RefreshStatus (demo_board ''running'' [demo_todo ''done'', demo_todo ''done''])))"
proof -
  let ?p = "demo_board ''running'' [demo_todo ''done'', demo_todo ''done'']"
  have "taskBucket (tr_status (board_row (RefreshStatus ?p))) = TB_completed"
    by (simp add: demo_board_def demo_todo_def RefreshStatus_def DeriveStatus_def tally_def with_status_def
        board_row_def taskBucket_def)
  then have b: "taskBucket (tr_status (board_row (RefreshStatus ?p))) \<in> {TB_completed, TB_review}" by simp
  have "\<forall>t \<in> set (concat (bp_plans ?p)). todo_ok t" "bp_plans ?p \<noteq> []" "bp_status ?p \<noteq> js ''canceled''"
    by (simp_all add: demo_board_def demo_todo_def todo_ok_def)
  from board_row_consistent [OF this] b show ?thesis by blast
qed

theorem deleted_project_on_board_witness:
  "\<exists>ps'. SoftDelete (js ''p'') [demo_board ''running'' []] = Some ps' \<and> requireLiveProject (js ''p'') ps' = Some 404
     \<and> Board (js ''o'') ps' \<noteq> []"
proof -
  have "demo_board ''running'' [] \<in> set [demo_board ''running'' []]" "\<not> bp_deleted (demo_board ''running'' [])"
    "distinct (map bp_id [demo_board ''running'' []])"
    by (simp_all add: demo_board_def)
  from deleted_project_on_board [OF this, of 0 "[]"] show ?thesis
    by (auto simp: demo_board_def)
qed

end
