(* ===== verification/Workflow_Page.thy ===== *)
theory Workflow_Page
  imports Editor_Safety Run_Canvas
begin

text \<open>
  The page around the canvas (\<open>routes/_authed/orgs.$org.projects.$id.workflow.tsx\<close>): which mode an
  address shows, and how long the state of the editor lives: it is lost whenever React unmounts
  the editor or its key changes. The list of workflows comes from a query, whose answers and
  failures are events. The pages that lead to it: the project page
  (\<open>orgs.$org.projects.$id.index.tsx\<close>) with its runs and deletions of workflows, the table of
  runs (\<open>workflow/ProjectRunsTable.tsx\<close>), and the dialog that deletes a project
  (\<open>projects/DeleteProjectDialog.tsx\<close>).
\<close>

section \<open>The address\<close>

datatype wf_mode = WM_edit | WM_run | WM_create

record wf_search =
  wq_wf :: "jsstr option"
  wq_run :: "jsstr option"
  wq_mode :: "wf_mode option"

record stored_workflow =
  sw_id :: jsstr
  sw_name :: jsstr
  sw_nodes :: "workflow_node list"
  sw_inputsSchema :: "input_field list option"
  sw_settings :: "workflow_settings option"
  sw_version :: int
  sw_latestRunStatus :: "jsstr option"
  sw_latestPlanId :: "jsstr option"

text \<open>\<open>beforeLoad\<close>: whether the route redirects to the project page.\<close>

definition wf_redirects :: "wf_search \<Rightarrow> bool" where
  "wf_redirects q \<longleftrightarrow> \<not> truthy (wq_wf q) \<and> wq_mode q \<noteq> Some WM_create"

definition shown_run :: "wf_search \<Rightarrow> stored_workflow option \<Rightarrow> jsstr option" where
  "shown_run q w = (case wq_run q of Some r \<Rightarrow> Some r
     | None \<Rightarrow> if wq_mode q = Some WM_edit then None
         else (case w of None \<Rightarrow> None | Some x \<Rightarrow> sw_latestPlanId x))"

datatype canvas_mode = CM_edit | CM_run

definition shown_mode :: "wf_search \<Rightarrow> stored_workflow option \<Rightarrow> canvas_mode" where
  "shown_mode q w = (if truthy (shown_run q w) \<or> wq_mode q = Some WM_run then CM_run else CM_edit)"

section \<open>The page\<close>

record wf_page =
  wp_search :: wf_search
  wp_list :: "stored_workflow list option"
  wp_failed :: bool
  wp_nonce :: nat
  wp_editor :: "editor option"

definition find_workflow :: "stored_workflow list option \<Rightarrow> jsstr option \<Rightarrow> stored_workflow option" where
  "find_workflow data i = (case data of None \<Rightarrow> None | Some l \<Rightarrow> find (\<lambda>w. Some (sw_id w) = i) l)"

definition current_workflow :: "wf_page \<Rightarrow> stored_workflow option" where
  "current_workflow s = find_workflow (wp_list s) (wq_wf (wp_search s))"

definition wf_key :: "wf_page \<Rightarrow> jsstr" where
  "wf_key s = nullish (wq_wf (wp_search s)) (js ''new'') @ js ''-'' @ dec (wp_nonce s)"

datatype wf_view = WV_loading | WV_error | WV_missing | WV_canvas jsstr canvas_mode

definition wf_view :: "wf_page \<Rightarrow> wf_view" where
  "wf_view s = (if wp_list s = None \<and> \<not> wp_failed s then WV_loading
     else if wp_failed s then WV_error
     else if truthy (wq_wf (wp_search s)) \<and> current_workflow s = None then WV_missing
     else WV_canvas (wf_key s) (shown_mode (wp_search s) (current_workflow s)))"

definition fresh_editor :: "wf_page \<Rightarrow> editor" where
  "fresh_editor s = (case current_workflow s of
       None \<Rightarrow> initial_editor [] [] None None None
     | Some w \<Rightarrow> initial_editor (sw_name w) (sw_nodes w) (sw_inputsSchema w) (sw_settings w) (Some (sw_version w)))"

text \<open>The render after a change: the editor's state survives when the view before and after is the
  editor under the same key, starts anew when the editor is mounted, and is dropped otherwise.\<close>

definition render :: "wf_view \<Rightarrow> wf_page \<Rightarrow> wf_page" where
  "render before s = (case wf_view s of
       WV_canvas key CM_edit \<Rightarrow>
         if before = WV_canvas key CM_edit \<and> wp_editor s \<noteq> None then s else s\<lparr>wp_editor := Some (fresh_editor s)\<rparr>
     | _ \<Rightarrow> s\<lparr>wp_editor := None\<rparr>)"

definition onCreated :: "jsstr \<Rightarrow> wf_page \<Rightarrow> wf_page" where
  "onCreated newId s = s\<lparr>wp_search := \<lparr>wq_wf = Some newId, wq_run = None, wq_mode = None\<rparr>\<rparr>"

definition onModeChange :: "canvas_mode \<Rightarrow> wf_page \<Rightarrow> wf_page" where
  "onModeChange next' s = s\<lparr>wp_search :=
     (if next' = CM_run
      then \<lparr>wq_wf = wq_wf (wp_search s),
            wq_run = (case current_workflow s of None \<Rightarrow> None | Some w \<Rightarrow> sw_latestPlanId w), wq_mode = Some WM_run\<rparr>
      else \<lparr>wq_wf = wq_wf (wp_search s), wq_run = None, wq_mode = Some WM_edit\<rparr>)\<rparr>"

definition onSelectRun :: "jsstr \<Rightarrow> wf_page \<Rightarrow> wf_page" where
  "onSelectRun rid s = s\<lparr>wp_search := \<lparr>wq_wf = wq_wf (wp_search s), wq_run = Some rid, wq_mode = None\<rparr>\<rparr>"

definition onReload :: "wf_page \<Rightarrow> wf_page" where
  "onReload s = s\<lparr>wp_nonce := wp_nonce s + 1\<rparr>"

datatype wf_event =
    WE_editor editor
  | WE_toggle canvas_mode
  | WE_select_run jsstr
  | WE_reload
  | WE_fetched "stored_workflow list"
  | WE_fetch_failed

text \<open>An event of the editor is a step of its own; the answer to a creation calls \<open>onCreated\<close>.\<close>

definition wf_change :: "wf_event \<Rightarrow> wf_page \<Rightarrow> wf_page" where
  "wf_change e s = (case e of
       WE_editor ed' \<Rightarrow>
         (let s' = s\<lparr>wp_editor := Some ed'\<rparr>
          in (case (wp_editor s, ed_created ed') of
                (Some ed, Some i) \<Rightarrow> if ed_created ed \<noteq> Some i then onCreated i s' else s'
              | _ \<Rightarrow> s'))
     | WE_toggle m \<Rightarrow> onModeChange m s
     | WE_select_run r \<Rightarrow> onSelectRun r s
     | WE_reload \<Rightarrow> onReload s
     | WE_fetched l \<Rightarrow> s\<lparr>wp_list := Some l, wp_failed := False\<rparr>
     | WE_fetch_failed \<Rightarrow> s\<lparr>wp_failed := True\<rparr>)"

definition wf_do :: "wf_event \<Rightarrow> wf_page \<Rightarrow> wf_page" where
  "wf_do e s = render (wf_view s) (wf_change e s)"

text \<open>The controls that are there: the switch to the run mode needs a stored workflow without
  unbound nodes, the reload a newer stored version.\<close>

definition wf_guard :: "(rf_edge \<Rightarrow> rf_edge list \<Rightarrow> rf_edge list) \<Rightarrow> wf_page \<Rightarrow> wf_event \<Rightarrow> bool" where
  "wf_guard addEdge s e = (case e of
       WE_editor ed' \<Rightarrow> (case wp_editor s of None \<Rightarrow> False | Some ed \<Rightarrow> canvas_step addEdge ed ed')
     | WE_toggle m \<Rightarrow> (case wf_view s of
         WV_canvas key CM_edit \<Rightarrow> current_workflow s \<noteq> None
           \<and> (case wp_editor s of None \<Rightarrow> False | Some ed \<Rightarrow> \<not> runDisabled ed)
       | WV_canvas key CM_run \<Rightarrow> True | _ \<Rightarrow> False)
     | WE_select_run r \<Rightarrow> (\<exists>key. wf_view s = WV_canvas key CM_run)
     | WE_reload \<Rightarrow> (case (wp_editor s, current_workflow s) of
         (Some ed, Some w) \<Rightarrow> staleRemote (Some (sw_version w)) ed | _ \<Rightarrow> False)
     | WE_fetched l \<Rightarrow> True
     | WE_fetch_failed \<Rightarrow> True)"

inductive wf_step :: "(rf_edge \<Rightarrow> rf_edge list \<Rightarrow> rf_edge list) \<Rightarrow> wf_page \<Rightarrow> wf_event \<Rightarrow> wf_page \<Rightarrow> bool"
  for addEdge where
  "wf_guard addEdge s e \<Longrightarrow> wf_step addEdge s e (wf_do e s)"

inductive_cases wf_stepE: "wf_step addEdge s e s'"

definition wf_open :: "wf_search \<Rightarrow> stored_workflow list option \<Rightarrow> wf_page" where
  "wf_open q l = render WV_loading \<lparr>wp_search = q, wp_list = l, wp_failed = False, wp_nonce = 0, wp_editor = None\<rparr>"

section \<open>The addresses of the links\<close>

definition link_create :: wf_search where
  "link_create = \<lparr>wq_wf = None, wq_run = None, wq_mode = Some WM_create\<rparr>"

definition link_edit :: "stored_workflow \<Rightarrow> wf_search" where
  "link_edit w = \<lparr>wq_wf = Some (sw_id w), wq_run = None, wq_mode = Some WM_edit\<rparr>"

definition link_view :: "stored_workflow \<Rightarrow> wf_search option" where
  "link_view w = (if truthy (sw_latestPlanId w)
     then Some \<lparr>wq_wf = Some (sw_id w), wq_run = sw_latestPlanId w, wq_mode = None\<rparr> else None)"

definition link_run :: "jsstr \<Rightarrow> jsstr \<Rightarrow> wf_search" where
  "link_run i plan = \<lparr>wq_wf = Some i, wq_run = Some plan, wq_mode = None\<rparr>"

text \<open>A row of the table of runs: its number, and its link unless the run belongs to no workflow.\<close>

definition runs_rows :: "plan list \<Rightarrow> (nat \<times> plan \<times> wf_search option) list" where
  "runs_rows plans = map (\<lambda>(i, p). (length plans - i, p,
     if truthy (pn_workflowId p) then Some (link_run (the (pn_workflowId p)) (pn_id p)) else None)) (enumerate 0 plans)"

section \<open>Links and modes\<close>

lemma page_of_editor [simp]: "current_workflow (s\<lparr>wp_editor := x\<rparr>) = current_workflow s"
  "wf_view (s\<lparr>wp_editor := x\<rparr>) = wf_view s" "fresh_editor (s\<lparr>wp_editor := x\<rparr>) = fresh_editor s"
  by (simp_all add: current_workflow_def wf_view_def wf_key_def fresh_editor_def)

lemma render_search [simp]: "wp_search (render b s) = wp_search s" "wp_list (render b s) = wp_list s"
  "wp_failed (render b s) = wp_failed s" "wp_nonce (render b s) = wp_nonce s"
  by (simp_all add: render_def split: wf_view.split canvas_mode.split)

lemma render_current [simp]: "current_workflow (render b s) = current_workflow s" "wf_view (render b s) = wf_view s"
  by (simp_all add: current_workflow_def wf_view_def wf_key_def )

lemma fresh_editor_render [simp]: "fresh_editor (render b s) = fresh_editor s"
  by (simp add: fresh_editor_def )

lemma wf_open_editor:
  "wf_view (wf_open q l) = WV_canvas k CM_edit \<Longrightarrow> wp_editor (wf_open q l) = Some (fresh_editor (wf_open q l))"
  by (simp add: wf_open_def) (simp add: render_def)

lemma view_canvas:
  assumes "wp_list s = Some l" "\<not> wp_failed s" "w \<in> set l" "wq_wf (wp_search s) = Some (sw_id w)" "distinct (map sw_id l)"
  shows "current_workflow s = Some w"
    and "wf_view s = WV_canvas (wf_key s) (shown_mode (wp_search s) (Some w))"
proof -
  show c: "current_workflow s = Some w"
    using assms find_distinct_key [of sw_id l w] by (simp add: current_workflow_def find_workflow_def)
  then show "wf_view s = WV_canvas (wf_key s) (shown_mode (wp_search s) (Some w))"
    using assms by (simp add: wf_view_def)
qed

lemma links_open_target:
  assumes "w \<in> set l" "distinct (map sw_id l)" "sw_id w \<noteq> []"
  shows "\<not> wf_redirects (link_edit w) \<and> wp_editor (wf_open (link_edit w) (Some l))
        = Some (initial_editor (sw_name w) (sw_nodes w) (sw_inputsSchema w) (sw_settings w) (Some (sw_version w)))"
    and "plan \<noteq> [] \<Longrightarrow> \<not> wf_redirects (link_run (sw_id w) plan)
        \<and> (\<exists>key. wf_view (wf_open (link_run (sw_id w) plan) (Some l)) = WV_canvas key CM_run)
        \<and> shown_run (link_run (sw_id w) plan) (Some w) = Some plan"
    and "link_view w = Some q \<Longrightarrow> q = link_run (sw_id w) (the (sw_latestPlanId w)) \<and> the (sw_latestPlanId w) \<noteq> []"
    and "(n, p, Some q) \<in> set (runs_rows plans) \<Longrightarrow> p \<in> set plans \<and> pn_workflowId p \<noteq> Some [] \<and> q = link_run (the (pn_workflowId p)) (pn_id p)"
    and "\<not> wf_redirects link_create \<and> wp_editor (wf_open link_create (Some l)) = Some (initial_editor [] [] None None None)"
proof -
  have v: "wf_view (wf_open q (Some l)) = WV_canvas (q_key) (shown_mode q (Some w)) \<and> current_workflow (wf_open q (Some l)) = Some w"
    if "wq_wf q = Some (sw_id w)" "q_key = sw_id w @ js ''-'' @ dec 0" for q q_key
  proof -
    let ?s = "\<lparr>wp_search = q, wp_list = Some l, wp_failed = False, wp_nonce = 0, wp_editor = None\<rparr>"
    show ?thesis
      using view_canvas [of ?s l w] assms that by (simp add: wf_open_def wf_key_def)
  qed
  have e: "shown_mode (link_edit w) (Some w) = CM_edit"
    by (simp add: shown_mode_def shown_run_def link_edit_def)
  from v [of "link_edit w"] e show "\<not> wf_redirects (link_edit w) \<and> wp_editor (wf_open (link_edit w) (Some l))
        = Some (initial_editor (sw_name w) (sw_nodes w) (sw_inputsSchema w) (sw_settings w) (Some (sw_version w)))"
    using assms(3) wf_open_editor [of "link_edit w" "Some l"]
    by (simp add: link_edit_def wf_redirects_def fresh_editor_def)
  show "\<not> wf_redirects (link_run (sw_id w) plan)
        \<and> (\<exists>key. wf_view (wf_open (link_run (sw_id w) plan) (Some l)) = WV_canvas key CM_run)
        \<and> shown_run (link_run (sw_id w) plan) (Some w) = Some plan" if "plan \<noteq> []"
    using v [of "link_run (sw_id w) plan"] that assms(3)
    by (simp add: link_run_def wf_redirects_def shown_run_def shown_mode_def)
  show "link_view w = Some q \<Longrightarrow> q = link_run (sw_id w) (the (sw_latestPlanId w)) \<and> the (sw_latestPlanId w) \<noteq> []"
    by (cases "sw_latestPlanId w") (auto simp: link_view_def link_run_def split: if_splits)
  show "(n, p, Some q) \<in> set (runs_rows plans) \<Longrightarrow> p \<in> set plans \<and> pn_workflowId p \<noteq> Some [] \<and> q = link_run (the (pn_workflowId p)) (pn_id p)"
    by (auto simp: runs_rows_def in_set_enumerate_eq split: if_splits)
  show "\<not> wf_redirects link_create \<and> wp_editor (wf_open link_create (Some l)) = Some (initial_editor [] [] None None None)"
  proof -
    have "current_workflow (wf_open link_create (Some l)) = None"
      by (simp add: wf_open_def) (simp add: link_create_def current_workflow_def find_workflow_def find_None_iff)
    moreover from this have "wf_view (wf_open link_create (Some l)) = WV_canvas (js ''new'' @ js ''-'' @ dec 0) CM_edit"
      by (simp add: wf_open_def) (simp add: link_create_def wf_view_def wf_key_def shown_mode_def shown_run_def)
    ultimately show ?thesis
      using wf_open_editor [of link_create "Some l"] by (simp add: link_create_def wf_redirects_def fresh_editor_def)
  qed
qed

text \<open>Every link leads where it says. None is turned away by the route; the edit link opens the
  editor on the stored workflow, also when it has runs; the links to a run, of the list of
  workflows, of the table of runs and after a run was started, show that run; the link for a new
  workflow opens an empty editor.\<close>

theorem workflow_links:
  assumes "w \<in> set l" "distinct (map sw_id l)" "sw_id w \<noteq> []"
  shows "\<not> wf_redirects (link_edit w) \<and> wp_editor (wf_open (link_edit w) (Some l))
        = Some (initial_editor (sw_name w) (sw_nodes w) (sw_inputsSchema w) (sw_settings w) (Some (sw_version w)))
    \<and> (plan \<noteq> [] \<longrightarrow> \<not> wf_redirects (link_run (sw_id w) plan)
        \<and> (\<exists>key. wf_view (wf_open (link_run (sw_id w) plan) (Some l)) = WV_canvas key CM_run)
        \<and> shown_run (link_run (sw_id w) plan) (Some w) = Some plan)
    \<and> (link_view w = Some q \<longrightarrow> q = link_run (sw_id w) (the (sw_latestPlanId w)) \<and> the (sw_latestPlanId w) \<noteq> [])
    \<and> ((n, p, Some q) \<in> set (runs_rows plans) \<longrightarrow>
        p \<in> set plans \<and> pn_workflowId p \<noteq> Some [] \<and> q = link_run (the (pn_workflowId p)) (pn_id p))
    \<and> \<not> wf_redirects link_create \<and> wp_editor (wf_open link_create (Some l)) = Some (initial_editor [] [] None None None)"
  using links_open_target [OF assms] by blast


section \<open>How long unsaved edits live\<close>

text \<open>The events that leave the editor alone while it was opened by the edit link or the switch: edits
  and saves, and answers of the query that still contain the workflow.\<close>

definition harmless :: "jsstr \<Rightarrow> wf_event \<Rightarrow> bool" where
  "harmless i e = (case e of WE_editor ed' \<Rightarrow> ed_created ed' = None
     | WE_fetched l \<Rightarrow> i \<in> sw_id ` set l | _ \<Rightarrow> False)"

definition editing :: "jsstr \<Rightarrow> wf_page \<Rightarrow> bool" where
  "editing i s \<longleftrightarrow> wq_wf (wp_search s) = Some i \<and> wq_run (wp_search s) = None \<and> wq_mode (wp_search s) = Some WM_edit
     \<and> current_workflow s \<noteq> None \<and> \<not> wp_failed s \<and> (\<exists>ed. wp_editor s = Some ed \<and> ed_created ed = None)"

lemma editing_view:
  assumes "editing i s"
  shows "wf_view s = WV_canvas (i @ js ''-'' @ dec (wp_nonce s)) CM_edit"
  using assms by (auto simp: editing_def wf_view_def wf_key_def shown_mode_def shown_run_def current_workflow_def
      find_workflow_def split: option.splits)

definition edit_steps :: "(rf_edge \<Rightarrow> rf_edge list \<Rightarrow> rf_edge list) \<Rightarrow> editor option \<Rightarrow> editor option \<Rightarrow> bool" where
  "edit_steps addEdge a b \<longleftrightarrow> (\<exists>x y. a = Some x \<and> b = Some y \<and> (canvas_step addEdge)\<^sup>*\<^sup>* x y)"

lemma harmless_step:
  assumes s: "editing i s" and e: "harmless i e" and g: "wf_guard addEdge s e"
  shows "editing i (wf_do e s) \<and> edit_steps addEdge (wp_editor s) (wp_editor (wf_do e s))
    \<and> wp_nonce (wf_do e s) = wp_nonce s"
proof -
  from s obtain ed where ed: "wp_editor s = Some ed" "ed_created ed = None" by (auto simp: editing_def)
  have cw: "current_workflow s \<noteq> None" "\<not> wp_failed s" using s by (simp_all add: editing_def)
  have keep: "wf_do e s = s'" "editing i s'"
    if "s' = wf_change e s" "wp_search s' = wp_search s" "wp_nonce s' = wp_nonce s" "wp_editor s' = Some ed'"
      "ed_created ed' = None" "current_workflow s' \<noteq> None" "\<not> wp_failed s'" for s' ed'
  proof -
    show e': "editing i s'" using s that by (simp add: editing_def)
    show "wf_do e s = s'"
      using editing_view [OF s] editing_view [OF e'] that by (simp add: wf_do_def render_def)
  qed
  show ?thesis
  proof (cases e)
    case (WE_editor ed')
    have c: "canvas_step addEdge ed ed'" using g ed WE_editor by (simp add: wf_guard_def)
    have n: "ed_created ed' = None" using e WE_editor by (simp add: harmless_def)
    have "s\<lparr>wp_editor := Some ed'\<rparr> = wf_change e s" using ed n WE_editor by (simp add: wf_change_def)
    from keep [OF this _ _ _ n] cw have "wf_do e s = s\<lparr>wp_editor := Some ed'\<rparr>" "editing i (s\<lparr>wp_editor := Some ed'\<rparr>)"
      by simp_all
    then show ?thesis using ed c by (auto simp: edit_steps_def)
  next
    case (WE_fetched l)
    have "i \<in> sw_id ` set l" using e WE_fetched by (simp add: harmless_def)
    then have f: "find (\<lambda>w. Some (sw_id w) = Some i) l \<noteq> None" by (auto simp: find_None_iff)
    have w: "wq_wf (wp_search s) = Some i" using s by (simp add: editing_def)
    have "wf_do e s = s\<lparr>wp_list := Some l, wp_failed := False\<rparr>" "editing i (s\<lparr>wp_list := Some l, wp_failed := False\<rparr>)"
      using keep [of "s\<lparr>wp_list := Some l, wp_failed := False\<rparr>" ed] ed f w WE_fetched
      by (simp_all add: wf_change_def current_workflow_def find_workflow_def)
    then show ?thesis using ed by (auto simp: edit_steps_def)
  qed (use e in \<open>simp_all add: harmless_def\<close>)
qed

interpretation wfp: trace_invariant "\<lambda>s e s'. harmless i e \<and> wf_step addEdge s e s'"
  "\<lambda>es s. editing i s \<and> edit_steps addEdge (wp_editor s0) (wp_editor s) \<and> wp_nonce s = wp_nonce s0"
proof
  fix es s e s'
  assume J: "editing i s \<and> edit_steps addEdge (wp_editor s0) (wp_editor s) \<and> wp_nonce s = wp_nonce s0"
    and st: "harmless i e \<and> wf_step addEdge s e s'"
  then have "wf_guard addEdge s e" "s' = wf_do e s" by (auto elim: wf_stepE)
  with harmless_step [of i s e addEdge] J st
  show "editing i s' \<and> edit_steps addEdge (wp_editor s0) (wp_editor s') \<and> wp_nonce s' = wp_nonce s0"
    by (auto simp: edit_steps_def intro: rtranclp_trans)
qed


lemma run_mode_drops_edits:
  assumes ed: "wp_editor s = Some ed" "\<not> runDisabled ed" and w: "current_workflow s = Some w" and v: "wf_view s = WV_canvas key CM_edit"
    and search: "wq_wf (wp_search s) = Some (sw_id w)" "sw_id w \<noteq> []" and live: "\<not> wp_failed s"
  shows "wf_guard addEdge s (WE_toggle CM_run) \<and> wp_editor (wf_do (WE_toggle CM_run) s) = None
      \<and> wp_editor (wf_do (WE_toggle CM_edit) (wf_do (WE_toggle CM_run) s)) = Some (fresh_editor s)"
proof -
  obtain l0 where l0: "wp_list s = Some l0" using w by (auto simp: current_workflow_def find_workflow_def split: option.splits)
  have cw: "current_workflow (onModeChange m s) = Some w" for m
    using w by (simp add: onModeChange_def current_workflow_def)
  have r: "wf_view (onModeChange CM_run s) = WV_canvas (wf_key s) CM_run"
    using cw [of CM_run] l0 live by (simp add: wf_view_def onModeChange_def shown_mode_def wf_key_def)
  let ?s1 = "wf_do (WE_toggle CM_run) s"
  have s1: "?s1 = (onModeChange CM_run s)\<lparr>wp_editor := None\<rparr>"
    using r by (simp add: wf_do_def wf_change_def render_def)
  have v1: "wf_view ?s1 = WV_canvas (wf_key s) CM_run"
    using r by (simp add: wf_do_def wf_change_def)
  let ?t = "onModeChange CM_edit ?s1"
  have ct: "current_workflow ?t = Some w"
    using w by (simp add: s1 onModeChange_def current_workflow_def)
  have vt: "wf_view ?t = WV_canvas (wf_key s) CM_edit"
    using ct l0 live by (simp add: wf_view_def s1 onModeChange_def shown_mode_def shown_run_def wf_key_def)
  have "wp_editor (wf_do (WE_toggle CM_edit) ?s1) = Some (fresh_editor ?t)"
    using vt v1 by (simp add: wf_do_def wf_change_def render_def)
  moreover have "fresh_editor ?t = fresh_editor s" using ct w by (simp add: fresh_editor_def)
  ultimately show "wf_guard addEdge s (WE_toggle CM_run) \<and> wp_editor ?s1 = None
      \<and> wp_editor (wf_do (WE_toggle CM_edit) ?s1) = Some (fresh_editor s)"
    using ed w v by (simp add: s1 wf_guard_def)
qed

lemma failed_fetch_drops_edits:
  assumes v: "wf_view s = WV_canvas key CM_edit" and live: "\<not> wp_failed s"
  shows "wp_editor (wf_do WE_fetch_failed s) = None
      \<and> (wp_list s = Some l \<longrightarrow> wp_editor (wf_do (WE_fetched l) (wf_do WE_fetch_failed s)) = Some (fresh_editor s))"
proof -
  let ?f = "wf_do WE_fetch_failed s"
  have f: "?f = s\<lparr>wp_failed := True, wp_editor := None\<rparr>"
    by (simp add: wf_do_def wf_change_def render_def wf_view_def)
  have "wp_editor (wf_do (WE_fetched l) ?f) = Some (fresh_editor s)" if "wp_list s = Some l"
  proof -
    let ?g = "wf_change (WE_fetched l) ?f"
    have g: "?g = s\<lparr>wp_editor := None\<rparr>" using that live by (simp add: wf_change_def f)
    have "wf_view ?g = WV_canvas key CM_edit" "fresh_editor ?g = fresh_editor s"
      using v by (simp_all add: g)
    moreover have "wf_view ?f = WV_error" by (simp add: f wf_view_def)
    ultimately show ?thesis by (simp add: wf_do_def render_def)
  qed
  then show "wp_editor ?f = None \<and> (wp_list s = Some l \<longrightarrow> wp_editor (wf_do (WE_fetched l) ?f) = Some (fresh_editor s))"
    by (simp add: f)
qed

lemma new_run_drops_edits:
  assumes w: "current_workflow s = Some w" and live: "\<not> wp_failed s"
    and q: "wp_search s = \<lparr>wq_wf = Some (sw_id w), wq_run = None, wq_mode = None\<rparr>" "sw_id w' = sw_id w"
      "sw_latestPlanId w' = Some r" "r \<noteq> []"
  shows "wp_editor (wf_do (WE_fetched [w']) s) = None"
proof -
  have "wf_view (wf_change (WE_fetched [w']) s) = WV_canvas (wf_key s) CM_run"
    using q by (simp add: wf_change_def wf_view_def current_workflow_def find_workflow_def shown_mode_def shown_run_def wf_key_def)
  then show ?thesis by (simp add: wf_do_def render_def)
qed

lemma first_save_drops_edits:
  assumes c: "wp_editor t = Some ed0" "ed_created ed0 = None" "ed_created ed' = Some i" "wq_wf (wp_search t) = None"
      "wf_view t = WV_canvas k0 CM_edit" "i \<noteq> js ''new''" "wp_editor (wf_do (WE_editor ed') t) \<noteq> None"
  shows "wp_editor (wf_do (WE_editor ed') t) = Some (fresh_editor (onCreated i t))"
proof -
  let ?u = "wf_change (WE_editor ed') t"
  have u: "?u = (onCreated i t)\<lparr>wp_editor := Some ed'\<rparr>"
    using c by (simp add: wf_change_def onCreated_def)
  have k: "k0 = wf_key t" using c(5) by (auto simp: wf_view_def split: if_splits)
  have "wf_key ?u \<noteq> k0"
    using c(4,6) by (simp add: k u wf_key_def onCreated_def)
  moreover obtain m where "wf_view ?u = WV_canvas (wf_key ?u) m \<or> wp_editor (wf_do (WE_editor ed') t) = None"
    by (cases "wf_view ?u") (auto simp: wf_do_def render_def wf_view_def split: if_splits)
  ultimately have "wp_editor (wf_do (WE_editor ed') t) = Some (fresh_editor ?u)"
    using c(5,7) by (cases m) (auto simp: wf_do_def render_def)
  moreover have "fresh_editor ?u = fresh_editor (onCreated i t)"
    by (simp add: u fresh_editor_def current_workflow_def onCreated_def)
  ultimately show ?thesis by simp
qed

text \<open>Four ways lose unsaved edits without a question, whatever the editor holds: the switch to the
  run mode, a failed refresh of the list of workflows, a newer run of a workflow that was opened
  by creating it, and the answer to a creation, which also drops what was typed since the save.
  The editor that opens afterwards shows the stored workflow.\<close>

theorem unsaved_edits_dropped:
  assumes ed: "wp_editor s = Some ed" "\<not> runDisabled ed" and w: "current_workflow s = Some w" and v: "wf_view s = WV_canvas key CM_edit"
    and search: "wq_wf (wp_search s) = Some (sw_id w)" "sw_id w \<noteq> []" and live: "\<not> wp_failed s"
  shows "wf_guard addEdge s (WE_toggle CM_run) \<and> wp_editor (wf_do (WE_toggle CM_run) s) = None
      \<and> wp_editor (wf_do (WE_toggle CM_edit) (wf_do (WE_toggle CM_run) s)) = Some (fresh_editor s)
    \<and> wp_editor (wf_do WE_fetch_failed s) = None
      \<and> (wp_list s = Some l \<longrightarrow> wp_editor (wf_do (WE_fetched l) (wf_do WE_fetch_failed s)) = Some (fresh_editor s))
    \<and> (wp_search s = \<lparr>wq_wf = Some (sw_id w), wq_run = None, wq_mode = None\<rparr> \<and> sw_id w' = sw_id w
      \<and> sw_latestPlanId w' = Some r \<and> r \<noteq> [] \<longrightarrow> wp_editor (wf_do (WE_fetched [w']) s) = None)
    \<and> (wp_editor t = Some ed0 \<and> ed_created ed0 = None \<and> ed_created ed' = Some i \<and> wq_wf (wp_search t) = None
      \<and> wf_view t = WV_canvas k0 CM_edit \<and> i \<noteq> js ''new'' \<and> wp_editor (wf_do (WE_editor ed') t) \<noteq> None
      \<longrightarrow> wp_editor (wf_do (WE_editor ed') t) = Some (fresh_editor (onCreated i t)))"
  using run_mode_drops_edits [OF assms] failed_fetch_drops_edits [OF v live, of l]
    new_run_drops_edits [OF w live] first_save_drops_edits by blast


section \<open>Runs and deletions on the project page\<close>

text \<open>The dialog for inputs with the workflow it was opened for, the run requests in flight (true when
  submitted by the dialog), the deletions in flight.\<close>

record project_page =
  pj_workflows :: "stored_workflow list"
  pj_dialog :: "stored_workflow option"
  pj_runs :: "bool list"
  pj_deletes :: nat

datatype project_command =
    JC_run jsstr "input_value obj option"
  | JC_delete jsstr
  | JC_open wf_search
  | JC_toast run_toast
  | JC_deleted bool

datatype project_run_result = JR_ok jsstr jsstr bool | JR_api nat jsstr | JR_other

definition sendRun :: "bool \<Rightarrow> stored_workflow \<Rightarrow> input_value obj option \<Rightarrow> project_page \<Rightarrow> project_page \<times> project_command list" where
  "sendRun dialog w inputs s = (s\<lparr>pj_runs := pj_runs s @ [dialog]\<rparr>, [JC_run (sw_id w) inputs])"

definition handleRunWorkflow :: "stored_workflow \<Rightarrow> project_page \<Rightarrow> project_page \<times> project_command list" where
  "handleRunWorkflow w s = (if nullish (sw_inputsSchema w) [] \<noteq> [] then (s\<lparr>pj_dialog := Some w\<rparr>, [])
     else sendRun False w None s)"

definition submitRun :: "input_value obj \<Rightarrow> project_page \<Rightarrow> project_page \<times> project_command list" where
  "submitRun inputs s = (case pj_dialog s of None \<Rightarrow> (s, []) | Some w \<Rightarrow> sendRun True w (Some inputs) s)"

fun run_result_commands :: "project_run_result \<Rightarrow> project_command list" where
  "run_result_commands (JR_ok w planId fallbackUsed) =
     [JC_toast (if fallbackUsed then T_fallback else T_started), JC_open (link_run w planId)]"
| "run_result_commands (JR_api status body) =
     [JC_toast (if status = 429 then T_quota else if status = 400 then T_invalid (run_reason body) else T_run_failed)]"
| "run_result_commands JR_other = [JC_toast T_run_failed]"

text \<open>After the request of the dialog \<open>runDialog.submit\<close> returns, whatever the result was, and the
  dialog closes.\<close>

definition runSettled :: "project_run_result \<Rightarrow> project_page \<Rightarrow> project_page \<times> project_command list" where
  "runSettled r s = (case pj_runs s of [] \<Rightarrow> (s, [])
     | d # ds \<Rightarrow> (s\<lparr>pj_runs := ds, pj_dialog := (if d then None else pj_dialog s)\<rparr>, run_result_commands r))"

definition handleDeleteWorkflow :: "bool \<Rightarrow> stored_workflow \<Rightarrow> project_page \<Rightarrow> project_page \<times> project_command list" where
  "handleDeleteWorkflow confirmed w s = (if \<not> confirmed then (s, [])
     else (s\<lparr>pj_deletes := pj_deletes s + 1\<rparr>, [JC_delete (sw_id w)]))"

datatype project_event =
    PJ_run stored_workflow
  | PJ_submit "input_value obj"
  | PJ_close
  | PJ_run_settled project_run_result
  | PJ_delete bool stored_workflow
  | PJ_delete_settled bool
  | PJ_workflows "stored_workflow list"

text \<open>The enabled controls; the dialog is modal, and submits values that passed its checks.\<close>

definition pj_guard :: "project_page \<Rightarrow> project_event \<Rightarrow> bool" where
  "pj_guard s e = (case e of
       PJ_run w \<Rightarrow> w \<in> set (pj_workflows s) \<and> pj_dialog s = None \<and> pj_runs s = [] \<and> sw_nodes w \<noteq> []
     | PJ_submit v \<Rightarrow> (case pj_dialog s of None \<Rightarrow> False
         | Some w \<Rightarrow> pj_runs s = [] \<and> (\<exists>d. snd (submit_inputs (nullish (sw_inputsSchema w) []) d) = Some v))
     | PJ_close \<Rightarrow> pj_dialog s \<noteq> None
     | PJ_run_settled r \<Rightarrow> pj_runs s \<noteq> []
     | PJ_delete c w \<Rightarrow> w \<in> set (pj_workflows s) \<and> pj_dialog s = None \<and> pj_deletes s = 0
     | PJ_delete_settled ok \<Rightarrow> pj_deletes s > 0
     | PJ_workflows l \<Rightarrow> True)"

definition pj_handle :: "project_event \<Rightarrow> project_page \<Rightarrow> project_page \<times> project_command list" where
  "pj_handle e s = (case e of
       PJ_run w \<Rightarrow> handleRunWorkflow w s
     | PJ_submit v \<Rightarrow> submitRun v s
     | PJ_close \<Rightarrow> (s\<lparr>pj_dialog := None\<rparr>, [])
     | PJ_run_settled r \<Rightarrow> runSettled r s
     | PJ_delete c w \<Rightarrow> handleDeleteWorkflow c w s
     | PJ_delete_settled ok \<Rightarrow> (s\<lparr>pj_deletes := pj_deletes s - 1\<rparr>, [JC_deleted ok])
     | PJ_workflows l \<Rightarrow> (s\<lparr>pj_workflows := l\<rparr>, []))"

type_synonym project_run = "project_page \<times> project_command list"

inductive pj_step :: "project_run \<Rightarrow> project_event \<Rightarrow> project_run \<Rightarrow> bool" where
  "pj_guard (fst s) e \<Longrightarrow> pj_step s e (fst (pj_handle e (fst s)), snd s @ snd (pj_handle e (fst s)))"

inductive_cases pj_stepE: "pj_step s e s'"

definition pj_start :: "stored_workflow list \<Rightarrow> project_run" where
  "pj_start l = (\<lparr>pj_workflows = l, pj_dialog = None, pj_runs = [], pj_deletes = 0\<rparr>, [])"

text \<open>Every workflow the page was given so far.\<close>

fun listed :: "project_event list \<Rightarrow> stored_workflow set" where
  "listed [] = {}"
| "listed (PJ_workflows l # es) = set l \<union> listed es"
| "listed (e # es) = listed es"

lemma listed_append [simp]: "listed (es @ fs) = listed es \<union> listed fs"
  by (induction es rule: listed.induct) auto

definition good_run :: "stored_workflow set \<Rightarrow> project_command \<Rightarrow> bool" where
  "good_run W c = (case c of
       JC_run i inputs \<Rightarrow> (\<exists>w \<in> W. sw_id w = i \<and> sw_nodes w \<noteq> []
         \<and> (if nullish (sw_inputsSchema w) [] = [] then inputs = None
            else \<exists>d. snd (submit_inputs (nullish (sw_inputsSchema w) []) d) = inputs \<and> inputs \<noteq> None))
     | JC_delete i \<Rightarrow> i \<in> sw_id ` W
     | _ \<Rightarrow> True)"

fun is_run_command :: "project_command \<Rightarrow> bool" where
  "is_run_command (JC_run i v) = True"
| "is_run_command c = False"

fun is_delete_command :: "project_command \<Rightarrow> bool" where
  "is_delete_command (JC_delete i) = True"
| "is_delete_command c = False"

fun settles_run :: "project_event \<Rightarrow> bool" where
  "settles_run (PJ_run_settled r) = True"
| "settles_run e = False"

fun settles_delete :: "project_event \<Rightarrow> bool" where
  "settles_delete (PJ_delete_settled b) = True"
| "settles_delete e = False"

definition pj_ok :: "stored_workflow list \<Rightarrow> project_event list \<Rightarrow> project_run \<Rightarrow> bool" where
  "pj_ok l es s \<longleftrightarrow> (let W = set l \<union> listed es in
     set (pj_workflows (fst s)) \<subseteq> W
     \<and> (\<forall>w. pj_dialog (fst s) = Some w \<longrightarrow> w \<in> W \<and> sw_nodes w \<noteq> [] \<and> nullish (sw_inputsSchema w) [] \<noteq> [])
     \<and> (\<forall>c \<in> set (snd s). good_run W c)
     \<and> length (pj_runs (fst s)) \<le> 1 \<and> pj_deletes (fst s) \<le> 1
     \<and> count_of is_run_command (snd s) = count_of settles_run es + length (pj_runs (fst s))
     \<and> count_of is_delete_command (snd s) = count_of settles_delete es + pj_deletes (fst s))"

lemma good_run_mono: "good_run W c \<Longrightarrow> W \<subseteq> V \<Longrightarrow> good_run V c"
  by (auto simp: good_run_def split: project_command.splits)

lemma run_result_quiet:
  "count_of is_run_command (run_result_commands r) = 0" "count_of is_delete_command (run_result_commands r) = 0"
  "\<forall>c \<in> set (run_result_commands r). good_run W c"
  by (cases r; simp add: good_run_def)+

lemma pj_ok_step:
  assumes ok: "pj_ok l es s" and st: "pj_step s e s'"
  shows "pj_ok l (es @ [e]) s'"
proof -
  let ?W = "set l \<union> listed es"
  from st have g: "pj_guard (fst s) e" and s': "s' = (fst (pj_handle e (fst s)), snd s @ snd (pj_handle e (fst s)))"
    by (auto elim: pj_stepE)
  from ok have o: "set (pj_workflows (fst s)) \<subseteq> ?W"
    "\<And>w. pj_dialog (fst s) = Some w \<Longrightarrow> w \<in> ?W \<and> sw_nodes w \<noteq> [] \<and> nullish (sw_inputsSchema w) [] \<noteq> []"
    "\<forall>c \<in> set (snd s). good_run ?W c" "length (pj_runs (fst s)) \<le> 1" "pj_deletes (fst s) \<le> 1"
    "count_of is_run_command (snd s) = count_of settles_run es + length (pj_runs (fst s))"
    "count_of is_delete_command (snd s) = count_of settles_delete es + pj_deletes (fst s)"
    by (simp_all add: pj_ok_def Let_def)
  show ?thesis
  proof (cases e)
    case (PJ_run w)
    with g have w: "w \<in> ?W" "sw_nodes w \<noteq> []" "pj_runs (fst s) = []" "pj_dialog (fst s) = None"
      using o(1) by (auto simp: pj_guard_def)
    have "good_run ?W (JC_run (sw_id w) None)" if "nullish (sw_inputsSchema w) [] = []"
      using w that by (auto simp: good_run_def)
    with w o PJ_run show ?thesis
      by (auto simp: pj_ok_def Let_def s' pj_handle_def handleRunWorkflow_def sendRun_def)
  next
    case (PJ_submit v)
    with g obtain w d where w: "pj_dialog (fst s) = Some w" "pj_runs (fst s) = []"
      "snd (submit_inputs (nullish (sw_inputsSchema w) []) d) = Some v"
      by (auto simp: pj_guard_def split: option.splits)
    with o(2) [OF w(1)] have "good_run ?W (JC_run (sw_id w) (Some v))"
      by (auto simp: good_run_def intro!: bexI [of _ w])
    with w o PJ_submit show ?thesis
      by (auto simp: pj_ok_def Let_def s' pj_handle_def submitRun_def sendRun_def)
  next
    case PJ_close
    with o show ?thesis by (auto simp: pj_ok_def Let_def s' pj_handle_def)
  next
    case (PJ_run_settled r)
    with g obtain d where d: "pj_runs (fst s) = [d]"
      using o(4) by (cases "pj_runs (fst s)") (auto simp: pj_guard_def)
    with o run_result_quiet PJ_run_settled show ?thesis
      by (auto simp: pj_ok_def Let_def s' pj_handle_def runSettled_def)
  next
    case (PJ_delete c w)
    with g have w: "w \<in> ?W" "pj_deletes (fst s) = 0" using o(1) by (auto simp: pj_guard_def)
    then have "good_run ?W (JC_delete (sw_id w))" by (auto simp: good_run_def)
    with w o PJ_delete show ?thesis
      by (auto simp: pj_ok_def Let_def s' pj_handle_def handleDeleteWorkflow_def)
  next
    case (PJ_delete_settled b)
    have "good_run ?W (JC_deleted b)" by (simp add: good_run_def)
    with g o PJ_delete_settled show ?thesis
      by (auto simp: pj_ok_def Let_def s' pj_handle_def pj_guard_def)
  next
    case (PJ_workflows k)
    have "\<forall>c \<in> set (snd s). good_run (?W \<union> set k) c" using o(3) good_run_mono by blast
    with o PJ_workflows show ?thesis
      by (auto simp: pj_ok_def Let_def s' pj_handle_def Un_assoc)
  qed
qed

interpretation pj: trace_invariant pj_step "pj_ok l"
  by unfold_locales (rule pj_ok_step)

text \<open>The project page starts runs as the canvas does: only of a listed workflow that has nodes,
  without inputs exactly when none are declared and otherwise with values that passed the
  checks of the dialog; at most one run and one deletion are in flight, each settled before the
  next; and a run that started opens its own view.\<close>

theorem project_runs_guarded:
  assumes "run pj_step (pj_start l) es (s, cs)"
  shows "c \<in> set cs \<Longrightarrow> good_run (set l \<union> listed es) c"
    and "count_of is_run_command cs \<le> count_of settles_run es + 1"
    and "count_of is_delete_command cs \<le> count_of settles_delete es + 1"
    and "JC_open q \<in> set (run_result_commands r) \<Longrightarrow> \<exists>w plan fb. r = JR_ok w plan fb \<and> q = link_run w plan"
proof -
  have "pj_ok l [] (pj_start l)" by (simp add: pj_ok_def pj_start_def Let_def)
  from pj.from_start [OF assms this]
  have ok: "pj_ok l es (s, cs)" .
  then show "c \<in> set cs \<Longrightarrow> good_run (set l \<union> listed es) c"
    "count_of is_run_command cs \<le> count_of settles_run es + 1"
    "count_of is_delete_command cs \<le> count_of settles_delete es + 1"
    by (simp_all add: pj_ok_def Let_def)
  show "JC_open q \<in> set (run_result_commands r) \<Longrightarrow> \<exists>w plan fb. r = JR_ok w plan fb \<and> q = link_run w plan"
    by (cases r) auto
qed

section \<open>Deleting a project\<close>

record delete_dialog =
  dd_open :: bool
  dd_name :: jsstr
  dd_pending :: bool
  dd_error :: bool
  dd_sent :: "jsstr list"
  dd_successes :: nat

definition nameMatches :: "jsstr \<Rightarrow> delete_dialog \<Rightarrow> bool" where
  "nameMatches project d \<longleftrightarrow> dd_name d = project"

definition setDialogOpen :: "bool \<Rightarrow> delete_dialog \<Rightarrow> delete_dialog" where
  "setDialogOpen b d = (if b then d\<lparr>dd_open := True\<rparr> else d\<lparr>dd_open := False, dd_name := [], dd_error := False\<rparr>)"

text \<open>\<open>confirm\<close> and the settlement of the request it awaits; \<open>dd_sent\<close> records the name typed when a
  request was sent.\<close>

definition confirm_delete :: "jsstr \<Rightarrow> delete_dialog \<Rightarrow> delete_dialog" where
  "confirm_delete project d = (if \<not> nameMatches project d \<or> dd_pending d then d
     else d\<lparr>dd_pending := True, dd_error := False, dd_sent := dd_sent d @ [dd_name d]\<rparr>)"

definition delete_settled :: "bool \<Rightarrow> delete_dialog \<Rightarrow> delete_dialog" where
  "delete_settled ok d = (if ok then (setDialogOpen False d)\<lparr>dd_pending := False, dd_successes := dd_successes d + 1\<rparr>
     else d\<lparr>dd_error := True, dd_pending := False\<rparr>)"

datatype delete_event = DE_open bool | DE_type jsstr | DE_confirm | DE_settled bool

definition dd_guard :: "delete_dialog \<Rightarrow> delete_event \<Rightarrow> bool" where
  "dd_guard d e = (case e of DE_open b \<Rightarrow> b = (\<not> dd_open d) | DE_type t \<Rightarrow> dd_open d | DE_confirm \<Rightarrow> dd_open d
     | DE_settled ok \<Rightarrow> dd_pending d)"

definition dd_do :: "jsstr \<Rightarrow> delete_event \<Rightarrow> delete_dialog \<Rightarrow> delete_dialog" where
  "dd_do project e d = (case e of DE_open b \<Rightarrow> setDialogOpen b d | DE_type t \<Rightarrow> d\<lparr>dd_name := t\<rparr>
     | DE_confirm \<Rightarrow> confirm_delete project d | DE_settled ok \<Rightarrow> delete_settled ok d)"

inductive dd_step :: "jsstr \<Rightarrow> delete_dialog \<Rightarrow> delete_event \<Rightarrow> delete_dialog \<Rightarrow> bool" for project where
  "dd_guard d e \<Longrightarrow> dd_step project d e (dd_do project e d)"

inductive_cases dd_stepE: "dd_step project d e d'"

definition dd_start :: delete_dialog where
  "dd_start = \<lparr>dd_open = False, dd_name = [], dd_pending = False, dd_error = False, dd_sent = [], dd_successes = 0\<rparr>"

definition dd_ok :: "jsstr \<Rightarrow> delete_event list \<Rightarrow> delete_dialog \<Rightarrow> bool" where
  "dd_ok project es d \<longleftrightarrow> (\<forall>t \<in> set (dd_sent d). t = project) \<and> (\<not> dd_open d \<longrightarrow> dd_name d = [])
     \<and> length (dd_sent d) = count_of (\<lambda>e. \<exists>ok. e = DE_settled ok) es + (if dd_pending d then 1 else 0)
     \<and> dd_successes d = count_of (\<lambda>e. e = DE_settled True) es"

lemma dd_ok_step: "dd_ok project es d \<Longrightarrow> dd_step project d e d' \<Longrightarrow> dd_ok project (es @ [e]) d'"
  by (erule dd_stepE, cases e)
    (auto simp: dd_ok_def dd_guard_def dd_do_def setDialogOpen_def confirm_delete_def delete_settled_def nameMatches_def)

interpretation dd: trace_invariant "dd_step project" "dd_ok project"
  by unfold_locales (rule dd_ok_step)

text \<open>A project is deleted only after its exact name was typed for that very request: every request
  was sent with the name in the field, one at a time, the field is empty whenever the dialog is
  closed, and the page is left exactly for the requests that succeeded.\<close>

theorem delete_needs_name:
  assumes "run (dd_step project) dd_start es d"
  shows "t \<in> set (dd_sent d) \<Longrightarrow> t = project"
    and "\<not> dd_open d \<Longrightarrow> dd_name d = []"
    and "length (dd_sent d) \<le> count_of (\<lambda>e. \<exists>ok. e = DE_settled ok) es + 1"
    and "dd_successes d = count_of (\<lambda>e. e = DE_settled True) es"
proof -
  have "dd_ok project [] dd_start" by (simp add: dd_ok_def dd_start_def)
  from dd.from_start [OF assms this] have ok: "dd_ok project es d" .
  then show "t \<in> set (dd_sent d) \<Longrightarrow> t = project" "\<not> dd_open d \<Longrightarrow> dd_name d = []"
    "length (dd_sent d) \<le> count_of (\<lambda>e. \<exists>ok. e = DE_settled ok) es + 1"
    "dd_successes d = count_of (\<lambda>e. e = DE_settled True) es"
    by (auto simp: dd_ok_def)
qed

text \<open>Closing clears the error, but a request that fails after the dialog was closed sets it again:
  the next dialog opens with the error of the last one.\<close>

lemma late_error_in_next_dialog:
  "\<exists>d. run (dd_step p) dd_start [DE_open True, DE_type p, DE_confirm, DE_open False, DE_settled False, DE_open True] d
     \<and> dd_open d \<and> dd_error d \<and> dd_name d = []"
proof -
  let ?es = "[DE_open True, DE_type p, DE_confirm, DE_open False, DE_settled False, DE_open True]"
  have "allowed dd_guard (dd_do p) ?es dd_start"
    by (simp add: dd_guard_def dd_do_def setDialogOpen_def confirm_delete_def delete_settled_def nameMatches_def dd_start_def)
  then have "run (dd_step p) dd_start ?es (fold (dd_do p) ?es dd_start)"
    by (intro allowed_run [of dd_guard "dd_step p" "dd_do p"] dd_step.intros)
  then show ?thesis
    by (intro exI [of _ "fold (dd_do p) ?es dd_start"])
      (simp add: dd_do_def setDialogOpen_def confirm_delete_def delete_settled_def nameMatches_def dd_start_def)
qed


section \<open>Witnesses\<close>

definition demo_workflow :: stored_workflow where
  "demo_workflow = \<lparr>sw_id = js ''w'', sw_name = js ''n'', sw_nodes = [basic_node (js ''a'') (js ''script'') [] []],
     sw_inputsSchema = None, sw_settings = None, sw_version = 3, sw_latestRunStatus = None, sw_latestPlanId = Some (js ''p'')\<rparr>"

definition demo_editing :: wf_page where
  "demo_editing = wf_open (link_edit demo_workflow) (Some [demo_workflow])"

lemma demo_editing_facts:
  "wp_editor demo_editing = Some (initial_editor (js ''n'') [basic_node (js ''a'') (js ''script'') [] []] None None (Some 3))"
  "current_workflow demo_editing = Some demo_workflow"
  "wf_view demo_editing = WV_canvas (wf_key demo_editing) CM_edit" "\<not> wp_failed demo_editing"
  "wp_search demo_editing = link_edit demo_workflow" "wp_list demo_editing = Some [demo_workflow]"
proof -
  show p: "\<not> wp_failed demo_editing" "wp_search demo_editing = link_edit demo_workflow"
    "wp_list demo_editing = Some [demo_workflow]"
    by (simp_all add: demo_editing_def wf_open_def)
  show c: "current_workflow demo_editing = Some demo_workflow"
    by (simp add: current_workflow_def find_workflow_def p link_edit_def)
  show v: "wf_view demo_editing = WV_canvas (wf_key demo_editing) CM_edit"
    by (simp add: wf_view_def c p shown_mode_def shown_run_def link_edit_def)
  have "wf_view (wf_open (link_edit demo_workflow) (Some [demo_workflow])) = WV_canvas (wf_key demo_editing) CM_edit"
    using v by (simp add: demo_editing_def)
  from wf_open_editor [OF this]
  show "wp_editor demo_editing = Some (initial_editor (js ''n'') [basic_node (js ''a'') (js ''script'') [] []] None None (Some 3))"
    using c by (simp add: demo_editing_def fresh_editor_def demo_workflow_def)
qed

lemma demo_editing_editing: "editing (js ''w'') demo_editing"
  by (simp add: editing_def demo_editing_facts link_edit_def demo_workflow_def initial_editor_def Let_def)

theorem workflow_links_witness:
  "\<exists>key. wf_view (wf_open (link_run (js ''w'') (js ''p'')) (Some [demo_workflow])) = WV_canvas key CM_run"
proof -
  have "demo_workflow \<in> set [demo_workflow]" "distinct (map sw_id [demo_workflow])" "sw_id demo_workflow \<noteq> []"
    by (simp_all add: demo_workflow_def)
  from workflow_links [OF this, of "js ''p''"] show ?thesis by (simp add: demo_workflow_def)
qed


theorem unsaved_edits_dropped_witness:
  "wp_editor (wf_do (WE_toggle CM_run) demo_editing) = None"
proof -
  have r: "\<not> runDisabled (initial_editor (js ''n'') [basic_node (js ''a'') (js ''script'') [] []] None None (Some 3))"
    by (simp add: runDisabled_def initial_editor_def Let_def toReactFlow_def hasUnboundCustomNode_def basic_node_def
        isCustomType_def js_def CUSTOM_PREFIX_def)
  have k: "wq_wf (wp_search demo_editing) = Some (sw_id demo_workflow)" "sw_id demo_workflow \<noteq> []"
    by (simp_all add: demo_editing_facts link_edit_def demo_workflow_def)
  from unsaved_edits_dropped [OF demo_editing_facts(1) r demo_editing_facts(2,3) k demo_editing_facts(4)]
  show ?thesis by blast
qed

theorem project_runs_guarded_witness:
  "good_run {demo_workflow} (JC_run (js ''w'') None)"
proof -
  have s: "pj_step (pj_start [demo_workflow]) (PJ_run demo_workflow)
      (fst (pj_handle (PJ_run demo_workflow) (fst (pj_start [demo_workflow]))),
       snd (pj_start [demo_workflow]) @ snd (pj_handle (PJ_run demo_workflow) (fst (pj_start [demo_workflow]))))"
    by (rule pj_step.intros) (simp add: pj_guard_def pj_start_def demo_workflow_def)
  from project_runs_guarded(1) [OF run_single [of pj_step, OF s], of "JC_run (js ''w'') None"]
  show ?thesis
    by (simp add: pj_handle_def handleRunWorkflow_def sendRun_def pj_start_def demo_workflow_def)
qed

theorem delete_needs_name_witness:
  "dd_sent (confirm_delete (js ''p'') (dd_start\<lparr>dd_open := True, dd_name := js ''p''\<rparr>)) = [js ''p'']"
proof -
  let ?es = "[DE_open True, DE_type (js ''p''), DE_confirm]"
  let ?d = "fold (dd_do (js ''p'')) ?es dd_start"
  have "allowed dd_guard (dd_do (js ''p'')) ?es dd_start"
    by (simp add: dd_guard_def dd_do_def setDialogOpen_def dd_start_def)
  then have r: "run (dd_step (js ''p'')) dd_start ?es ?d"
    by (intro allowed_run [of dd_guard "dd_step (js ''p'')" "dd_do (js ''p'')"] dd_step.intros)
  have e: "?d = confirm_delete (js ''p'') (dd_start\<lparr>dd_open := True, dd_name := js ''p''\<rparr>)"
    by (simp add: dd_do_def setDialogOpen_def)
  have "length (dd_sent ?d) = 1" by (simp add: dd_do_def setDialogOpen_def confirm_delete_def nameMatches_def dd_start_def)
  then obtain t where "dd_sent ?d = [t]" by (auto simp: length_Suc_conv)
  with delete_needs_name(1) [OF r, of t] have "dd_sent ?d = [js ''p'']" by (metis list.set_intros(1))
  then show ?thesis by (simp only: e)
qed

end
