(* ===== verification/Theme.thy ===== *)
theory Theme
  imports Event_System
begin

text \<open>
  The theme (\<open>app/theme.tsx\<close>, \<open>app/theme-context.ts\<close>) and the script of \<open>index.html\<close> that sets it
  before the first paint. \<open>media\<close> is the answer of \<open>matchMedia\<close>, \<open>None\<close> when it throws; local
  storage is a map, \<open>blocked\<close> says that every access throws.
\<close>

datatype theme = Dark_Studio | Light | Cinematic

datatype theme_choice = Auto | Fixed theme

definition theme_name :: "theme \<Rightarrow> jsstr" where
  "theme_name t = (case t of Dark_Studio \<Rightarrow> js ''dark-studio'' | Light \<Rightarrow> js ''light'' | Cinematic \<Rightarrow> js ''cinematic'')"

definition choice_name :: "theme_choice \<Rightarrow> jsstr" where
  "choice_name c = (case c of Auto \<Rightarrow> js ''auto'' | Fixed t \<Rightarrow> theme_name t)"

definition THEMES :: "theme list" where
  "THEMES = [Dark_Studio, Light, Cinematic]"

definition STORAGE_KEY :: jsstr where
  "STORAGE_KEY = js ''studio-theme''"

text \<open>\<open>isTheme\<close> and \<open>isChoice\<close> with the value they let through.\<close>

definition as_theme :: "jsstr \<Rightarrow> theme option" where
  "as_theme v = find (\<lambda>t. theme_name t = v) THEMES"

definition as_choice :: "jsstr \<Rightarrow> theme_choice option" where
  "as_choice v = (if v = js ''auto'' then Some Auto else map_option Fixed (as_theme v))"

definition systemTheme :: "bool option \<Rightarrow> theme" where
  "systemTheme media = (case media of None \<Rightarrow> Dark_Studio | Some light \<Rightarrow> if light then Light else Dark_Studio)"

definition readChoice :: "bool \<Rightarrow> (jsstr \<rightharpoonup> jsstr) \<Rightarrow> theme_choice" where
  "readChoice blocked st = (if blocked then Auto
     else case st STORAGE_KEY of None \<Rightarrow> Auto
       | Some v \<Rightarrow> (case as_choice v of None \<Rightarrow> Auto | Some c \<Rightarrow> c))"

definition resolveTheme :: "bool option \<Rightarrow> theme_choice \<Rightarrow> theme" where
  "resolveTheme media c = (case c of Auto \<Rightarrow> systemTheme media | Fixed t \<Rightarrow> t)"

text \<open>The script: a stored theme, else the theme of the system.\<close>

definition first_paint :: "bool option \<Rightarrow> bool \<Rightarrow> (jsstr \<rightharpoonup> jsstr) \<Rightarrow> theme" where
  "first_paint media blocked st = (case (if blocked then None else Option.bind (st STORAGE_KEY) as_theme) of
     Some t \<Rightarrow> t | None \<Rightarrow> systemTheme media)"

record theme_state =
  th_choice :: theme_choice
  th_theme :: theme
  th_media :: "bool option"
  th_storage :: "jsstr \<rightharpoonup> jsstr"
  th_blocked :: bool

definition theme_start :: "bool option \<Rightarrow> bool \<Rightarrow> (jsstr \<rightharpoonup> jsstr) \<Rightarrow> theme_state" where
  "theme_start media blocked st = \<lparr>th_choice = readChoice blocked st,
     th_theme = resolveTheme media (readChoice blocked st), th_media = media, th_storage = st, th_blocked = blocked\<rparr>"

definition setChoice :: "theme_choice \<Rightarrow> theme_state \<Rightarrow> theme_state" where
  "setChoice c s = s\<lparr>th_choice := c, th_theme := resolveTheme (th_media s) c,
     th_storage := (if th_blocked s then th_storage s else (th_storage s)(STORAGE_KEY \<mapsto> choice_name c))\<rparr>"

text \<open>The system changes between light and dark: the listener is there while the choice is \<open>auto\<close>.\<close>

definition system_change :: "bool \<Rightarrow> theme_state \<Rightarrow> theme_state" where
  "system_change light s = (let s' = s\<lparr>th_media := Some light\<rparr> in
     if th_choice s = Auto then s'\<lparr>th_theme := systemTheme (Some light)\<rparr> else s')"

datatype theme_event = TE_choose theme_choice | TE_system bool | TE_reload

definition theme_do :: "theme_event \<Rightarrow> theme_state \<Rightarrow> theme_state" where
  "theme_do e s = (case e of TE_choose c \<Rightarrow> setChoice c s | TE_system light \<Rightarrow> system_change light s
     | TE_reload \<Rightarrow> theme_start (th_media s) (th_blocked s) (th_storage s))"

inductive theme_step :: "theme_state \<Rightarrow> theme_event \<Rightarrow> theme_state \<Rightarrow> bool" where
  "(\<forall>l. e = TE_system l \<longrightarrow> th_media s \<noteq> None) \<Longrightarrow> theme_step s e (theme_do e s)"

inductive_cases theme_stepE: "theme_step s e s'"

lemma as_theme_name [simp]: "as_theme (theme_name t) = Some t" "as_theme (js ''auto'') = None"
  by (cases t) (simp_all add: as_theme_def THEMES_def theme_name_def)

lemma as_choice_name [simp]: "as_choice (choice_name c) = Some c"
  by (cases c; cases "case c of Fixed t \<Rightarrow> t") (auto simp: as_choice_def choice_name_def as_theme_def THEMES_def theme_name_def)

definition theme_ok :: "theme_event list \<Rightarrow> theme_state \<Rightarrow> bool" where
  "theme_ok es s \<longleftrightarrow> th_theme s = resolveTheme (th_media s) (th_choice s)
     \<and> (\<not> th_blocked s \<longrightarrow> readChoice False (th_storage s) = th_choice s)"

lemma theme_ok_step: "theme_ok es s \<Longrightarrow> theme_step s e s' \<Longrightarrow> theme_ok (es @ [e]) s'"
  by (erule theme_stepE, cases e)
    (auto simp: theme_ok_def theme_do_def setChoice_def system_change_def theme_start_def resolveTheme_def
      readChoice_def split: theme_choice.splits)

interpretation theme: trace_invariant theme_step theme_ok
  by unfold_locales (rule theme_ok_step)

text \<open>The theme on the screen is always the one chosen, and the system's while the choice is to
  follow it, through every choice, change of the system and reload; the script that paints first
  sets the same theme as the application afterwards, whatever the storage holds or refuses.\<close>

theorem theme_follows_choice:
  assumes "run theme_step (theme_start media blocked st) es s"
  shows "th_theme s = resolveTheme (th_media s) (th_choice s)
    \<and> first_paint (th_media s) (th_blocked s) (th_storage s)
      = th_theme (theme_start (th_media s) (th_blocked s) (th_storage s))
    \<and> (\<not> th_blocked s \<longrightarrow> th_choice (theme_start (th_media s) (th_blocked s) (th_storage s)) = th_choice s)"
proof -
  have "theme_ok [] (theme_start media blocked st)" by (simp add: theme_ok_def theme_start_def)
  from theme.from_start [OF assms this] have "theme_ok es s" .
  moreover have "first_paint (th_media s) (th_blocked s) (th_storage s)
      = th_theme (theme_start (th_media s) (th_blocked s) (th_storage s))"
    by (auto simp: first_paint_def theme_start_def readChoice_def resolveTheme_def as_choice_def split: option.splits)
  ultimately show ?thesis by (simp add: theme_ok_def theme_start_def)
qed

theorem theme_follows_choice_witness:
  "th_theme (theme_do (TE_system True) (theme_start (Some False) False Map.empty)) = Light"
proof -
  have "theme_step (theme_start (Some False) False Map.empty) (TE_system True)
      (theme_do (TE_system True) (theme_start (Some False) False Map.empty))"
    by (rule theme_step.intros) (simp add: theme_start_def)
  from theme_follows_choice [OF run_single [of theme_step, OF this]] show ?thesis
    by (simp add: theme_do_def system_change_def theme_start_def readChoice_def resolveTheme_def systemTheme_def Let_def)
qed

end
