(* ===== verification/Auth_Pages.thy ===== *)
theory Auth_Pages
  imports Event_System Org_Safety Org_Access "HOL-Library.Word"
begin

text \<open>
  The pages before the session: \<open>routes/login.tsx\<close> and \<open>routes/register.tsx\<close>, with the handlers they
  talk to (\<open>internal/httpapi/handlers.go\<close>, \<open>internal/studiosvc/register.go\<close>). \<open>is_email\<close> stands for
  zod's check of an address, \<open>None\<close> is a request that got no answer. The interval timers of the
  register page are kept by number, each tick is an event of its own.
\<close>

section \<open>Log in\<close>

datatype login_result = LR_home jsstr | LR_verify jsstr | LR_message jsstr

text \<open>The page after the answer: \<open>ok\<close>, or the status of the error.\<close>

definition login_ready :: "jsstr \<Rightarrow> jsstr \<Rightarrow> bool" where
  "login_ready email password \<longleftrightarrow> email \<noteq> [] \<and> password \<noteq> []"

definition login_answer :: "jsstr option \<Rightarrow> jsstr \<Rightarrow> bool \<Rightarrow> nat option \<Rightarrow> login_result" where
  "login_answer redirect email ok status = (if ok then LR_home (sanitizeLoginRedirect redirect)
     else if status = Some 403 then LR_verify email
     else LR_message [37038, 31665, 25110, 23494, 30721, 38169, 35823, 65292, 35831, 37325, 35797])"

section \<open>Register: the form\<close>

record reg_form =
  rf_email :: jsstr
  rf_password :: jsstr
  rf_confirm :: jsstr

definition form_accepted :: "(jsstr \<Rightarrow> bool) \<Rightarrow> reg_form \<Rightarrow> bool" where
  "form_accepted is_email v \<longleftrightarrow> is_email (rf_email v) \<and> length (rf_password v) \<ge> 8 \<and> rf_confirm v \<noteq> []
     \<and> rf_password v = rf_confirm v"

datatype auth_step = Step_register | Step_verify

datatype auth_request = AQ_register jsstr jsstr | AQ_verify jsstr jsstr | AQ_resend jsstr

record reg_state =
  rg_step :: auth_step
  rg_email :: jsstr
  rg_code :: jsstr
  rg_verifyError :: "jsstr option"
  rg_verifying :: bool
  rg_cooldown :: nat
  rg_timers :: "nat list"
  rg_started :: nat
  rg_resends :: nat
  rg_submitError :: "jsstr option"
  rg_submitting :: "reg_form option"
  rg_done :: bool
  rg_sent :: "auth_request list"

definition reg_start :: "jsstr option \<Rightarrow> bool \<Rightarrow> reg_state" where
  "reg_start email to_verify = \<lparr>rg_step = (if to_verify then Step_verify else Step_register),
     rg_email = nullish email [], rg_code = [], rg_verifyError = None, rg_verifying = False,
     rg_cooldown = 0, rg_timers = [], rg_started = 0, rg_resends = 0, rg_submitError = None,
     rg_submitting = None, rg_done = False, rg_sent = []\<rparr>"

definition reg_submit :: "(jsstr \<Rightarrow> bool) \<Rightarrow> reg_form \<Rightarrow> reg_state \<Rightarrow> reg_state" where
  "reg_submit is_email v s = (if form_accepted is_email v
     then s\<lparr>rg_submitError := None, rg_submitting := Some v,
       rg_sent := rg_sent s @ [AQ_register (rf_email v) (rf_password v)]\<rparr>
     else s)"

definition reg_answer :: "bool \<Rightarrow> reg_state \<Rightarrow> reg_state" where
  "reg_answer verified s = (case rg_submitting s of None \<Rightarrow> s
     | Some v \<Rightarrow> (let s' = s\<lparr>rg_submitting := None, rg_email := rf_email v\<rparr> in
         if verified then s'\<lparr>rg_done := True\<rparr> else s'\<lparr>rg_step := Step_verify\<rparr>))"

definition reg_refused :: "nat option \<Rightarrow> reg_state \<Rightarrow> reg_state" where
  "reg_refused status s = s\<lparr>rg_submitting := None, rg_submitError := Some (if status = Some 409
     then [35813, 37038, 31665, 24050, 27880, 20876, 65292, 35831, 30452, 25509, 30331, 24405] else [27880, 20876, 22833, 36133, 65292, 35831, 37325, 35797])\<rparr>"

section \<open>Register: the code\<close>

text \<open>The field keeps the digits, six at most.\<close>

definition code_field :: "jsstr \<Rightarrow> jsstr" where
  "code_field t = take 6 (filter is_digit t)"

definition six_digits :: "jsstr \<Rightarrow> bool" where
  "six_digits c \<longleftrightarrow> length c = 6 \<and> list_all is_digit c"

definition handleVerify :: "reg_state \<Rightarrow> reg_state" where
  "handleVerify s = (let s' = s\<lparr>rg_verifyError := None\<rparr> in
     if \<not> six_digits (rg_code s) then s'\<lparr>rg_verifyError := Some [35831, 36755, 20837, 32, 54, 32, 20301, 25968, 23383, 39564, 35777, 30721]\<rparr>
     else s'\<lparr>rg_verifying := True, rg_sent := rg_sent s @ [AQ_verify (rg_email s) (rg_code s)]\<rparr>)"

definition verify_refused :: "nat option \<Rightarrow> reg_state \<Rightarrow> reg_state" where
  "verify_refused status s = s\<lparr>rg_verifying := False, rg_verifyError := Some (if status = Some 403
     then [39564, 35777, 30721, 38169, 35823, 25110, 24050, 36807, 26399, 65292, 35831, 37325, 26032, 33719, 21462] else [39564, 35777, 22833, 36133, 65292, 35831, 37325, 35797])\<rparr>"

definition handleResend :: "reg_state \<Rightarrow> reg_state" where
  "handleResend s = s\<lparr>rg_resends := rg_resends s + 1, rg_sent := rg_sent s @ [AQ_resend (rg_email s)]\<rparr>"

text \<open>A resent code sets the countdown and starts one more interval timer.\<close>

definition resend_done :: "reg_state \<Rightarrow> reg_state" where
  "resend_done s = s\<lparr>rg_resends := rg_resends s - 1, rg_cooldown := 60,
     rg_timers := rg_timers s @ [rg_started s], rg_started := rg_started s + 1\<rparr>"

definition timer_tick :: "nat \<Rightarrow> reg_state \<Rightarrow> reg_state" where
  "timer_tick i s = (if rg_cooldown s \<le> 1 then s\<lparr>rg_timers := remove1 i (rg_timers s), rg_cooldown := 0\<rparr>
     else s\<lparr>rg_cooldown := rg_cooldown s - 1\<rparr>)"

definition resend_label :: "reg_state \<Rightarrow> jsstr" where
  "resend_label s = (if rg_cooldown s > 0 then dec (rg_cooldown s) @ [32, 31186, 21518, 21487, 37325, 21457] else [37325, 26032, 21457, 36865, 39564, 35777, 30721])"

section \<open>The page\<close>

datatype reg_event =
    RE_submit reg_form
  | RE_registered bool
  | RE_refused "nat option"
  | RE_type jsstr
  | RE_verify
  | RE_verified
  | RE_verify_refused "nat option"
  | RE_back
  | RE_resend
  | RE_resent
  | RE_resend_failed
  | RE_tick nat

text \<open>What the page offers: the buttons that are shown and not disabled, the answers that are
  awaited, the timers that run.\<close>

fun reg_guard :: "reg_state \<Rightarrow> reg_event \<Rightarrow> bool" where
  "reg_guard s (RE_submit v) = (\<not> rg_done s \<and> rg_step s = Step_register \<and> rg_submitting s = None)"
| "reg_guard s (RE_registered b) = (rg_submitting s \<noteq> None)"
| "reg_guard s (RE_refused st) = (rg_submitting s \<noteq> None)"
| "reg_guard s (RE_type t) = (\<not> rg_done s \<and> rg_step s = Step_verify)"
| "reg_guard s RE_verify = (\<not> rg_done s \<and> rg_step s = Step_verify \<and> \<not> rg_verifying s \<and> length (rg_code s) = 6)"
| "reg_guard s RE_verified = rg_verifying s"
| "reg_guard s (RE_verify_refused st) = rg_verifying s"
| "reg_guard s RE_back = (\<not> rg_done s \<and> rg_step s = Step_verify)"
| "reg_guard s RE_resend = (\<not> rg_done s \<and> rg_step s = Step_verify \<and> rg_cooldown s = 0)"
| "reg_guard s RE_resent = (rg_resends s > 0)"
| "reg_guard s RE_resend_failed = (rg_resends s > 0)"
| "reg_guard s (RE_tick i) = (i \<in> set (rg_timers s))"

fun reg_do :: "(jsstr \<Rightarrow> bool) \<Rightarrow> reg_event \<Rightarrow> reg_state \<Rightarrow> reg_state" where
  "reg_do is_email (RE_submit v) s = reg_submit is_email v s"
| "reg_do is_email (RE_registered b) s = reg_answer b s"
| "reg_do is_email (RE_refused st) s = reg_refused st s"
| "reg_do is_email (RE_type t) s = s\<lparr>rg_code := code_field t\<rparr>"
| "reg_do is_email RE_verify s = handleVerify s"
| "reg_do is_email RE_verified s = s\<lparr>rg_verifying := False, rg_done := True\<rparr>"
| "reg_do is_email (RE_verify_refused st) s = verify_refused st s"
| "reg_do is_email RE_back s = s\<lparr>rg_step := Step_register\<rparr>"
| "reg_do is_email RE_resend s = handleResend s"
| "reg_do is_email RE_resent s = resend_done s"
| "reg_do is_email RE_resend_failed s = s\<lparr>rg_resends := rg_resends s - 1\<rparr>"
| "reg_do is_email (RE_tick i) s = timer_tick i s"

inductive reg_step :: "(jsstr \<Rightarrow> bool) \<Rightarrow> reg_state \<Rightarrow> reg_event \<Rightarrow> reg_state \<Rightarrow> bool" for is_email where
  "reg_guard s e \<Longrightarrow> reg_step is_email s e (reg_do is_email e s)"

inductive_cases reg_stepE: "reg_step is_email s e s'"

text \<open>The user who waits for the answer before pressing the resend button again.\<close>

inductive patient_step :: "(jsstr \<Rightarrow> bool) \<Rightarrow> reg_state \<Rightarrow> reg_event \<Rightarrow> reg_state \<Rightarrow> bool" for is_email where
  "reg_guard s e \<Longrightarrow> (e = RE_resend \<Longrightarrow> rg_resends s = 0) \<Longrightarrow> patient_step is_email s e (reg_do is_email e s)"

inductive_cases patient_stepE: "patient_step is_email s e s'"

lemmas reg_defs = reg_submit_def reg_answer_def reg_refused_def handleVerify_def verify_refused_def
  handleResend_def resend_done_def timer_tick_def

section \<open>The handlers\<close>

text \<open>\<open>generateCode\<close> from the three random bytes.\<close>

definition generateCode :: "8 word \<Rightarrow> 8 word \<Rightarrow> 8 word \<Rightarrow> jsstr" where
  "generateCode b0 b1 b2 = dec (100000 + (unat b0 * 2 ^ 16 + unat b1 * 2 ^ 8 + unat b2) mod 900000)"

text \<open>\<open>Register.Create\<close>: the calls it makes, each with its outcome.\<close>

datatype create_call = CC_create jsstr | CC_set_code jsstr jsstr | CC_mail jsstr jsstr | CC_grant

datatype create_result = CR_created | CR_exists | CR_failed

definition top_up :: "(jsstr \<Rightarrow> bool) option \<Rightarrow> (create_call \<Rightarrow> bool) \<Rightarrow> jsstr \<Rightarrow> create_call list \<times> create_result" where
  "top_up admins ok email = (if (case admins of None \<Rightarrow> False | Some seeded \<Rightarrow> seeded email)
     then ([CC_grant], if ok CC_grant then CR_created else CR_failed) else ([], CR_created))"

definition send_code :: "bool \<Rightarrow> (create_call \<Rightarrow> bool) \<Rightarrow> jsstr \<Rightarrow> jsstr \<Rightarrow> create_call list \<times> bool" where
  "send_code mailer ok email code = (if \<not> ok (CC_set_code email code) then ([CC_set_code email code], False)
     else if mailer then ([CC_set_code email code, CC_mail email code], ok (CC_mail email code))
     else ([CC_set_code email code], True))"

definition Create :: "bool \<Rightarrow> (jsstr \<Rightarrow> bool) option \<Rightarrow> bool \<Rightarrow> (create_call \<Rightarrow> bool) \<Rightarrow> jsstr \<Rightarrow> jsstr
    \<Rightarrow> create_call list \<times> create_result" where
  "Create mailer admins taken ok email code =
     (if taken then ([CC_create email], CR_exists)
      else if \<not> ok (CC_create email) then ([CC_create email], CR_failed)
      else (let (cs, sent) = send_code mailer ok email code in
        if \<not> sent then (CC_create email # cs, CR_failed)
        else (let (ds, r) = top_up admins ok email in (CC_create email # cs @ ds, r))))"

definition registerHandler :: "(jsstr \<Rightarrow> jsstr \<Rightarrow> create_result) \<Rightarrow> jsstr \<Rightarrow> jsstr \<Rightarrow> nat" where
  "registerHandler create email password = (if \<not> str_includes email (js ''@'') then 400
     else if password_too_short password then 400
     else (case create email password of CR_exists \<Rightarrow> 409 | CR_failed \<Rightarrow> 500 | CR_created \<Rightarrow> 200))"

text \<open>\<open>verifyHandler\<close>: \<open>check\<close> is the check of the code, \<open>None\<close> an internal error.\<close>

definition verifyHandler :: "(jsstr \<Rightarrow> jsstr \<Rightarrow> bool option) \<Rightarrow> bool \<Rightarrow> jsstr \<Rightarrow> jsstr \<Rightarrow> nat" where
  "verifyHandler check issued email code = (if email = [] \<or> code = [] then 400
     else (case check email code of None \<Rightarrow> 500 | Some False \<Rightarrow> 403 | Some True \<Rightarrow> if issued then 200 else 500))"

definition resendVerificationHandler :: "bool option \<Rightarrow> (create_call \<Rightarrow> bool) \<Rightarrow> bool \<Rightarrow> jsstr \<Rightarrow> jsstr \<Rightarrow> nat" where
  "resendVerificationHandler known ok mailer email code = (if email = [] then 400
     else (case known of None \<Rightarrow> 500 | Some False \<Rightarrow> 404
       | Some True \<Rightarrow> if snd (send_code mailer ok email code) then 200 else 500))"

section \<open>Facts\<close>

lemma code_field_digits: "list_all is_digit (code_field t)" "length (code_field t) \<le> 6"
  by (auto simp: code_field_def list_all_iff dest: in_set_takeD)

lemma code_field_id: "six_digits c \<Longrightarrow> code_field c = c"
  by (simp add: code_field_def six_digits_def list_all_iff)

lemma dec_length: "10 ^ k \<le> n \<Longrightarrow> n < 10 ^ Suc k \<Longrightarrow> length (dec n) = Suc k"
proof (induction k arbitrary: n)
  case 0
  then show ?case by (simp add: dec.simps [of n])
next
  case (Suc k)
  have "10 ^ k \<le> n div 10" "n div 10 < 10 ^ Suc k" using Suc.prems by (simp_all add: less_eq_div_iff_mult_less_eq div_less_iff_less_mult)
  from Suc.IH [OF this] have "length (dec (n div 10)) = Suc k" .
  moreover have "\<not> n < 10" using Suc.prems(1) by (simp add: not_less order.trans [of 10 "10 * 10 ^ k"])
  ultimately show ?case by (simp add: dec.simps [of n])
qed

lemma generateCode_digits: "six_digits (generateCode b0 b1 b2)"
proof -
  let ?n = "100000 + (unat b0 * 2 ^ 16 + unat b1 * 2 ^ 8 + unat b2) mod 900000"
  have "length (dec ?n) = Suc 5" by (rule dec_length) simp_all
  then show ?thesis
    by (auto simp: generateCode_def six_digits_def list_all_iff is_digit_def dest: dec_digits)
qed

definition reg_ok :: "reg_event list \<Rightarrow> reg_state \<Rightarrow> bool" where
  "reg_ok es s \<longleftrightarrow> list_all is_digit (rg_code s) \<and> length (rg_code s) \<le> 6
     \<and> list_all (\<lambda>q. case q of AQ_verify e c \<Rightarrow> six_digits c | _ \<Rightarrow> True) (rg_sent s)
     \<and> count_of (\<lambda>q. case q of AQ_verify e c \<Rightarrow> True | _ \<Rightarrow> False) (rg_sent s)
         = count_of (\<lambda>e. case e of RE_verified \<Rightarrow> True | RE_verify_refused x \<Rightarrow> True | _ \<Rightarrow> False) es
           + (if rg_verifying s then 1 else 0)
     \<and> count_of (\<lambda>q. case q of AQ_register e c \<Rightarrow> True | _ \<Rightarrow> False) (rg_sent s)
         = count_of (\<lambda>e. case e of RE_registered x \<Rightarrow> True | RE_refused x \<Rightarrow> True | _ \<Rightarrow> False) es
           + (if rg_submitting s = None then 0 else 1)"

lemma reg_ok_step: "reg_ok es s \<Longrightarrow> reg_step is_email s e s' \<Longrightarrow> reg_ok (es @ [e]) s'"
  by (erule reg_stepE, cases e)
    (auto simp: reg_ok_def reg_defs Let_def six_digits_def code_field_digits split: option.splits)

interpretation register: trace_invariant "reg_step is_email" reg_ok for is_email
  by unfold_locales (rule reg_ok_step)


lemma run_step_of: "reg_guard s e \<Longrightarrow> reg_step is_email s e (reg_do is_email e s)"
  by (rule reg_step.intros)

lemma patient_is_step: "patient_step is_email s e s' \<Longrightarrow> reg_step is_email s e s'"
  by (erule patient_stepE) (simp add: reg_step.intros)

text \<open>With a patient user there is one timer at most, the one of the last code that was resent, and
  none while the countdown is at zero.\<close>

definition one_timer :: "reg_event list \<Rightarrow> reg_state \<Rightarrow> bool" where
  "one_timer es s \<longleftrightarrow> rg_started s = count_of ((=) RE_resent) es \<and> rg_resends s \<le> 1
     \<and> (rg_resends s = 1 \<longrightarrow> rg_cooldown s = 0)
     \<and> rg_timers s = (if rg_cooldown s = 0 then [] else [rg_started s - 1])
     \<and> (rg_cooldown s \<noteq> 0 \<longrightarrow> rg_started s \<noteq> 0)"

lemma one_timer_step: "one_timer es s \<Longrightarrow> patient_step is_email s e s' \<Longrightarrow> one_timer (es @ [e]) s'"
  by (erule patient_stepE, cases e) (auto simp: one_timer_def reg_defs Let_def split: option.splits if_splits)

interpretation patient: trace_invariant "patient_step is_email" one_timer for is_email
  by unfold_locales (rule one_timer_step)

text \<open>The countdown after a resent code: \<open>c\<close> less the ticks of its timer, as long as no other code is
  resent.\<close>

definition counts_down :: "reg_event list \<Rightarrow> nat \<Rightarrow> reg_event list \<Rightarrow> reg_state \<Rightarrow> bool" where
  "counts_down pre k mid s \<longleftrightarrow> one_timer (pre @ mid) s \<and> k < rg_started s
     \<and> (rg_started s = Suc k \<longrightarrow> 60 \<le> rg_cooldown s + count_of ((=) (RE_tick k)) mid)
     \<and> (rg_started s \<noteq> Suc k \<or> rg_resends s = 1 \<longrightarrow> 60 \<le> count_of ((=) (RE_tick k)) mid)"

lemma counts_down_step:
  "counts_down pre k mid s \<Longrightarrow> patient_step is_email s e s' \<Longrightarrow> counts_down pre k (mid @ [e]) s'"
proof -
  assume cd: "counts_down pre k mid s" and st: "patient_step is_email s e s'"
  have "one_timer ((pre @ mid) @ [e]) s'" by (rule one_timer_step [OF _ st]) (use cd in \<open>simp add: counts_down_def\<close>)
  then have ot: "one_timer (pre @ mid @ [e]) s'" by simp
  have "k < rg_started s' \<and> (rg_started s' = Suc k \<longrightarrow> 60 \<le> rg_cooldown s' + count_of ((=) (RE_tick k)) (mid @ [e]))
     \<and> (rg_started s' \<noteq> Suc k \<or> rg_resends s' = 1 \<longrightarrow> 60 \<le> count_of ((=) (RE_tick k)) (mid @ [e]))"
    using cd st unfolding counts_down_def one_timer_def
    by (elim patient_stepE; cases e) (auto simp: reg_defs Let_def split: option.splits if_splits)
  with ot show ?thesis by (simp add: counts_down_def)
qed

interpretation countdown: trace_invariant "patient_step is_email" "counts_down pre k" for is_email pre k
  by unfold_locales (rule counts_down_step)

lemma run_split: "run step s (xs @ ys) s'' \<Longrightarrow> \<exists>s'. run step s xs s' \<and> run step s' ys s''"
proof (induction ys arbitrary: s'' rule: rev_induct)
  case Nil
  then show ?case by (auto intro: run_nil)
next
  case (snoc y ys)
  from snoc.prems have "run step s ((xs @ ys) @ [y]) s''" by simp
  then obtain t where t: "run step s (xs @ ys) t" "step t y s''" by cases auto
  from snoc.IH [OF t(1)] obtain u where "run step s xs u" "run step u ys t" by blast
  with t(2) show ?case by (blast intro: run_snoc)
qed

section \<open>Properties\<close>

text \<open>C37: Whatever is typed and pressed, every verification request carries exactly six decimal digits,
  and there is at most one registration and one verification in flight: as many requests as
  answers, and one more while the page waits.\<close>

theorem verification_requests:
  assumes "run (reg_step is_email) (reg_start email to_verify) es s"
  shows "(AQ_verify e c \<in> set (rg_sent s) \<longrightarrow> six_digits c)
    \<and> count_of (\<lambda>q. case q of AQ_verify e c \<Rightarrow> True | _ \<Rightarrow> False) (rg_sent s)
         = count_of (\<lambda>e. case e of RE_verified \<Rightarrow> True | RE_verify_refused x \<Rightarrow> True | _ \<Rightarrow> False) es
           + (if rg_verifying s then 1 else 0)
    \<and> count_of (\<lambda>q. case q of AQ_register e c \<Rightarrow> True | _ \<Rightarrow> False) (rg_sent s)
         = count_of (\<lambda>e. case e of RE_registered x \<Rightarrow> True | RE_refused x \<Rightarrow> True | _ \<Rightarrow> False) es
           + (if rg_submitting s = None then 0 else 1)"
proof -
  have "reg_ok [] (reg_start email to_verify)" by (simp add: reg_ok_def reg_start_def)
  from register.from_start [OF assms this] show ?thesis by (auto simp: reg_ok_def list_all_iff)
qed

theorem verification_requests_witness:
  "six_digits (code_field (js ''12a34 567''))"
proof -
  let ?s = "reg_start (Some (js ''a@b'')) True"
  let ?es = "[RE_type (js ''12a34 567''), RE_verify]"
  have cf: "code_field (js ''12a34 567'') = js ''123456''"
    by (simp add: code_field_def js_def is_digit_def)
  then have six: "six_digits (code_field (js ''12a34 567''))"
    by (simp add: six_digits_def js_def is_digit_def)
  have "allowed reg_guard (reg_do (\<lambda>x. True)) ?es ?s" by (simp add: reg_start_def cf)
  from allowed_run [of reg_guard "reg_step (\<lambda>x. True)" "reg_do (\<lambda>x. True)", OF run_step_of this]
  have r: "run (reg_step (\<lambda>x. True)) ?s ?es (fold (reg_do (\<lambda>x. True)) ?es ?s)" .
  have "AQ_verify (js ''a@b'') (code_field (js ''12a34 567'')) \<in> set (rg_sent (fold (reg_do (\<lambda>x. True)) ?es ?s))"
    using six by (simp add: reg_start_def handleVerify_def Let_def)
  from verification_requests [OF r, of "js ''a@b''" "code_field (js ''12a34 567'')"] this show ?thesis by blast
qed

text \<open>C38: A user who waits for the answer of a resend before pressing the button again cannot ask for
  another code before the timer of the last one has ticked sixty times, once a second.\<close>

theorem resend_interval:
  assumes "run (patient_step is_email) (reg_start email to_verify) (pre @ RE_resent # mid @ [RE_resend]) s"
  shows "60 \<le> count_of ((=) (RE_tick (count_of ((=) RE_resent) pre))) mid"
proof -
  let ?k = "count_of ((=) RE_resent) pre"
  have "run (patient_step is_email) (reg_start email to_verify) ((pre @ [RE_resent]) @ mid @ [RE_resend]) s"
    using assms by simp
  then obtain t where t: "run (patient_step is_email) (reg_start email to_verify) (pre @ [RE_resent]) t"
    and "run (patient_step is_email) t (mid @ [RE_resend]) s" by (blast dest: run_split)
  then obtain u where u: "run (patient_step is_email) t mid u" "patient_step is_email u RE_resend s"
    by (metis run_split run.cases append_Nil append1_eq_conv not_Cons_self2 snoc_eq_iff_butlast)
  have start: "one_timer [] (reg_start email to_verify)" by (simp add: one_timer_def reg_start_def)
  from t obtain v where v: "run (patient_step is_email) (reg_start email to_verify) pre v"
    "patient_step is_email v RE_resent t" by cases auto
  from patient.from_start [OF v(1) start] have "one_timer pre v" .
  moreover from patient.from_start [OF t start] have "one_timer (pre @ [RE_resent]) t" .
  ultimately have "counts_down (pre @ [RE_resent]) ?k [] t" using v(2)
    by (elim patient_stepE) (auto simp: counts_down_def one_timer_def resend_done_def)
  from countdown.from_start [OF u(1) this] have "counts_down (pre @ [RE_resent]) ?k mid u" .
  with u(2) show ?thesis by (elim patient_stepE) (auto simp: counts_down_def one_timer_def)
qed

theorem resend_interval_witness:
  "60 \<le> count_of ((=) (RE_tick 0)) (replicate 60 (RE_tick 0))"
proof -
  let ?g = "\<lambda>s e. reg_guard s e \<and> (e = RE_resend \<longrightarrow> rg_resends s = 0)"
  let ?h = "reg_do (\<lambda>x. True)" and ?s = "reg_start (Some (js ''a@b'')) True"
  let ?es = "[RE_resend] @ RE_resent # replicate 60 (RE_tick 0) @ [RE_resend]"
  have "allowed ?g ?h ?es ?s"
    by (simp add: reg_start_def handleResend_def resend_done_def timer_tick_def eval_nat_numeral)
  then have "run (patient_step (\<lambda>x. True)) ?s ?es (fold ?h ?es ?s)"
    by (rule allowed_run [rotated]) (auto intro: patient_step.intros)
  from resend_interval [OF this] show ?thesis by simp
qed

text \<open>Every code the server draws can be typed: the field keeps it as it is, and pressing the button
  sends it, once. A form the page accepts is never refused by the server as a bad request, when every
  address zod accepts contains an at sign.\<close>

theorem register_agrees:
  "code_field (generateCode b0 b1 b2) = generateCode b0 b1 b2
   \<and> rg_sent (handleVerify (s\<lparr>rg_code := generateCode b0 b1 b2\<rparr>))
       = rg_sent s @ [AQ_verify (rg_email s) (generateCode b0 b1 b2)]
   \<and> ((\<forall>e. is_email e \<longrightarrow> str_includes e (js ''@'')) \<longrightarrow> form_accepted is_email v
       \<longrightarrow> registerHandler create (rf_email v) (rf_password v) \<noteq> 400)"
proof (intro conjI impI)
  show "code_field (generateCode b0 b1 b2) = generateCode b0 b1 b2"
    by (rule code_field_id [OF generateCode_digits])
  show "rg_sent (handleVerify (s\<lparr>rg_code := generateCode b0 b1 b2\<rparr>))
       = rg_sent s @ [AQ_verify (rg_email s) (generateCode b0 b1 b2)]"
    by (simp add: handleVerify_def Let_def generateCode_digits)
  assume "\<forall>e. is_email e \<longrightarrow> str_includes e (js ''@'')" "form_accepted is_email v"
  then have "str_includes (rf_email v) (js ''@'')" "8 \<le> length (rf_password v)"
    unfolding form_accepted_def by blast+
  with utf8_of_text [of "rf_password v"] show "registerHandler create (rf_email v) (rf_password v) \<noteq> 400"
    by (simp add: registerHandler_def password_too_short_def split: create_result.splits)
qed

theorem register_agrees_witness:
  "registerHandler (\<lambda>e p. CR_created) (js ''a@b'') (js ''12345678'') \<noteq> 400"
proof -
  let ?v = "\<lparr>rf_email = js ''a@b'', rf_password = js ''12345678'', rf_confirm = js ''12345678''\<rparr>"
  from register_agrees [of 0 0 0 "reg_start None False" "\<lambda>e. str_includes e (js ''@'')" ?v "\<lambda>e p. CR_created"]
  show ?thesis by (simp add: form_accepted_def js_def)
qed

text \<open>Two resends at once halve the countdown: each of the two timers lowers it every second.\<close>

definition hasty :: "reg_event list" where
  "hasty = [RE_resend, RE_resend, RE_resent, RE_resent]
     @ concat (replicate 30 [RE_tick 0, RE_tick 1]) @ [RE_resend]"

lemma hasty_allowed: "allowed reg_guard (reg_do is_email) hasty (reg_start email True)"
  by (simp add: hasty_def reg_start_def handleResend_def resend_done_def timer_tick_def eval_nat_numeral)

lemma hasty_ticks: "count_of ((=) (RE_tick 1)) hasty = 30"
  by (simp add: hasty_def eval_nat_numeral)

text \<open>A failed mail leaves the account behind without the rights of a seeded administrator.\<close>

lemma top_up_lost:
  assumes "\<not> ok (CC_mail email code)" and "ok (CC_create email)" "ok (CC_set_code email code)"
  shows "Create True admins False ok email code = ([CC_create email, CC_set_code email code, CC_mail email code], CR_failed)"
    and "Create True admins True ok email code = ([CC_create email], CR_exists)"
  using assms by (simp_all add: Create_def send_code_def)

end
