(* ===== verification/Api_Client.thy ===== *)
theory Api_Client
  imports Org_Access Cost Library
begin

text \<open>
  The requests of the client (\<open>features/*/api.ts\<close> and the other callers of \<open>/api\<close>) and the router of
  the server (\<open>internal/httpapi/httpapi.go\<close>, on the \<open>ServeMux\<close> of the standard library). A query is
  its key in the cache, its request and whether it is enabled; a mutation is its request and the
  keys it invalidates or removes after a success. Path parameters are bytes on the server.
\<close>

section \<open>Requests\<close>

datatype http_method = GET | POST | PUT | DELETE

text \<open>The segments of a template \<open>`/api/orgs/${org}/members`\<close>: a literal, a parameter as it is, a
  parameter through \<open>encodeURIComponent\<close>.\<close>

datatype url_segment = Seg string | Raw jsstr | Enc jsstr

text \<open>How an answer is read: \<open>apiJSON\<close> parses its body, \<open>apiFetch\<close> may look at the status alone.\<close>

datatype answer_use = R_json | R_status | R_bytes | R_stream

record call =
  c_method :: http_method
  c_path :: "url_segment list"
  c_query :: "jsstr option"
  c_body :: bool
  c_reads :: answer_use

definition unreserved :: "nat \<Rightarrow> bool" where
  "unreserved b \<longleftrightarrow> b \<in> {33, 39, 40, 41, 42, 45, 46, 95, 126} \<or> 48 \<le> b \<and> b \<le> 57 \<or> 65 \<le> b \<and> b \<le> 90
     \<or> 97 \<le> b \<and> b \<le> 122"

definition uri_byte :: "nat \<Rightarrow> jsstr" where
  "uri_byte b = (if unreserved b then [b] else [37, hex_digit (b div 16), hex_digit (b mod 16)])"

text \<open>A surrogate without its partner makes \<open>encodeURIComponent\<close> throw.\<close>

fun well_formed :: "jsstr \<Rightarrow> bool" where
  "well_formed [] = True"
| "well_formed [c] = (\<not> (0xD800 \<le> c \<and> c < 0xE000))"
| "well_formed (c # d # s) =
     (if 0xD800 \<le> c \<and> c < 0xDC00 \<and> 0xDC00 \<le> d \<and> d < 0xE000 then well_formed s
      else \<not> (0xD800 \<le> c \<and> c < 0xE000) \<and> well_formed (d # s))"

definition text_bytes :: "jsstr \<Rightarrow> nat list" where
  "text_bytes s = concat (map utf8 (code_points s))"

definition encodeURIComponent :: "jsstr \<Rightarrow> jsstr option" where
  "encodeURIComponent s = (if well_formed s then Some (concat (map uri_byte (text_bytes s))) else None)"

fun segment_text :: "url_segment \<Rightarrow> jsstr option" where
  "segment_text (Seg s) = Some (js s)"
| "segment_text (Raw x) = Some x"
| "segment_text (Enc x) = encodeURIComponent x"

fun path_text :: "url_segment list \<Rightarrow> jsstr option" where
  "path_text [] = Some []"
| "path_text (u # us) = (case segment_text u of None \<Rightarrow> None
     | Some t \<Rightarrow> (case path_text us of None \<Rightarrow> None | Some r \<Rightarrow> Some (47 # t @ r)))"

definition concat_query :: "jsstr \<Rightarrow> jsstr option \<Rightarrow> jsstr option" where
  "concat_query a b = map_option (\<lambda>r. a @ r) b"

definition call_text :: "call \<Rightarrow> jsstr option" where
  "call_text c = (case path_text (c_path c) of None \<Rightarrow> None | Some p \<Rightarrow> concat_query p (c_query c))"

section \<open>Queries and mutations\<close>

datatype query_key = KS jsstr | KN nat | KNull | KF library_filter

record query =
  q_key :: "query_key list"
  q_call :: call
  q_enabled :: bool

record mutation =
  m_call :: call
  m_invalidates :: "query_key list list"
  m_removes :: "query_key list list"

definition key_opt :: "jsstr option \<Rightarrow> query_key" where
  "key_opt x = (case x of None \<Rightarrow> KNull | Some v \<Rightarrow> KS v)"

definition reading :: "url_segment list \<Rightarrow> jsstr option \<Rightarrow> answer_use \<Rightarrow> call" where
  "reading p qs r = \<lparr>c_method = GET, c_path = p, c_query = qs, c_body = False, c_reads = r\<rparr>"

definition sending :: "http_method \<Rightarrow> url_segment list \<Rightarrow> bool \<Rightarrow> answer_use \<Rightarrow> call" where
  "sending m p b r = \<lparr>c_method = m, c_path = p, c_query = Some [], c_body = b, c_reads = r\<rparr>"

text \<open>The query strings: \<open>?k=${encodeURIComponent(v)}\<close> when there is a value, \<open>?${params}\<close> when there are
  parameters, a page with its cursor, a range of time.\<close>

definition enc_query :: "string \<Rightarrow> jsstr option \<Rightarrow> jsstr option" where
  "enc_query k v = (if truthy v then concat_query (js k) (encodeURIComponent (the v)) else Some [])"

definition params_query :: "(jsstr \<times> jsstr) list \<Rightarrow> jsstr option" where
  "params_query ps = Some (if ps = [] then [] else 63 # form_string ps)"

definition cursor_part :: "jsstr \<Rightarrow> jsstr option" where
  "cursor_part cursor = (if cursor = [] then Some [] else concat_query (js ''&cursor='') (encodeURIComponent cursor))"

definition page_query :: "nat \<Rightarrow> jsstr \<Rightarrow> jsstr option" where
  "page_query limit_n cursor = concat_query (js ''?limit='' @ dec limit_n) (cursor_part cursor)"

definition rangeQuery :: "time_range \<Rightarrow> jsstr option" where
  "rangeQuery r = params_query (param ''from'' (tr_from r) @ param ''to'' (tr_to r))"

definition useProject :: "jsstr \<Rightarrow> query" where
  "useProject xid = \<lparr>q_key = [KS (js ''project''), KS xid],
     q_call = reading [Seg ''api'', Seg ''projects'', Raw xid] (Some []) R_json, q_enabled = xid \<noteq> []\<rparr>"

definition useProjectState :: "jsstr \<Rightarrow> jsstr option \<Rightarrow> query" where
  "useProjectState xid plan = \<lparr>q_key = [KS (js ''project-state''), KS xid, KS (nullish plan [])],
     q_call = reading [Seg ''api'', Seg ''projects'', Raw xid, Seg ''state''] (enc_query ''?planId='' plan) R_json, q_enabled = xid \<noteq> []\<rparr>"

definition useScript :: "jsstr \<Rightarrow> jsstr option \<Rightarrow> jsstr option \<Rightarrow> query" where
  "useScript xid plan todo = \<lparr>q_key = [KS (js ''script''), KS xid, KS (nullish plan []), KS (nullish todo [])],
     q_call = reading [Seg ''api'', Seg ''projects'', Raw xid, Seg ''script''] (params_query (param ''planId'' plan @ param ''todoId'' todo)) R_json, q_enabled = xid \<noteq> []\<rparr>"

definition useShots :: "jsstr \<Rightarrow> jsstr option \<Rightarrow> jsstr option \<Rightarrow> query" where
  "useShots xid plan todo = \<lparr>q_key = [KS (js ''shots''), KS xid, KS (nullish plan []), KS (nullish todo [])],
     q_call = reading [Seg ''api'', Seg ''projects'', Raw xid, Seg ''shots''] (params_query (param ''planId'' plan @ param ''todoId'' todo)) R_json, q_enabled = xid \<noteq> []\<rparr>"

definition useProjectAssets :: "jsstr \<Rightarrow> jsstr option \<Rightarrow> jsstr option \<Rightarrow> query" where
  "useProjectAssets xid status plan = \<lparr>q_key = [KS (js ''project-assets''), KS xid, KS (nullish status []), KS (nullish plan [])],
     q_call = reading [Seg ''api'', Seg ''projects'', Raw xid, Seg ''assets''] (params_query (param ''status'' status @ param ''planId'' plan)) R_json, q_enabled = xid \<noteq> []\<rparr>"

definition usePlans :: "jsstr \<Rightarrow> query" where
  "usePlans xid = \<lparr>q_key = [KS (js ''plans''), KS xid],
     q_call = reading [Seg ''api'', Seg ''projects'', Raw xid, Seg ''plans''] (Some []) R_json, q_enabled = xid \<noteq> []\<rparr>"

definition usePlanCost :: "jsstr \<Rightarrow> jsstr \<Rightarrow> query" where
  "usePlanCost xid planId = \<lparr>q_key = [KS (js ''plan-cost''), KS xid, KS planId],
     q_call = reading [Seg ''api'', Seg ''projects'', Raw xid, Seg ''plans'', Raw planId, Seg ''cost''] (Some []) R_json, q_enabled = xid \<noteq> [] \<and> planId \<noteq> []\<rparr>"

definition useExportJob :: "jsstr \<Rightarrow> jsstr option \<Rightarrow> query" where
  "useExportJob xid job = \<lparr>q_key = [KS (js ''export-job''), KS xid, KS (nullish job [])],
     q_call = reading [Seg ''api'', Seg ''projects'', Raw xid, Seg ''exports'', Raw (nullish job (js ''null''))] (Some []) R_json,
     q_enabled = truthy job\<rparr>"

definition useOrgCost :: "jsstr \<Rightarrow> jsstr \<Rightarrow> time_range \<Rightarrow> query" where
  "useOrgCost org preset rge = \<lparr>q_key = [KS (js ''org-cost''), KS org, KS preset],
     q_call = reading [Seg ''api'', Seg ''orgs'', Raw org, Seg ''cost''] (rangeQuery rge) R_json, q_enabled = org \<noteq> []\<rparr>"

definition useOrgCostProjects :: "jsstr \<Rightarrow> jsstr \<Rightarrow> time_range \<Rightarrow> query" where
  "useOrgCostProjects org preset rge = \<lparr>q_key = [KS (js ''org-cost-projects''), KS org, KS preset],
     q_call = reading [Seg ''api'', Seg ''orgs'', Raw org, Seg ''cost'', Seg ''projects''] (rangeQuery rge) R_json, q_enabled = org \<noteq> []\<rparr>"

definition useOrgCostMembers :: "jsstr \<Rightarrow> jsstr \<Rightarrow> time_range \<Rightarrow> query" where
  "useOrgCostMembers org preset rge = \<lparr>q_key = [KS (js ''org-cost-members''), KS org, KS preset],
     q_call = reading [Seg ''api'', Seg ''orgs'', Raw org, Seg ''cost'', Seg ''by-member''] (rangeQuery rge) R_json, q_enabled = org \<noteq> []\<rparr>"

definition useGenerations :: "jsstr \<Rightarrow> nat \<Rightarrow> jsstr \<Rightarrow> query" where
  "useGenerations org limit_n cursor = \<lparr>q_key = [KS (js ''generations''), KS org, KN limit_n],
     q_call = reading [Seg ''api'', Seg ''orgs'', Raw org, Seg ''generations''] (page_query limit_n cursor) R_json, q_enabled = org \<noteq> []\<rparr>"

definition useModelCatalog :: "query" where
  "useModelCatalog = \<lparr>q_key = [KS (js ''model-catalog'')],
     q_call = reading [Seg ''api'', Seg ''model-catalog''] (Some []) R_json, q_enabled = True\<rparr>"

definition useModelConfigs :: "jsstr \<Rightarrow> query" where
  "useModelConfigs org = \<lparr>q_key = [KS (js ''model-configs''), KS org],
     q_call = reading [Seg ''api'', Seg ''orgs'', Raw org, Seg ''model-configs''] (Some []) R_json, q_enabled = org \<noteq> []\<rparr>"

definition useOrgTextModels :: "jsstr \<Rightarrow> query" where
  "useOrgTextModels org = \<lparr>q_key = [KS (js ''org-text-models''), KS org],
     q_call = reading [Seg ''api'', Seg ''orgs'', Raw org, Seg ''model-configs''] (Some []) R_json, q_enabled = org \<noteq> []\<rparr>"

definition useOrgImageModels :: "jsstr \<Rightarrow> query" where
  "useOrgImageModels org = \<lparr>q_key = [KS (js ''org-image-models''), KS org],
     q_call = reading [Seg ''api'', Seg ''orgs'', Raw org, Seg ''model-configs''] (Some []) R_json, q_enabled = org \<noteq> []\<rparr>"

definition usePlatformWhoami :: "query" where
  "usePlatformWhoami = \<lparr>q_key = [KS (js ''platform''), KS (js ''whoami'')],
     q_call = reading [Seg ''api'', Seg ''platform'', Seg ''whoami''] (Some []) R_json, q_enabled = True\<rparr>"

definition usePlatformOrgs :: "query" where
  "usePlatformOrgs = \<lparr>q_key = [KS (js ''platform''), KS (js ''orgs'')],
     q_call = reading [Seg ''api'', Seg ''platform'', Seg ''orgs''] (Some []) R_json, q_enabled = True\<rparr>"

definition usePlatformAdmins :: "query" where
  "usePlatformAdmins = \<lparr>q_key = [KS (js ''platform''), KS (js ''admins'')],
     q_call = reading [Seg ''api'', Seg ''platform'', Seg ''admins''] (Some []) R_json, q_enabled = True\<rparr>"

definition usePlatformUsers :: "query" where
  "usePlatformUsers = \<lparr>q_key = [KS (js ''platform''), KS (js ''users'')],
     q_call = reading [Seg ''api'', Seg ''platform'', Seg ''users''] (Some []) R_json, q_enabled = True\<rparr>"

definition usePlatformUserDetail :: "jsstr option \<Rightarrow> query" where
  "usePlatformUserDetail user = \<lparr>q_key = [KS (js ''platform''), KS (js ''user''), key_opt user],
     q_call = reading [Seg ''api'', Seg ''platform'', Seg ''users'', Enc (nullish user (js ''null''))] (Some []) R_json,
     q_enabled = (user \<noteq> None)\<rparr>"

definition useGlobalMailConfig :: "query" where
  "useGlobalMailConfig = \<lparr>q_key = [KS (js ''platform''), KS (js ''mail-config''), KS (js ''global'')],
     q_call = reading [Seg ''api'', Seg ''platform'', Seg ''mail-config'', Seg ''global''] (Some []) R_json, q_enabled = True\<rparr>"

definition useOrgMembers :: "jsstr \<Rightarrow> query" where
  "useOrgMembers org = \<lparr>q_key = [KS (js ''members''), KS org],
     q_call = reading [Seg ''api'', Seg ''orgs'', Enc org, Seg ''members''] (Some []) R_json, q_enabled = org \<noteq> []\<rparr>"

definition useOrgInvites :: "jsstr \<Rightarrow> query" where
  "useOrgInvites org = \<lparr>q_key = [KS (js ''invites''), KS org],
     q_call = reading [Seg ''api'', Seg ''orgs'', Enc org, Seg ''invites''] (Some []) R_json, q_enabled = org \<noteq> []\<rparr>"

definition useWorkflows :: "jsstr \<Rightarrow> query" where
  "useWorkflows xid = \<lparr>q_key = [KS (js ''workflows''), KS xid],
     q_call = reading [Seg ''api'', Seg ''projects'', Raw xid, Seg ''workflows''] (Some []) R_json, q_enabled = xid \<noteq> []\<rparr>"

definition useStorageConfigs :: "jsstr \<Rightarrow> query" where
  "useStorageConfigs org = \<lparr>q_key = [KS (js ''storage-configs''), KS org],
     q_call = reading [Seg ''api'', Seg ''orgs'', Raw org, Seg ''storage-configs''] (Some []) R_json, q_enabled = org \<noteq> []\<rparr>"

definition useGlobalStorageConfig :: "query" where
  "useGlobalStorageConfig = \<lparr>q_key = [KS (js ''storage-config''), KS (js ''global'')],
     q_call = reading [Seg ''api'', Seg ''platform'', Seg ''storage-config'', Seg ''global''] (Some []) R_json, q_enabled = True\<rparr>"

definition useBasicPrompts :: "query" where
  "useBasicPrompts = \<lparr>q_key = [KS (js ''prompt-presets'')],
     q_call = reading [Seg ''api'', Seg ''prompt-presets''] (Some []) R_json, q_enabled = True\<rparr>"

definition usePrompts :: "jsstr \<Rightarrow> query" where
  "usePrompts org = \<lparr>q_key = [KS (js ''prompts''), KS org],
     q_call = reading [Seg ''api'', Seg ''orgs'', Raw org, Seg ''prompts''] (Some []) R_json, q_enabled = org \<noteq> []\<rparr>"

definition useReviewQueue :: "jsstr \<Rightarrow> jsstr option \<Rightarrow> jsstr \<Rightarrow> query" where
  "useReviewQueue org project cursor = \<lparr>q_key = [KS (js ''review-queue''), KS org, key_opt project],
     q_call = reading [Seg ''api'', Seg ''orgs'', Raw org, Seg ''assets''] (Some ([63] @ form_string ([(js ''status'', js ''pending_acceptance''), (js ''limit'', dec 50)]
       @ param ''project'' project @ param ''cursor'' (Some cursor)))) R_json, q_enabled = org \<noteq> []\<rparr>"

definition useAsset :: "jsstr \<Rightarrow> query" where
  "useAsset xid = \<lparr>q_key = [KS (js ''asset''), KS xid],
     q_call = reading [Seg ''api'', Seg ''assets'', Raw xid] (Some []) R_json, q_enabled = xid \<noteq> []\<rparr>"

definition useProjects :: "jsstr \<Rightarrow> query" where
  "useProjects org = \<lparr>q_key = [KS (js ''projects''), KS org],
     q_call = reading [Seg ''api'', Seg ''orgs'', Raw org, Seg ''projects''] (Some []) R_json, q_enabled = org \<noteq> []\<rparr>"

definition usePromptStyles :: "query" where
  "usePromptStyles = \<lparr>q_key = [KS (js ''prompt-styles'')],
     q_call = reading [Seg ''api'', Seg ''prompt-styles''] (Some []) R_json, q_enabled = True\<rparr>"

definition useWorkflowTemplates :: "jsstr \<Rightarrow> query" where
  "useWorkflowTemplates org = \<lparr>q_key = [KS (js ''workflow-templates''), KS org],
     q_call = reading [Seg ''api'', Seg ''orgs'', Raw org, Seg ''workflow-templates''] (Some []) R_json, q_enabled = org \<noteq> []\<rparr>"

definition useCoverOptions :: "jsstr \<Rightarrow> bool \<Rightarrow> query" where
  "useCoverOptions xid on = \<lparr>q_key = [KS (js ''cover-options''), KS xid],
     q_call = reading [Seg ''api'', Seg ''projects'', Raw xid, Seg ''cover'', Seg ''options''] (Some []) R_json, q_enabled = on\<rparr>"

definition useCustomNodeTypes :: "jsstr \<Rightarrow> query" where
  "useCustomNodeTypes org = \<lparr>q_key = [KS (js ''custom-node-types''), KS org],
     q_call = reading [Seg ''api'', Seg ''orgs'', Raw org, Seg ''custom-node-types''] (Some []) R_json, q_enabled = org \<noteq> []\<rparr>"

definition useOrgSecrets :: "jsstr \<Rightarrow> query" where
  "useOrgSecrets org = \<lparr>q_key = [KS (js ''org-secrets''), KS org],
     q_call = reading [Seg ''api'', Seg ''orgs'', Raw org, Seg ''secrets''] (Some []) R_json, q_enabled = org \<noteq> []\<rparr>"

definition useTaskBoard :: "jsstr \<Rightarrow> query" where
  "useTaskBoard org = \<lparr>q_key = [KS (js ''task-board''), KS org],
     q_call = reading [Seg ''api'', Seg ''orgs'', Raw org, Seg ''tasks''] (Some []) R_json, q_enabled = org \<noteq> []\<rparr>"

definition useAlertSettings :: "jsstr \<Rightarrow> query" where
  "useAlertSettings org = \<lparr>q_key = [KS (js ''alert-settings''), KS org],
     q_call = reading [Seg ''api'', Seg ''orgs'', Raw org, Seg ''alert-settings''] (Some []) R_json, q_enabled = org \<noteq> []\<rparr>"

definition useAuditLog :: "jsstr \<Rightarrow> nat \<Rightarrow> jsstr \<Rightarrow> query" where
  "useAuditLog org limit_n cursor = \<lparr>q_key = [KS (js ''audit-log''), KS org, KN limit_n],
     q_call = reading [Seg ''api'', Seg ''orgs'', Raw org, Seg ''audit-log''] (page_query limit_n cursor) R_json, q_enabled = org \<noteq> []\<rparr>"

definition useHealthReport :: "query" where
  "useHealthReport = \<lparr>q_key = [KS (js ''platform''), KS (js ''health'')],
     q_call = reading [Seg ''api'', Seg ''platform'', Seg ''health''] (Some []) R_json, q_enabled = True\<rparr>"

definition useHealthEvents :: "nat \<Rightarrow> query" where
  "useHealthEvents limit_n = \<lparr>q_key = [KS (js ''platform''), KS (js ''health''), KS (js ''events''), KN limit_n],
     q_call = reading [Seg ''api'', Seg ''platform'', Seg ''health'', Seg ''events''] (Some (js ''?limit='' @ dec limit_n)) R_json, q_enabled = True\<rparr>"

definition useLibrary :: "jsstr \<Rightarrow> library_filter \<Rightarrow> jsstr \<Rightarrow> query" where
  "useLibrary org f cursor = \<lparr>q_key = [KS (js ''library''), KS org, KF f],
     q_call = reading [Seg ''api'', Seg ''orgs'', Raw org, Seg ''assets''] (concat_query ([63] @ buildLibraryQuery f (Some 24)) (cursor_part cursor)) R_json, q_enabled = org \<noteq> []\<rparr>"

definition useBuiltinNodeTypes :: "query" where
  "useBuiltinNodeTypes = \<lparr>q_key = [KS (js ''builtin-node-types'')],
     q_call = reading [Seg ''api'', Seg ''node-types'', Seg ''builtin''] (Some []) R_json, q_enabled = True\<rparr>"

definition useNodeTypes :: "jsstr \<Rightarrow> query" where
  "useNodeTypes org = \<lparr>q_key = [KS (js ''node-types''), KS org],
     q_call = reading [Seg ''api'', Seg ''orgs'', Raw org, Seg ''node-types''] (Some []) R_json, q_enabled = org \<noteq> []\<rparr>"

definition useMyOrgs :: "query" where
  "useMyOrgs = \<lparr>q_key = [KS (js ''my-orgs'')],
     q_call = reading [Seg ''api'', Seg ''orgs''] (Some []) R_json, q_enabled = True\<rparr>"

text \<open>The mutations.\<close>

definition useCancel :: "jsstr \<Rightarrow> mutation" where
  "useCancel xid = \<lparr>m_call = sending POST [Seg ''api'', Seg ''projects'', Raw xid, Seg ''cancel''] False R_json,
     m_invalidates = [[KS (js ''project''), KS xid]], m_removes = []\<rparr>"

definition useRegenerateAsset :: "jsstr \<Rightarrow> mutation" where
  "useRegenerateAsset xid = \<lparr>m_call = sending POST [Seg ''api'', Seg ''assets'', Raw xid, Seg ''regenerate''] True R_json,
     m_invalidates = [], m_removes = []\<rparr>"

definition useLyricsAudio :: "jsstr \<Rightarrow> mutation" where
  "useLyricsAudio xid = \<lparr>m_call = sending POST [Seg ''api'', Seg ''projects'', Raw xid, Seg ''lyrics-audio''] True R_json,
     m_invalidates = [], m_removes = []\<rparr>"

definition useCreateExport :: "jsstr \<Rightarrow> mutation" where
  "useCreateExport xid = \<lparr>m_call = sending POST [Seg ''api'', Seg ''projects'', Raw xid, Seg ''exports''] True R_json,
     m_invalidates = [], m_removes = []\<rparr>"

definition useCreateModelConfig :: "jsstr \<Rightarrow> mutation" where
  "useCreateModelConfig org = \<lparr>m_call = sending POST [Seg ''api'', Seg ''orgs'', Raw org, Seg ''model-configs''] True R_json,
     m_invalidates = [[KS (js ''model-configs''), KS org]], m_removes = []\<rparr>"

definition useUpdateModelConfig :: "jsstr \<Rightarrow> jsstr \<Rightarrow> mutation" where
  "useUpdateModelConfig org xid = \<lparr>m_call = sending PUT [Seg ''api'', Seg ''orgs'', Raw org, Seg ''model-configs'', Raw xid] True R_json,
     m_invalidates = [[KS (js ''model-configs''), KS org]], m_removes = []\<rparr>"

definition useDeleteModelConfig :: "jsstr \<Rightarrow> jsstr \<Rightarrow> mutation" where
  "useDeleteModelConfig org xid = \<lparr>m_call = sending DELETE [Seg ''api'', Seg ''orgs'', Raw org, Seg ''model-configs'', Raw xid] False R_json,
     m_invalidates = [[KS (js ''model-configs''), KS org]], m_removes = []\<rparr>"

definition useGrantPlatformAdmin :: "mutation" where
  "useGrantPlatformAdmin = \<lparr>m_call = sending POST [Seg ''api'', Seg ''platform'', Seg ''admins''] True R_json,
     m_invalidates = [[KS (js ''platform''), KS (js ''admins'')], [KS (js ''platform''), KS (js ''users'')]], m_removes = []\<rparr>"

definition useRevokePlatformAdmin :: "jsstr \<Rightarrow> mutation" where
  "useRevokePlatformAdmin userId = \<lparr>m_call = sending DELETE [Seg ''api'', Seg ''platform'', Seg ''admins'', Enc userId] False R_json,
     m_invalidates = [[KS (js ''platform''), KS (js ''admins'')], [KS (js ''platform''), KS (js ''users'')]], m_removes = []\<rparr>"

definition useDeleteUser :: "jsstr \<Rightarrow> mutation" where
  "useDeleteUser userId = \<lparr>m_call = sending DELETE [Seg ''api'', Seg ''platform'', Seg ''users'', Enc userId] False R_json,
     m_invalidates = [[KS (js ''platform''), KS (js ''users'')]], m_removes = []\<rparr>"

definition useResetUserPassword :: "jsstr \<Rightarrow> mutation" where
  "useResetUserPassword userId = \<lparr>m_call = sending POST [Seg ''api'', Seg ''platform'', Seg ''users'', Enc userId, Seg ''reset-password''] True R_json,
     m_invalidates = [], m_removes = []\<rparr>"

definition useUpsertGlobalMailConfig :: "mutation" where
  "useUpsertGlobalMailConfig = \<lparr>m_call = sending PUT [Seg ''api'', Seg ''platform'', Seg ''mail-config'', Seg ''global''] True R_json,
     m_invalidates = [[KS (js ''platform''), KS (js ''mail-config''), KS (js ''global'')]], m_removes = []\<rparr>"

definition useAddMember :: "jsstr \<Rightarrow> mutation" where
  "useAddMember org = \<lparr>m_call = sending POST [Seg ''api'', Seg ''orgs'', Enc org, Seg ''members''] True R_json,
     m_invalidates = [[KS (js ''members''), KS org]], m_removes = []\<rparr>"

definition useSetMemberRole :: "jsstr \<Rightarrow> jsstr \<Rightarrow> mutation" where
  "useSetMemberRole org userId = \<lparr>m_call = sending PUT [Seg ''api'', Seg ''orgs'', Enc org, Seg ''members'', Enc userId] True R_json,
     m_invalidates = [[KS (js ''members''), KS org]], m_removes = []\<rparr>"

definition useRemoveMember :: "jsstr \<Rightarrow> jsstr \<Rightarrow> mutation" where
  "useRemoveMember org userId = \<lparr>m_call = sending DELETE [Seg ''api'', Seg ''orgs'', Enc org, Seg ''members'', Enc userId] False R_json,
     m_invalidates = [[KS (js ''members''), KS org]], m_removes = []\<rparr>"

definition useCreateInvite :: "jsstr \<Rightarrow> mutation" where
  "useCreateInvite org = \<lparr>m_call = sending POST [Seg ''api'', Seg ''orgs'', Enc org, Seg ''invites''] True R_json,
     m_invalidates = [[KS (js ''invites''), KS org]], m_removes = []\<rparr>"

definition useRevokeInvite :: "jsstr \<Rightarrow> jsstr \<Rightarrow> mutation" where
  "useRevokeInvite org xid = \<lparr>m_call = sending DELETE [Seg ''api'', Seg ''orgs'', Enc org, Seg ''invites'', Enc xid] False R_json,
     m_invalidates = [[KS (js ''invites''), KS org]], m_removes = []\<rparr>"

definition useCreateWorkflow :: "jsstr \<Rightarrow> mutation" where
  "useCreateWorkflow xid = \<lparr>m_call = sending POST [Seg ''api'', Seg ''projects'', Raw xid, Seg ''workflows''] True R_json,
     m_invalidates = [[KS (js ''workflows''), KS xid]], m_removes = []\<rparr>"

definition useUpdateWorkflow :: "jsstr \<Rightarrow> jsstr \<Rightarrow> mutation" where
  "useUpdateWorkflow xid wfId = \<lparr>m_call = sending PUT [Seg ''api'', Seg ''projects'', Raw xid, Seg ''workflows'', Raw wfId] True R_json,
     m_invalidates = [[KS (js ''workflows''), KS xid]], m_removes = []\<rparr>"

definition useDeleteWorkflow :: "jsstr \<Rightarrow> jsstr \<Rightarrow> mutation" where
  "useDeleteWorkflow xid wfId = \<lparr>m_call = sending DELETE [Seg ''api'', Seg ''projects'', Raw xid, Seg ''workflows'', Raw wfId] False R_json,
     m_invalidates = [[KS (js ''workflows''), KS xid]], m_removes = []\<rparr>"

definition useRunWorkflow :: "jsstr \<Rightarrow> jsstr \<Rightarrow> bool \<Rightarrow> mutation" where
  "useRunWorkflow xid wfId inputs = \<lparr>m_call = sending POST [Seg ''api'', Seg ''projects'', Raw xid, Seg ''workflows'', Raw wfId, Seg ''run''] inputs R_json,
     m_invalidates = [[KS (js ''workflows''), KS xid], [KS (js ''project''), KS xid], [KS (js ''plans''), KS xid]], m_removes = []\<rparr>"

definition useCreateStorageConfig :: "jsstr \<Rightarrow> mutation" where
  "useCreateStorageConfig org = \<lparr>m_call = sending POST [Seg ''api'', Seg ''orgs'', Raw org, Seg ''storage-configs''] True R_json,
     m_invalidates = [[KS (js ''storage-configs''), KS org]], m_removes = []\<rparr>"

definition useUpdateStorageConfig :: "jsstr \<Rightarrow> jsstr \<Rightarrow> mutation" where
  "useUpdateStorageConfig org xid = \<lparr>m_call = sending PUT [Seg ''api'', Seg ''orgs'', Raw org, Seg ''storage-configs'', Raw xid] True R_json,
     m_invalidates = [[KS (js ''storage-configs''), KS org]], m_removes = []\<rparr>"

definition useDeleteStorageConfig :: "jsstr \<Rightarrow> jsstr \<Rightarrow> mutation" where
  "useDeleteStorageConfig org xid = \<lparr>m_call = sending DELETE [Seg ''api'', Seg ''orgs'', Raw org, Seg ''storage-configs'', Raw xid] False R_json,
     m_invalidates = [[KS (js ''storage-configs''), KS org]], m_removes = []\<rparr>"

definition useSetDefaultStorageConfig :: "jsstr \<Rightarrow> jsstr \<Rightarrow> mutation" where
  "useSetDefaultStorageConfig org xid = \<lparr>m_call = sending POST [Seg ''api'', Seg ''orgs'', Raw org, Seg ''storage-configs'', Raw xid, Seg ''default''] False R_json,
     m_invalidates = [[KS (js ''storage-configs''), KS org]], m_removes = []\<rparr>"

definition useUpsertGlobalStorageConfig :: "mutation" where
  "useUpsertGlobalStorageConfig = \<lparr>m_call = sending PUT [Seg ''api'', Seg ''platform'', Seg ''storage-config'', Seg ''global''] True R_json,
     m_invalidates = [[KS (js ''storage-config''), KS (js ''global'')]], m_removes = []\<rparr>"

definition useCreatePrompt :: "jsstr \<Rightarrow> mutation" where
  "useCreatePrompt org = \<lparr>m_call = sending POST [Seg ''api'', Seg ''orgs'', Raw org, Seg ''prompts''] True R_json,
     m_invalidates = [[KS (js ''prompts''), KS org]], m_removes = []\<rparr>"

definition useUpdatePrompt :: "jsstr \<Rightarrow> jsstr \<Rightarrow> mutation" where
  "useUpdatePrompt org xid = \<lparr>m_call = sending PUT [Seg ''api'', Seg ''orgs'', Raw org, Seg ''prompts'', Raw xid] True R_json,
     m_invalidates = [[KS (js ''prompts''), KS org]], m_removes = []\<rparr>"

definition useSetPromptDefault :: "jsstr \<Rightarrow> jsstr \<Rightarrow> mutation" where
  "useSetPromptDefault org xid = \<lparr>m_call = sending PUT [Seg ''api'', Seg ''orgs'', Raw org, Seg ''prompts'', Raw xid, Seg ''default''] False R_json,
     m_invalidates = [[KS (js ''prompts''), KS org]], m_removes = []\<rparr>"

definition useDeletePrompt :: "jsstr \<Rightarrow> jsstr \<Rightarrow> mutation" where
  "useDeletePrompt org xid = \<lparr>m_call = sending DELETE [Seg ''api'', Seg ''orgs'', Raw org, Seg ''prompts'', Raw xid] False R_json,
     m_invalidates = [[KS (js ''prompts''), KS org]], m_removes = []\<rparr>"

definition useAccept :: "jsstr \<Rightarrow> jsstr \<Rightarrow> mutation" where
  "useAccept org xid = \<lparr>m_call = sending POST [Seg ''api'', Seg ''assets'', Raw xid, Seg ''accept''] False R_json,
     m_invalidates = [[KS (js ''review-queue''), KS org], [KS (js ''library''), KS org], [KS (js ''project-state'')]], m_removes = []\<rparr>"

definition useReject :: "jsstr \<Rightarrow> jsstr \<Rightarrow> mutation" where
  "useReject org xid = \<lparr>m_call = sending POST [Seg ''api'', Seg ''assets'', Raw xid, Seg ''reject''] False R_json,
     m_invalidates = [[KS (js ''review-queue''), KS org], [KS (js ''library''), KS org], [KS (js ''project-state'')]], m_removes = []\<rparr>"

definition useRegenerate :: "jsstr \<Rightarrow> jsstr \<Rightarrow> mutation" where
  "useRegenerate org xid = \<lparr>m_call = sending POST [Seg ''api'', Seg ''assets'', Raw xid, Seg ''regenerate''] True R_json,
     m_invalidates = [[KS (js ''review-queue''), KS org], [KS (js ''library''), KS org], [KS (js ''project-state'')]], m_removes = []\<rparr>"

definition useCreateProject :: "jsstr \<Rightarrow> mutation" where
  "useCreateProject org = \<lparr>m_call = sending POST [Seg ''api'', Seg ''orgs'', Raw org, Seg ''projects''] True R_json,
     m_invalidates = [[KS (js ''projects''), KS org]], m_removes = []\<rparr>"

definition useUpdateProject :: "jsstr \<Rightarrow> jsstr \<Rightarrow> mutation" where
  "useUpdateProject org xid = \<lparr>m_call = sending PUT [Seg ''api'', Seg ''projects'', Raw xid] True R_json,
     m_invalidates = [[KS (js ''projects''), KS org], [KS (js ''project''), KS xid]], m_removes = []\<rparr>"

definition useDeleteProject :: "jsstr \<Rightarrow> jsstr \<Rightarrow> mutation" where
  "useDeleteProject org xid = \<lparr>m_call = sending DELETE [Seg ''api'', Seg ''projects'', Raw xid] False R_json,
     m_invalidates = [[KS (js ''projects''), KS org]], m_removes = [[KS (js ''project''), KS xid], [KS (js ''plans''), KS xid]]\<rparr>"

definition useInstantiateTemplate :: "jsstr \<Rightarrow> mutation" where
  "useInstantiateTemplate xid = \<lparr>m_call = sending POST [Seg ''api'', Seg ''projects'', Raw xid, Seg ''workflows'', Seg ''from-template''] True R_json,
     m_invalidates = [[KS (js ''workflows''), KS xid]], m_removes = []\<rparr>"

definition useSaveTemplate :: "jsstr \<Rightarrow> mutation" where
  "useSaveTemplate org = \<lparr>m_call = sending POST [Seg ''api'', Seg ''orgs'', Raw org, Seg ''workflow-templates''] True R_json,
     m_invalidates = [[KS (js ''workflow-templates''), KS org]], m_removes = []\<rparr>"

definition useDeleteTemplate :: "jsstr \<Rightarrow> jsstr \<Rightarrow> mutation" where
  "useDeleteTemplate org xid = \<lparr>m_call = sending DELETE [Seg ''api'', Seg ''orgs'', Raw org, Seg ''workflow-templates'', Raw xid] False R_status,
     m_invalidates = [[KS (js ''workflow-templates''), KS org]], m_removes = []\<rparr>"

definition useGenerateCover :: "jsstr \<Rightarrow> jsstr \<Rightarrow> mutation" where
  "useGenerateCover org xid = \<lparr>m_call = sending POST [Seg ''api'', Seg ''projects'', Raw xid, Seg ''cover'', Seg ''generate''] True R_json,
     m_invalidates = [[KS (js ''projects''), KS org]], m_removes = []\<rparr>"

definition useUploadCover :: "jsstr \<Rightarrow> jsstr \<Rightarrow> mutation" where
  "useUploadCover org xid = \<lparr>m_call = sending POST [Seg ''api'', Seg ''projects'', Raw xid, Seg ''cover'', Seg ''upload''] True R_json,
     m_invalidates = [[KS (js ''projects''), KS org]], m_removes = []\<rparr>"

definition useSetCover :: "jsstr \<Rightarrow> jsstr \<Rightarrow> mutation" where
  "useSetCover org xid = \<lparr>m_call = sending PUT [Seg ''api'', Seg ''projects'', Raw xid, Seg ''cover''] True R_status,
     m_invalidates = [[KS (js ''projects''), KS org]], m_removes = []\<rparr>"

definition useCreateCustomNodeType :: "jsstr \<Rightarrow> mutation" where
  "useCreateCustomNodeType org = \<lparr>m_call = sending POST [Seg ''api'', Seg ''orgs'', Raw org, Seg ''custom-node-types''] True R_json,
     m_invalidates = [[KS (js ''custom-node-types''), KS org], [KS (js ''node-types''), KS org]], m_removes = []\<rparr>"

definition useUpdateCustomNodeType :: "jsstr \<Rightarrow> jsstr \<Rightarrow> mutation" where
  "useUpdateCustomNodeType org xid = \<lparr>m_call = sending PUT [Seg ''api'', Seg ''orgs'', Raw org, Seg ''custom-node-types'', Raw xid] True R_json,
     m_invalidates = [[KS (js ''custom-node-types''), KS org], [KS (js ''node-types''), KS org]], m_removes = []\<rparr>"

definition useDeleteCustomNodeType :: "jsstr \<Rightarrow> jsstr \<Rightarrow> mutation" where
  "useDeleteCustomNodeType org xid = \<lparr>m_call = sending DELETE [Seg ''api'', Seg ''orgs'', Raw org, Seg ''custom-node-types'', Raw xid] False R_json,
     m_invalidates = [[KS (js ''custom-node-types''), KS org], [KS (js ''node-types''), KS org]], m_removes = []\<rparr>"

definition useCreateOrgSecret :: "jsstr \<Rightarrow> mutation" where
  "useCreateOrgSecret org = \<lparr>m_call = sending POST [Seg ''api'', Seg ''orgs'', Raw org, Seg ''secrets''] True R_json,
     m_invalidates = [[KS (js ''org-secrets''), KS org]], m_removes = []\<rparr>"

definition useUpdateOrgSecret :: "jsstr \<Rightarrow> jsstr \<Rightarrow> mutation" where
  "useUpdateOrgSecret org name = \<lparr>m_call = sending PUT [Seg ''api'', Seg ''orgs'', Raw org, Seg ''secrets'', Enc name] True R_json,
     m_invalidates = [[KS (js ''org-secrets''), KS org]], m_removes = []\<rparr>"

definition useDeleteOrgSecret :: "jsstr \<Rightarrow> jsstr \<Rightarrow> mutation" where
  "useDeleteOrgSecret org name = \<lparr>m_call = sending DELETE [Seg ''api'', Seg ''orgs'', Raw org, Seg ''secrets'', Enc name] False R_json,
     m_invalidates = [[KS (js ''org-secrets''), KS org]], m_removes = []\<rparr>"

definition useUpdateAlertSettings :: "jsstr \<Rightarrow> mutation" where
  "useUpdateAlertSettings org = \<lparr>m_call = sending PUT [Seg ''api'', Seg ''orgs'', Raw org, Seg ''alert-settings''] True R_json,
     m_invalidates = [[KS (js ''alert-settings''), KS org]], m_removes = []\<rparr>"

definition useRepairCheck :: "mutation" where
  "useRepairCheck = \<lparr>m_call = sending POST [Seg ''api'', Seg ''platform'', Seg ''health'', Seg ''repair''] True R_json,
     m_invalidates = [[KS (js ''platform''), KS (js ''health'')]], m_removes = []\<rparr>"

definition create_org :: "mutation" where
  "create_org = \<lparr>m_call = sending POST [Seg ''api'', Seg ''orgs''] True R_json,
     m_invalidates = [[KS (js ''my-orgs'')]], m_removes = []\<rparr>"

text \<open>Requests outside of a query or mutation with effects on the cache.\<close>

definition fetchEvents :: "jsstr \<Rightarrow> nat \<Rightarrow> jsstr option \<Rightarrow> call" where
  "fetchEvents xid n plan = \<lparr>c_method = GET, c_path = [Seg ''api'', Seg ''projects'', Raw xid, Seg ''events''],
     c_query = Some ([63] @ form_string ((js ''afterSeq'', dec n) # param ''planId'' plan)), c_body = False, c_reads = R_json\<rparr>"

definition export_content :: "jsstr \<Rightarrow> jsstr option \<Rightarrow> call" where
  "export_content jobId tok = \<lparr>c_method = GET, c_path = [Seg ''api'', Seg ''exports'', Raw jobId, Seg ''content''],
     c_query = enc_query ''?token='' tok, c_body = False, c_reads = R_bytes\<rparr>"

definition resolveAssetUrl :: "jsstr \<Rightarrow> jsstr option \<Rightarrow> call" where
  "resolveAssetUrl xid tok = \<lparr>c_method = GET, c_path = [Seg ''api'', Seg ''assets'', Raw xid, Seg ''content''],
     c_query = enc_query ''?token='' tok, c_body = False, c_reads = R_bytes\<rparr>"

definition streamRunEvents :: "jsstr \<Rightarrow> jsstr option \<Rightarrow> call" where
  "streamRunEvents xid plan = \<lparr>c_method = GET, c_path = [Seg ''api'', Seg ''projects'', Raw xid, Seg ''events'', Seg ''stream''],
     c_query = enc_query ''?planId='' plan, c_body = False, c_reads = R_stream\<rparr>"

definition useListModels :: "jsstr \<Rightarrow> call" where
  "useListModels org = \<lparr>c_method = POST, c_path = [Seg ''api'', Seg ''orgs'', Raw org, Seg ''model-configs'', Seg ''list-models''],
     c_query = Some [], c_body = True, c_reads = R_json\<rparr>"

definition useRevealModelKey :: "jsstr \<Rightarrow> jsstr \<Rightarrow> call" where
  "useRevealModelKey org xid = \<lparr>c_method = GET, c_path = [Seg ''api'', Seg ''orgs'', Raw org, Seg ''model-configs'', Raw xid, Seg ''reveal''],
     c_query = Some [], c_body = False, c_reads = R_json\<rparr>"

definition acceptInvite :: "jsstr \<Rightarrow> call" where
  "acceptInvite token = \<lparr>c_method = POST, c_path = [Seg ''api'', Seg ''invites'', Enc token, Seg ''accept''],
     c_query = Some [], c_body = False, c_reads = R_json\<rparr>"

definition useBuildPrompt :: "call" where
  "useBuildPrompt = \<lparr>c_method = POST, c_path = [Seg ''api'', Seg ''prompt'', Seg ''build''],
     c_query = Some [], c_body = True, c_reads = R_json\<rparr>"

definition fetchRole :: "jsstr \<Rightarrow> call" where
  "fetchRole org = \<lparr>c_method = GET, c_path = [Seg ''api'', Seg ''orgs'', Raw org, Seg ''members'', Seg ''me''],
     c_query = Some [], c_body = False, c_reads = R_json\<rparr>"

definition register_call :: "call" where
  "register_call = \<lparr>c_method = POST, c_path = [Seg ''api'', Seg ''auth'', Seg ''register''],
     c_query = Some [], c_body = True, c_reads = R_json\<rparr>"

definition verify_call :: "call" where
  "verify_call = \<lparr>c_method = POST, c_path = [Seg ''api'', Seg ''auth'', Seg ''verify''],
     c_query = Some [], c_body = True, c_reads = R_json\<rparr>"

definition resend_call :: "call" where
  "resend_call = \<lparr>c_method = POST, c_path = [Seg ''api'', Seg ''auth'', Seg ''resend-verification''],
     c_query = Some [], c_body = True, c_reads = R_status\<rparr>"

text \<open>A query is looked up again after a mutation when its key begins with one that the mutation
  invalidates or removes.\<close>

definition key_matches :: "query_key list \<Rightarrow> query_key list \<Rightarrow> bool" where
  "key_matches k key \<longleftrightarrow> take (length k) key = k"

definition refreshes :: "mutation \<Rightarrow> query_key list \<Rightarrow> bool" where
  "refreshes m key \<longleftrightarrow> list_ex (\<lambda>k. key_matches k key) (m_invalidates m @ m_removes m)"

section \<open>The router\<close>

datatype answer_kind = A_json | A_empty | A_bytes | A_stream

record route =
  r_method :: http_method
  r_pattern :: string
  r_gate :: "route_gate option"
  r_answer :: answer_kind

definition route :: "http_method \<Rightarrow> string \<Rightarrow> route_gate option \<Rightarrow> answer_kind \<Rightarrow> route" where
  "route m p g a = \<lparr>r_method = m, r_pattern = p, r_gate = g, r_answer = a\<rparr>"

definition account_routes :: "route list" where
  "account_routes = [
     route POST ''/api/auth/register'' None A_json,
     route POST ''/api/auth/verify'' None A_json,
     route POST ''/api/auth/resend-verification'' None A_json]"

definition org_routes :: "route list" where
  "org_routes = [
     route POST ''/api/orgs'' (Some RG_auth) A_json,
     route GET ''/api/orgs'' (Some RG_auth) A_json,
     route POST ''/api/orgs/{org}/projects'' (Some (RG_org OR_editor)) A_json,
     route GET ''/api/orgs/{org}/projects'' (Some (RG_org OR_viewer)) A_json,
     route GET ''/api/orgs/{org}/tasks'' (Some (RG_org OR_viewer)) A_json,
     route GET ''/api/orgs/{org}/workflow-templates'' (Some (RG_org OR_viewer)) A_json,
     route POST ''/api/orgs/{org}/workflow-templates'' (Some (RG_org OR_editor)) A_json,
     route DELETE ''/api/orgs/{org}/workflow-templates/{id}'' (Some (RG_org OR_editor)) A_empty]"

definition project_routes :: "route list" where
  "project_routes = [
     route GET ''/api/projects/{id}'' (Some (RG_org OR_viewer)) A_json,
     route PUT ''/api/projects/{id}'' (Some (RG_org OR_editor)) A_json,
     route DELETE ''/api/projects/{id}'' (Some (RG_org OR_admin)) A_json,
     route POST ''/api/projects/{id}/cancel'' (Some (RG_org OR_editor)) A_json,
     route GET ''/api/projects/{id}/plans'' (Some (RG_org OR_viewer)) A_json,
     route GET ''/api/projects/{id}/state'' (Some (RG_org OR_viewer)) A_json,
     route GET ''/api/projects/{id}/events'' (Some (RG_org OR_viewer)) A_json,
     route GET ''/api/projects/{id}/events/stream'' (Some (RG_org OR_viewer)) A_stream,
     route GET ''/api/projects/{id}/todos'' (Some (RG_org OR_viewer)) A_json,
     route GET ''/api/projects/{id}/script'' (Some (RG_org OR_viewer)) A_json,
     route GET ''/api/projects/{id}/shots'' (Some (RG_org OR_viewer)) A_json,
     route GET ''/api/projects/{id}/assets'' (Some (RG_org OR_viewer)) A_json]"

definition workflow_routes :: "route list" where
  "workflow_routes = [
     route GET ''/api/projects/{id}/workflows'' (Some (RG_org OR_viewer)) A_json,
     route POST ''/api/projects/{id}/workflows'' (Some (RG_org OR_editor)) A_json,
     route POST ''/api/projects/{id}/workflows/from-template'' (Some (RG_org OR_editor)) A_json,
     route PUT ''/api/projects/{id}/workflows/{wfId}'' (Some (RG_org OR_editor)) A_json,
     route DELETE ''/api/projects/{id}/workflows/{wfId}'' (Some (RG_org OR_editor)) A_json,
     route POST ''/api/projects/{id}/workflows/{wfId}/run'' (Some (RG_org OR_editor)) A_json]"

definition media_routes :: "route list" where
  "media_routes = [
     route POST ''/api/projects/{id}/cover/generate'' (Some (RG_org OR_editor)) A_json,
     route POST ''/api/projects/{id}/cover/upload'' (Some (RG_org OR_editor)) A_json,
     route PUT ''/api/projects/{id}/cover'' (Some (RG_org OR_editor)) A_json,
     route GET ''/api/projects/{id}/cover/options'' (Some (RG_org OR_viewer)) A_json,
     route POST ''/api/projects/{id}/lyrics-audio'' (Some (RG_org OR_editor)) A_json,
     route POST ''/api/projects/{id}/exports'' (Some (RG_org OR_editor)) A_json,
     route GET ''/api/projects/{id}/exports'' (Some (RG_org OR_viewer)) A_json,
     route GET ''/api/projects/{id}/exports/{jobId}'' (Some (RG_org OR_viewer)) A_json,
     route GET ''/api/exports/{id}/content'' (Some (RG_org OR_viewer)) A_bytes]"

definition prompt_routes :: "route list" where
  "prompt_routes = [
     route GET ''/api/node-types/builtin'' (Some RG_auth) A_json,
     route GET ''/api/prompt-styles'' (Some RG_auth) A_json,
     route GET ''/api/prompt-presets'' (Some RG_auth) A_json,
     route POST ''/api/prompt/build'' (Some RG_auth) A_json,
     route GET ''/api/orgs/{org}/prompts'' (Some (RG_org OR_viewer)) A_json,
     route POST ''/api/orgs/{org}/prompts'' (Some (RG_org OR_editor)) A_json,
     route PUT ''/api/orgs/{org}/prompts/{id}'' (Some (RG_org OR_editor)) A_json,
     route PUT ''/api/orgs/{org}/prompts/{id}/default'' (Some (RG_org OR_editor)) A_json,
     route DELETE ''/api/orgs/{org}/prompts/{id}'' (Some (RG_org OR_editor)) A_json]"

definition asset_routes :: "route list" where
  "asset_routes = [
     route POST ''/api/assets/{id}/accept'' (Some (RG_org OR_admin)) A_json,
     route POST ''/api/assets/{id}/reject'' (Some (RG_org OR_admin)) A_json,
     route POST ''/api/assets/{id}/regenerate'' (Some (RG_org OR_admin)) A_json,
     route GET ''/api/orgs/{org}/assets'' (Some (RG_org OR_viewer)) A_json,
     route GET ''/api/assets/{id}'' (Some (RG_org OR_viewer)) A_json,
     route GET ''/api/assets/{id}/content'' (Some (RG_org OR_viewer)) A_bytes,
     route GET ''/api/blob/{key...}'' None A_bytes,
     route GET ''/healthz'' None A_json,
     route GET ''/metrics'' None A_bytes]"

definition model_routes :: "route list" where
  "model_routes = [
     route GET ''/api/model-catalog'' (Some RG_auth) A_json,
     route POST ''/api/orgs/{org}/model-configs/list-models'' (Some (RG_org OR_admin)) A_json,
     route POST ''/api/orgs/{org}/model-configs'' (Some (RG_org OR_admin)) A_json,
     route GET ''/api/orgs/{org}/model-configs'' (Some (RG_org OR_admin)) A_json,
     route PUT ''/api/orgs/{org}/model-configs/{id}'' (Some (RG_org OR_admin)) A_json,
     route DELETE ''/api/orgs/{org}/model-configs/{id}'' (Some (RG_org OR_admin)) A_json,
     route GET ''/api/orgs/{org}/model-configs/{id}/reveal'' (Some (RG_org OR_admin)) A_json]"

definition storage_routes :: "route list" where
  "storage_routes = [
     route GET ''/api/orgs/{org}/storage-configs'' (Some (RG_org OR_admin)) A_json,
     route POST ''/api/orgs/{org}/storage-configs'' (Some (RG_org OR_admin)) A_json,
     route PUT ''/api/orgs/{org}/storage-configs/{id}'' (Some (RG_org OR_admin)) A_json,
     route DELETE ''/api/orgs/{org}/storage-configs/{id}'' (Some (RG_org OR_admin)) A_json,
     route POST ''/api/orgs/{org}/storage-configs/{id}/default'' (Some (RG_org OR_admin)) A_json]"

definition node_type_routes :: "route list" where
  "node_type_routes = [
     route GET ''/api/orgs/{org}/node-types'' (Some (RG_org OR_viewer)) A_json,
     route GET ''/api/orgs/{org}/custom-node-types'' (Some (RG_org OR_viewer)) A_json,
     route POST ''/api/orgs/{org}/custom-node-types'' (Some (RG_org OR_editor)) A_json,
     route PUT ''/api/orgs/{org}/custom-node-types/{id}'' (Some (RG_org OR_editor)) A_json,
     route DELETE ''/api/orgs/{org}/custom-node-types/{id}'' (Some (RG_org OR_editor)) A_json]"

definition setting_routes :: "route list" where
  "setting_routes = [
     route GET ''/api/orgs/{org}/secrets'' (Some (RG_org OR_admin)) A_json,
     route POST ''/api/orgs/{org}/secrets'' (Some (RG_org OR_admin)) A_json,
     route PUT ''/api/orgs/{org}/secrets/{name}'' (Some (RG_org OR_admin)) A_json,
     route DELETE ''/api/orgs/{org}/secrets/{name}'' (Some (RG_org OR_admin)) A_json,
     route GET ''/api/orgs/{org}/alert-settings'' (Some (RG_org OR_admin)) A_json,
     route PUT ''/api/orgs/{org}/alert-settings'' (Some (RG_org OR_admin)) A_json,
     route GET ''/api/orgs/{org}/audit-log'' (Some (RG_org OR_admin)) A_json]"

definition member_routes :: "route list" where
  "member_routes = [
     route GET ''/api/orgs/{org}/members'' (Some (RG_org OR_viewer)) A_json,
     route GET ''/api/orgs/{org}/members/me'' (Some (RG_org OR_viewer)) A_json,
     route POST ''/api/orgs/{org}/members'' (Some (RG_org OR_admin)) A_json,
     route PUT ''/api/orgs/{org}/members/{userId}'' (Some (RG_org OR_admin)) A_json,
     route DELETE ''/api/orgs/{org}/members/{userId}'' (Some (RG_org OR_admin)) A_json,
     route GET ''/api/orgs/{org}/invites'' (Some (RG_org OR_admin)) A_json,
     route POST ''/api/orgs/{org}/invites'' (Some (RG_org OR_admin)) A_json,
     route DELETE ''/api/orgs/{org}/invites/{id}'' (Some (RG_org OR_admin)) A_json,
     route POST ''/api/invites/{token}/accept'' (Some RG_auth) A_json]"

definition platform_routes :: "route list" where
  "platform_routes = [
     route GET ''/api/platform/whoami'' (Some RG_auth) A_json,
     route GET ''/api/platform/storage-config/global'' (Some RG_platform) A_json,
     route PUT ''/api/platform/storage-config/global'' (Some RG_platform) A_json,
     route GET ''/api/platform/mail-config/global'' (Some RG_platform) A_json,
     route PUT ''/api/platform/mail-config/global'' (Some RG_platform) A_json,
     route GET ''/api/platform/orgs'' (Some RG_platform) A_json,
     route GET ''/api/platform/admins'' (Some RG_platform) A_json,
     route POST ''/api/platform/admins'' (Some RG_platform) A_json,
     route DELETE ''/api/platform/admins/{userId}'' (Some RG_platform) A_json,
     route GET ''/api/platform/users'' (Some RG_platform) A_json,
     route GET ''/api/platform/users/{userId}'' (Some RG_platform) A_json,
     route DELETE ''/api/platform/users/{userId}'' (Some RG_platform) A_json,
     route POST ''/api/platform/users/{userId}/reset-password'' (Some RG_platform) A_json,
     route GET ''/api/platform/health'' (Some RG_platform) A_json,
     route POST ''/api/platform/health/repair'' (Some RG_platform) A_json,
     route GET ''/api/platform/health/events'' (Some RG_platform) A_json]"

definition cost_routes :: "route list" where
  "cost_routes = [
     route GET ''/api/orgs/{org}/cost'' (Some (RG_org OR_admin)) A_json,
     route GET ''/api/projects/{id}/cost'' (Some (RG_org OR_admin)) A_json,
     route GET ''/api/projects/{id}/plans/{planId}/cost'' (Some (RG_org OR_admin)) A_json,
     route GET ''/api/orgs/{org}/cost/projects'' (Some (RG_org OR_admin)) A_json,
     route GET ''/api/orgs/{org}/cost/by-member'' (Some (RG_org OR_admin)) A_json,
     route GET ''/api/orgs/{org}/generations'' (Some (RG_org OR_admin)) A_json]"

definition ROUTES :: "route list" where
  "ROUTES = account_routes @ org_routes @ project_routes @ workflow_routes @ media_routes @ prompt_routes @ asset_routes @ model_routes @ storage_routes @ node_type_routes @ setting_routes @ member_routes @ platform_routes @ cost_routes"

text \<open>A pattern is split at its slashes, \<open>{name}\<close> is a wildcard, \<open>{name...}\<close> takes the rest.\<close>

datatype 'a pattern_segment = PLit 'a | PWild | PRest

fun split_pattern :: "string \<Rightarrow> string \<Rightarrow> string list" where
  "split_pattern acc [] = [acc]"
| "split_pattern acc (c # s) = (if c = CHR ''/'' then acc # split_pattern [] s else split_pattern (acc @ [c]) s)"

definition pattern_segment :: "string \<Rightarrow> string pattern_segment" where
  "pattern_segment s = (if s = [] \<or> hd s \<noteq> CHR ''{'' then PLit s
     else if take 4 (rev s) = ''}...'' then PRest else PWild)"

definition pattern_segments :: "string \<Rightarrow> string pattern_segment list" where
  "pattern_segments p = map pattern_segment (tl (split_pattern [] p))"

text \<open>The path of a request: the text up to the query, split at the slashes, each segment unescaped.
  Dot segments would be resolved by the browser into another path, they are no request here.\<close>

fun split_path :: "jsstr \<Rightarrow> jsstr \<Rightarrow> jsstr list" where
  "split_path acc [] = [acc]"
| "split_path acc (c # s) = (if c = 47 then acc # split_path [] s else split_path (acc @ [c]) s)"

definition unhex :: "nat \<Rightarrow> nat \<Rightarrow> nat option" where
  "unhex a b = (case (digit_value a, digit_value b) of (Some x, Some y) \<Rightarrow> Some (16 * x + y) | _ \<Rightarrow> None)"

fun unescape_segment :: "jsstr \<Rightarrow> nat list option" where
  "unescape_segment [] = Some []"
| "unescape_segment (c # s) = (if c \<noteq> 37 then map_option (Cons c) (unescape_segment s)
     else (case s of a # b # r \<Rightarrow> (case unhex a b of None \<Rightarrow> None | Some v \<Rightarrow> map_option (Cons v) (unescape_segment r))
       | _ \<Rightarrow> None))"

definition request_segments :: "jsstr \<Rightarrow> nat list list option" where
  "request_segments t = (let xs = tl (split_path [] (takeWhile (\<lambda>c. c \<noteq> 63) t)) in
     if list_ex (\<lambda>x. x = js ''.'' \<or> x = js ''..'') xs then None else those (map unescape_segment xs))"

text \<open>The values of the wildcards, if the pattern matches: a wildcard takes a segment that is not empty.\<close>

fun match_segments :: "string pattern_segment list \<Rightarrow> nat list list \<Rightarrow> nat list list option" where
  "match_segments [] [] = Some []"
| "match_segments [PRest] xs = Some [concat xs]"
| "match_segments (PLit s # ps) (x # xs) = (if x = js s then match_segments ps xs else None)"
| "match_segments (PWild # ps) (x # xs) = (if x = [] then None else map_option (Cons x) (match_segments ps xs))"
| "match_segments ps xs = None"

definition matching :: "http_method \<Rightarrow> nat list list \<Rightarrow> (route \<times> nat list list) list" where
  "matching m xs = List.map_filter (\<lambda>r. if r_method r = m
     then map_option (Pair r) (match_segments (pattern_segments (r_pattern r)) xs) else None) ROUTES"

text \<open>The routes that a request reaches, with the values of the wildcards. The page of the application
  answers a \<open>GET\<close> that no route takes.\<close>

definition dispatch :: "http_method \<Rightarrow> jsstr \<Rightarrow> (route \<times> nat list list) list" where
  "dispatch m t = (case request_segments t of None \<Rightarrow> [] | Some xs \<Rightarrow> matching m xs)"

fun serves_use :: "answer_kind \<Rightarrow> answer_use \<Rightarrow> bool" where
  "serves_use a R_json = (a = A_json)"
| "serves_use a R_status = (a = A_json \<or> a = A_empty)"
| "serves_use a R_bytes = (a = A_bytes)"
| "serves_use a R_stream = (a = A_stream)"

section \<open>All requests\<close>

text \<open>The requests with their parameters: an organisation, a project, a further id, a name, and the
  values of the query strings.\<close>

definition queries :: "jsstr \<Rightarrow> jsstr \<Rightarrow> jsstr \<Rightarrow> jsstr \<Rightarrow> jsstr option \<Rightarrow> jsstr \<Rightarrow> nat \<Rightarrow> time_range \<Rightarrow> library_filter
    \<Rightarrow> bool \<Rightarrow> query list" where
  "queries org project item name opt cursor n rg f on = [
     useProject project,
     useProjectState project opt,
     useScript project opt opt,
     useShots project opt opt,
     useProjectAssets project opt opt,
     usePlans project,
     usePlanCost project item,
     useExportJob project (Some item),
     useOrgCost org (js ''week'') rg,
     useOrgCostProjects org (js ''week'') rg,
     useOrgCostMembers org (js ''week'') rg,
     useGenerations org n cursor,
     useModelCatalog,
     useModelConfigs org,
     useOrgTextModels org,
     useOrgImageModels org,
     usePlatformWhoami,
     usePlatformOrgs,
     usePlatformAdmins,
     usePlatformUsers,
     usePlatformUserDetail (Some name),
     useGlobalMailConfig,
     useOrgMembers org,
     useOrgInvites org,
     useWorkflows project,
     useStorageConfigs org,
     useGlobalStorageConfig,
     useBasicPrompts,
     usePrompts org,
     useReviewQueue org opt cursor,
     useAsset item,
     useProjects org,
     usePromptStyles,
     useWorkflowTemplates org,
     useCoverOptions project on,
     useCustomNodeTypes org,
     useOrgSecrets org,
     useTaskBoard org,
     useAlertSettings org,
     useAuditLog org n cursor,
     useHealthReport,
     useHealthEvents n,
     useLibrary org f cursor,
     useBuiltinNodeTypes,
     useNodeTypes org,
     useMyOrgs]"

definition mutations :: "jsstr \<Rightarrow> jsstr \<Rightarrow> jsstr \<Rightarrow> jsstr \<Rightarrow> bool \<Rightarrow> mutation list" where
  "mutations org project item name on = [
     useCancel project,
     useRegenerateAsset item,
     useLyricsAudio project,
     useCreateExport project,
     useCreateModelConfig org,
     useUpdateModelConfig org item,
     useDeleteModelConfig org item,
     useGrantPlatformAdmin,
     useRevokePlatformAdmin name,
     useDeleteUser name,
     useResetUserPassword name,
     useUpsertGlobalMailConfig,
     useAddMember org,
     useSetMemberRole org name,
     useRemoveMember org name,
     useCreateInvite org,
     useRevokeInvite org name,
     useCreateWorkflow project,
     useUpdateWorkflow project item,
     useDeleteWorkflow project item,
     useRunWorkflow project item on,
     useCreateStorageConfig org,
     useUpdateStorageConfig org item,
     useDeleteStorageConfig org item,
     useSetDefaultStorageConfig org item,
     useUpsertGlobalStorageConfig,
     useCreatePrompt org,
     useUpdatePrompt org item,
     useSetPromptDefault org item,
     useDeletePrompt org item,
     useAccept org item,
     useReject org item,
     useRegenerate org item,
     useCreateProject org,
     useUpdateProject org project,
     useDeleteProject org project,
     useInstantiateTemplate project,
     useSaveTemplate org,
     useDeleteTemplate org item,
     useGenerateCover org project,
     useUploadCover org project,
     useSetCover org project,
     useCreateCustomNodeType org,
     useUpdateCustomNodeType org item,
     useDeleteCustomNodeType org item,
     useCreateOrgSecret org,
     useUpdateOrgSecret org name,
     useDeleteOrgSecret org name,
     useUpdateAlertSettings org,
     useRepairCheck,
     create_org]"

definition other_calls :: "jsstr \<Rightarrow> jsstr \<Rightarrow> jsstr \<Rightarrow> jsstr \<Rightarrow> jsstr option \<Rightarrow> nat \<Rightarrow> call list" where
  "other_calls org project item name opt n = [
     fetchEvents project n opt,
     export_content item opt,
     resolveAssetUrl item opt,
     streamRunEvents project opt,
     useListModels org,
     useRevealModelKey org item,
     acceptInvite name,
     useBuildPrompt,
     fetchRole org,
     register_call,
     verify_call,
     resend_call]"

text \<open>The mutations that change what a query reads: on its path, on an item of it, on the default mark
  or a run of an item.\<close>

definition in_collection :: "query \<Rightarrow> mutation \<Rightarrow> bool" where
  "in_collection q m \<longleftrightarrow> (let p = c_path (q_call q); p' = c_path (m_call m); k = length p in
     take k p' = p \<and> (case last p of Seg x \<Rightarrow> True | _ \<Rightarrow> False)
     \<and> (length p' \<le> k + 1 \<or> length p' = k + 2 \<and> last p' \<in> {Seg ''default'', Seg ''run''}))"

definition all_calls :: "jsstr \<Rightarrow> jsstr \<Rightarrow> jsstr \<Rightarrow> jsstr \<Rightarrow> jsstr option \<Rightarrow> jsstr \<Rightarrow> nat \<Rightarrow> time_range \<Rightarrow> library_filter
    \<Rightarrow> bool \<Rightarrow> call list" where
  "all_calls org project item name opt cursor n rg f on = map q_call (queries org project item name opt cursor n rg f on)
     @ map m_call (mutations org project item name on) @ other_calls org project item name opt n"

lemmas query_defs = useProject_def useProjectState_def useScript_def useShots_def useProjectAssets_def usePlans_def usePlanCost_def useExportJob_def useOrgCost_def useOrgCostProjects_def useOrgCostMembers_def useGenerations_def useModelCatalog_def useModelConfigs_def useOrgTextModels_def useOrgImageModels_def usePlatformWhoami_def usePlatformOrgs_def usePlatformAdmins_def usePlatformUsers_def usePlatformUserDetail_def useGlobalMailConfig_def useOrgMembers_def useOrgInvites_def useWorkflows_def useStorageConfigs_def useGlobalStorageConfig_def useBasicPrompts_def usePrompts_def useReviewQueue_def useAsset_def useProjects_def usePromptStyles_def useWorkflowTemplates_def useCoverOptions_def useCustomNodeTypes_def useOrgSecrets_def useTaskBoard_def useAlertSettings_def useAuditLog_def useHealthReport_def useHealthEvents_def useLibrary_def useBuiltinNodeTypes_def useNodeTypes_def useMyOrgs_def
lemmas mutation_defs = useCancel_def useRegenerateAsset_def useLyricsAudio_def useCreateExport_def useCreateModelConfig_def useUpdateModelConfig_def useDeleteModelConfig_def useGrantPlatformAdmin_def useRevokePlatformAdmin_def useDeleteUser_def useResetUserPassword_def useUpsertGlobalMailConfig_def useAddMember_def useSetMemberRole_def useRemoveMember_def useCreateInvite_def useRevokeInvite_def useCreateWorkflow_def useUpdateWorkflow_def useDeleteWorkflow_def useRunWorkflow_def useCreateStorageConfig_def useUpdateStorageConfig_def useDeleteStorageConfig_def useSetDefaultStorageConfig_def useUpsertGlobalStorageConfig_def useCreatePrompt_def useUpdatePrompt_def useSetPromptDefault_def useDeletePrompt_def useAccept_def useReject_def useRegenerate_def useCreateProject_def useUpdateProject_def useDeleteProject_def useInstantiateTemplate_def useSaveTemplate_def useDeleteTemplate_def useGenerateCover_def useUploadCover_def useSetCover_def useCreateCustomNodeType_def useUpdateCustomNodeType_def useDeleteCustomNodeType_def useCreateOrgSecret_def useUpdateOrgSecret_def useDeleteOrgSecret_def useUpdateAlertSettings_def useRepairCheck_def create_org_def
lemmas call_defs = fetchEvents_def export_content_def resolveAssetUrl_def streamRunEvents_def useListModels_def useRevealModelKey_def acceptInvite_def useBuildPrompt_def fetchRole_def register_call_def verify_call_def resend_call_def

section \<open>A path reaches the server\<close>

lemma uri_byte_cases: "uri_byte b = [b] \<and> unreserved b \<or> uri_byte b = [37, hex_digit (b div 16), hex_digit (b mod 16)]"
  by (simp add: uri_byte_def)

lemma unhex_digits: "b < 256 \<Longrightarrow> unhex (hex_digit (b div 16)) (hex_digit (b mod 16)) = Some b"
proof -
  assume "b < 256"
  then have "b div 16 < 16" "b mod 16 < 16" by (simp_all add: less_mult_imp_div_less)
  moreover have "digit_value (hex_digit d) = Some d" if "d < 16" for d
    using that by (auto simp: digit_value_def hex_digit_def)
  ultimately show ?thesis by (simp add: unhex_def)
qed

lemma unescape_append_byte:
  "b < 256 \<Longrightarrow> unescape_segment (uri_byte b @ s) = map_option (Cons b) (unescape_segment s)"
  using uri_byte_cases [of b] by (auto simp: unhex_digits unreserved_def)

lemma unescape_encoded: "list_all (\<lambda>b. b < 256) bs \<Longrightarrow> unescape_segment (concat (map uri_byte bs)) = Some bs"
  by (induction bs) (simp_all add: unescape_append_byte)

lemma unescape_plain: "37 \<notin> set s \<Longrightarrow> unescape_segment s = Some s"
  by (induction s) auto

lemma hex_digit_unreserved: "d < 16 \<Longrightarrow> unreserved (hex_digit d)"
  by (cases "d < 10") (simp_all add: hex_digit_def unreserved_def)

lemma uri_byte_chars: "c \<in> set (uri_byte b) \<Longrightarrow> b < 256 \<Longrightarrow> c = 37 \<or> unreserved c"
  using uri_byte_cases [of b] hex_digit_unreserved [of "b div 16"] hex_digit_unreserved [of "b mod 16"]
  by (auto simp: less_mult_imp_div_less)

lemma encoded_no_percent: "37 \<notin> set (concat (map uri_byte bs)) \<Longrightarrow> concat (map uri_byte bs) = bs"
proof (induction bs)
  case (Cons b bs)
  then show ?case using uri_byte_cases [of b] by auto
qed simp

lemma utf8_bytes: "c < 0x110000 \<Longrightarrow> list_all (\<lambda>b. b < 256) (utf8 c)"
  by (auto simp: utf8_def)

lemma pair_bound: "c < 0xDC00 \<Longrightarrow> d < 0xE000 \<Longrightarrow> (c - 0xD800) * 0x400 + d < (1104896::nat)"
proof -
  assume "c < 0xDC00" "d < 0xE000"
  then have "c - 0xD800 \<le> 0x3FF" "d \<le> 0xDFFF" by simp_all
  then show ?thesis by linarith
qed

lemma code_points_bound: "units s \<Longrightarrow> list_all (\<lambda>c. c < 0x110000) (code_points s)"
proof (induction s rule: code_points.induct)
  case (3 c d s)
  then show ?case using pair_bound [of c d] by (simp add: units_def)
qed (simp_all add: units_def)

lemma text_bytes_small: "units s \<Longrightarrow> list_all (\<lambda>b. b < 256) (text_bytes s)"
  using utf8_bytes code_points_bound [of s] by (fastforce simp: text_bytes_def list_all_iff)

text \<open>Ids as the server draws them, and names: any text, but not empty nor a dot segment.\<close>

definition plain :: "jsstr \<Rightarrow> bool" where
  "plain x \<longleftrightarrow> x \<noteq> [] \<and> list_all (\<lambda>c. c = 45 \<or> c = 95 \<or> 48 \<le> c \<and> c \<le> 57 \<or> 65 \<le> c \<and> c \<le> 90 \<or> 97 \<le> c \<and> c \<le> 122) x"

definition nameable :: "jsstr \<Rightarrow> bool" where
  "nameable x \<longleftrightarrow> units x \<and> well_formed x \<and> text_bytes x \<notin> {[], js ''.'', js ''..''}"

lemma plain_chars: "plain x \<Longrightarrow> c \<in> set x \<Longrightarrow> c < 128 \<and> unreserved c \<and> c \<notin> {37, 46, 47, 63}"
  by (auto simp: plain_def list_all_iff unreserved_def)

lemma plain_free: "plain x \<Longrightarrow> x \<noteq> [] \<and> 37 \<notin> set x \<and> 46 \<notin> set x \<and> 47 \<notin> set x \<and> 63 \<notin> set x
    \<and> x \<noteq> js ''.'' \<and> x \<noteq> js ''..''"
  using plain_chars [of x] by (auto simp: plain_def js_def)

lemma ascii_code_points: "list_all (\<lambda>c. c < 128) x \<Longrightarrow> code_points x = x \<and> well_formed x"
  by (induction x rule: code_points.induct) auto

lemma ascii_bytes: "list_all (\<lambda>c. c < 128) x \<Longrightarrow> text_bytes x = x"
  by (simp add: text_bytes_def ascii_code_points) (induction x; simp add: utf8_def)

lemma plain_ascii: "plain x \<Longrightarrow> list_all (\<lambda>c. c < 128) x"
  using plain_chars [of x] by (auto simp: list_all_iff)

lemma plain_bytes: "plain x \<Longrightarrow> text_bytes x = x"
  by (rule ascii_bytes [OF plain_ascii])

lemma plain_nameable: "plain x \<Longrightarrow> nameable x"
proof -
  assume p: "plain x"
  then have "x \<noteq> []" "46 \<notin> set x" using plain_chars [of x 46] by (auto simp: plain_def)
  moreover have "units x" using plain_chars [OF p] by (fastforce simp: units_def list_all_iff)
  ultimately show ?thesis
    using plain_bytes [OF p] ascii_code_points [OF plain_ascii [OF p]] by (auto simp: nameable_def js_def)
qed

section \<open>Segments\<close>

fun segment_bytes :: "url_segment \<Rightarrow> nat list" where
  "segment_bytes (Seg s) = js s"
| "segment_bytes (Raw x) = x"
| "segment_bytes (Enc x) = text_bytes x"

fun segment_ok :: "url_segment \<Rightarrow> bool" where
  "segment_ok (Seg s) = plain (js s)"
| "segment_ok (Raw x) = plain x"
| "segment_ok (Enc x) = nameable x"

lemma segment_text_ok:
  assumes "segment_ok u"
  obtains t where "segment_text u = Some t" "47 \<notin> set t" "63 \<notin> set t" "t \<noteq> js ''.''" "t \<noteq> js ''..''"
    "unescape_segment t = Some (segment_bytes u)" "segment_bytes u \<noteq> []"
proof (cases u)
  case (Enc x)
  let ?t = "concat (map uri_byte (text_bytes x))"
  have n: "well_formed x" "text_bytes x \<notin> {[], js ''.'', js ''..''}" and b: "list_all (\<lambda>b. b < 256) (text_bytes x)"
    using assms Enc by (auto simp: nameable_def text_bytes_small)
  have u: "c = 37 \<or> unreserved c" if "c \<in> set ?t" for c
    using that b uri_byte_chars by (fastforce simp: list_all_iff)
  have "\<not> unreserved 47" "\<not> unreserved 63" by (simp_all add: unreserved_def)
  with u [of 47] u [of 63] have "47 \<notin> set ?t" "63 \<notin> set ?t" by fastforce+
  moreover have "?t \<noteq> d" if "37 \<notin> set d" "text_bytes x \<noteq> d" for d
    using encoded_no_percent [of "text_bytes x"] that by metis
  then have "?t \<noteq> js ''.''" "?t \<noteq> js ''..''" using n(2) by (simp_all add: js_def)
  moreover have "segment_text u = Some ?t" using n(1) by (simp add: Enc encodeURIComponent_def)
  ultimately show ?thesis using that [of ?t] unescape_encoded [OF b] n(2) Enc by simp
next
  case (Raw x)
  then have "plain x" using assms by simp
  from plain_free [OF this] show ?thesis using that [of x] Raw unescape_plain [of x] by simp
next
  case (Seg s)
  then have "plain (js s)" using assms by simp
  from plain_free [OF this] show ?thesis using that [of "js s"] Seg unescape_plain [of "js s"] by simp
qed

lemma split_path_append: "47 \<notin> set t \<Longrightarrow> split_path acc (t @ r) = split_path (acc @ t) r"
  by (induction t arbitrary: acc) auto

lemma path_text_ok:
  assumes "list_all segment_ok us"
  shows "\<exists>p ts. path_text us = Some p \<and> 63 \<notin> set p \<and> (\<forall>acc. split_path acc p = acc # ts)
    \<and> \<not> list_ex (\<lambda>x. x = js ''.'' \<or> x = js ''..'') ts \<and> those (map unescape_segment ts) = Some (map segment_bytes us)"
  using assms
proof (induction us)
  case Nil
  show ?case by simp
next
  case (Cons u us)
  then obtain p ts where p: "path_text us = Some p" "63 \<notin> set p" "\<forall>acc. split_path acc p = acc # ts"
    "\<not> list_ex (\<lambda>x. x = js ''.'' \<or> x = js ''..'') ts" "those (map unescape_segment ts) = Some (map segment_bytes us)" by auto
  from Cons.prems have "segment_ok u" by simp
  then obtain t where t: "segment_text u = Some t" "47 \<notin> set t" "63 \<notin> set t" "t \<noteq> js ''.''" "t \<noteq> js ''..''"
    "unescape_segment t = Some (segment_bytes u)" by (rule segment_text_ok)
  have "split_path acc (47 # t @ p) = acc # t # ts" for acc
    using p(3) split_path_append [OF t(2), of "[]" p] by simp
  with p t show ?case by (intro exI [of _ "47 # t @ p"] exI [of _ "t # ts"]) auto
qed

lemma request_segments_ok:
  assumes "list_all segment_ok us" and "path_text us = Some p" and "q = [] \<or> hd q = 63"
  shows "request_segments (p @ q) = Some (map segment_bytes us)"
proof -
  from path_text_ok [OF assms(1)] assms(2) obtain ts where ts: "63 \<notin> set p" "\<forall>acc. split_path acc p = acc # ts"
    "\<not> list_ex (\<lambda>x. x = js ''.'' \<or> x = js ''..'') ts" "those (map unescape_segment ts) = Some (map segment_bytes us)" by auto
  have "takeWhile (\<lambda>c. c \<noteq> 63) (p @ q) = p"
    using assms(3) ts(1) by (cases q) (auto simp: takeWhile_append)
  with ts show ?thesis by (simp add: request_segments_def)
qed

section \<open>Patterns and shapes\<close>

text \<open>What is known of a segment before its parameters are: the literal.\<close>

fun segment_shape :: "url_segment \<Rightarrow> string option" where
  "segment_shape (Seg s) = Some s"
| "segment_shape (Raw x) = None"
| "segment_shape (Enc x) = None"

fun may_match :: "'a pattern_segment list \<Rightarrow> 'a option list \<Rightarrow> bool" where
  "may_match [] [] = True"
| "may_match [PRest] xs = True"
| "may_match (PLit s # ps) (x # xs) = (if x = None \<or> x = Some s then may_match ps xs else False)"
| "may_match (PWild # ps) (x # xs) = may_match ps xs"
| "may_match ps xs = False"

fun must_match :: "'a pattern_segment list \<Rightarrow> 'a option list \<Rightarrow> bool" where
  "must_match [] [] = True"
| "must_match (PLit s # ps) (x # xs) = (x = Some s \<and> must_match ps xs)"
| "must_match (PWild # ps) (x # xs) = (x = None \<and> must_match ps xs)"
| "must_match ps xs = False"

definition parameters :: "url_segment list \<Rightarrow> nat list list" where
  "parameters us = map segment_bytes (filter (\<lambda>u. segment_shape u = None) us)"

lemma shape_bytes: "segment_shape u = Some s \<Longrightarrow> segment_bytes u = js s"
  by (cases u) auto

lemma match_may: "match_segments ps (map segment_bytes us) \<noteq> None \<Longrightarrow> may_match ps (map segment_shape us)"
proof (induction ps "map segment_shape us" arbitrary: us rule: may_match.induct)
  case (3 s ps x xs)
  then obtain u us' where u: "us = u # us'" "x = segment_shape u" "xs = map segment_shape us'" by (cases us) auto
  with 3(3) have "segment_bytes u = js s" "match_segments ps (map segment_bytes us') \<noteq> None" by (auto split: if_splits)
  with 3(1) [of us'] u show ?case by (cases "segment_shape u") (auto dest: shape_bytes)
next
  case (4 ps x xs)
  then obtain u us' where u: "us = u # us'" "xs = map segment_shape us'" by (cases us) auto
  with 4(3) have "match_segments ps (map segment_bytes us') \<noteq> None" by (auto split: if_splits)
  with 4(1) [of us'] u 4(2) show ?case by auto
qed auto

lemma must_match_values:
  "must_match ps (map segment_shape us) \<Longrightarrow> list_all segment_ok us \<Longrightarrow>
    match_segments ps (map segment_bytes us) = Some (parameters us)"
proof (induction ps "map segment_shape us" arbitrary: us rule: must_match.induct)
  case (2 s ps x xs)
  then obtain u us' where u: "us = u # us'" "x = segment_shape u" "xs = map segment_shape us'" by (cases us) auto
  with 2(1) [of us'] 2(3,4) show ?case by (auto simp: parameters_def dest: shape_bytes)
next
  case (3 ps x xs)
  then obtain u us' where u: "us = u # us'" "x = segment_shape u" "xs = map segment_shape us'" by (cases us) auto
  have "segment_bytes u \<noteq> []" using 3(4) u by (auto elim: segment_text_ok)
  with 3(1) [of us'] 3(3,4) u show ?case by (auto simp: parameters_def)
qed (auto simp: parameters_def)

lemma map_filter_single:
  assumes "\<And>x. x \<in> set xs \<Longrightarrow> g x \<noteq> None \<Longrightarrow> P x" and "filter P xs = [x]" and "g x = Some v"
  shows "List.map_filter g xs = [v]"
proof -
  have "List.map_filter g xs = List.map_filter g (filter P xs)"
    using assms(1) by (induction xs) (auto simp: List.map_filter_simps split: option.splits)
  with assms show ?thesis by (simp add: List.map_filter_simps)
qed

definition routable :: "http_method \<Rightarrow> string option list \<Rightarrow> answer_use \<Rightarrow> bool" where
  "routable m xs u = (case filter (\<lambda>r. r_method r = m \<and> may_match (pattern_segments (r_pattern r)) xs) ROUTES of
     [r] \<Rightarrow> must_match (pattern_segments (r_pattern r)) xs \<and> serves_use (r_answer r) u | _ \<Rightarrow> False)"

lemma routable_dispatch:
  assumes r: "routable m (map segment_shape us) use" and ok: "list_all segment_ok us"
    and t: "path_text us = Some p" "q = [] \<or> hd q = 63"
  shows "\<exists>r. dispatch m (p @ q) = [(r, parameters us)] \<and> r \<in> set ROUTES \<and> serves_use (r_answer r) use"
proof -
  let ?P = "\<lambda>r. r_method r = m \<and> may_match (pattern_segments (r_pattern r)) (map segment_shape us)"
  from r obtain r where f: "filter ?P ROUTES = [r]"
    and mm: "must_match (pattern_segments (r_pattern r)) (map segment_shape us)" and s: "serves_use (r_answer r) use"
    by (auto simp: routable_def split: list.splits)
  have "r \<in> set (filter ?P ROUTES)" unfolding f by simp
  then have rm: "r_method r = m" "r \<in> set ROUTES" unfolding set_filter by blast+
  have "matching m (map segment_bytes us) = [(r, parameters us)]"
    unfolding matching_def
  proof (rule map_filter_single [OF _ f])
    show "?P x" if "(if r_method x = m then map_option (Pair x) (match_segments (pattern_segments (r_pattern x))
        (map segment_bytes us)) else None) \<noteq> None" for x
      using that match_may [of "pattern_segments (r_pattern x)" us] by (auto split: if_splits)
  qed (simp add: rm must_match_values [OF mm ok])
  with request_segments_ok [OF ok t] s rm show ?thesis by (simp add: dispatch_def)
qed

section \<open>The query strings\<close>

definition query_ok :: "jsstr option \<Rightarrow> bool" where
  "query_ok q \<longleftrightarrow> (case q of None \<Rightarrow> False | Some t \<Rightarrow> t = [] \<or> hd t = 63)"

lemma query_ok_simps [simp]:
  "query_ok (Some [])" "query_ok (Some (63 # t))" "query_ok (params_query ps)" "query_ok (rangeQuery r)"
  by (simp_all add: query_ok_def params_query_def rangeQuery_def)

lemma question_mark: "js (CHR ''?'' # s) = 63 # js s"
  by (simp add: js_def)

lemma query_ok_text [simp]: "query_ok (Some (js (CHR ''?'' # s) @ t))"
  by (simp add: query_ok_def question_mark)

lemma query_ok_encoded [simp]: "(\<And>x. v = Some x \<Longrightarrow> well_formed x) \<Longrightarrow> query_ok (enc_query (CHR ''?'' # k) v)"
  by (cases v) (auto simp: enc_query_def truthy_def concat_query_def encodeURIComponent_def question_mark)

lemma cursor_part_some: "well_formed c \<Longrightarrow> \<exists>t. cursor_part c = Some t"
  by (auto simp: cursor_part_def concat_query_def encodeURIComponent_def)

lemma query_ok_page [simp]: "well_formed c \<Longrightarrow> query_ok (page_query n c)"
  using cursor_part_some [of c] by (auto simp: page_query_def concat_query_def question_mark)

lemma query_ok_library [simp]: "well_formed c \<Longrightarrow> query_ok (concat_query (63 # q) (cursor_part c))"
  using cursor_part_some [of c] by (auto simp: concat_query_def)

lemma call_dispatch:
  assumes "routable (c_method c) (map segment_shape (c_path c)) (c_reads c)" and "list_all segment_ok (c_path c)"
    and "query_ok (c_query c)"
  shows "\<exists>t r. call_text c = Some t \<and> dispatch (c_method c) t = [(r, parameters (c_path c))]
    \<and> r \<in> set ROUTES \<and> serves_use (r_answer r) (c_reads c)"
proof -
  from path_text_ok [OF assms(2)] obtain p where p: "path_text (c_path c) = Some p" by blast
  from assms(3) obtain q where q: "c_query c = Some q" "q = [] \<or> hd q = 63"
    by (auto simp: query_ok_def split: option.splits)
  from routable_dispatch [OF assms(1,2) p q(2)] p q(1) show ?thesis
    by (auto simp: call_text_def concat_query_def)
qed

lemma calls_query_ok:
  assumes "well_formed cursor" "\<And>x. opt = Some x \<Longrightarrow> well_formed x"
  shows "list_all (\<lambda>c. query_ok (c_query c)) (all_calls org project item name opt cursor n rg f on)"
  using assms by (simp add: all_calls_def queries_def mutations_def other_calls_def query_defs mutation_defs call_defs
      reading_def sending_def)

lemma calls_segments_ok:
  assumes "plain org" "plain project" "plain item" "nameable name"
  shows "list_all (\<lambda>c. list_all segment_ok (c_path c)) (all_calls org project item name opt cursor n rg f on)"
  using assms plain_nameable [of org] plain_nameable [of item]
  by (simp add: all_calls_def queries_def mutations_def other_calls_def query_defs mutation_defs call_defs
      reading_def sending_def) (simp add: plain_def js_def)

definition call_shape :: "call \<Rightarrow> http_method \<times> string option list \<times> answer_use" where
  "call_shape c = (c_method c, map segment_shape (c_path c), c_reads c)"

text \<open>The routes with their patterns split.\<close>

type_synonym route_row = "http_method \<times> string pattern_segment list \<times> answer_kind"

definition row_of :: "route \<Rightarrow> route_row" where
  "row_of r = (r_method r, pattern_segments (r_pattern r), r_answer r)"

definition account_rows :: "route_row list" where
  "account_rows = [
     (POST, [PLit ''api'', PLit ''auth'', PLit ''register''], A_json),
     (POST, [PLit ''api'', PLit ''auth'', PLit ''verify''], A_json),
     (POST, [PLit ''api'', PLit ''auth'', PLit ''resend-verification''], A_json)]"

lemma account_rows: "map row_of account_routes = account_rows"
  by code_simp

definition org_rows :: "route_row list" where
  "org_rows = [
     (POST, [PLit ''api'', PLit ''orgs''], A_json),
     (GET, [PLit ''api'', PLit ''orgs''], A_json),
     (POST, [PLit ''api'', PLit ''orgs'', PWild, PLit ''projects''], A_json),
     (GET, [PLit ''api'', PLit ''orgs'', PWild, PLit ''projects''], A_json),
     (GET, [PLit ''api'', PLit ''orgs'', PWild, PLit ''tasks''], A_json),
     (GET, [PLit ''api'', PLit ''orgs'', PWild, PLit ''workflow-templates''], A_json),
     (POST, [PLit ''api'', PLit ''orgs'', PWild, PLit ''workflow-templates''], A_json),
     (DELETE, [PLit ''api'', PLit ''orgs'', PWild, PLit ''workflow-templates'', PWild], A_empty)]"

lemma org_rows: "map row_of org_routes = org_rows"
  by code_simp

definition project_rows :: "route_row list" where
  "project_rows = [
     (GET, [PLit ''api'', PLit ''projects'', PWild], A_json),
     (PUT, [PLit ''api'', PLit ''projects'', PWild], A_json),
     (DELETE, [PLit ''api'', PLit ''projects'', PWild], A_json),
     (POST, [PLit ''api'', PLit ''projects'', PWild, PLit ''cancel''], A_json),
     (GET, [PLit ''api'', PLit ''projects'', PWild, PLit ''plans''], A_json),
     (GET, [PLit ''api'', PLit ''projects'', PWild, PLit ''state''], A_json),
     (GET, [PLit ''api'', PLit ''projects'', PWild, PLit ''events''], A_json),
     (GET, [PLit ''api'', PLit ''projects'', PWild, PLit ''events'', PLit ''stream''], A_stream),
     (GET, [PLit ''api'', PLit ''projects'', PWild, PLit ''todos''], A_json),
     (GET, [PLit ''api'', PLit ''projects'', PWild, PLit ''script''], A_json),
     (GET, [PLit ''api'', PLit ''projects'', PWild, PLit ''shots''], A_json),
     (GET, [PLit ''api'', PLit ''projects'', PWild, PLit ''assets''], A_json)]"

lemma project_rows: "map row_of project_routes = project_rows"
  by code_simp

definition workflow_rows :: "route_row list" where
  "workflow_rows = [
     (GET, [PLit ''api'', PLit ''projects'', PWild, PLit ''workflows''], A_json),
     (POST, [PLit ''api'', PLit ''projects'', PWild, PLit ''workflows''], A_json),
     (POST, [PLit ''api'', PLit ''projects'', PWild, PLit ''workflows'', PLit ''from-template''], A_json),
     (PUT, [PLit ''api'', PLit ''projects'', PWild, PLit ''workflows'', PWild], A_json),
     (DELETE, [PLit ''api'', PLit ''projects'', PWild, PLit ''workflows'', PWild], A_json),
     (POST, [PLit ''api'', PLit ''projects'', PWild, PLit ''workflows'', PWild, PLit ''run''], A_json)]"

lemma workflow_rows: "map row_of workflow_routes = workflow_rows"
  by code_simp

definition media_rows :: "route_row list" where
  "media_rows = [
     (POST, [PLit ''api'', PLit ''projects'', PWild, PLit ''cover'', PLit ''generate''], A_json),
     (POST, [PLit ''api'', PLit ''projects'', PWild, PLit ''cover'', PLit ''upload''], A_json),
     (PUT, [PLit ''api'', PLit ''projects'', PWild, PLit ''cover''], A_json),
     (GET, [PLit ''api'', PLit ''projects'', PWild, PLit ''cover'', PLit ''options''], A_json),
     (POST, [PLit ''api'', PLit ''projects'', PWild, PLit ''lyrics-audio''], A_json),
     (POST, [PLit ''api'', PLit ''projects'', PWild, PLit ''exports''], A_json),
     (GET, [PLit ''api'', PLit ''projects'', PWild, PLit ''exports''], A_json),
     (GET, [PLit ''api'', PLit ''projects'', PWild, PLit ''exports'', PWild], A_json),
     (GET, [PLit ''api'', PLit ''exports'', PWild, PLit ''content''], A_bytes)]"

lemma media_rows: "map row_of media_routes = media_rows"
  by code_simp

definition prompt_rows :: "route_row list" where
  "prompt_rows = [
     (GET, [PLit ''api'', PLit ''node-types'', PLit ''builtin''], A_json),
     (GET, [PLit ''api'', PLit ''prompt-styles''], A_json),
     (GET, [PLit ''api'', PLit ''prompt-presets''], A_json),
     (POST, [PLit ''api'', PLit ''prompt'', PLit ''build''], A_json),
     (GET, [PLit ''api'', PLit ''orgs'', PWild, PLit ''prompts''], A_json),
     (POST, [PLit ''api'', PLit ''orgs'', PWild, PLit ''prompts''], A_json),
     (PUT, [PLit ''api'', PLit ''orgs'', PWild, PLit ''prompts'', PWild], A_json),
     (PUT, [PLit ''api'', PLit ''orgs'', PWild, PLit ''prompts'', PWild, PLit ''default''], A_json),
     (DELETE, [PLit ''api'', PLit ''orgs'', PWild, PLit ''prompts'', PWild], A_json)]"

lemma prompt_rows: "map row_of prompt_routes = prompt_rows"
  by code_simp

definition asset_rows :: "route_row list" where
  "asset_rows = [
     (POST, [PLit ''api'', PLit ''assets'', PWild, PLit ''accept''], A_json),
     (POST, [PLit ''api'', PLit ''assets'', PWild, PLit ''reject''], A_json),
     (POST, [PLit ''api'', PLit ''assets'', PWild, PLit ''regenerate''], A_json),
     (GET, [PLit ''api'', PLit ''orgs'', PWild, PLit ''assets''], A_json),
     (GET, [PLit ''api'', PLit ''assets'', PWild], A_json),
     (GET, [PLit ''api'', PLit ''assets'', PWild, PLit ''content''], A_bytes),
     (GET, [PLit ''api'', PLit ''blob'', PRest], A_bytes),
     (GET, [PLit ''healthz''], A_json),
     (GET, [PLit ''metrics''], A_bytes)]"

lemma asset_rows: "map row_of asset_routes = asset_rows"
  by code_simp

definition model_rows :: "route_row list" where
  "model_rows = [
     (GET, [PLit ''api'', PLit ''model-catalog''], A_json),
     (POST, [PLit ''api'', PLit ''orgs'', PWild, PLit ''model-configs'', PLit ''list-models''], A_json),
     (POST, [PLit ''api'', PLit ''orgs'', PWild, PLit ''model-configs''], A_json),
     (GET, [PLit ''api'', PLit ''orgs'', PWild, PLit ''model-configs''], A_json),
     (PUT, [PLit ''api'', PLit ''orgs'', PWild, PLit ''model-configs'', PWild], A_json),
     (DELETE, [PLit ''api'', PLit ''orgs'', PWild, PLit ''model-configs'', PWild], A_json),
     (GET, [PLit ''api'', PLit ''orgs'', PWild, PLit ''model-configs'', PWild, PLit ''reveal''], A_json)]"

lemma model_rows: "map row_of model_routes = model_rows"
  by code_simp

definition storage_rows :: "route_row list" where
  "storage_rows = [
     (GET, [PLit ''api'', PLit ''orgs'', PWild, PLit ''storage-configs''], A_json),
     (POST, [PLit ''api'', PLit ''orgs'', PWild, PLit ''storage-configs''], A_json),
     (PUT, [PLit ''api'', PLit ''orgs'', PWild, PLit ''storage-configs'', PWild], A_json),
     (DELETE, [PLit ''api'', PLit ''orgs'', PWild, PLit ''storage-configs'', PWild], A_json),
     (POST, [PLit ''api'', PLit ''orgs'', PWild, PLit ''storage-configs'', PWild, PLit ''default''], A_json)]"

lemma storage_rows: "map row_of storage_routes = storage_rows"
  by code_simp

definition node_type_rows :: "route_row list" where
  "node_type_rows = [
     (GET, [PLit ''api'', PLit ''orgs'', PWild, PLit ''node-types''], A_json),
     (GET, [PLit ''api'', PLit ''orgs'', PWild, PLit ''custom-node-types''], A_json),
     (POST, [PLit ''api'', PLit ''orgs'', PWild, PLit ''custom-node-types''], A_json),
     (PUT, [PLit ''api'', PLit ''orgs'', PWild, PLit ''custom-node-types'', PWild], A_json),
     (DELETE, [PLit ''api'', PLit ''orgs'', PWild, PLit ''custom-node-types'', PWild], A_json)]"

lemma node_type_rows: "map row_of node_type_routes = node_type_rows"
  by code_simp

definition setting_rows :: "route_row list" where
  "setting_rows = [
     (GET, [PLit ''api'', PLit ''orgs'', PWild, PLit ''secrets''], A_json),
     (POST, [PLit ''api'', PLit ''orgs'', PWild, PLit ''secrets''], A_json),
     (PUT, [PLit ''api'', PLit ''orgs'', PWild, PLit ''secrets'', PWild], A_json),
     (DELETE, [PLit ''api'', PLit ''orgs'', PWild, PLit ''secrets'', PWild], A_json),
     (GET, [PLit ''api'', PLit ''orgs'', PWild, PLit ''alert-settings''], A_json),
     (PUT, [PLit ''api'', PLit ''orgs'', PWild, PLit ''alert-settings''], A_json),
     (GET, [PLit ''api'', PLit ''orgs'', PWild, PLit ''audit-log''], A_json)]"

lemma setting_rows: "map row_of setting_routes = setting_rows"
  by code_simp

definition member_rows :: "route_row list" where
  "member_rows = [
     (GET, [PLit ''api'', PLit ''orgs'', PWild, PLit ''members''], A_json),
     (GET, [PLit ''api'', PLit ''orgs'', PWild, PLit ''members'', PLit ''me''], A_json),
     (POST, [PLit ''api'', PLit ''orgs'', PWild, PLit ''members''], A_json),
     (PUT, [PLit ''api'', PLit ''orgs'', PWild, PLit ''members'', PWild], A_json),
     (DELETE, [PLit ''api'', PLit ''orgs'', PWild, PLit ''members'', PWild], A_json),
     (GET, [PLit ''api'', PLit ''orgs'', PWild, PLit ''invites''], A_json),
     (POST, [PLit ''api'', PLit ''orgs'', PWild, PLit ''invites''], A_json),
     (DELETE, [PLit ''api'', PLit ''orgs'', PWild, PLit ''invites'', PWild], A_json),
     (POST, [PLit ''api'', PLit ''invites'', PWild, PLit ''accept''], A_json)]"

lemma member_rows: "map row_of member_routes = member_rows"
  by code_simp

definition platform_rows :: "route_row list" where
  "platform_rows = [
     (GET, [PLit ''api'', PLit ''platform'', PLit ''whoami''], A_json),
     (GET, [PLit ''api'', PLit ''platform'', PLit ''storage-config'', PLit ''global''], A_json),
     (PUT, [PLit ''api'', PLit ''platform'', PLit ''storage-config'', PLit ''global''], A_json),
     (GET, [PLit ''api'', PLit ''platform'', PLit ''mail-config'', PLit ''global''], A_json),
     (PUT, [PLit ''api'', PLit ''platform'', PLit ''mail-config'', PLit ''global''], A_json),
     (GET, [PLit ''api'', PLit ''platform'', PLit ''orgs''], A_json),
     (GET, [PLit ''api'', PLit ''platform'', PLit ''admins''], A_json),
     (POST, [PLit ''api'', PLit ''platform'', PLit ''admins''], A_json),
     (DELETE, [PLit ''api'', PLit ''platform'', PLit ''admins'', PWild], A_json),
     (GET, [PLit ''api'', PLit ''platform'', PLit ''users''], A_json),
     (GET, [PLit ''api'', PLit ''platform'', PLit ''users'', PWild], A_json),
     (DELETE, [PLit ''api'', PLit ''platform'', PLit ''users'', PWild], A_json),
     (POST, [PLit ''api'', PLit ''platform'', PLit ''users'', PWild, PLit ''reset-password''], A_json),
     (GET, [PLit ''api'', PLit ''platform'', PLit ''health''], A_json),
     (POST, [PLit ''api'', PLit ''platform'', PLit ''health'', PLit ''repair''], A_json),
     (GET, [PLit ''api'', PLit ''platform'', PLit ''health'', PLit ''events''], A_json)]"

lemma platform_rows: "map row_of platform_routes = platform_rows"
  by code_simp

definition cost_rows :: "route_row list" where
  "cost_rows = [
     (GET, [PLit ''api'', PLit ''orgs'', PWild, PLit ''cost''], A_json),
     (GET, [PLit ''api'', PLit ''projects'', PWild, PLit ''cost''], A_json),
     (GET, [PLit ''api'', PLit ''projects'', PWild, PLit ''plans'', PWild, PLit ''cost''], A_json),
     (GET, [PLit ''api'', PLit ''orgs'', PWild, PLit ''cost'', PLit ''projects''], A_json),
     (GET, [PLit ''api'', PLit ''orgs'', PWild, PLit ''cost'', PLit ''by-member''], A_json),
     (GET, [PLit ''api'', PLit ''orgs'', PWild, PLit ''generations''], A_json)]"

lemma cost_rows: "map row_of cost_routes = cost_rows"
  by code_simp

definition pick :: "http_method \<Rightarrow> string option list \<Rightarrow> route_row list \<Rightarrow> route_row list" where
  "pick m xs rows = filter (\<lambda>(m', ps, a). if m' = m then may_match ps xs else False) rows"

definition candidates :: "http_method \<Rightarrow> string option list \<Rightarrow> route_row list" where
  "candidates m xs = pick m xs account_rows @ pick m xs org_rows @ pick m xs project_rows @ pick m xs workflow_rows @ pick m xs media_rows @ pick m xs prompt_rows @ pick m xs asset_rows @ pick m xs model_rows @ pick m xs storage_rows @ pick m xs node_type_rows @ pick m xs setting_rows @ pick m xs member_rows @ pick m xs platform_rows @ pick m xs cost_rows"

definition row_routable :: "http_method \<Rightarrow> string option list \<Rightarrow> answer_use \<Rightarrow> bool" where
  "row_routable m xs u = (case candidates m xs of
     [(m', ps, a)] \<Rightarrow> must_match ps xs \<and> serves_use a u | _ \<Rightarrow> False)"

lemma candidates_routes:
  "candidates m xs = map row_of (filter (\<lambda>r. r_method r = m \<and> may_match (pattern_segments (r_pattern r)) xs) ROUTES)"
proof -
  have "pick m xs (map row_of rs)
      = map row_of (filter (\<lambda>r. r_method r = m \<and> may_match (pattern_segments (r_pattern r)) xs) rs)" for rs
    unfolding pick_def filter_map
    by (rule arg_cong [of _ _ "map row_of"], rule filter_cong) (auto simp: row_of_def)
  then show ?thesis unfolding candidates_def ROUTES_def by (simp flip: account_rows org_rows project_rows workflow_rows media_rows prompt_rows asset_rows model_rows storage_rows node_type_rows setting_rows member_rows platform_rows cost_rows)
qed

lemma calls_routable:
  "list_all (\<lambda>(m, xs, u). row_routable m xs u) (map call_shape (all_calls org project item name opt cursor n rg f on))"
proof -
  note sel = all_calls_def queries_def mutations_def other_calls_def query_defs mutation_defs call_defs
      reading_def sending_def call_shape_def list.map append.simps query.simps mutation.simps call.simps segment_shape.simps
  show ?thesis unfolding sel by code_simp
qed

lemma row_routable_iff: "row_routable m xs u \<longleftrightarrow> routable m xs u"
  by (simp add: row_routable_def routable_def candidates_routes row_of_def split: list.splits)

section \<open>Properties\<close>

text \<open>C15: Every request of the client, with any ids and any name, and any text in its query string, is
  dispatched by the router of the server to exactly one route; the wildcards of the route get the
  parameters the caller passed, byte for byte, escaped or not; and the route answers in the form
  the caller reads: whatever is parsed as JSON has a JSON body.\<close>

theorem requests_reach_routes:
  assumes "plain org" "plain project" "plain item" "nameable name"
    and "well_formed cursor" "\<And>x. opt = Some x \<Longrightarrow> well_formed x"
    and "c \<in> set (all_calls org project item name opt cursor n rg f on)"
  shows "\<exists>t r. call_text c = Some t \<and> dispatch (c_method c) t = [(r, parameters (c_path c))]
    \<and> r \<in> set ROUTES \<and> serves_use (r_answer r) (c_reads c)"
proof (rule call_dispatch)
  let ?cs = "all_calls org project item name opt cursor n rg f on"
  have "list_all (\<lambda>(m, xs, u). row_routable m xs u) (map call_shape ?cs)" by (rule calls_routable)
  with assms(7) show "routable (c_method c) (map segment_shape (c_path c)) (c_reads c)"
    by (auto simp: list_all_iff row_routable_iff call_shape_def)
  have "list_all (\<lambda>c. list_all segment_ok (c_path c)) ?cs" by (rule calls_segments_ok [OF assms(1-4)])
  with assms(7) show "list_all segment_ok (c_path c)" by (auto simp: list_all_iff)
  have "list_all (\<lambda>c. query_ok (c_query c)) ?cs" by (rule calls_query_ok [OF assms(5,6)])
  with assms(7) show "query_ok (c_query c)" by (auto simp: list_all_iff)
qed

theorem requests_reach_routes_witness:
  "\<exists>t r. call_text (m_call (useUpdateOrgSecret (js ''o1'') (js ''a/b''))) = Some t
     \<and> dispatch PUT t = [(r, [js ''o1'', js ''a/b''])]"
proof -
  let ?c = "m_call (useUpdateOrgSecret (js ''o1'') (js ''a/b''))"
  have p: "plain (js ''o1'')" by (simp add: plain_def js_def)
  have n: "nameable (js ''a/b'')" by (simp add: nameable_def js_def units_def text_bytes_def utf8_def)
  have c: "?c \<in> set (all_calls (js ''o1'') (js ''o1'') (js ''o1'') (js ''a/b'') None [] 1 \<lparr>tr_from = None, tr_to = None\<rparr>
      \<lparr>lf_type = None, lf_status = None, lf_style = None, lf_project = None, lf_tag = None\<rparr> True)"
    unfolding all_calls_def mutations_def by simp
  have "c_method ?c = PUT" "parameters (c_path ?c) = [js ''o1'', js ''a/b'']"
    using ascii_bytes [of "js ''a/b''"]
    by (simp_all add: useUpdateOrgSecret_def sending_def parameters_def js_def)
  with requests_reach_routes [OF p p p n _ _ c] show ?thesis by fastforce
qed

text \<open>The reads of a collection that a change of it does not refresh.\<close>

definition stale_reads :: "jsstr \<Rightarrow> jsstr \<Rightarrow> jsstr \<Rightarrow> jsstr \<Rightarrow> jsstr option \<Rightarrow> jsstr \<Rightarrow> nat \<Rightarrow> time_range \<Rightarrow> library_filter
    \<Rightarrow> bool \<Rightarrow> (mutation \<times> query) list" where
  "stale_reads org project item name opt cursor n rg f on =
     concat (map (\<lambda>m. map (Pair m) (filter (\<lambda>q. in_collection q m \<and> \<not> refreshes m (q_key q))
       (queries org project item name opt cursor n rg f on))) (mutations org project item name on))"

lemma query_facts:
  "c_path (q_call (useProject xid)) = [Seg ''api'', Seg ''projects'', Raw xid]" "q_key (useProject xid) = [KS (js ''project''), KS xid]"
  "c_path (q_call (useProjectState xid plan)) = [Seg ''api'', Seg ''projects'', Raw xid, Seg ''state'']" "q_key (useProjectState xid plan) = [KS (js ''project-state''), KS xid, KS (nullish plan [])]"
  "c_path (q_call (useScript xid plan todo)) = [Seg ''api'', Seg ''projects'', Raw xid, Seg ''script'']" "q_key (useScript xid plan todo) = [KS (js ''script''), KS xid, KS (nullish plan []), KS (nullish todo [])]"
  "c_path (q_call (useShots xid plan todo)) = [Seg ''api'', Seg ''projects'', Raw xid, Seg ''shots'']" "q_key (useShots xid plan todo) = [KS (js ''shots''), KS xid, KS (nullish plan []), KS (nullish todo [])]"
  "c_path (q_call (useProjectAssets xid status plan)) = [Seg ''api'', Seg ''projects'', Raw xid, Seg ''assets'']" "q_key (useProjectAssets xid status plan) = [KS (js ''project-assets''), KS xid, KS (nullish status []), KS (nullish plan [])]"
  "c_path (q_call (usePlans xid)) = [Seg ''api'', Seg ''projects'', Raw xid, Seg ''plans'']" "q_key (usePlans xid) = [KS (js ''plans''), KS xid]"
  "c_path (q_call (usePlanCost xid planId)) = [Seg ''api'', Seg ''projects'', Raw xid, Seg ''plans'', Raw planId, Seg ''cost'']" "q_key (usePlanCost xid planId) = [KS (js ''plan-cost''), KS xid, KS planId]"
  "c_path (q_call (useExportJob xid job)) = [Seg ''api'', Seg ''projects'', Raw xid, Seg ''exports'', Raw (nullish job (js ''null''))]" "q_key (useExportJob xid job) = [KS (js ''export-job''), KS xid, KS (nullish job [])]"
  "c_path (q_call (useOrgCost org preset rge)) = [Seg ''api'', Seg ''orgs'', Raw org, Seg ''cost'']" "q_key (useOrgCost org preset rge) = [KS (js ''org-cost''), KS org, KS preset]"
  "c_path (q_call (useOrgCostProjects org preset rge)) = [Seg ''api'', Seg ''orgs'', Raw org, Seg ''cost'', Seg ''projects'']" "q_key (useOrgCostProjects org preset rge) = [KS (js ''org-cost-projects''), KS org, KS preset]"
  "c_path (q_call (useOrgCostMembers org preset rge)) = [Seg ''api'', Seg ''orgs'', Raw org, Seg ''cost'', Seg ''by-member'']" "q_key (useOrgCostMembers org preset rge) = [KS (js ''org-cost-members''), KS org, KS preset]"
  "c_path (q_call (useGenerations org limit_n cursor)) = [Seg ''api'', Seg ''orgs'', Raw org, Seg ''generations'']" "q_key (useGenerations org limit_n cursor) = [KS (js ''generations''), KS org, KN limit_n]"
  "c_path (q_call useModelCatalog) = [Seg ''api'', Seg ''model-catalog'']" "q_key useModelCatalog = [KS (js ''model-catalog'')]"
  "c_path (q_call (useModelConfigs org)) = [Seg ''api'', Seg ''orgs'', Raw org, Seg ''model-configs'']" "q_key (useModelConfigs org) = [KS (js ''model-configs''), KS org]"
  "c_path (q_call (useOrgTextModels org)) = [Seg ''api'', Seg ''orgs'', Raw org, Seg ''model-configs'']" "q_key (useOrgTextModels org) = [KS (js ''org-text-models''), KS org]"
  "c_path (q_call (useOrgImageModels org)) = [Seg ''api'', Seg ''orgs'', Raw org, Seg ''model-configs'']" "q_key (useOrgImageModels org) = [KS (js ''org-image-models''), KS org]"
  "c_path (q_call usePlatformWhoami) = [Seg ''api'', Seg ''platform'', Seg ''whoami'']" "q_key usePlatformWhoami = [KS (js ''platform''), KS (js ''whoami'')]"
  "c_path (q_call usePlatformOrgs) = [Seg ''api'', Seg ''platform'', Seg ''orgs'']" "q_key usePlatformOrgs = [KS (js ''platform''), KS (js ''orgs'')]"
  "c_path (q_call usePlatformAdmins) = [Seg ''api'', Seg ''platform'', Seg ''admins'']" "q_key usePlatformAdmins = [KS (js ''platform''), KS (js ''admins'')]"
  "c_path (q_call usePlatformUsers) = [Seg ''api'', Seg ''platform'', Seg ''users'']" "q_key usePlatformUsers = [KS (js ''platform''), KS (js ''users'')]"
  "c_path (q_call (usePlatformUserDetail user)) = [Seg ''api'', Seg ''platform'', Seg ''users'', Enc (nullish user (js ''null''))]" "q_key (usePlatformUserDetail user) = [KS (js ''platform''), KS (js ''user''), key_opt user]"
  "c_path (q_call useGlobalMailConfig) = [Seg ''api'', Seg ''platform'', Seg ''mail-config'', Seg ''global'']" "q_key useGlobalMailConfig = [KS (js ''platform''), KS (js ''mail-config''), KS (js ''global'')]"
  "c_path (q_call (useOrgMembers org)) = [Seg ''api'', Seg ''orgs'', Enc org, Seg ''members'']" "q_key (useOrgMembers org) = [KS (js ''members''), KS org]"
  "c_path (q_call (useOrgInvites org)) = [Seg ''api'', Seg ''orgs'', Enc org, Seg ''invites'']" "q_key (useOrgInvites org) = [KS (js ''invites''), KS org]"
  "c_path (q_call (useWorkflows xid)) = [Seg ''api'', Seg ''projects'', Raw xid, Seg ''workflows'']" "q_key (useWorkflows xid) = [KS (js ''workflows''), KS xid]"
  "c_path (q_call (useStorageConfigs org)) = [Seg ''api'', Seg ''orgs'', Raw org, Seg ''storage-configs'']" "q_key (useStorageConfigs org) = [KS (js ''storage-configs''), KS org]"
  "c_path (q_call useGlobalStorageConfig) = [Seg ''api'', Seg ''platform'', Seg ''storage-config'', Seg ''global'']" "q_key useGlobalStorageConfig = [KS (js ''storage-config''), KS (js ''global'')]"
  "c_path (q_call useBasicPrompts) = [Seg ''api'', Seg ''prompt-presets'']" "q_key useBasicPrompts = [KS (js ''prompt-presets'')]"
  "c_path (q_call (usePrompts org)) = [Seg ''api'', Seg ''orgs'', Raw org, Seg ''prompts'']" "q_key (usePrompts org) = [KS (js ''prompts''), KS org]"
  "c_path (q_call (useReviewQueue org project cursor)) = [Seg ''api'', Seg ''orgs'', Raw org, Seg ''assets'']" "q_key (useReviewQueue org project cursor) = [KS (js ''review-queue''), KS org, key_opt project]"
  "c_path (q_call (useAsset xid)) = [Seg ''api'', Seg ''assets'', Raw xid]" "q_key (useAsset xid) = [KS (js ''asset''), KS xid]"
  "c_path (q_call (useProjects org)) = [Seg ''api'', Seg ''orgs'', Raw org, Seg ''projects'']" "q_key (useProjects org) = [KS (js ''projects''), KS org]"
  "c_path (q_call usePromptStyles) = [Seg ''api'', Seg ''prompt-styles'']" "q_key usePromptStyles = [KS (js ''prompt-styles'')]"
  "c_path (q_call (useWorkflowTemplates org)) = [Seg ''api'', Seg ''orgs'', Raw org, Seg ''workflow-templates'']" "q_key (useWorkflowTemplates org) = [KS (js ''workflow-templates''), KS org]"
  "c_path (q_call (useCoverOptions xid on)) = [Seg ''api'', Seg ''projects'', Raw xid, Seg ''cover'', Seg ''options'']" "q_key (useCoverOptions xid on) = [KS (js ''cover-options''), KS xid]"
  "c_path (q_call (useCustomNodeTypes org)) = [Seg ''api'', Seg ''orgs'', Raw org, Seg ''custom-node-types'']" "q_key (useCustomNodeTypes org) = [KS (js ''custom-node-types''), KS org]"
  "c_path (q_call (useOrgSecrets org)) = [Seg ''api'', Seg ''orgs'', Raw org, Seg ''secrets'']" "q_key (useOrgSecrets org) = [KS (js ''org-secrets''), KS org]"
  "c_path (q_call (useTaskBoard org)) = [Seg ''api'', Seg ''orgs'', Raw org, Seg ''tasks'']" "q_key (useTaskBoard org) = [KS (js ''task-board''), KS org]"
  "c_path (q_call (useAlertSettings org)) = [Seg ''api'', Seg ''orgs'', Raw org, Seg ''alert-settings'']" "q_key (useAlertSettings org) = [KS (js ''alert-settings''), KS org]"
  "c_path (q_call (useAuditLog org limit_n cursor)) = [Seg ''api'', Seg ''orgs'', Raw org, Seg ''audit-log'']" "q_key (useAuditLog org limit_n cursor) = [KS (js ''audit-log''), KS org, KN limit_n]"
  "c_path (q_call useHealthReport) = [Seg ''api'', Seg ''platform'', Seg ''health'']" "q_key useHealthReport = [KS (js ''platform''), KS (js ''health'')]"
  "c_path (q_call (useHealthEvents limit_n)) = [Seg ''api'', Seg ''platform'', Seg ''health'', Seg ''events'']" "q_key (useHealthEvents limit_n) = [KS (js ''platform''), KS (js ''health''), KS (js ''events''), KN limit_n]"
  "c_path (q_call (useLibrary org f cursor)) = [Seg ''api'', Seg ''orgs'', Raw org, Seg ''assets'']" "q_key (useLibrary org f cursor) = [KS (js ''library''), KS org, KF f]"
  "c_path (q_call useBuiltinNodeTypes) = [Seg ''api'', Seg ''node-types'', Seg ''builtin'']" "q_key useBuiltinNodeTypes = [KS (js ''builtin-node-types'')]"
  "c_path (q_call (useNodeTypes org)) = [Seg ''api'', Seg ''orgs'', Raw org, Seg ''node-types'']" "q_key (useNodeTypes org) = [KS (js ''node-types''), KS org]"
  "c_path (q_call useMyOrgs) = [Seg ''api'', Seg ''orgs'']" "q_key useMyOrgs = [KS (js ''my-orgs'')]"
  by (simp_all add: query_defs reading_def)

lemma mutation_facts:
  "c_path (m_call (useCancel xid)) = [Seg ''api'', Seg ''projects'', Raw xid, Seg ''cancel'']" "m_invalidates (useCancel xid) = [[KS (js ''project''), KS xid]]" "m_removes (useCancel xid) = []"
  "c_path (m_call (useRegenerateAsset xid)) = [Seg ''api'', Seg ''assets'', Raw xid, Seg ''regenerate'']" "m_invalidates (useRegenerateAsset xid) = []" "m_removes (useRegenerateAsset xid) = []"
  "c_path (m_call (useLyricsAudio xid)) = [Seg ''api'', Seg ''projects'', Raw xid, Seg ''lyrics-audio'']" "m_invalidates (useLyricsAudio xid) = []" "m_removes (useLyricsAudio xid) = []"
  "c_path (m_call (useCreateExport xid)) = [Seg ''api'', Seg ''projects'', Raw xid, Seg ''exports'']" "m_invalidates (useCreateExport xid) = []" "m_removes (useCreateExport xid) = []"
  "c_path (m_call (useCreateModelConfig org)) = [Seg ''api'', Seg ''orgs'', Raw org, Seg ''model-configs'']" "m_invalidates (useCreateModelConfig org) = [[KS (js ''model-configs''), KS org]]" "m_removes (useCreateModelConfig org) = []"
  "c_path (m_call (useUpdateModelConfig org xid)) = [Seg ''api'', Seg ''orgs'', Raw org, Seg ''model-configs'', Raw xid]" "m_invalidates (useUpdateModelConfig org xid) = [[KS (js ''model-configs''), KS org]]" "m_removes (useUpdateModelConfig org xid) = []"
  "c_path (m_call (useDeleteModelConfig org xid)) = [Seg ''api'', Seg ''orgs'', Raw org, Seg ''model-configs'', Raw xid]" "m_invalidates (useDeleteModelConfig org xid) = [[KS (js ''model-configs''), KS org]]" "m_removes (useDeleteModelConfig org xid) = []"
  "c_path (m_call useGrantPlatformAdmin) = [Seg ''api'', Seg ''platform'', Seg ''admins'']" "m_invalidates useGrantPlatformAdmin = [[KS (js ''platform''), KS (js ''admins'')], [KS (js ''platform''), KS (js ''users'')]]" "m_removes useGrantPlatformAdmin = []"
  "c_path (m_call (useRevokePlatformAdmin userId)) = [Seg ''api'', Seg ''platform'', Seg ''admins'', Enc userId]" "m_invalidates (useRevokePlatformAdmin userId) = [[KS (js ''platform''), KS (js ''admins'')], [KS (js ''platform''), KS (js ''users'')]]" "m_removes (useRevokePlatformAdmin userId) = []"
  "c_path (m_call (useDeleteUser userId)) = [Seg ''api'', Seg ''platform'', Seg ''users'', Enc userId]" "m_invalidates (useDeleteUser userId) = [[KS (js ''platform''), KS (js ''users'')]]" "m_removes (useDeleteUser userId) = []"
  "c_path (m_call (useResetUserPassword userId)) = [Seg ''api'', Seg ''platform'', Seg ''users'', Enc userId, Seg ''reset-password'']" "m_invalidates (useResetUserPassword userId) = []" "m_removes (useResetUserPassword userId) = []"
  "c_path (m_call useUpsertGlobalMailConfig) = [Seg ''api'', Seg ''platform'', Seg ''mail-config'', Seg ''global'']" "m_invalidates useUpsertGlobalMailConfig = [[KS (js ''platform''), KS (js ''mail-config''), KS (js ''global'')]]" "m_removes useUpsertGlobalMailConfig = []"
  "c_path (m_call (useAddMember org)) = [Seg ''api'', Seg ''orgs'', Enc org, Seg ''members'']" "m_invalidates (useAddMember org) = [[KS (js ''members''), KS org]]" "m_removes (useAddMember org) = []"
  "c_path (m_call (useSetMemberRole org userId)) = [Seg ''api'', Seg ''orgs'', Enc org, Seg ''members'', Enc userId]" "m_invalidates (useSetMemberRole org userId) = [[KS (js ''members''), KS org]]" "m_removes (useSetMemberRole org userId) = []"
  "c_path (m_call (useRemoveMember org userId)) = [Seg ''api'', Seg ''orgs'', Enc org, Seg ''members'', Enc userId]" "m_invalidates (useRemoveMember org userId) = [[KS (js ''members''), KS org]]" "m_removes (useRemoveMember org userId) = []"
  "c_path (m_call (useCreateInvite org)) = [Seg ''api'', Seg ''orgs'', Enc org, Seg ''invites'']" "m_invalidates (useCreateInvite org) = [[KS (js ''invites''), KS org]]" "m_removes (useCreateInvite org) = []"
  "c_path (m_call (useRevokeInvite org xid)) = [Seg ''api'', Seg ''orgs'', Enc org, Seg ''invites'', Enc xid]" "m_invalidates (useRevokeInvite org xid) = [[KS (js ''invites''), KS org]]" "m_removes (useRevokeInvite org xid) = []"
  "c_path (m_call (useCreateWorkflow xid)) = [Seg ''api'', Seg ''projects'', Raw xid, Seg ''workflows'']" "m_invalidates (useCreateWorkflow xid) = [[KS (js ''workflows''), KS xid]]" "m_removes (useCreateWorkflow xid) = []"
  "c_path (m_call (useUpdateWorkflow xid wfId)) = [Seg ''api'', Seg ''projects'', Raw xid, Seg ''workflows'', Raw wfId]" "m_invalidates (useUpdateWorkflow xid wfId) = [[KS (js ''workflows''), KS xid]]" "m_removes (useUpdateWorkflow xid wfId) = []"
  "c_path (m_call (useDeleteWorkflow xid wfId)) = [Seg ''api'', Seg ''projects'', Raw xid, Seg ''workflows'', Raw wfId]" "m_invalidates (useDeleteWorkflow xid wfId) = [[KS (js ''workflows''), KS xid]]" "m_removes (useDeleteWorkflow xid wfId) = []"
  "c_path (m_call (useRunWorkflow xid wfId inputs)) = [Seg ''api'', Seg ''projects'', Raw xid, Seg ''workflows'', Raw wfId, Seg ''run'']" "m_invalidates (useRunWorkflow xid wfId inputs) = [[KS (js ''workflows''), KS xid], [KS (js ''project''), KS xid], [KS (js ''plans''), KS xid]]" "m_removes (useRunWorkflow xid wfId inputs) = []"
  "c_path (m_call (useCreateStorageConfig org)) = [Seg ''api'', Seg ''orgs'', Raw org, Seg ''storage-configs'']" "m_invalidates (useCreateStorageConfig org) = [[KS (js ''storage-configs''), KS org]]" "m_removes (useCreateStorageConfig org) = []"
  "c_path (m_call (useUpdateStorageConfig org xid)) = [Seg ''api'', Seg ''orgs'', Raw org, Seg ''storage-configs'', Raw xid]" "m_invalidates (useUpdateStorageConfig org xid) = [[KS (js ''storage-configs''), KS org]]" "m_removes (useUpdateStorageConfig org xid) = []"
  "c_path (m_call (useDeleteStorageConfig org xid)) = [Seg ''api'', Seg ''orgs'', Raw org, Seg ''storage-configs'', Raw xid]" "m_invalidates (useDeleteStorageConfig org xid) = [[KS (js ''storage-configs''), KS org]]" "m_removes (useDeleteStorageConfig org xid) = []"
  "c_path (m_call (useSetDefaultStorageConfig org xid)) = [Seg ''api'', Seg ''orgs'', Raw org, Seg ''storage-configs'', Raw xid, Seg ''default'']" "m_invalidates (useSetDefaultStorageConfig org xid) = [[KS (js ''storage-configs''), KS org]]" "m_removes (useSetDefaultStorageConfig org xid) = []"
  "c_path (m_call useUpsertGlobalStorageConfig) = [Seg ''api'', Seg ''platform'', Seg ''storage-config'', Seg ''global'']" "m_invalidates useUpsertGlobalStorageConfig = [[KS (js ''storage-config''), KS (js ''global'')]]" "m_removes useUpsertGlobalStorageConfig = []"
  "c_path (m_call (useCreatePrompt org)) = [Seg ''api'', Seg ''orgs'', Raw org, Seg ''prompts'']" "m_invalidates (useCreatePrompt org) = [[KS (js ''prompts''), KS org]]" "m_removes (useCreatePrompt org) = []"
  "c_path (m_call (useUpdatePrompt org xid)) = [Seg ''api'', Seg ''orgs'', Raw org, Seg ''prompts'', Raw xid]" "m_invalidates (useUpdatePrompt org xid) = [[KS (js ''prompts''), KS org]]" "m_removes (useUpdatePrompt org xid) = []"
  "c_path (m_call (useSetPromptDefault org xid)) = [Seg ''api'', Seg ''orgs'', Raw org, Seg ''prompts'', Raw xid, Seg ''default'']" "m_invalidates (useSetPromptDefault org xid) = [[KS (js ''prompts''), KS org]]" "m_removes (useSetPromptDefault org xid) = []"
  "c_path (m_call (useDeletePrompt org xid)) = [Seg ''api'', Seg ''orgs'', Raw org, Seg ''prompts'', Raw xid]" "m_invalidates (useDeletePrompt org xid) = [[KS (js ''prompts''), KS org]]" "m_removes (useDeletePrompt org xid) = []"
  "c_path (m_call (useAccept org xid)) = [Seg ''api'', Seg ''assets'', Raw xid, Seg ''accept'']" "m_invalidates (useAccept org xid) = [[KS (js ''review-queue''), KS org], [KS (js ''library''), KS org], [KS (js ''project-state'')]]" "m_removes (useAccept org xid) = []"
  "c_path (m_call (useReject org xid)) = [Seg ''api'', Seg ''assets'', Raw xid, Seg ''reject'']" "m_invalidates (useReject org xid) = [[KS (js ''review-queue''), KS org], [KS (js ''library''), KS org], [KS (js ''project-state'')]]" "m_removes (useReject org xid) = []"
  "c_path (m_call (useRegenerate org xid)) = [Seg ''api'', Seg ''assets'', Raw xid, Seg ''regenerate'']" "m_invalidates (useRegenerate org xid) = [[KS (js ''review-queue''), KS org], [KS (js ''library''), KS org], [KS (js ''project-state'')]]" "m_removes (useRegenerate org xid) = []"
  "c_path (m_call (useCreateProject org)) = [Seg ''api'', Seg ''orgs'', Raw org, Seg ''projects'']" "m_invalidates (useCreateProject org) = [[KS (js ''projects''), KS org]]" "m_removes (useCreateProject org) = []"
  "c_path (m_call (useUpdateProject org xid)) = [Seg ''api'', Seg ''projects'', Raw xid]" "m_invalidates (useUpdateProject org xid) = [[KS (js ''projects''), KS org], [KS (js ''project''), KS xid]]" "m_removes (useUpdateProject org xid) = []"
  "c_path (m_call (useDeleteProject org xid)) = [Seg ''api'', Seg ''projects'', Raw xid]" "m_invalidates (useDeleteProject org xid) = [[KS (js ''projects''), KS org]]" "m_removes (useDeleteProject org xid) = [[KS (js ''project''), KS xid], [KS (js ''plans''), KS xid]]"
  "c_path (m_call (useInstantiateTemplate xid)) = [Seg ''api'', Seg ''projects'', Raw xid, Seg ''workflows'', Seg ''from-template'']" "m_invalidates (useInstantiateTemplate xid) = [[KS (js ''workflows''), KS xid]]" "m_removes (useInstantiateTemplate xid) = []"
  "c_path (m_call (useSaveTemplate org)) = [Seg ''api'', Seg ''orgs'', Raw org, Seg ''workflow-templates'']" "m_invalidates (useSaveTemplate org) = [[KS (js ''workflow-templates''), KS org]]" "m_removes (useSaveTemplate org) = []"
  "c_path (m_call (useDeleteTemplate org xid)) = [Seg ''api'', Seg ''orgs'', Raw org, Seg ''workflow-templates'', Raw xid]" "m_invalidates (useDeleteTemplate org xid) = [[KS (js ''workflow-templates''), KS org]]" "m_removes (useDeleteTemplate org xid) = []"
  "c_path (m_call (useGenerateCover org xid)) = [Seg ''api'', Seg ''projects'', Raw xid, Seg ''cover'', Seg ''generate'']" "m_invalidates (useGenerateCover org xid) = [[KS (js ''projects''), KS org]]" "m_removes (useGenerateCover org xid) = []"
  "c_path (m_call (useUploadCover org xid)) = [Seg ''api'', Seg ''projects'', Raw xid, Seg ''cover'', Seg ''upload'']" "m_invalidates (useUploadCover org xid) = [[KS (js ''projects''), KS org]]" "m_removes (useUploadCover org xid) = []"
  "c_path (m_call (useSetCover org xid)) = [Seg ''api'', Seg ''projects'', Raw xid, Seg ''cover'']" "m_invalidates (useSetCover org xid) = [[KS (js ''projects''), KS org]]" "m_removes (useSetCover org xid) = []"
  "c_path (m_call (useCreateCustomNodeType org)) = [Seg ''api'', Seg ''orgs'', Raw org, Seg ''custom-node-types'']" "m_invalidates (useCreateCustomNodeType org) = [[KS (js ''custom-node-types''), KS org], [KS (js ''node-types''), KS org]]" "m_removes (useCreateCustomNodeType org) = []"
  "c_path (m_call (useUpdateCustomNodeType org xid)) = [Seg ''api'', Seg ''orgs'', Raw org, Seg ''custom-node-types'', Raw xid]" "m_invalidates (useUpdateCustomNodeType org xid) = [[KS (js ''custom-node-types''), KS org], [KS (js ''node-types''), KS org]]" "m_removes (useUpdateCustomNodeType org xid) = []"
  "c_path (m_call (useDeleteCustomNodeType org xid)) = [Seg ''api'', Seg ''orgs'', Raw org, Seg ''custom-node-types'', Raw xid]" "m_invalidates (useDeleteCustomNodeType org xid) = [[KS (js ''custom-node-types''), KS org], [KS (js ''node-types''), KS org]]" "m_removes (useDeleteCustomNodeType org xid) = []"
  "c_path (m_call (useCreateOrgSecret org)) = [Seg ''api'', Seg ''orgs'', Raw org, Seg ''secrets'']" "m_invalidates (useCreateOrgSecret org) = [[KS (js ''org-secrets''), KS org]]" "m_removes (useCreateOrgSecret org) = []"
  "c_path (m_call (useUpdateOrgSecret org name)) = [Seg ''api'', Seg ''orgs'', Raw org, Seg ''secrets'', Enc name]" "m_invalidates (useUpdateOrgSecret org name) = [[KS (js ''org-secrets''), KS org]]" "m_removes (useUpdateOrgSecret org name) = []"
  "c_path (m_call (useDeleteOrgSecret org name)) = [Seg ''api'', Seg ''orgs'', Raw org, Seg ''secrets'', Enc name]" "m_invalidates (useDeleteOrgSecret org name) = [[KS (js ''org-secrets''), KS org]]" "m_removes (useDeleteOrgSecret org name) = []"
  "c_path (m_call (useUpdateAlertSettings org)) = [Seg ''api'', Seg ''orgs'', Raw org, Seg ''alert-settings'']" "m_invalidates (useUpdateAlertSettings org) = [[KS (js ''alert-settings''), KS org]]" "m_removes (useUpdateAlertSettings org) = []"
  "c_path (m_call useRepairCheck) = [Seg ''api'', Seg ''platform'', Seg ''health'', Seg ''repair'']" "m_invalidates useRepairCheck = [[KS (js ''platform''), KS (js ''health'')]]" "m_removes useRepairCheck = []"
  "c_path (m_call create_org) = [Seg ''api'', Seg ''orgs'']" "m_invalidates create_org = [[KS (js ''my-orgs'')]]" "m_removes create_org = []"
  by (simp_all add: mutation_defs sending_def)

lemma in_collection_if: "in_collection q m =
     (if take (length (c_path (q_call q))) (c_path (m_call m)) = c_path (q_call q) then
        (if case last (c_path (q_call q)) of Seg x \<Rightarrow> True | _ \<Rightarrow> False then
          length (c_path (m_call m)) \<le> length (c_path (q_call q)) + 1
          \<or> length (c_path (m_call m)) = length (c_path (q_call q)) + 2 \<and> last (c_path (m_call m)) \<in> {Seg ''default'', Seg ''run''}
         else False) else False)"
  by (simp add: in_collection_def Let_def)

lemma stale_filter: "filter (\<lambda>q. in_collection q m \<and> \<not> refreshes m (q_key q)) qs
    = filter (\<lambda>q. if in_collection q m then \<not> refreshes m (q_key q) else False) qs"
  by (rule filter_cong) simp_all

lemma stale_reads_table: "stale_reads org project item name opt cursor n rg f on =
     [(useCreateModelConfig org, useOrgTextModels org), (useCreateModelConfig org, useOrgImageModels org),
      (useUpdateModelConfig org item, useOrgTextModels org), (useUpdateModelConfig org item, useOrgImageModels org),
      (useDeleteModelConfig org item, useOrgTextModels org), (useDeleteModelConfig org item, useOrgImageModels org)]"
  unfolding stale_reads_def stale_filter queries_def mutations_def
  by (simp add: in_collection_if refreshes_def key_matches_def key_opt_def query_facts mutation_facts)



end
