(* ===== verification/Node_Desc.thy ===== *)
theory Node_Desc
  imports Server_Contract Node_Color JS_Object Wire_Types "HOL-Library.List_Lexorder"
begin

text \<open>
  The descriptions of the node types and what the server does with the parameters of a node
  (internal/nodedesc, internal/customnodetype/validate.go, and the handlers of
  internal/httpapi that use them): the built-in descriptions, the catalogue of an
  organisation, the merge of a node's parameters over those of its registered type, the
  check at saving time and the resolution at run time.

  A JSON text is its value of type \<open>json\<close>; a missing \<open>RawMessage\<close> is \<open>None\<close>. A Go map is an
  association list with distinct keys, and the nil map is told apart from the empty one,
  because writing to it panics. The table \<open>custom_node_types\<close> is the list of its rows.
\<close>

section \<open>Descriptions\<close>

datatype property_type =
    PT_string | PT_textarea | PT_number | PT_boolean | PT_options | PT_collection
  | PT_fixedCollection | PT_json | PT_code | PT_prompt | PT_keyValue | PT_resourceLocator

record option_item =
  op_value :: jsstr
  op_label :: jsstr

record derived_default =
  df_field :: jsstr
  df_map :: "json obj obj"

record display_options =
  dp_show :: "json list obj"
  dp_hide :: "json list obj"

record type_options =
  ty_rows :: nat
  ty_editor :: jsstr
  ty_password :: bool
  ty_dataSource :: jsstr
  ty_promptKind :: jsstr

record constraints =
  cn_noTemplate :: bool
  cn_noSecret :: bool
  cn_secretAllowedIn :: "jsstr list"
  cn_registryOnly :: bool

record node_property =
  np_name :: jsstr
  np_label :: jsstr
  np_type :: property_type
  np_default :: "json option"
  np_defaultFrom :: "derived_default option"
  np_required :: bool
  np_options :: "option_item list"
  np_displayOptions :: "display_options option"
  np_typeOptions :: "type_options option"
  np_constraints :: "constraints option"
  np_placeholder :: jsstr

record port_spec =
  po_name :: jsstr
  po_type :: jsstr

record output_field =
  oo_name :: jsstr
  oo_type :: jsstr
  oo_desc :: jsstr

record node_type_description =
  nt_type :: jsstr
  nt_version :: int
  nt_label :: jsstr
  nt_description :: jsstr
  nt_group :: jsstr
  nt_inputs :: "port_spec list option"
  nt_outputs :: "port_spec list option"
  nt_outputSchema :: "output_field list"
  nt_properties :: "node_property list"

definition desc_Version :: int where
  "desc_Version = 1"

text \<open>The fields of a struct literal that are not named have their zero values.\<close>

definition prop0 :: "string \<Rightarrow> jsstr \<Rightarrow> property_type \<Rightarrow> node_property" where
  "prop0 name lbl t = \<lparr>np_name = js name, np_label = lbl, np_type = t, np_default = None,
     np_defaultFrom = None, np_required = False, np_options = [], np_displayOptions = None,
     np_typeOptions = None, np_constraints = None, np_placeholder = []\<rparr>"

definition topts0 :: type_options where
  "topts0 = \<lparr>ty_rows = 0, ty_editor = [], ty_password = False, ty_dataSource = [], ty_promptKind = []\<rparr>"

definition cons0 :: constraints where
  "cons0 = \<lparr>cn_noTemplate = False, cn_noSecret = False, cn_secretAllowedIn = [], cn_registryOnly = False\<rparr>"

definition rows_of :: "nat \<Rightarrow> type_options" where
  "rows_of n = topts0\<lparr>ty_rows := n\<rparr>"

definition opt_item :: "string \<Rightarrow> jsstr \<Rightarrow> option_item" where
  "opt_item v l = \<lparr>op_value = js v, op_label = l\<rparr>"

definition out_field :: "string \<Rightarrow> string \<Rightarrow> jsstr \<Rightarrow> output_field" where
  "out_field name t d = \<lparr>oo_name = js name, oo_type = js t, oo_desc = d\<rparr>"

definition mainPorts :: "port_spec list" where
  "mainPorts = [\<lparr>po_name = js ''main'', po_type = js ''main''\<rparr>]"

definition ageBandCascade :: derived_default where
  "ageBandCascade = \<lparr>df_field = js ''ageBand'', df_map =
     [(js ''0-3'', [(js ''pageCount'', JNum 8), (js ''maxWordsPerSpread'', JNum 10),
        (js ''narrationStyle'', JStr (js ''repetition'')), (js ''bookType'', JStr (js ''concept''))]),
      (js ''3-6'', [(js ''pageCount'', JNum 16), (js ''maxWordsPerSpread'', JNum 50),
        (js ''narrationStyle'', JStr (js ''plain'')), (js ''bookType'', JStr (js ''narrative''))]),
      (js ''6-8'', [(js ''pageCount'', JNum 16), (js ''maxWordsPerSpread'', JNum 120),
        (js ''narrationStyle'', JStr (js ''dialogue'')), (js ''bookType'', JStr (js ''narrative''))])]\<rparr>"

definition show_when :: "string \<Rightarrow> json list \<Rightarrow> display_options" where
  "show_when k vs = \<lparr>dp_show = [(js k, vs)], dp_hide = []\<rparr>"

definition showWhenPictureBook :: display_options where
  "showWhenPictureBook = show_when ''pictureBook'' [JBool True]"

definition age_options :: "option_item list" where
  "age_options = [opt_item ''0-3'' (js ''0-3 '' @ [23681]), opt_item ''3-6'' (js ''3-6 '' @ [23681]),
     opt_item ''6-8'' (js ''6-8 '' @ [23681])]"

definition format_options :: "option_item list" where
  "format_options = [opt_item ''text'' ([25991, 26412]), opt_item ''json'' (js ''JSON'')]"

definition age_band :: node_property where
  "age_band = (prop0 ''ageBand'' ([24180, 40836, 27573]) PT_options)\<lparr>np_displayOptions := Some showWhenPictureBook,
     np_defaultFrom := Some ageBandCascade, np_options := age_options\<rparr>"

definition picture_book :: node_property where
  "picture_book = (prop0 ''pictureBook'' ([32472, 26412, 27169, 24335]) PT_boolean)\<lparr>np_default := Some (JBool False)\<rparr>"

definition output_format_prop :: node_property where
  "output_format_prop = (prop0 ''outputFormat'' ([36755, 20986, 26684, 24335]) PT_options)
     \<lparr>np_default := Some (JStr (js ''text'')), np_options := format_options\<rparr>"

definition desc_script_stage :: node_type_description where
  "desc_script_stage = \<lparr>nt_type = js ''studio.script'', nt_version = desc_Version, nt_label = [21095, 26412],
     nt_description = [26681, 25454, 39033, 30446, 31616, 25253, 29983, 25104, 21095, 26412] @ js ''/'' @ [33050, 26412, 65307, 24037, 20316, 27969, 24517, 39035, 21253, 21547, 33267, 23569, 19968, 20010, 21095, 26412, 33410, 28857, 12290],
     nt_group = js ''generation'', nt_inputs = None, nt_outputs = Some mainPorts,
     nt_outputSchema = [out_field ''title'' ''string'' [], out_field ''logline'' ''string'' [],
       out_field ''characterSheet'' ''object'' (js ''ScriptAgent '' @ [36816, 34892, 26399, 29983, 25104, 65307] @ js ''storyboard '' @ [32463]
         @ js '' $node[\"script\"].json.characterSheet '' @ [28040, 36153]),
       out_field ''scenes'' ''array'' []],
     nt_properties =
      [(prop0 ''brief'' ([31616, 25253]) PT_textarea)\<lparr>np_typeOptions := Some (rows_of 4)\<rparr>,
       prop0 ''contentType'' ([20869, 23481, 31867, 22411]) PT_string,
       prop0 ''targetPlatform'' ([30446, 26631, 24179, 21488]) PT_string,
       prop0 ''style'' ([39118, 26684]) PT_string,
       picture_book, age_band,
       (prop0 ''bookType'' ([32472, 26412, 31867, 22411]) PT_string)\<lparr>np_displayOptions := Some showWhenPictureBook\<rparr>,
       (prop0 ''themes'' ([20027, 39064]) PT_collection)\<lparr>np_displayOptions := Some showWhenPictureBook\<rparr>,
       (prop0 ''systemPrompt'' ([31995, 32479, 25552, 31034, 35789]) PT_prompt)
         \<lparr>np_typeOptions := Some (topts0\<lparr>ty_promptKind := js ''script''\<rparr>)\<rparr>]\<rparr>"

definition desc_storyboard :: node_type_description where
  "desc_storyboard = \<lparr>nt_type = js ''studio.storyboard'', nt_version = desc_Version, nt_label = [20998, 38236],
     nt_description = [23558, 21095, 26412, 25286, 35299, 20026, 20998, 38236, 38236, 22836, 65307, 23436, 25104, 21518, 25353, 38236, 22836, 25159, 20986, 29983, 25104, 36164, 20135, 33410, 28857, 12290],
     nt_group = js ''generation'', nt_inputs = Some mainPorts, nt_outputs = Some mainPorts,
     nt_outputSchema = [out_field ''shotNo'' ''number'' [], out_field ''description'' ''string'' [], out_field ''narration'' ''string'' []],
     nt_properties =
      [prop0 ''style'' ([39118, 26684]) PT_string, picture_book, age_band,
       (prop0 ''maxWordsPerSpread'' ([27599, 36328, 39029, 23383, 25968, 19978, 38480]) PT_number)\<lparr>np_displayOptions := Some showWhenPictureBook\<rparr>,
       (prop0 ''illustrationStyle'' ([25554, 30011, 39118, 26684]) PT_string)\<lparr>np_displayOptions := Some showWhenPictureBook\<rparr>,
       (prop0 ''systemPrompt'' ([31995, 32479, 25552, 31034, 35789]) PT_prompt)
         \<lparr>np_typeOptions := Some (topts0\<lparr>ty_promptKind := js ''storyboard''\<rparr>)\<rparr>]\<rparr>"

definition desc_asset :: node_type_description where
  "desc_asset = \<lparr>nt_type = js ''studio.asset'', nt_version = desc_Version, nt_label = [36164, 20135],
     nt_description = [29983, 25104, 21333, 20010, 22270, 20687] @ js ''/'' @ [35270, 39057] @ js ''/'' @ [38899, 39057, 36164, 20135, 65288, 36890, 24120, 30001, 20998, 38236, 25159, 20986, 65292, 19981, 30452, 25509, 32534, 25490, 65289, 12290],
     nt_group = js ''generation'', nt_inputs = Some mainPorts, nt_outputs = Some mainPorts,
     nt_outputSchema = [out_field ''out'' ''binary'' []],
     nt_properties =
      [(prop0 ''kind'' ([36164, 20135, 31867, 22411]) PT_options)\<lparr>np_default := Some (JStr (js ''image'')),
         np_options := [opt_item ''image'' ([22270, 20687]), opt_item ''video'' ([35270, 39057]), opt_item ''audio'' ([38899, 39057])]\<rparr>,
       (prop0 ''prompt'' ([25552, 31034, 35789]) PT_textarea)\<lparr>np_typeOptions := Some (rows_of 3)\<rparr>,
       prop0 ''style'' ([39118, 26684]) PT_string,
       (prop0 ''voice'' ([38899, 33394]) PT_string)
         \<lparr>np_displayOptions := Some (show_when ''kind'' [JStr (js ''audio'')])\<rparr>,
       (prop0 ''duration'' ([26102, 38271] @ js ''('' @ [31186] @ js '')'') PT_number)
         \<lparr>np_displayOptions := Some (show_when ''kind'' [JStr (js ''video''), JStr (js ''audio'')])\<rparr>]\<rparr>"

definition desc_prescreen :: node_type_description where
  "desc_prescreen = \<lparr>nt_type = js ''studio.prescreen'', nt_version = desc_Version, nt_label = [39044, 23457],
     nt_description = [23545, 19978, 28216, 25991, 26412, 20570, 23433, 20840, 19982, 19968, 33268, 24615, 35780, 20998, 65292, 20135, 20986] @ js '' JSON '' @ [35780, 20998]
       @ js ''(0-100)+'' @ [39118, 38505, 26631, 35760, 65292, 20379, 19979, 28216, 33410, 28857, 35835, 21462, 12290],
     nt_group = js ''transform'', nt_inputs = Some mainPorts, nt_outputs = Some mainPorts,
     nt_outputSchema = [out_field ''score'' ''number'' [], out_field ''flags'' ''array'' [], out_field ''note'' ''string'' []],
     nt_properties =
      [(prop0 ''outputFormat'' ([36755, 20986, 26684, 24335]) PT_options)\<lparr>np_default := Some (JStr (js ''json'')),
         np_options := [opt_item ''json'' (js ''JSON''), opt_item ''text'' ([25991, 26412])]\<rparr>]\<rparr>"

definition desc_llm :: node_type_description where
  "desc_llm = \<lparr>nt_type = js ''llm'', nt_version = desc_Version, nt_label = js ''LLM'',
     nt_description = [35843, 29992, 22823, 35821, 35328, 27169, 22411, 65292, 25353, 31995, 32479] @ js ''/'' @ [29992, 25143, 25552, 31034, 35789, 27169, 26495, 29983, 25104, 25991, 26412, 25110] @ js '' JSON'' @ [12290],
     nt_group = js ''transform'', nt_inputs = Some mainPorts, nt_outputs = Some mainPorts,
     nt_outputSchema = [out_field ''text'' ''string'' []],
     nt_properties =
      [(prop0 ''systemPrompt'' ([31995, 32479, 25552, 31034, 35789]) PT_textarea)\<lparr>np_typeOptions := Some (rows_of 3)\<rparr>,
       (prop0 ''userPrompt'' ([29992, 25143, 25552, 31034, 35789]) PT_textarea)\<lparr>np_required := True, np_typeOptions := Some (rows_of 4)\<rparr>,
       (prop0 ''model'' ([27169, 22411]) PT_resourceLocator)
         \<lparr>np_typeOptions := Some (topts0\<lparr>ty_dataSource := js ''model''\<rparr>)\<rparr>,
       prop0 ''temperature'' ([28201, 24230]) PT_number,
       output_format_prop]\<rparr>"

definition desc_http :: node_type_description where
  "desc_http = \<lparr>nt_type = js ''http'', nt_version = desc_Version, nt_label = js ''HTTP'',
     nt_description = [35843, 29992, 22806, 37096] @ js '' HTTP '' @ [31471, 28857, 12290] @ js ''URL ''
       @ [24517, 39035, 38745, 24577, 23383, 38754, 37327, 65307, 23494, 38053, 21482, 33021, 29992, 20110, 35831, 27714, 22836, 12290],
     nt_group = js ''io'', nt_inputs = Some mainPorts, nt_outputs = Some mainPorts,
     nt_outputSchema = [],
     nt_properties =
      [(prop0 ''method'' ([35831, 27714, 26041, 27861]) PT_options)\<lparr>np_default := Some (JStr (js ''GET'')),
         np_options := [opt_item ''GET'' (js ''GET''), opt_item ''POST'' (js ''POST''), opt_item ''PUT'' (js ''PUT''),
           opt_item ''PATCH'' (js ''PATCH''), opt_item ''DELETE'' (js ''DELETE'')]\<rparr>,
       (prop0 ''url'' (js ''URL'') PT_string)\<lparr>np_required := True,
         np_constraints := Some (cons0\<lparr>cn_noTemplate := True, cn_registryOnly := True\<rparr>)\<rparr>,
       (prop0 ''headers'' ([35831, 27714, 22836]) PT_keyValue)
         \<lparr>np_constraints := Some (cons0\<lparr>cn_secretAllowedIn := [js ''headers''], cn_registryOnly := True\<rparr>)\<rparr>,
       (prop0 ''bodyTemplate'' ([35831, 27714, 20307, 27169, 26495]) PT_textarea)
         \<lparr>np_constraints := Some (cons0\<lparr>cn_noSecret := True, cn_registryOnly := True\<rparr>),
          np_typeOptions := Some (rows_of 3)\<rparr>,
       output_format_prop,
       (prop0 ''allowResponseBody'' ([20801, 35768, 26174, 31034, 21709, 24212, 20307]) PT_boolean)\<lparr>np_default := Some (JBool False),
         np_constraints := Some (cons0\<lparr>cn_registryOnly := True\<rparr>)\<rparr>]\<rparr>"

definition desc_script :: node_type_description where
  "desc_script = \<lparr>nt_type = js ''script'', nt_version = desc_Version, nt_label = [33050, 26412],
     nt_description = [36816, 34892] @ js '' Starlark '' @ [33050, 26412, 23545, 19978, 28216, 36755, 20986, 20570, 36716, 25442, 65307, 31105, 29992, 23494, 38053, 19982, 32593, 32476, 12290],
     nt_group = js ''transform'', nt_inputs = Some mainPorts, nt_outputs = Some mainPorts,
     nt_outputSchema = [],
     nt_properties =
      [(prop0 ''code'' ([33050, 26412, 20195, 30721]) PT_code)\<lparr>np_required := True,
         np_constraints := Some (cons0\<lparr>cn_noSecret := True, cn_registryOnly := True\<rparr>),
         np_typeOptions := Some ((rows_of 8)\<lparr>ty_editor := js ''starlark''\<rparr>)\<rparr>,
       output_format_prop]\<rparr>"

definition Builtins :: "node_type_description list" where
  "Builtins = [desc_script_stage, desc_storyboard, desc_asset, desc_prescreen, desc_llm, desc_http, desc_script]"

definition ReservedNamespace :: "jsstr \<Rightarrow> bool" where
  "ReservedNamespace slug \<longleftrightarrow> startsWith slug (js ''studio.'')
     \<or> slug \<in> {js ''llm'', js ''http'', js ''script''}"

definition DescByKind :: "jsstr \<Rightarrow> int \<Rightarrow> node_type_description option" where
  "DescByKind kind typeVersion =
     (let v = (if typeVersion = 0 then desc_Version else typeVersion)
      in if v \<noteq> desc_Version then None else find (\<lambda>d. nt_type d = kind) Builtins)"

section \<open>The merge of the parameters of a node over those of its type\<close>

datatype go_map = Nil_map | Go_map "json obj"

fun unmarshal_map :: "json \<Rightarrow> go_map option" where
  "unmarshal_map (JObj o') = Some (Go_map (obj_fill o' []))"
| "unmarshal_map JNull = Some Nil_map"
| "unmarshal_map _ = None"

text \<open>\<open>json.Marshal\<close> writes the keys of a map in the order of their bytes, which is that of
  their code points.\<close>

fun marshal_map :: "go_map \<Rightarrow> json" where
  "marshal_map Nil_map = JNull"
| "marshal_map (Go_map m) = JObj (sort_key (\<lambda>p. code_points (fst p)) m)"

datatype merge_result = Merged "json option" | Bad_base | Bad_overlay | Nil_map_write

definition registry_only :: "node_property \<Rightarrow> bool" where
  "registry_only p \<longleftrightarrow> (case np_constraints p of None \<Rightarrow> False | Some c \<Rightarrow> cn_registryOnly c)"

definition injectable :: "node_type_description \<Rightarrow> jsstr \<Rightarrow> bool" where
  "injectable desc k \<longleftrightarrow> k \<in> set (map np_name (filter (\<lambda>p. \<not> registry_only p) (nt_properties desc)))"

text \<open>The loop over the overlay: every pair whose key is injectable is written.\<close>

definition inject :: "node_type_description \<Rightarrow> json obj \<Rightarrow> go_map \<Rightarrow> go_map option" where
  "inject desc ov merged =
     (let ps = filter (\<lambda>p. injectable desc (fst p)) ov
      in case merged of Go_map m \<Rightarrow> Some (Go_map (obj_fill ps m))
         | Nil_map \<Rightarrow> if ps = [] then Some Nil_map else None)"

definition base_map :: "json option \<Rightarrow> go_map option" where
  "base_map base = (case base of None \<Rightarrow> Some (Go_map []) | Some j \<Rightarrow> unmarshal_map j)"

fun overlay_pairs :: "go_map \<Rightarrow> json obj" where
  "overlay_pairs Nil_map = []"
| "overlay_pairs (Go_map m) = m"

definition MergeOverlay :: "json option \<Rightarrow> json option \<Rightarrow> node_type_description \<Rightarrow> merge_result" where
  "MergeOverlay base overlay desc = (case base_map base of
       None \<Rightarrow> Bad_base
     | Some merged \<Rightarrow> (case overlay of
         None \<Rightarrow> Merged base
       | Some ov \<Rightarrow> (case unmarshal_map ov of
           None \<Rightarrow> Bad_overlay
         | Some m \<Rightarrow> (case inject desc (overlay_pairs m) merged of
             None \<Rightarrow> Nil_map_write
           | Some r \<Rightarrow> Merged (Some (marshal_map r))))))"

section \<open>The check of the values\<close>

datatype params_error =
    Params_not_JSON | Http_params_type | Http_method | Http_url_required | Http_url_template
  | Http_body_secret | Http_format | Script_params_type | Script_code_required
  | Script_code_secret | Script_format

text \<open>A key of the object fills the field of the struct when it is its name up to the case of
  the letters (the Kelvin sign and the long s fold to letters). A null leaves the field, a
  value of another type is an error.\<close>

definition fold_unit :: "nat \<Rightarrow> nat" where
  "fold_unit c = (if 65 \<le> c \<and> c \<le> 90 then c + 32 else if c = 0x212A then 107
     else if c = 0x17F then 115 else c)"

definition field_values :: "string \<Rightarrow> json obj \<Rightarrow> json list" where
  "field_values name ob =
     map snd (filter (\<lambda>(k, v). map fold_unit k = map fold_unit (js name) \<and> v \<noteq> JNull) ob)"

fun strings_of :: "json list \<Rightarrow> jsstr list option" where
  "strings_of [] = Some []"
| "strings_of (JStr s # vs) = map_option ((#) s) (strings_of vs)"
| "strings_of (_ # vs) = None"

definition string_field :: "string \<Rightarrow> json obj \<Rightarrow> jsstr option" where
  "string_field name ob =
     map_option (\<lambda>ss. if ss = [] then [] else last ss) (strings_of (field_values name ob))"

fun string_map :: "json \<Rightarrow> bool" where
  "string_map (JObj o') = (strings_of (filter (\<lambda>v. v \<noteq> JNull) (map snd o')) \<noteq> None)"
| "string_map _ = False"

fun struct_fields :: "json \<Rightarrow> json obj option" where
  "struct_fields (JObj o') = Some o'"
| "struct_fields JNull = Some []"
| "struct_fields _ = None"

definition re_space :: "nat \<Rightarrow> bool" where
  "re_space c \<longleftrightarrow> c \<in> {9, 10, 12, 13, 32}"

text \<open>\<open>secretRefRe\<close>: two braces, white space, and \<open>secret:\<close>.\<close>

fun secretRef :: "jsstr \<Rightarrow> bool" where
  "secretRef [] = False"
| "secretRef (c # s) =
     ((startsWith (c # s) (js ''{{'') \<and> startsWith (dropWhile re_space (drop 1 s)) (js ''secret:''))
      \<or> secretRef s)"

definition httpMethods :: "jsstr set" where
  "httpMethods = {js ''GET'', js ''POST'', js ''PUT'', js ''PATCH'', js ''DELETE''}"

definition format_ok :: "jsstr \<Rightarrow> bool" where
  "format_ok f \<longleftrightarrow> f \<in> {[], js ''text'', js ''json''}"

definition http_values :: "jsstr \<Rightarrow> jsstr \<Rightarrow> jsstr \<Rightarrow> jsstr \<Rightarrow> params_error option" where
  "http_values method url body fmt =
     (if method \<notin> httpMethods then Some Http_method
      else if TrimSpace (code_points url) = [] then Some Http_url_required
      else if str_includes url (js ''{{'') then Some Http_url_template
      else if secretRef body then Some Http_body_secret
      else if \<not> format_ok fmt then Some Http_format else None)"

definition validateHTTPParams :: "json \<Rightarrow> params_error option" where
  "validateHTTPParams raw = (case struct_fields raw of None \<Rightarrow> Some Http_params_type | Some ob \<Rightarrow>
     (case (string_field ''method'' ob, string_field ''url'' ob, string_field ''bodyTemplate'' ob,
            string_field ''outputFormat'' ob) of
        (Some m, Some u, Some b, Some f) \<Rightarrow>
          if list_all string_map (field_values ''headers'' ob) then http_values m u b f
          else Some Http_params_type
      | _ \<Rightarrow> Some Http_params_type))"

definition script_values :: "jsstr \<Rightarrow> jsstr \<Rightarrow> params_error option" where
  "script_values code fmt =
     (if TrimSpace (code_points code) = [] then Some Script_code_required
      else if secretRef code then Some Script_code_secret
      else if \<not> format_ok fmt then Some Script_format else None)"

definition validateScriptParams :: "json \<Rightarrow> params_error option" where
  "validateScriptParams raw = (case struct_fields raw of None \<Rightarrow> Some Script_params_type | Some ob \<Rightarrow>
     (case (string_field ''code'' ob, string_field ''outputFormat'' ob) of
        (Some c, Some f) \<Rightarrow> script_values c f
      | _ \<Rightarrow> Some Script_params_type))"

definition ValidateParams :: "jsstr \<Rightarrow> json option \<Rightarrow> params_error option" where
  "ValidateParams kind params = (case params of
       None \<Rightarrow> Some Params_not_JSON
     | Some raw \<Rightarrow> if kind = js ''http'' then validateHTTPParams raw
         else if kind = js ''script'' then validateScriptParams raw else None)"

section \<open>The registry and the catalogue of an organisation\<close>

record type_row =
  tr_id :: jsstr
  tr_orgId :: jsstr
  tr_slug :: jsstr
  tr_label :: jsstr
  tr_color :: jsstr
  tr_kind :: jsstr
  tr_params :: "json option"

definition type_Get :: "type_row list \<Rightarrow> jsstr \<Rightarrow> jsstr \<Rightarrow> type_row option" where
  "type_Get rows i org = find (\<lambda>r. tr_id r = i \<and> tr_orgId r = org) rows"

definition type_List :: "type_row list \<Rightarrow> jsstr \<Rightarrow> type_row list" where
  "type_List rows org = filter (\<lambda>r. tr_orgId r = org) rows"

definition row_params :: "type_row \<Rightarrow> json obj" where
  "row_params row = (case Option.bind (tr_params row) unmarshal_map of
       Some m \<Rightarrow> overlay_pairs m | None \<Rightarrow> [])"

definition project_default :: "json obj \<Rightarrow> node_property \<Rightarrow> node_property" where
  "project_default params p =
     (case obj_get params (np_name p) of Some v \<Rightarrow> p\<lparr>np_default := Some v\<rparr> | None \<Rightarrow> p)"

definition customFromRow :: "node_type_description \<Rightarrow> type_row \<Rightarrow> node_type_description" where
  "customFromRow bse row = bse\<lparr>nt_type := js ''custom:'' @ tr_slug row,
     nt_label := (if tr_label row \<noteq> [] then tr_label row else nt_label bse),
     nt_properties := map (project_default (row_params row)) (nt_properties bse)\<rparr>"

definition base_kinds :: "jsstr set" where
  "base_kinds = {js ''llm'', js ''http'', js ''script''}"

definition baseByKind :: "jsstr \<Rightarrow> node_type_description option" where
  "baseByKind kind = find (\<lambda>b. nt_type b \<in> base_kinds \<and> nt_type b = kind) Builtins"

definition custom_desc :: "type_row \<Rightarrow> node_type_description option" where
  "custom_desc row = (if ReservedNamespace (tr_slug row) then None
     else map_option (\<lambda>bse. customFromRow bse row) (baseByKind (tr_kind row)))"

definition nodeTypes :: "type_row list \<Rightarrow> jsstr \<Rightarrow> node_type_description list" where
  "nodeTypes rows org = Builtins @
     sort_key (\<lambda>d. code_points (nt_type d)) (List.map_filter custom_desc (type_List rows org))"

section \<open>Saving and running\<close>

datatype overlay_error =
    Type_unresolved jsstr | Type_version jsstr int | Parameters_invalid jsstr
  | Parameter_registry_only jsstr | Parameters_value jsstr params_error | Registry_unavailable jsstr

datatype 'a handled = Done 'a | Refused overlay_error | Panicked

definition typeId_of :: "workflow_node \<Rightarrow> jsstr" where
  "typeId_of n = nullish (wn_typeId n) []"

definition typeVersion_of :: "workflow_node \<Rightarrow> int" where
  "typeVersion_of n = nullish (wn_typeVersion n) 0"

definition overlay_of :: "workflow_node \<Rightarrow> json option" where
  "overlay_of n = map_option JObj (wn_parameters n)"

definition names_registry_only :: "node_type_description \<Rightarrow> json obj \<Rightarrow> bool" where
  "names_registry_only desc ov \<longleftrightarrow>
     list_ex (\<lambda>k. k \<in> set (map np_name (filter registry_only (nt_properties desc)))) (obj_keys ov)"

text \<open>Which of several keys the message names is left open: a Go map has no order.\<close>

definition check_merged :: "workflow_node \<Rightarrow> type_row \<Rightarrow> node_type_description \<Rightarrow> unit handled" where
  "check_merged n ct desc = (case MergeOverlay (tr_params ct) (overlay_of n) desc of
       Nil_map_write \<Rightarrow> Panicked
     | Merged m \<Rightarrow> (case ValidateParams (tr_kind ct) m of
         None \<Rightarrow> Done () | Some e \<Rightarrow> Refused (Parameters_value (wn_id n) e))
     | _ \<Rightarrow> Refused (Parameters_invalid (wn_id n)))"

definition check_overlay :: "workflow_node \<Rightarrow> type_row \<Rightarrow> node_type_description \<Rightarrow> unit handled" where
  "check_overlay n ct desc = (case Option.bind (overlay_of n) unmarshal_map of
       None \<Rightarrow> Refused (Parameters_invalid (wn_id n))
     | Some ov \<Rightarrow> if names_registry_only desc (overlay_pairs ov)
         then Refused (Parameter_registry_only (wn_id n))
         else check_merged n ct desc)"

definition check_node :: "type_row list \<Rightarrow> jsstr \<Rightarrow> workflow_node \<Rightarrow> unit handled" where
  "check_node rows org n = (if typeId_of n = [] \<or> overlay_of n = None then Done ()
     else case type_Get rows (typeId_of n) org of
         None \<Rightarrow> Refused (Type_unresolved (wn_id n))
       | Some ct \<Rightarrow> (case DescByKind (tr_kind ct) (typeVersion_of n) of
           None \<Rightarrow> Refused (Type_version (wn_id n) (typeVersion_of n))
         | Some desc \<Rightarrow> check_overlay n ct desc))"

fun check_nodes :: "type_row list \<Rightarrow> jsstr \<Rightarrow> workflow_node list \<Rightarrow> unit handled" where
  "check_nodes rows org [] = Done ()"
| "check_nodes rows org (n # ns) = (case check_node rows org n of
     Done _ \<Rightarrow> check_nodes rows org ns | r \<Rightarrow> r)"

definition validateNodeParameterOverlays ::
    "type_row list option \<Rightarrow> jsstr \<Rightarrow> workflow_node list \<Rightarrow> unit handled" where
  "validateNodeParameterOverlays res org ns =
     (case res of None \<Rightarrow> Done () | Some rows \<Rightarrow> check_nodes rows org ns)"

record resolved_type =
  rt_kind :: jsstr
  rt_params :: "json option"

definition merged_type :: "workflow_node \<Rightarrow> type_row \<Rightarrow> node_type_description \<Rightarrow> resolved_type handled" where
  "merged_type n ct desc = (case MergeOverlay (tr_params ct) (overlay_of n) desc of
       Nil_map_write \<Rightarrow> Panicked
     | Merged m \<Rightarrow> (case ValidateParams (tr_kind ct) m of
         None \<Rightarrow> Done \<lparr>rt_kind = tr_kind ct, rt_params = m\<rparr>
       | Some e \<Rightarrow> Refused (Parameters_value (wn_id n) e))
     | _ \<Rightarrow> Refused (Parameters_invalid (wn_id n)))"

definition resolve_node :: "type_row list option \<Rightarrow> jsstr \<Rightarrow> workflow_node \<Rightarrow> resolved_type handled" where
  "resolve_node res org n = (case res of None \<Rightarrow> Refused (Registry_unavailable (wn_id n)) | Some rows \<Rightarrow>
     (case type_Get rows (typeId_of n) org of
        None \<Rightarrow> Refused (Type_unresolved (wn_id n))
      | Some ct \<Rightarrow>
          if overlay_of n \<noteq> None \<or> typeVersion_of n \<noteq> 0
          then (case DescByKind (tr_kind ct) (typeVersion_of n) of
              None \<Rightarrow> Refused (Type_version (wn_id n) (typeVersion_of n))
            | Some desc \<Rightarrow> merged_type n ct desc)
          else Done \<lparr>rt_kind = tr_kind ct, rt_params = tr_params ct\<rparr>))"

fun resolveCustomTypes :: "type_row list option \<Rightarrow> jsstr \<Rightarrow> workflow_node list \<Rightarrow> resolved_type obj
    \<Rightarrow> resolved_type obj handled" where
  "resolveCustomTypes res org [] acc = Done acc"
| "resolveCustomTypes res org (n # ns) acc =
     (if typeId_of n = [] then resolveCustomTypes res org ns acc
      else case resolve_node res org n of
          Done t \<Rightarrow> resolveCustomTypes res org ns (obj_put (wn_id n) t acc)
        | Refused e \<Rightarrow> Refused e
        | Panicked \<Rightarrow> Panicked)"

section \<open>Facts\<close>

text \<open>The value a reader of the parameters finds under a key.\<close>

definition json_get :: "json option \<Rightarrow> jsstr \<Rightarrow> json option" where
  "json_get j k = (case base_map j of Some m \<Rightarrow> obj_get (overlay_pairs m) k | None \<Rightarrow> None)"

lemma obj_get_sorted:
  assumes "distinct (obj_keys m)"
  shows "obj_get (obj_fill (sort_key f m) []) k = obj_get m k"
proof -
  have d: "distinct (map fst (rev (sort_key f m)))"
    using assms by (simp add: distinct_map rev_map flip: map_map)
  have "map_of (rev (sort_key f m)) = map_of m"
    by (subst map_of_inject_set [OF d assms]) simp
  then show ?thesis
    by (simp add: obj_get_fill) (simp add: obj_get_def)
qed

lemma json_get_marshal:
  assumes "distinct (obj_keys (overlay_pairs m))"
  shows "json_get (Some (marshal_map m)) k = obj_get (overlay_pairs m) k"
  using assms by (cases m) (simp_all add: json_get_def base_map_def obj_get_sorted)

lemma distinct_fill_Nil: "distinct (obj_keys (obj_fill ps []))"
  by (rule distinct_obj_fill) simp

lemma unmarshal_distinct: "unmarshal_map j = Some m \<Longrightarrow> distinct (obj_keys (overlay_pairs m))"
  by (cases j) (auto simp: distinct_fill_Nil)

lemma base_map_distinct: "base_map b = Some m \<Longrightarrow> distinct (obj_keys (overlay_pairs m))"
  by (auto simp: base_map_def unmarshal_distinct split: option.splits)

lemma map_of_rev_distinct: "distinct (map fst xs) \<Longrightarrow> map_of (rev xs) = map_of xs"
  by (subst map_of_inject_set) (auto simp: rev_map [symmetric])

lemma map_of_filter_key:
  "map_of (filter (\<lambda>p. P (fst p)) xs) k = (if P k then map_of xs k else None)"
  by (induction xs) auto

lemma inject_get:
  assumes "inject desc ov m = Some r" and "distinct (obj_keys ov)"
  shows "obj_get (overlay_pairs r) k =
    (if injectable desc k \<and> obj_get ov k \<noteq> None then obj_get ov k else obj_get (overlay_pairs m) k)"
proof -
  let ?ps = "filter (\<lambda>p. injectable desc (fst p)) ov"
  have d: "distinct (map fst ?ps)"
    using assms(2) by (rule distinct_map_filter)
  have g: "map_of ?ps k = (if injectable desc k then map_of ov k else None)"
    by (rule map_of_filter_key)
  show ?thesis
  proof (cases m)
    case Nil_map
    with assms(1) have "?ps = []" "r = Nil_map"
      by (auto simp: inject_def Let_def split: if_splits)
    with g Nil_map show ?thesis by (auto simp: obj_get_def split: if_splits)
  next
    case (Go_map o')
    with assms(1) have "r = Go_map (obj_fill ?ps o')" by (simp add: inject_def Let_def)
    then have "obj_get (overlay_pairs r) k = (obj_get o' ++ map_of ?ps) k"
      by (simp add: obj_get_fill map_of_rev_distinct [OF d])
    with g Go_map show ?thesis by (auto simp: obj_get_def map_add_def split: option.splits)
  qed
qed

lemma inject_distinct:
  assumes "inject desc ov m = Some r" and "distinct (obj_keys (overlay_pairs m))"
  shows "distinct (obj_keys (overlay_pairs r))"
  using assms by (cases m) (auto simp: inject_def Let_def distinct_obj_fill split: if_splits)

text \<open>The merge reads as the overlay at the keys it may write, and as the base elsewhere.\<close>

lemma merge_get:
  assumes "MergeOverlay b ov desc = Merged r"
  shows "json_get r k =
    (if injectable desc k \<and> json_get ov k \<noteq> None then json_get ov k else json_get b k)"
proof -
  obtain bm where b: "base_map b = Some bm"
    using assms by (auto simp: MergeOverlay_def split: option.splits)
  show ?thesis
  proof (cases ov)
    case None
    with assms b have "r = b" by (simp add: MergeOverlay_def)
    with None show ?thesis by (simp add: json_get_def base_map_def)
  next
    case (Some j)
    with assms b obtain om rm where o': "unmarshal_map j = Some om"
        and i: "inject desc (overlay_pairs om) bm = Some rm" and r: "r = Some (marshal_map rm)"
      by (auto simp: MergeOverlay_def split: option.splits)
    have "json_get r k = obj_get (overlay_pairs rm) k"
      unfolding r by (rule json_get_marshal [OF inject_distinct [OF i base_map_distinct [OF b]]])
    also have "\<dots> = (if injectable desc k \<and> obj_get (overlay_pairs om) k \<noteq> None
        then obj_get (overlay_pairs om) k else obj_get (overlay_pairs bm) k)"
      by (rule inject_get [OF i unmarshal_distinct [OF o']])
    finally have g: "json_get r k = (if injectable desc k \<and> obj_get (overlay_pairs om) k \<noteq> None
        then obj_get (overlay_pairs om) k else obj_get (overlay_pairs bm) k)" .
    have "json_get ov k = obj_get (overlay_pairs om) k" "json_get b k = obj_get (overlay_pairs bm) k"
      using Some b o' by (simp_all add: json_get_def base_map_def)
    with g show ?thesis by (simp only: not_False_eq_True)
  qed
qed

text \<open>What a node may write, kind by kind.\<close>

lemmas desc_kind_defs = desc_llm_def desc_http_def desc_script_def prop0_def rows_of_def topts0_def
  cons0_def output_format_prop_def

definition writable :: "jsstr \<Rightarrow> jsstr list" where
  "writable kind =
     (if kind = js ''llm'' then map js [''systemPrompt'', ''userPrompt'', ''model'', ''temperature'', ''outputFormat'']
      else if kind = js ''http'' then map js [''method'', ''outputFormat'']
      else if kind = js ''script'' then [js ''outputFormat''] else [])"

lemma injectable_kinds:
  "injectable desc_llm k \<longleftrightarrow> k \<in> set (writable (js ''llm''))"
  "injectable desc_http k \<longleftrightarrow> k \<in> set (writable (js ''http''))"
  "injectable desc_script k \<longleftrightarrow> k \<in> set (writable (js ''script''))"
  by (auto simp: injectable_def registry_only_def writable_def desc_kind_defs)

lemma nt_type_simps:
  "nt_type desc_script_stage = js ''studio.script''" "nt_type desc_storyboard = js ''studio.storyboard''"
  "nt_type desc_asset = js ''studio.asset''" "nt_type desc_prescreen = js ''studio.prescreen''"
  "nt_type desc_llm = js ''llm''" "nt_type desc_http = js ''http''" "nt_type desc_script = js ''script''"
  by (simp_all add: desc_script_stage_def desc_storyboard_def desc_asset_def desc_prescreen_def
      desc_llm_def desc_http_def desc_script_def)

lemma desc_of_kind:
  "DescByKind (js ''llm'') 1 = Some desc_llm" "DescByKind (js ''http'') 1 = Some desc_http"
  "DescByKind (js ''script'') 1 = Some desc_script"
  by (simp_all add: DescByKind_def Builtins_def nt_type_simps desc_Version_def)

lemma DescByKind_base:
  "kind \<in> base_kinds \<Longrightarrow> DescByKind kind v = Some d \<Longrightarrow> injectable d k \<longleftrightarrow> k \<in> set (writable kind)"
  by (auto simp: DescByKind_def Builtins_def nt_type_simps base_kinds_def injectable_kinds Let_def
      split: if_splits)


section \<open>What runs is the registered type\<close>

text \<open>The parameters a node runs with: the overlay at the keys it may write, the registry elsewhere.\<close>

definition runs_as :: "type_row \<Rightarrow> workflow_node \<Rightarrow> resolved_type \<Rightarrow> bool" where
  "runs_as ct n t \<longleftrightarrow> rt_kind t = tr_kind ct \<and>
     (\<forall>k. json_get (rt_params t) k =
        (if k \<in> set (writable (tr_kind ct)) \<and> json_get (overlay_of n) k \<noteq> None
         then json_get (overlay_of n) k else json_get (tr_params ct) k))"

lemma resolve_node_runs:
  assumes r: "resolve_node (Some rows) org n = Done t" and k: "\<forall>r \<in> set rows. tr_kind r \<in> base_kinds"
  obtains ct where "type_Get rows (typeId_of n) org = Some ct" "runs_as ct n t"
proof -
  obtain ct where g: "type_Get rows (typeId_of n) org = Some ct"
    using r by (auto simp: resolve_node_def split: option.splits)
  then have kind: "tr_kind ct \<in> base_kinds"
    using k by (auto simp: type_Get_def find_Some_iff)
  have "runs_as ct n t"
  proof (cases "overlay_of n \<noteq> None \<or> typeVersion_of n \<noteq> 0")
    case True
    with r g obtain d m where d: "DescByKind (tr_kind ct) (typeVersion_of n) = Some d"
        and m: "MergeOverlay (tr_params ct) (overlay_of n) d = Merged m"
        and t: "t = \<lparr>rt_kind = tr_kind ct, rt_params = m\<rparr>"
      by (auto simp: resolve_node_def merged_type_def split: option.splits merge_result.splits)
    show ?thesis
      using merge_get [OF m] DescByKind_base [OF kind d] t by (simp add: runs_as_def)
  next
    case False
    with r g show ?thesis by (auto simp: resolve_node_def runs_as_def json_get_def base_map_def)
  qed
  with g show ?thesis by (rule that)
qed

lemma resolve_frame:
  "resolveCustomTypes res org ns acc = Done m \<Longrightarrow> k \<notin> wn_id ` set ns \<Longrightarrow> obj_get m k = obj_get acc k"
  by (induction ns arbitrary: acc) (auto split: if_splits handled.splits)

lemma resolve_each:
  assumes "resolveCustomTypes res org ns acc = Done m" and "distinct (map wn_id ns)"
    and "n \<in> set ns" and "typeId_of n \<noteq> []"
  shows "\<exists>t. resolve_node res org n = Done t \<and> obj_get m (wn_id n) = Some t"
  using assms
proof (induction ns arbitrary: acc)
  case (Cons a ns)
  show ?case
  proof (cases "a = n")
    case True
    with Cons.prems obtain t where "resolve_node res org n = Done t"
        and "resolveCustomTypes res org ns (obj_put (wn_id n) t acc) = Done m"
      by (auto split: handled.splits)
    with resolve_frame [OF this(2), of "wn_id n"] Cons.prems True show ?thesis by auto
  next
    case False
    then have "n \<in> set ns" using Cons.prems by auto
    then show ?thesis using Cons by (auto split: if_splits handled.splits)
  qed
qed simp

text \<open>C12: Whatever the parameters a node carries, it runs with the kind its organisation registered
  for its type, and with the registered value of every parameter it may not write: the address,
  the headers, the body and the disclosure of the answer of an HTTP node, the code of a script
  node, and every key the description does not name.\<close>

theorem registry_parameters_kept:
  "resolveCustomTypes (Some rows) org ns [] = Done m \<Longrightarrow> distinct (map wn_id ns)
    \<Longrightarrow> \<forall>r \<in> set rows. tr_kind r \<in> base_kinds \<Longrightarrow> n \<in> set ns \<Longrightarrow> typeId_of n \<noteq> []
    \<Longrightarrow> \<exists>ct t. type_Get rows (typeId_of n) org = Some ct \<and> obj_get m (wn_id n) = Some t
         \<and> rt_kind t = tr_kind ct
         \<and> (\<forall>k. k \<notin> set (writable (tr_kind ct)) \<longrightarrow> json_get (rt_params t) k = json_get (tr_params ct) k)
         \<and> (\<forall>k v. k \<in> set (writable (tr_kind ct)) \<longrightarrow> json_get (overlay_of n) k = Some v
              \<longrightarrow> json_get (rt_params t) k = Some v)"
proof -
  assume a: "resolveCustomTypes (Some rows) org ns [] = Done m" "distinct (map wn_id ns)"
    "\<forall>r \<in> set rows. tr_kind r \<in> base_kinds" "n \<in> set ns" "typeId_of n \<noteq> []"
  obtain t where "resolve_node (Some rows) org n = Done t" and m: "obj_get m (wn_id n) = Some t"
    using resolve_each [OF a(1,2,4,5)] by blast
  then obtain ct where "type_Get rows (typeId_of n) org = Some ct" "runs_as ct n t"
    using resolve_node_runs [OF _ a(3)] by blast
  with m show ?thesis by (auto simp: runs_as_def)
qed

definition demo_http_row :: type_row where
  "demo_http_row = \<lparr>tr_id = js ''t1'', tr_orgId = js ''o1'', tr_slug = js ''hook'', tr_label = js ''Hook'',
     tr_color = [], tr_kind = js ''http'', tr_params = Some (JObj
       [(js ''method'', JStr (js ''GET'')), (js ''url'', JStr (js ''https://a''))])\<rparr>"

definition demo_http_node :: workflow_node where
  "demo_http_node = (basic_node (js ''n1'') (js ''custom:hook'') [] [])\<lparr>wn_typeId := Some (js ''t1''),
     wn_typeVersion := Some 1,
     wn_parameters := Some [(js ''method'', JStr (js ''POST'')), (js ''url'', JStr (js ''https://b''))]\<rparr>"

definition demo_http_merged :: json where
  "demo_http_merged = JObj [(js ''method'', JStr (js ''POST'')), (js ''url'', JStr (js ''https://a''))]"

lemma demo_http_valid: "ValidateParams (js ''http'') (Some demo_http_merged) = None"
  by (simp add: ValidateParams_def validateHTTPParams_def demo_http_merged_def string_field_def
      field_values_def fold_unit_def http_values_def httpMethods_def TrimSpace_def go_space_def
      format_ok_def js_def)

lemma demo_http_filled:
  "obj_fill [(js ''method'', JStr (js ''GET'')), (js ''url'', JStr (js ''https://a''))] [] =
     [(js ''method'', JStr (js ''GET'')), (js ''url'', JStr (js ''https://a''))]"
  "obj_fill [(js ''method'', JStr (js ''POST'')), (js ''url'', JStr (js ''https://b''))] [] =
     [(js ''method'', JStr (js ''POST'')), (js ''url'', JStr (js ''https://b''))]"
  "obj_fill [(js ''method'', JStr (js ''POST''))] [(js ''method'', JStr (js ''GET'')), (js ''url'', JStr (js ''https://a''))] =
     [(js ''method'', JStr (js ''POST'')), (js ''url'', JStr (js ''https://a''))]"
  by (simp_all add: obj_put_def ins_key_def array_index_def js_def)

lemma demo_http_sorted: "code_points (js ''method'') \<le> code_points (js ''url'')"
  by (simp add: js_def)

lemma demo_http_merges:
  "MergeOverlay (tr_params demo_http_row) (overlay_of demo_http_node) desc_http = Merged (Some demo_http_merged)"
  by (simp add: MergeOverlay_def demo_http_row_def demo_http_node_def overlay_of_def base_map_def
      demo_http_filled inject_def injectable_kinds writable_def demo_http_merged_def demo_http_sorted del: obj_fill.simps)

lemma demo_http_resolves:
  "resolveCustomTypes (Some [demo_http_row]) (js ''o1'') [demo_http_node] [] =
     Done [(js ''n1'', \<lparr>rt_kind = js ''http'', rt_params = Some demo_http_merged\<rparr>)]"
proof -
  have t: "typeId_of demo_http_node = js ''t1''" "typeVersion_of demo_http_node = 1"
    "type_Get [demo_http_row] (js ''t1'') (js ''o1'') = Some demo_http_row"
    "tr_kind demo_http_row = js ''http''" "wn_id demo_http_node = js ''n1''"
    by (simp_all add: typeId_of_def typeVersion_of_def demo_http_node_def demo_http_row_def type_Get_def basic_node_def)
  moreover have "obj_put (js ''n1'') v [] = [(js ''n1'', v)]" for v :: resolved_type
    by (simp add: obj_put_def ins_key_def array_index_def js_def)
  ultimately show ?thesis
    by (simp add: resolve_node_def desc_of_kind merged_type_def demo_http_merges demo_http_valid)
qed

theorem registry_parameters_kept_witness:
  "\<exists>ct. \<exists>t :: resolved_type. type_Get [demo_http_row] (typeId_of demo_http_node) (js ''o1'') = Some ct
     \<and> rt_kind t = tr_kind ct \<and> json_get (rt_params t) (js ''url'') = json_get (tr_params ct) (js ''url'')"
proof -
  have k: "tr_kind demo_http_row = js ''http''" "typeId_of demo_http_node \<noteq> []"
    by (simp_all add: demo_http_row_def demo_http_node_def typeId_of_def)
  then have b: "\<forall>r \<in> set [demo_http_row]. tr_kind r \<in> base_kinds"
    by (simp add: base_kinds_def)
  have d: "distinct (map wn_id [demo_http_node])" and m: "demo_http_node \<in> set [demo_http_node]"
    by simp_all
  obtain ct and t :: resolved_type where g: "type_Get [demo_http_row] (typeId_of demo_http_node) (js ''o1'') = Some ct"
      "rt_kind t = tr_kind ct"
      "\<forall>k. k \<notin> set (writable (tr_kind ct)) \<longrightarrow> json_get (rt_params t) k = json_get (tr_params ct) k"
    using registry_parameters_kept [OF demo_http_resolves d b m k(2)] by blast
  then have "js ''url'' \<notin> set (writable (tr_kind ct))"
    using k by (auto simp: type_Get_def writable_def split: if_splits)
  with g show ?thesis by blast
qed

text \<open>A node with parameters that was saved resolves when it runs.\<close>

lemma saved_resolves:
  assumes "check_node rows org n = Done ()" and "typeId_of n \<noteq> []" and "overlay_of n \<noteq> None"
  shows "\<exists>t. resolve_node (Some rows) org n = Done t"
  using assms
  by (auto simp: check_node_def check_overlay_def check_merged_def resolve_node_def merged_type_def
      split: option.splits if_splits merge_result.splits)

lemma check_nodes_each: "check_nodes rows org ns = Done () \<Longrightarrow> n \<in> set ns \<Longrightarrow> check_node rows org n = Done ()"
  by (induction ns) (auto split: handled.splits)

section \<open>The catalogue\<close>

lemma find_unique:
  "x \<in> set xs \<Longrightarrow> P x \<Longrightarrow> (\<And>y. y \<in> set xs \<Longrightarrow> P y \<Longrightarrow> y = x) \<Longrightarrow> find P xs = Some x"
proof (induction xs)
  case (Cons a xs)
  show ?case
  proof (cases "P a")
    case True
    then have "a = x" by (intro Cons.prems(3)) simp_all
    with True show ?thesis by simp
  next
    case False
    with Cons.prems(1,2) have "x \<in> set xs" by auto
    then have "find P xs = Some x"
      using Cons.prems(2) by (intro Cons.IH) (auto intro: Cons.prems(3))
    with False show ?thesis by simp
  qed
qed simp

lemma builtin_types_distinct: "distinct (map nt_type Builtins)"
  by (simp add: Builtins_def nt_type_simps)

lemma builtin_no_prefix: "list_all (\<lambda>d. \<not> startsWith (nt_type d) (js ''custom:'')) Builtins"
  by (simp add: Builtins_def nt_type_simps) (simp add: js_def)

lemma builtin_not_custom: "d \<in> set Builtins \<Longrightarrow> nt_type d \<noteq> js ''custom:'' @ s"
proof -
  assume "d \<in> set Builtins"
  then have "\<not> startsWith (nt_type d) (js ''custom:'')"
    using builtin_no_prefix by (simp add: list_all_iff)
  then show ?thesis by auto
qed

lemma custom_desc_type: "custom_desc row = Some d \<Longrightarrow> nt_type d = js ''custom:'' @ tr_slug row"
  by (auto simp: custom_desc_def customFromRow_def split: if_splits)

lemma baseByKind_simps:
  "baseByKind (js ''llm'') = Some desc_llm" "baseByKind (js ''http'') = Some desc_http"
  "baseByKind (js ''script'') = Some desc_script"
  by (simp_all add: baseByKind_def Builtins_def nt_type_simps base_kinds_def)

lemma catalogue_customs:
  "set (nodeTypes rows org) = set Builtins \<union> {d. \<exists>row \<in> set (type_List rows org). custom_desc row = Some d}"
  by (auto simp: nodeTypes_def List.map_filter_def image_iff) force

lemma catalogue_builtin:
  assumes "d \<in> set Builtins"
  shows "find (\<lambda>e. nt_type e = nt_type d) (nodeTypes rows org) = Some d"
proof -
  have "find (\<lambda>e. nt_type e = nt_type d) Builtins = Some d"
    using assms builtin_types_distinct by (intro find_unique) (auto simp: distinct_map inj_on_def)
  then show ?thesis by (simp add: nodeTypes_def find_append)
qed

lemma catalogue_custom:
  assumes r: "row \<in> set (type_List rows org)" and d: "distinct (map tr_slug (type_List rows org))"
    and s: "custom_desc row = Some e"
  shows "find (\<lambda>e. nt_type e = js ''custom:'' @ tr_slug row) (nodeTypes rows org) = Some e"
proof (rule find_unique)
  show "e \<in> set (nodeTypes rows org)" using r s by (auto simp: catalogue_customs)
  show "nt_type e = js ''custom:'' @ tr_slug row" by (rule custom_desc_type [OF s])
next
  fix y
  assume y: "y \<in> set (nodeTypes rows org)" and t: "nt_type y = js ''custom:'' @ tr_slug row"
  then have "y \<notin> set Builtins" using builtin_not_custom by blast
  with y obtain row' where r': "row' \<in> set (type_List rows org)" "custom_desc row' = Some y"
    by (auto simp: catalogue_customs)
  then have "tr_slug row' = tr_slug row" using t custom_desc_type by fastforce
  then have "row' = row" using d r r' by (auto simp: distinct_map inj_on_def)
  with r' s show "y = e" by simp
qed

text \<open>A projected description differs from that of its kind in the defaults only.\<close>

lemma project_default_simps [simp]:
  "np_name (project_default ps p) = np_name p" "np_type (project_default ps p) = np_type p"
  "np_constraints (project_default ps p) = np_constraints p"
  "np_defaultFrom (project_default ps p) = np_defaultFrom p"
  "np_displayOptions (project_default ps p) = np_displayOptions p"
  "np_options (project_default ps p) = np_options p"
  by (simp_all add: project_default_def split: option.splits)

text \<open>C40: No row of an organisation shadows a built-in type in the catalogue, not even under a reserved
  name, and a row with a name of its own and a known kind is found under its type, with the
  fields and the constraints of its kind.\<close>

theorem catalogue_types:
  "(\<forall>d. d \<in> set Builtins \<longrightarrow> find (\<lambda>e. nt_type e = nt_type d) (nodeTypes rows org) = Some d)
   \<and> (\<forall>row bse. row \<in> set (type_List rows org) \<longrightarrow> distinct (map tr_slug (type_List rows org))
        \<longrightarrow> \<not> ReservedNamespace (tr_slug row) \<longrightarrow> baseByKind (tr_kind row) = Some bse
        \<longrightarrow> (\<exists>e. find (\<lambda>e. nt_type e = js ''custom:'' @ tr_slug row) (nodeTypes rows org) = Some e
              \<and> map np_name (nt_properties e) = map np_name (nt_properties bse)
              \<and> map np_constraints (nt_properties e) = map np_constraints (nt_properties bse)))"
proof (intro conjI allI impI)
  fix d
  assume "d \<in> set Builtins"
  then show "find (\<lambda>e. nt_type e = nt_type d) (nodeTypes rows org) = Some d" by (rule catalogue_builtin)
next
  fix row bse
  assume "row \<in> set (type_List rows org)" "distinct (map tr_slug (type_List rows org))"
    "\<not> ReservedNamespace (tr_slug row)" "baseByKind (tr_kind row) = Some bse"
  then have "find (\<lambda>e. nt_type e = js ''custom:'' @ tr_slug row) (nodeTypes rows org)
      = Some (customFromRow bse row)"
    by (intro catalogue_custom) (simp_all add: custom_desc_def)
  then show "\<exists>e. find (\<lambda>e. nt_type e = js ''custom:'' @ tr_slug row) (nodeTypes rows org) = Some e
      \<and> map np_name (nt_properties e) = map np_name (nt_properties bse)
      \<and> map np_constraints (nt_properties e) = map np_constraints (nt_properties bse)"
    by (auto simp: customFromRow_def)
qed

theorem catalogue_types_witness:
  "find (\<lambda>e. nt_type e = js ''http'') (nodeTypes [demo_http_row] (js ''o1'')) = Some desc_http"
  using catalogue_types [of "[demo_http_row]" "js ''o1''"]
  by (auto simp: Builtins_def nt_type_simps)

end
