(* ===== verification/Properties_Panel.thy ===== *)
theory Properties_Panel
  imports Node_Desc Canvas_Model Run_Preview Template_Vars
begin

text \<open>
  The panel that edits the selected node (PropertiesPanel.tsx) and the form it shows for the
  parameters of a typed node (PropertiesForm.tsx). An event of the form is what the browser
  hands to the widget of one visible property. A value of the form is the object of the
  parameters; a key set to \<open>undefined\<close> is absent, which every reader and \<open>JSON.stringify\<close>
  agree on. The values of a key-value field are taken as the strings their type promises.
\<close>

section \<open>The form\<close>

text \<open>\<open>===\<close> on values of two different documents: arrays and objects are never the same.\<close>

fun strict_eq :: "json \<Rightarrow> json \<Rightarrow> bool" where
  "strict_eq JNull JNull = True"
| "strict_eq (JBool a) (JBool b) = (a = b)"
| "strict_eq (JNum a) (JNum b) = (a = b)"
| "strict_eq (JStr a) (JStr b) = (a = b)"
| "strict_eq _ _ = False"

definition prop_matches :: "json option \<Rightarrow> json list \<Rightarrow> bool" where
  "prop_matches current allowed =
     (case current of None \<Rightarrow> False | Some v \<Rightarrow> list_ex (\<lambda>a. strict_eq a v) allowed)"

definition isVisible :: "node_property \<Rightarrow> json obj \<Rightarrow> bool" where
  "isVisible p v = (case np_displayOptions p of None \<Rightarrow> True | Some d \<Rightarrow>
     list_all (\<lambda>(k, allowed). prop_matches (obj_get v k) allowed) (dp_show d)
     \<and> list_all (\<lambda>(k, allowed). \<not> prop_matches (obj_get v k) allowed) (dp_hide d))"

definition applyDefaultFrom :: "derived_default option \<Rightarrow> jsstr \<Rightarrow> json obj \<Rightarrow> json obj" where
  "applyDefaultFrom df triggerValue bse = (case df of None \<Rightarrow> bse | Some d \<Rightarrow>
     (case obj_get (df_map d) triggerValue of None \<Rightarrow> bse | Some derived \<Rightarrow> obj_fill derived bse))"

definition obj_del :: "jsstr \<Rightarrow> 'v obj \<Rightarrow> 'v obj" where
  "obj_del k ob = filter (\<lambda>p. fst p \<noteq> k) ob"

definition form_patch :: "jsstr \<Rightarrow> json option \<Rightarrow> json obj \<Rightarrow> json obj" where
  "form_patch name v val = (case v of Some j \<Rightarrow> obj_put name j val | None \<Rightarrow> obj_del name val)"

definition patchOption :: "node_property \<Rightarrow> jsstr \<Rightarrow> json obj \<Rightarrow> json obj" where
  "patchOption p v val = applyDefaultFrom (np_defaultFrom p) v (form_patch (np_name p) (Some (JStr v)) val)"

text \<open>The lines of a collection: the text shown, and what is stored of a text.\<close>

definition line_values :: "jsstr \<Rightarrow> json" where
  "line_values s = JArr (map JStr (filter (\<lambda>l. l \<noteq> []) (split_lines s)))"

fun json_str :: "json \<Rightarrow> jsstr" where
  "json_str (JStr s) = s"
| "json_str _ = []"

fun lines_shown :: "json option \<Rightarrow> jsstr" where
  "lines_shown (Some (JArr vs)) = join_lines (map json_str vs)"
| "lines_shown _ = []"

fun kv_rows :: "json option \<Rightarrow> json obj" where
  "kv_rows (Some (JObj o')) = o'"
| "kv_rows _ = []"

definition setRow :: "json obj \<Rightarrow> nat \<Rightarrow> jsstr \<Rightarrow> json \<Rightarrow> json" where
  "setRow rows i key val = JObj (obj_fill (filter (\<lambda>(k, v). trim k \<noteq> []) (rows[i := (key, val)])) [])"

definition secret_token :: "jsstr \<Rightarrow> jsstr" where
  "secret_token n = js ''{{secret:'' @ n @ js ''}}''"

datatype form_event =
    Ev_input jsstr | Ev_number "rat option" | Ev_checked bool
  | Ev_row_key nat jsstr | Ev_row_value nat jsstr | Ev_row_secret nat jsstr

fun row_event :: "json obj \<Rightarrow> form_event \<Rightarrow> json option" where
  "row_event rows (Ev_row_key i k) =
     (if i < length rows then Some (setRow rows i k (snd (rows ! i))) else None)"
| "row_event rows (Ev_row_value i s) =
     (if i < length rows then Some (setRow rows i (fst (rows ! i)) (JStr s)) else None)"
| "row_event rows (Ev_row_secret i n) =
     (if i < length rows \<and> n \<noteq> []
      then Some (setRow rows i (fst (rows ! i)) (JStr (json_str (snd (rows ! i)) @ secret_token n)))
      else None)"
| "row_event rows _ = None"

definition text_widgets :: "property_type set" where
  "text_widgets = {PT_textarea, PT_json, PT_code, PT_string, PT_resourceLocator, PT_prompt}"

text \<open>What an event of the widget of \<open>p\<close> makes of the value, if it is an event of that widget.\<close>

fun input_event :: "node_property \<Rightarrow> jsstr \<Rightarrow> json obj \<Rightarrow> json obj option" where
  "input_event p s val =
     (if np_type p \<in> text_widgets then Some (form_patch (np_name p) (Some (JStr s)) val)
      else if np_type p = PT_options
        then (if s \<in> op_value ` set (np_options p) then Some (patchOption p s val) else None)
      else if np_type p \<in> {PT_collection, PT_fixedCollection}
        then Some (form_patch (np_name p) (Some (line_values s)) val)
      else None)"

definition renderWidget :: "node_property \<Rightarrow> form_event \<Rightarrow> json obj \<Rightarrow> json obj option" where
  "renderWidget p ev val = (case ev of
       Ev_input s \<Rightarrow> input_event p s val
     | Ev_number q \<Rightarrow> if np_type p = PT_number
         then Some (form_patch (np_name p) (map_option JNum q) val) else None
     | Ev_checked b \<Rightarrow> if np_type p = PT_boolean
         then Some (form_patch (np_name p) (Some (JBool b)) val) else None
     | _ \<Rightarrow> if np_type p = PT_keyValue
         then map_option (\<lambda>j. form_patch (np_name p) (Some j) val)
                (row_event (kv_rows (obj_get val (np_name p))) ev)
         else None)"

definition PropertiesForm :: "node_type_description \<Rightarrow> jsstr \<Rightarrow> form_event \<Rightarrow> json obj \<Rightarrow> json obj option" where
  "PropertiesForm description name ev val =
     (case find (\<lambda>p. np_name p = name) (filter (\<lambda>p. isVisible p val) (nt_properties description)) of
        Some p \<Rightarrow> renderWidget p ev val | None \<Rightarrow> None)"

section \<open>The parameters of a typed node in the panel\<close>

text \<open>\<open>typedTypeById\<close> with the parameters of the type, when they are an object.\<close>

definition typed_fallback :: "type_row list \<Rightarrow> workflow_node \<Rightarrow> json obj option" where
  "typed_fallback orgTypes n = (if typeId_of n = [] then None
     else case find (\<lambda>r. tr_id r = typeId_of n) orgTypes of None \<Rightarrow> None | Some r \<Rightarrow>
       (if tr_kind r \<in> base_kinds then (case tr_params r of Some (JObj o') \<Rightarrow> Some o' | _ \<Rightarrow> None) else None))"

definition nodeDesc :: "node_type_description list \<Rightarrow> workflow_node \<Rightarrow> node_type_description option" where
  "nodeDesc descs n = find (\<lambda>d. nt_type d = wn_type n) descs"

definition form_value :: "json obj \<Rightarrow> workflow_node \<Rightarrow> json obj" where
  "form_value fallback n = nullish (wn_parameters n) fallback"

definition form_edit :: "node_type_description \<Rightarrow> json obj \<Rightarrow> jsstr \<times> form_event \<Rightarrow> workflow_node \<Rightarrow> workflow_node" where
  "form_edit description fallback e n =
     (case PropertiesForm description (fst e) (snd e) (form_value fallback n) of
        None \<Rightarrow> n
      | Some v \<Rightarrow> n\<lparr>wn_parameters := Some v, wn_typeVersion := Some (nt_version description)\<rparr>)"

text \<open>The form is there when the node is typed and has a description.\<close>

definition panel_edit :: "type_row list \<Rightarrow> jsstr \<Rightarrow> workflow_node \<Rightarrow> jsstr \<times> form_event \<Rightarrow> workflow_node" where
  "panel_edit rows org n e =
     (case (typed_fallback (type_List rows org) n, nodeDesc (nodeTypes rows org) n) of
        (Some fallback, Some description) \<Rightarrow> form_edit description fallback e n
      | _ \<Rightarrow> n)"

section \<open>The prompt, the type and the style\<close>

text \<open>The nodes of the canvas, the selected one, and the state of the panel, which outlives the
  selection. A pending creation is the node that was selected when it was sent.\<close>

record prompt_panel =
  pk_nodes :: "workflow_node list"
  pk_selected :: "jsstr option"
  pk_creating :: bool
  pk_newName :: jsstr
  pk_newContent :: jsstr
  pk_savingNew :: bool
  pk_custom :: bool
  pk_pending :: "jsstr list"

definition patch_node :: "jsstr \<Rightarrow> (workflow_node \<Rightarrow> workflow_node) \<Rightarrow> prompt_panel \<Rightarrow> prompt_panel" where
  "patch_node i f w = w\<lparr>pk_nodes := map (\<lambda>n. if wn_id n = i then f n else n) (pk_nodes w)\<rparr>"

definition panel_node :: "prompt_panel \<Rightarrow> workflow_node option" where
  "panel_node w = Option.bind (pk_selected w) (\<lambda>i. find (\<lambda>n. wn_id n = i) (pk_nodes w))"

definition with_node :: "prompt_panel \<Rightarrow> (workflow_node \<Rightarrow> prompt_panel) \<Rightarrow> prompt_panel" where
  "with_node w h = (case panel_node w of None \<Rightarrow> w | Some n \<Rightarrow> h n)"

definition showPrompt :: "workflow_node \<Rightarrow> bool" where
  "showPrompt n \<longleftrightarrow> wn_type n = js ''script'' \<or> wn_type n = js ''storyboard''"

definition showStyle :: "workflow_node \<Rightarrow> bool" where
  "showStyle n \<longleftrightarrow> wn_type n = js ''storyboard'' \<or> wn_type n = js ''asset''"

definition type_select :: "prompt list option \<Rightarrow> jsstr \<Rightarrow> prompt_panel \<Rightarrow> prompt_panel" where
  "type_select prompts val w = with_node w (\<lambda>n. if isCustomType (wn_type n) then w
     else patch_node (wn_id n) (\<lambda>m. m\<lparr>wn_type := val,
            wn_promptId := defaultPromptIdFor prompts val, wn_promptText := Some []\<rparr>)
          (w\<lparr>pk_custom := False\<rparr>))"

definition prompt_shown :: "workflow_node \<Rightarrow> jsstr" where
  "prompt_shown n = (if truthy (wn_promptText n) then js ''__custom__''
     else if wn_promptId n \<noteq> [] then wn_promptId n else js ''__default__'')"

definition prompt_select :: "jsstr \<Rightarrow> prompt_panel \<Rightarrow> prompt_panel" where
  "prompt_select val w = with_node w (\<lambda>n. if \<not> showPrompt n then w
     else if val = js ''__create__'' then w\<lparr>pk_creating := True, pk_newName := [], pk_newContent := []\<rparr>
     else if val = js ''__custom__'' then w\<lparr>pk_custom := True\<rparr>
     else if val = [] then w
     else patch_node (wn_id n) (\<lambda>m. m\<lparr>wn_promptId := (if val = js ''__default__'' then [] else val),
            wn_promptText := Some []\<rparr>) (w\<lparr>pk_custom := False\<rparr>))"

definition create_enabled :: "prompt_panel \<Rightarrow> bool" where
  "create_enabled w \<longleftrightarrow> pk_creating w \<and> \<not> pk_savingNew w
     \<and> trim (pk_newName w) \<noteq> [] \<and> trim (pk_newContent w) \<noteq> []"

record new_prompt =
  nw_name :: jsstr
  nw_content :: jsstr
  nw_style :: jsstr
  nw_kind :: jsstr

definition create_body :: "workflow_node \<Rightarrow> prompt_panel \<Rightarrow> new_prompt" where
  "create_body n w = \<lparr>nw_name = trim (pk_newName w), nw_content = trim (pk_newContent w),
     nw_style = [], nw_kind = wn_type n\<rparr>"

definition create_click :: "jsstr \<Rightarrow> prompt_panel \<Rightarrow> prompt_panel" where
  "create_click org w = with_node w (\<lambda>n. if \<not> (showPrompt n \<and> create_enabled w) \<or> org = [] then w
     else w\<lparr>pk_savingNew := True, pk_pending := pk_pending w @ [wn_id n]\<rparr>)"

definition drop_at :: "nat \<Rightarrow> 'a list \<Rightarrow> 'a list" where
  "drop_at i xs = take i xs @ drop (Suc i) xs"

definition created :: "nat \<Rightarrow> jsstr \<Rightarrow> prompt_panel \<Rightarrow> prompt_panel" where
  "created i pid w = (if i < length (pk_pending w)
     then patch_node (pk_pending w ! i) (\<lambda>m. m\<lparr>wn_promptId := pid, wn_promptText := Some []\<rparr>)
            (w\<lparr>pk_creating := False, pk_savingNew := False, pk_pending := drop_at i (pk_pending w)\<rparr>)
     else w)"

definition create_failed :: "nat \<Rightarrow> prompt_panel \<Rightarrow> prompt_panel" where
  "create_failed i w = (if i < length (pk_pending w)
     then w\<lparr>pk_savingNew := False, pk_pending := drop_at i (pk_pending w)\<rparr> else w)"

definition custom_shown :: "workflow_node \<Rightarrow> prompt_panel \<Rightarrow> bool" where
  "custom_shown n w \<longleftrightarrow> showPrompt n \<and> (pk_custom w \<or> truthy (wn_promptText n))"

definition clear_click :: "prompt_panel \<Rightarrow> prompt_panel" where
  "clear_click w = with_node w (\<lambda>n. if custom_shown n w
     then patch_node (wn_id n) (\<lambda>m. m\<lparr>wn_promptText := Some []\<rparr>) (w\<lparr>pk_custom := False\<rparr>) else w)"

definition text_input :: "jsstr \<Rightarrow> prompt_panel \<Rightarrow> prompt_panel" where
  "text_input s w = with_node w (\<lambda>n. if custom_shown n w
     then patch_node (wn_id n) (\<lambda>m. m\<lparr>wn_promptText := Some s, wn_promptId := []\<rparr>) w else w)"

definition STYLE_INHERIT :: jsstr where
  "STYLE_INHERIT = js ''__inherit__''"

definition style_select :: "type_row list \<Rightarrow> jsstr \<Rightarrow> prompt_panel \<Rightarrow> prompt_panel" where
  "style_select orgTypes v w = with_node w (\<lambda>n.
     if \<not> isCustomType (wn_type n) \<and> typed_fallback orgTypes n = None \<and> showStyle n
     then patch_node (wn_id n) (\<lambda>m. m\<lparr>wn_parameters := Some (obj_put (js ''style'')
            (JStr (if v = STYLE_INHERIT then [] else v)) (nullish (wn_parameters n) []))\<rparr>) w
     else w)"

definition style_shown :: "workflow_node \<Rightarrow> jsstr" where
  "style_shown n = (case obj_get (nullish (wn_parameters n) []) (js ''style'') of
       Some (JStr s) \<Rightarrow> if s \<noteq> [] then s else STYLE_INHERIT
     | _ \<Rightarrow> STYLE_INHERIT)"

text \<open>The field of the output a variable is bound to.\<close>

definition WHOLE_OUTPUT :: jsstr where
  "WHOLE_OUTPUT = js ''__whole__''"

definition field_select :: "bool \<Rightarrow> jsstr \<Rightarrow> jsstr \<Rightarrow> workflow_node \<Rightarrow> workflow_node" where
  "field_select exprChannel name val n = (case (exprChannel, binding_source n name) of
       (True, Some src) \<Rightarrow> patchVarBinding name src (Some (if val = WHOLE_OUTPUT then [] else val)) n
     | _ \<Rightarrow> n)"

datatype panel_event =
    Pe_select "jsstr option" | Pe_type jsstr | Pe_prompt jsstr | Pe_name jsstr | Pe_content jsstr
  | Pe_cancel | Pe_save | Pe_created nat jsstr | Pe_failed nat | Pe_clear | Pe_text jsstr | Pe_style jsstr

fun panel_step :: "type_row list \<Rightarrow> prompt list option \<Rightarrow> jsstr \<Rightarrow> prompt_panel \<Rightarrow> panel_event \<Rightarrow> prompt_panel" where
  "panel_step orgTypes prompts org w (Pe_select i) = w\<lparr>pk_selected := i\<rparr>"
| "panel_step orgTypes prompts org w (Pe_type val) = type_select prompts val w"
| "panel_step orgTypes prompts org w (Pe_prompt val) = prompt_select val w"
| "panel_step orgTypes prompts org w (Pe_name s) = w\<lparr>pk_newName := s\<rparr>"
| "panel_step orgTypes prompts org w (Pe_content s) = w\<lparr>pk_newContent := s\<rparr>"
| "panel_step orgTypes prompts org w Pe_cancel = w\<lparr>pk_creating := False\<rparr>"
| "panel_step orgTypes prompts org w Pe_save = create_click org w"
| "panel_step orgTypes prompts org w (Pe_created i pid) = created i pid w"
| "panel_step orgTypes prompts org w (Pe_failed i) = create_failed i w"
| "panel_step orgTypes prompts org w Pe_clear = clear_click w"
| "panel_step orgTypes prompts org w (Pe_text s) = text_input s w"
| "panel_step orgTypes prompts org w (Pe_style v) = style_select orgTypes v w"

section \<open>The prompt of a node\<close>

definition one_source :: "workflow_node \<Rightarrow> bool" where
  "one_source n \<longleftrightarrow> (truthy (wn_promptText n) \<longrightarrow> wn_promptId n = [])"

definition one_creation :: "prompt_panel \<Rightarrow> bool" where
  "one_creation w \<longleftrightarrow> (pk_savingNew w \<longleftrightarrow> pk_pending w \<noteq> []) \<and> length (pk_pending w) \<le> 1"

lemmas panel_defs = with_node_def type_select_def prompt_select_def create_click_def created_def
  create_failed_def clear_click_def text_input_def style_select_def patch_node_def

lemma one_source_step:
  "list_all one_source (pk_nodes w) \<Longrightarrow> list_all one_source (pk_nodes (panel_step orgTypes prompts org w e))"
  by (cases e) (auto simp: panel_defs one_source_def list_all_iff split: option.splits)

lemma drop_at_one: "length xs \<le> 1 \<Longrightarrow> i < length xs \<Longrightarrow> drop_at i xs = []"
  by (cases xs) (auto simp: drop_at_def)

lemma one_creation_step: "one_creation w \<Longrightarrow> one_creation (panel_step orgTypes prompts org w e)"
  by (cases e)
    (auto simp: panel_defs one_creation_def create_enabled_def drop_at_one split: option.splits)

lemma panel_ids_step: "map wn_id (pk_nodes (panel_step orgTypes prompts org w e)) = map wn_id (pk_nodes w)"
  by (cases e) (auto simp: panel_defs comp_def split: option.splits)


definition demo_panel :: prompt_panel where
  "demo_panel = \<lparr>pk_nodes = [basic_node (js ''s1'') (js ''script'') (js ''p1'') []], pk_selected = Some (js ''s1''),
     pk_creating = False, pk_newName = [], pk_newContent = [], pk_savingNew = False, pk_custom = False,
     pk_pending = []\<rparr>"


text \<open>The answer of a creation changes the node it was sent for and no other.\<close>

lemma created_target:
  "i < length (pk_pending w) \<Longrightarrow> pk_nodes (created i pid w) =
     map (\<lambda>n. if wn_id n = pk_pending w ! i then n\<lparr>wn_promptId := pid, wn_promptText := Some []\<rparr> else n)
       (pk_nodes w)"
  by (simp add: created_def patch_node_def)

text \<open>When the type is changed before the answer arrives, the node keeps a prompt of the old kind.\<close>

lemma created_for_other_type:
  "map (\<lambda>n. (wn_type n, wn_promptId n)) (pk_nodes (foldl (panel_step [] None (js ''o1''))
     (demo_panel\<lparr>pk_creating := True, pk_newName := js ''a'', pk_newContent := js ''b''\<rparr>)
     [Pe_save, Pe_type (js ''storyboard''), Pe_created 0 (js ''p9'')])) = [(js ''storyboard'', js ''p9'')]"
  by (simp add: demo_panel_def panel_defs panel_node_def basic_node_def showPrompt_def create_enabled_def
      isCustomType_def js_def trim_def is_ws_def CUSTOM_PREFIX_def drop_at_def)

section \<open>The form keeps what it does not edit\<close>

lemma obj_get_del [simp]: "obj_get (obj_del k0 v) k = (if k = k0 then None else obj_get v k)"
  using map_of_filter_key [of "\<lambda>k. k \<noteq> k0" v k] by (simp add: obj_get_def obj_del_def)

lemma distinct_obj_del: "distinct (obj_keys v) \<Longrightarrow> distinct (obj_keys (obj_del k v))"
  unfolding obj_del_def by (rule distinct_map_filter)

lemma form_patch_get:
  "obj_get (form_patch name v val) k = (if k = name then v else obj_get val k)"
  by (auto simp: form_patch_def split: option.splits)

lemma form_patch_distinct: "distinct (obj_keys val) \<Longrightarrow> distinct (obj_keys (form_patch name v val))"
  by (auto simp: form_patch_def distinct_obj_put distinct_obj_del split: option.splits)

lemma patchOption_plain:
  "np_defaultFrom p = None \<Longrightarrow> patchOption p s val = form_patch (np_name p) (Some (JStr s)) val"
  by (simp add: patchOption_def applyDefaultFrom_def)

text \<open>In the description of a kind no field derives others, so an event writes one key, and clears it
  only when the field is a number.\<close>

definition plain_desc :: "node_type_description \<Rightarrow> bool" where
  "plain_desc d \<longleftrightarrow> list_all (\<lambda>p. np_defaultFrom p = None) (nt_properties d)"

lemma renderWidget_patch:
  assumes "renderWidget p ev val = Some val'" and "np_defaultFrom p = None"
  shows "\<exists>v. val' = form_patch (np_name p) v val \<and> (v = None \<longrightarrow> np_type p = PT_number)"
  using assms
  by (auto simp: renderWidget_def patchOption_plain split: form_event.splits if_splits)

lemma form_patch_of_event:
  assumes "PropertiesForm d name ev val = Some val'" and "plain_desc d"
  obtains p v where "p \<in> set (nt_properties d)" "val' = form_patch (np_name p) v val"
    "v = None \<longrightarrow> np_type p = PT_number"
proof -
  obtain p where p: "find (\<lambda>p. np_name p = name) (filter (\<lambda>p. isVisible p val) (nt_properties d)) = Some p"
      and r: "renderWidget p ev val = Some val'"
    using assms(1) by (auto simp: PropertiesForm_def split: option.splits)
  from p have m: "p \<in> set (nt_properties d)" by (auto simp: find_Some_iff dest!: nth_mem)
  then have "np_defaultFrom p = None" using assms(2) by (auto simp: plain_desc_def list_all_iff)
  from renderWidget_patch [OF r this] m show thesis by (auto intro: that)
qed

lemma form_keeps:
  assumes "PropertiesForm d name ev val = Some val'" "plain_desc d" "obj_get val k \<noteq> None"
    and "\<And>p. p \<in> set (nt_properties d) \<Longrightarrow> np_name p = k \<Longrightarrow> np_type p \<noteq> PT_number"
  shows "obj_get val' k \<noteq> None"
  using form_patch_of_event [OF assms(1,2)] assms(3,4) by (metis form_patch_get)

section \<open>Edits of a typed node\<close>

text \<open>What the edits of a typed node start from: a registered type of the organisation with a slug
  and an id of its own, and a node of that type as the canvas places it, without parameters.\<close>

definition fresh_typed :: "type_row list \<Rightarrow> jsstr \<Rightarrow> type_row \<Rightarrow> json obj \<Rightarrow> workflow_node \<Rightarrow> bool" where
  "fresh_typed rows org row bse n \<longleftrightarrow>
     row \<in> set (type_List rows org) \<and> distinct (map tr_id rows) \<and> distinct (map tr_slug (type_List rows org))
     \<and> tr_params row = Some (JObj bse) \<and> distinct (obj_keys bse)
     \<and> \<not> ReservedNamespace (tr_slug row) \<and> tr_id row \<noteq> []
     \<and> wn_typeId n = Some (tr_id row) \<and> wn_type n = js ''custom:'' @ tr_slug row
     \<and> wn_parameters n = None"

lemma typed_row:
  assumes "row \<in> set (type_List rows org)" "distinct (map tr_id rows)"
  shows "type_Get rows (tr_id row) org = Some row"
    and "find (\<lambda>r. tr_id r = tr_id row) (type_List rows org) = Some row"
proof -
  have r: "row \<in> set rows" "tr_orgId row = org" using assms(1) by (auto simp: type_List_def)
  have u: "y = row" if "y \<in> set rows" "tr_id y = tr_id row" for y
    using that r assms(2) by (auto simp: distinct_map inj_on_def)
  show "type_Get rows (tr_id row) org = Some row"
    unfolding type_Get_def using r u by (intro find_unique) auto
  show "find (\<lambda>r. tr_id r = tr_id row) (type_List rows org) = Some row"
    using assms(1) u by (intro find_unique) (auto simp: type_List_def)
qed

lemma plain_kinds: "plain_desc desc_llm" "plain_desc desc_http" "plain_desc desc_script"
  by (simp_all add: plain_desc_def desc_kind_defs)

lemma baseByKind_plain: "baseByKind kind = Some bse \<Longrightarrow> kind \<in> base_kinds \<Longrightarrow> plain_desc bse"
  by (auto simp: base_kinds_def baseByKind_simps plain_kinds)

lemma customFromRow_props:
  "nt_version (customFromRow bse row) = nt_version bse"
  "nt_properties (customFromRow bse row) = map (project_default (row_params row)) (nt_properties bse)"
  by (simp_all add: customFromRow_def)

lemma base_version: "baseByKind kind = Some bse \<Longrightarrow> nt_version bse = 1"
  by (auto simp: baseByKind_def Builtins_def desc_script_stage_def desc_storyboard_def desc_asset_def
      desc_prescreen_def desc_llm_def desc_http_def desc_script_def desc_Version_def split: if_splits)

text \<open>The state of such a node after some edits.\<close>

definition edited_typed :: "type_row \<Rightarrow> json obj \<Rightarrow> workflow_node \<Rightarrow> workflow_node \<Rightarrow> bool" where
  "edited_typed row bse n0 n \<longleftrightarrow> wn_id n = wn_id n0 \<and> wn_typeId n = Some (tr_id row)
     \<and> wn_type n = js ''custom:'' @ tr_slug row
     \<and> (wn_parameters n = None \<or> wn_typeVersion n = Some 1)
     \<and> distinct (obj_keys (form_value bse n))"

lemma edited_start: "fresh_typed rows org row bse n \<Longrightarrow> edited_typed row bse n n"
  by (simp add: fresh_typed_def edited_typed_def form_value_def)

lemma panel_edit_form:
  assumes f: "fresh_typed rows org row bse n0" and k: "tr_kind row \<in> base_kinds"
    and b: "baseByKind (tr_kind row) = Some kd" and e: "edited_typed row bse n0 n"
  shows "panel_edit rows org n ev = form_edit (customFromRow kd row) bse ev n"
proof -
  have "typed_fallback (type_List rows org) n = Some bse"
    using f k e typed_row(2) [of row rows org]
    by (simp add: typed_fallback_def typeId_of_def fresh_typed_def edited_typed_def)
  moreover have "nodeDesc (nodeTypes rows org) n = Some (customFromRow kd row)"
    using f e b catalogue_custom [of row rows org "customFromRow kd row"]
    by (simp add: nodeDesc_def fresh_typed_def edited_typed_def custom_desc_def)
  ultimately show ?thesis by (simp add: panel_edit_def)
qed

lemma custom_plain: "plain_desc kd \<Longrightarrow> plain_desc (customFromRow kd row)"
  by (simp add: plain_desc_def customFromRow_props list_all_iff)

lemma form_distinct:
  assumes "PropertiesForm d name ev val = Some val'" "plain_desc d" "distinct (obj_keys val)"
  shows "distinct (obj_keys val')"
  using form_patch_of_event [OF assms(1,2)] assms(3) by (metis form_patch_distinct)

lemma edited_step:
  assumes f: "fresh_typed rows org row bse n0" and k: "tr_kind row \<in> base_kinds"
    and b: "baseByKind (tr_kind row) = Some kd" and e: "edited_typed row bse n0 n"
  shows "edited_typed row bse n0 (panel_edit rows org n ev)"
proof -
  have p: "plain_desc (customFromRow kd row)" by (rule custom_plain [OF baseByKind_plain [OF b k]])
  show ?thesis
    using e form_distinct [OF _ p] base_version [OF b]
    by (auto simp: panel_edit_form [OF f k b e] form_edit_def edited_typed_def form_value_def customFromRow_props
        split: option.splits)
qed

lemma edited_all:
  assumes "fresh_typed rows org row bse n0" "tr_kind row \<in> base_kinds" "baseByKind (tr_kind row) = Some kd"
    and "edited_typed row bse n0 n"
  shows "edited_typed row bse n0 (foldl (panel_edit rows org) n es)"
  using assms(4) by (induction es arbitrary: n) (auto intro: edited_step [OF assms(1-3)])

text \<open>A key that is no number of the description stays in the value shown.\<close>

lemma shown_keeps:
  assumes f: "fresh_typed rows org row bse n0" and k: "tr_kind row \<in> base_kinds"
    and b: "baseByKind (tr_kind row) = Some kd" and e: "edited_typed row bse n0 n"
    and key: "obj_get (form_value bse n) key \<noteq> None"
    and num: "\<And>p. p \<in> set (nt_properties kd) \<Longrightarrow> np_name p = key \<Longrightarrow> np_type p \<noteq> PT_number"
  shows "obj_get (form_value bse (foldl (panel_edit rows org) n es)) key \<noteq> None"
  using e key
proof (induction es arbitrary: n)
  case (Cons ev es)
  have p: "plain_desc (customFromRow kd row)" by (rule custom_plain [OF baseByKind_plain [OF b k]])
  have "obj_get (form_value bse (panel_edit rows org n ev)) key \<noteq> None"
  proof (cases "PropertiesForm (customFromRow kd row) (fst ev) (snd ev) (form_value bse n)")
    case None
    with Cons.prems show ?thesis by (simp add: panel_edit_form [OF f k b] form_edit_def)
  next
    case (Some v)
    have "obj_get v key \<noteq> None"
      by (rule form_keeps [OF Some p Cons.prems(2)]) (use num in \<open>auto simp: customFromRow_props\<close>)
    with Some Cons.prems show ?thesis by (simp add: panel_edit_form [OF f k b] form_edit_def form_value_def)
  qed
  with Cons.IH [OF edited_step [OF f k b Cons.prems(1)]] show ?case by simp
qed simp

section \<open>Saving and running an edited node\<close>

lemma names_registry_http:
  "k \<in> set (obj_keys ov) \<Longrightarrow> k = js ''url'' \<Longrightarrow> names_registry_only desc_http ov"
  by (force simp: names_registry_only_def registry_only_def desc_kind_defs list_ex_iff)

lemma names_registry_script:
  "k \<in> set (obj_keys ov) \<Longrightarrow> k = js ''code'' \<Longrightarrow> names_registry_only desc_script ov"
  by (force simp: names_registry_only_def registry_only_def desc_kind_defs list_ex_iff)

lemma names_registry_llm: "\<not> names_registry_only desc_llm ov"
  by (auto simp: names_registry_only_def registry_only_def desc_kind_defs list_ex_iff)

lemma check_edited:
  assumes f: "fresh_typed rows org row bse n0" and e: "edited_typed row bse n0 n"
    and v: "wn_parameters n = Some v" and d: "DescByKind (tr_kind row) 1 = Some d"
  shows "check_node rows org n = check_overlay n row d"
    and "resolve_node (Some rows) org n = merged_type n row d"
  using f e v d typed_row(1) [of row rows org]
  by (simp_all add: check_node_def resolve_node_def fresh_typed_def edited_typed_def typeId_of_def typeVersion_of_def
      overlay_of_def)

lemma fill_keys: "set (obj_keys (obj_fill v [])) = set (obj_keys v)"
  using obj_fill_keys [of v "[]"] by simp

lemma key_present: "obj_get v k \<noteq> None \<longleftrightarrow> k \<in> set (obj_keys v)"
  by (simp add: obj_get_def map_of_eq_None_iff)

lemma registry_only_refused:
  assumes "fresh_typed rows org row bse n0" "edited_typed row bse n0 n" "wn_parameters n = Some v"
    and "DescByKind (tr_kind row) 1 = Some d" "names_registry_only d (obj_fill v [])"
  shows "check_node rows org n = Refused (Parameter_registry_only (wn_id n))"
  using check_edited(1) [OF assms(1-4)] assms(3,5) by (simp add: check_overlay_def overlay_of_def)

lemma check_nodes_refused:
  "check_node rows org n \<noteq> Done () \<Longrightarrow> n \<in> set ns \<Longrightarrow> check_nodes rows org ns \<noteq> Done ()"
  using check_nodes_each by blast

lemma pinned_kind_refused:
  assumes f: "fresh_typed rows org row bse n" and k: "tr_kind row \<in> base_kinds"
    and b: "baseByKind (tr_kind row) = Some kd" and dk: "DescByKind (tr_kind row) 1 = Some kd"
    and key: "obj_get bse key \<noteq> None"
    and num: "\<And>p. p \<in> set (nt_properties kd) \<Longrightarrow> np_name p = key \<Longrightarrow> np_type p \<noteq> PT_number"
    and nm: "\<And>ov. key \<in> set (obj_keys ov) \<Longrightarrow> names_registry_only kd ov"
    and v: "wn_parameters (foldl (panel_edit rows org) n es) \<noteq> None"
  shows "check_node rows org (foldl (panel_edit rows org) n es) \<noteq> Done ()"
proof -
  let ?n = "foldl (panel_edit rows org) n es"
  obtain w where w: "wn_parameters ?n = Some w" using v by blast
  have e: "edited_typed row bse n ?n" by (rule edited_all [OF f k b edited_start [OF f]])
  have "obj_get (form_value bse n) key \<noteq> None" using f key by (simp add: fresh_typed_def form_value_def)
  then have "obj_get (form_value bse ?n) key \<noteq> None"
    by (rule shown_keeps [OF f k b edited_start [OF f] _ num])
  then have "obj_get w key \<noteq> None" using w by (simp add: form_value_def)
  then have "key \<in> set (obj_keys w)" by (simp only: key_present)
  then have "key \<in> set (obj_keys (obj_fill w []))" by (simp only: fill_keys)
  then have "names_registry_only kd (obj_fill w [])" by (rule nm)
  from registry_only_refused [OF f e w dk this] show ?thesis by simp
qed

lemma url_text: "p \<in> set (nt_properties desc_http) \<Longrightarrow> np_name p = js ''url'' \<Longrightarrow> np_type p \<noteq> PT_number"
  by (auto simp: desc_kind_defs)

lemma code_text: "p \<in> set (nt_properties desc_script) \<Longrightarrow> np_name p = js ''code'' \<Longrightarrow> np_type p \<noteq> PT_number"
  by (auto simp: desc_kind_defs)

text \<open>C13: Once the panel has edited a node of a registered HTTP or script type, no workflow with that node
  can be saved: the form starts from all registered parameters and stores them all with the
  edit, among them the address or the code, which no node may carry, and no further edit takes
  them out.\<close>

theorem edited_node_unsaveable:
  "fresh_typed rows org row bse n
    \<Longrightarrow> (tr_kind row, key) \<in> {(js ''http'', js ''url''), (js ''script'', js ''code'')}
    \<Longrightarrow> obj_get bse key \<noteq> None
    \<Longrightarrow> wn_parameters (foldl (panel_edit rows org) n es) \<noteq> None
    \<Longrightarrow> foldl (panel_edit rows org) n es \<in> set ns
    \<Longrightarrow> validateNodeParameterOverlays (Some rows) org ns \<noteq> Done ()"
proof -
  assume a: "fresh_typed rows org row bse n"
    "(tr_kind row, key) \<in> {(js ''http'', js ''url''), (js ''script'', js ''code'')}"
    "obj_get bse key \<noteq> None" "wn_parameters (foldl (panel_edit rows org) n es) \<noteq> None"
    "foldl (panel_edit rows org) n es \<in> set ns"
  from a(2) consider (H) "tr_kind row = js ''http''" "key = js ''url''"
    | (S) "tr_kind row = js ''script''" "key = js ''code''" by auto
  then have "check_node rows org (foldl (panel_edit rows org) n es) \<noteq> Done ()"
  proof cases
    case H
    then have "tr_kind row \<in> base_kinds" "baseByKind (tr_kind row) = Some desc_http"
      "DescByKind (tr_kind row) 1 = Some desc_http"
      by (simp_all add: base_kinds_def baseByKind_simps desc_of_kind)
    then show ?thesis
      using pinned_kind_refused [OF a(1) _ _ _ a(3) _ _ a(4)] url_text names_registry_http H(2) by blast
  next
    case S
    then have "tr_kind row \<in> base_kinds" "baseByKind (tr_kind row) = Some desc_script"
      "DescByKind (tr_kind row) 1 = Some desc_script"
      by (simp_all add: base_kinds_def baseByKind_simps desc_of_kind)
    then show ?thesis
      using pinned_kind_refused [OF a(1) _ _ _ a(3) _ _ a(4)] code_text names_registry_script S(2) by blast
  qed
  then show ?thesis
    using check_nodes_refused [OF _ a(5)] by (simp add: validateNodeParameterOverlays_def)
qed

lemma merge_objects:
  assumes "MergeOverlay (Some (JObj b)) (Some (JObj v)) d = r"
  obtains j where "r = Merged (Some j)"
  using assms by (auto simp: MergeOverlay_def base_map_def inject_def Let_def)

lemma json_get_object: "distinct (obj_keys v) \<Longrightarrow> json_get (Some (JObj v)) k = obj_get v k"
  by (simp add: json_get_def base_map_def obj_get_fill map_of_rev_distinct) (simp add: obj_get_def)

lemma llm_merged:
  assumes f: "fresh_typed rows org row bse n0" and k: "tr_kind row = js ''llm''"
    and e: "edited_typed row bse n0 n" and v: "wn_parameters n = Some v"
  obtains t where "check_node rows org n = Done ()" "resolve_node (Some rows) org n = Done t"
    "\<forall>key \<in> set (writable (js ''llm'')). json_get (rt_params t) key =
       (case obj_get v key of Some x \<Rightarrow> Some x | None \<Rightarrow> obj_get bse key)"
proof -
  have d: "DescByKind (tr_kind row) 1 = Some desc_llm" by (simp add: k desc_of_kind)
  have p: "tr_params row = Some (JObj bse)" "overlay_of n = Some (JObj v)"
    using f v by (simp_all add: fresh_typed_def overlay_of_def)
  obtain j where m: "MergeOverlay (tr_params row) (overlay_of n) desc_llm = Merged (Some j)"
    unfolding p by (rule merge_objects [OF refl]) blast
  have val: "ValidateParams (tr_kind row) (Some j) = None"
    by (simp add: k ValidateParams_def)
  have c: "check_node rows org n = Done ()"
    using check_edited(1) [OF f e v d] m val p(2)
    by (simp add: check_overlay_def check_merged_def names_registry_llm)
  have r: "resolve_node (Some rows) org n = Done \<lparr>rt_kind = tr_kind row, rt_params = Some j\<rparr>"
    using check_edited(2) [OF f e v d] m val by (simp add: merged_type_def)
  have dist: "distinct (obj_keys bse)" "distinct (obj_keys v)"
    using f e v by (simp_all add: fresh_typed_def edited_typed_def form_value_def)
  have "json_get (Some j) key = (case obj_get v key of Some x \<Rightarrow> Some x | None \<Rightarrow> obj_get bse key)"
    if "key \<in> set (writable (js ''llm''))" for key
    using merge_get [OF m, of key] that
    by (simp add: p json_get_object dist injectable_kinds split: option.splits)
  with c r show thesis by (intro that) auto
qed

text \<open>C35: A node of a registered model type that the panel has edited is accepted, and it runs with the
  values the form shows; a parameter the form shows empty because its number was cleared runs
  with the registered value.\<close>

theorem edited_llm_runs:
  "fresh_typed rows org row bse n \<Longrightarrow> tr_kind row = js ''llm''
    \<Longrightarrow> wn_parameters (foldl (panel_edit rows org) n es) \<noteq> None
    \<Longrightarrow> validateNodeParameterOverlays (Some rows) org [foldl (panel_edit rows org) n es] = Done ()
      \<and> (\<exists>t. resolve_node (Some rows) org (foldl (panel_edit rows org) n es) = Done t
         \<and> (\<forall>key \<in> set (writable (js ''llm'')). json_get (rt_params t) key =
              (case obj_get (form_value bse (foldl (panel_edit rows org) n es)) key of
                 Some x \<Rightarrow> Some x | None \<Rightarrow> obj_get bse key)))"
proof -
  let ?n = "foldl (panel_edit rows org) n es"
  assume a: "fresh_typed rows org row bse n" "tr_kind row = js ''llm''" "wn_parameters ?n \<noteq> None"
  then obtain v where v: "wn_parameters ?n = Some v" by blast
  have k: "tr_kind row \<in> base_kinds" "baseByKind (tr_kind row) = Some desc_llm"
    by (simp_all add: a(2) base_kinds_def baseByKind_simps)
  have e: "edited_typed row bse n ?n" by (rule edited_all [OF a(1) k edited_start [OF a(1)]])
  obtain t where "check_node rows org ?n = Done ()" "resolve_node (Some rows) org ?n = Done t"
    "\<forall>key \<in> set (writable (js ''llm'')). json_get (rt_params t) key =
       (case obj_get v key of Some x \<Rightarrow> Some x | None \<Rightarrow> obj_get bse key)"
    using llm_merged [OF a(1,2) e v] by blast
  then show ?thesis
    by (auto simp: validateNodeParameterOverlays_def form_value_def v)
qed

text \<open>An HTTP node of the demonstration, and a model node whose temperature is cleared.\<close>

definition demo_fresh_node :: "type_row \<Rightarrow> workflow_node" where
  "demo_fresh_node row = (basic_node (js ''n1'') (js ''custom:'' @ tr_slug row) [] [])
     \<lparr>wn_typeId := Some (tr_id row)\<rparr>"

definition demo_http_base :: "json obj" where
  "demo_http_base = [(js ''method'', JStr (js ''GET'')), (js ''url'', JStr (js ''https://a''))]"

definition demo_llm_base :: "json obj" where
  "demo_llm_base = [(js ''userPrompt'', JStr (js ''hi'')), (js ''temperature'', JNum (7 / 10))]"

definition demo_llm_row :: type_row where
  "demo_llm_row = demo_http_row\<lparr>tr_kind := js ''llm'', tr_params := Some (JObj demo_llm_base)\<rparr>"

lemma demo_slug_free: "\<not> ReservedNamespace (js ''hook'')"
  by (simp add: ReservedNamespace_def) (simp add: js_def)

lemma demo_fresh_types:
  "fresh_typed [demo_http_row] (js ''o1'') demo_http_row demo_http_base (demo_fresh_node demo_http_row)"
  "fresh_typed [demo_llm_row] (js ''o1'') demo_llm_row demo_llm_base (demo_fresh_node demo_llm_row)"
  by (simp_all add: fresh_typed_def type_List_def demo_fresh_node_def basic_node_def demo_llm_row_def
      demo_http_row_def demo_http_base_def demo_llm_base_def demo_slug_free)

lemma visible_plain: "np_displayOptions p = None \<Longrightarrow> isVisible p v"
  by (simp add: isVisible_def)

lemma demo_http_form:
  "PropertiesForm (customFromRow desc_http demo_http_row) (js ''method'') (Ev_input (js ''POST'')) v =
     Some (form_patch (js ''method'') (Some (JStr (js ''POST''))) v)"
  by (simp add: PropertiesForm_def customFromRow_props visible_plain desc_http_def prop0_def
      output_format_prop_def renderWidget_def text_widgets_def patchOption_plain opt_item_def)

lemma demo_llm_form:
  "PropertiesForm (customFromRow desc_llm demo_llm_row) (js ''temperature'') (Ev_number None) v =
     Some (form_patch (js ''temperature'') None v)"
  by (simp add: PropertiesForm_def customFromRow_props visible_plain desc_llm_def prop0_def
      output_format_prop_def renderWidget_def)

lemma demo_kinds: "tr_kind demo_http_row = js ''http''" "tr_kind demo_llm_row = js ''llm''"
  by (simp_all add: demo_http_row_def demo_llm_row_def)

definition demo_http_edited :: workflow_node where
  "demo_http_edited = foldl (panel_edit [demo_http_row] (js ''o1'')) (demo_fresh_node demo_http_row)
     [(js ''method'', Ev_input (js ''POST''))]"

definition demo_llm_edited :: workflow_node where
  "demo_llm_edited = foldl (panel_edit [demo_llm_row] (js ''o1'')) (demo_fresh_node demo_llm_row)
     [(js ''temperature'', Ev_number None)]"

lemma demo_http_parameters: "wn_parameters demo_http_edited \<noteq> None"
  using panel_edit_form [OF demo_fresh_types(1) _ _ edited_start [OF demo_fresh_types(1)]]
  by (simp add: demo_http_edited_def demo_kinds base_kinds_def baseByKind_simps form_edit_def demo_http_form)

lemma demo_llm_parameters:
  "wn_parameters demo_llm_edited = Some [(js ''userPrompt'', JStr (js ''hi''))]"
  using panel_edit_form [OF demo_fresh_types(2) _ _ edited_start [OF demo_fresh_types(2)]]
  by (simp add: demo_llm_edited_def demo_kinds base_kinds_def baseByKind_simps form_edit_def demo_llm_form
      form_value_def demo_fresh_node_def basic_node_def demo_llm_base_def form_patch_def obj_del_def)

theorem edited_node_unsaveable_witness:
  "validateNodeParameterOverlays (Some [demo_http_row]) (js ''o1'') [demo_http_edited] \<noteq> Done ()"
proof -
  let ?es = "[(js ''method'', Ev_input (js ''POST''))]"
  have p: "wn_parameters (foldl (panel_edit [demo_http_row] (js ''o1'')) (demo_fresh_node demo_http_row) ?es) \<noteq> None"
    using demo_http_parameters unfolding demo_http_edited_def .
  have k: "(tr_kind demo_http_row, js ''url'') \<in> {(js ''http'', js ''url''), (js ''script'', js ''code'')}"
    by (simp add: demo_kinds)
  have u: "obj_get demo_http_base (js ''url'') \<noteq> None"
    by (simp add: demo_http_base_def obj_get_def)
  show ?thesis
    unfolding demo_http_edited_def by (rule edited_node_unsaveable [OF demo_fresh_types(1) k u p]) simp
qed

theorem edited_llm_runs_witness:
  "\<exists>t. resolve_node (Some [demo_llm_row]) (js ''o1'') demo_llm_edited = Done t
     \<and> json_get (rt_params t) (js ''temperature'') = Some (JNum (7 / 10))"
proof -
  have p: "wn_parameters (foldl (panel_edit [demo_llm_row] (js ''o1'')) (demo_fresh_node demo_llm_row)
      [(js ''temperature'', Ev_number None)]) \<noteq> None"
    using demo_llm_parameters by (simp add: demo_llm_edited_def)
  have k: "js ''temperature'' \<in> set (writable (js ''llm''))" by (simp add: writable_def)
  have v: "obj_get (form_value demo_llm_base demo_llm_edited) (js ''temperature'') = None"
    by (simp add: form_value_def demo_llm_parameters obj_get_def)
  have b: "obj_get demo_llm_base (js ''temperature'') = Some (JNum (7 / 10))"
    by (simp add: demo_llm_base_def obj_get_def)
  show ?thesis
    using edited_llm_runs [OF demo_fresh_types(2) demo_kinds(2) p, folded demo_llm_edited_def] k v b
    by fastforce
qed

section \<open>Fields the form cannot fill\<close>

text \<open>A new line at the end of a collection is dropped at once: the text shown stays the same.\<close>

lemma split_line: "10 \<notin> set l \<Longrightarrow> split_lines (l @ 10 # s) = l # split_lines s"
  by (induction l) auto

lemma split_last: "10 \<notin> set l \<Longrightarrow> split_lines l = [l]"
  by (induction l) auto

definition is_line :: "jsstr \<Rightarrow> bool" where
  "is_line l \<longleftrightarrow> l \<noteq> [] \<and> 10 \<notin> set l"

lemma split_joined: "ls \<noteq> [] \<Longrightarrow> list_all is_line ls \<Longrightarrow> split_lines (join_lines ls @ 10 # []) = ls @ [[]]"
  by (induction ls rule: join_lines.induct) (auto simp: is_line_def split_line)

lemma stored_lines: "list_all is_line ls \<Longrightarrow> filter (\<lambda>l. l \<noteq> []) (ls @ [[]]) = ls"
  by (induction ls) (auto simp: is_line_def)

lemma collection_new_line:
  "ls \<noteq> [] \<Longrightarrow> list_all is_line ls \<Longrightarrow>
     line_values (lines_shown (Some (JArr (map JStr ls))) @ [10]) = JArr (map JStr ls)"
  by (simp add: line_values_def split_joined stored_lines comp_def del: filter_append)

text \<open>A row of a key-value field disappears with its value when its key is emptied; no event adds one.\<close>

lemma row_key_cleared:
  assumes "i < length rows" and "list_all (\<lambda>p. trim (fst p) \<noteq> []) rows"
  shows "row_event rows (Ev_row_key i []) = Some (JObj (obj_fill (take i rows @ drop (Suc i) rows) []))"
proof -
  let ?P = "\<lambda>(k, v). trim k \<noteq> []"
  have k: "filter ?P (take i rows) = take i rows" "filter ?P (drop (Suc i) rows) = drop (Suc i) rows"
    using assms(2) by (auto simp: list_all_iff filter_id_conv dest!: in_set_takeD in_set_dropD)
  have "filter ?P (rows[i := ([], v)]) = take i rows @ drop (Suc i) rows" for v
    unfolding upd_conv_take_nth_drop [OF assms(1)] using k by (simp add: trim_def)
  then show ?thesis using assms(1) by (simp add: setRow_def)
qed

lemma no_row_added: "row_event [] ev = None"
  by (cases ev) auto

end
