(* ===== verification/Spec2Isabelle.thy ===== *)
theory Spec2Isabelle
  imports Editor_Safety Run_Canvas Session Crud Type_Dialog Review_Board
    Server_Contract Cost Run_Preview Export_Dialog Members_Page Org_Access Task_Center Workflow_Page Theme Auth_Pages Api_Client Properties_Panel
begin

text \<open>
  This library models the web client of the studio (\<open>web/src\<close>, TypeScript) and the few
  parts of the server (\<open>internal\<close>, Go) whose contract the client mirrors or relies on, and
  proves what makes them correct. It is a shallow embedding: every definition translates the
  code named above it, under the name the code gives it.

  \<^bold>\<open>The program.\<close> A user designs a workflow as a directed acyclic graph of typed nodes in an
  editor (\<open>features/workflow-canvas\<close>), declares the inputs of a run, starts runs and watches
  them on the same canvas: the client replays the events of the run, follows the live stream,
  and shows states, the fanned-out assets and a preview. Assets are reviewed on a board
  (\<open>features/review\<close>), listed (\<open>features/library\<close>), costed (\<open>features/cost\<close>) and exported
  (\<open>features/workflow/ExportDialog.tsx\<close>). Management pages (configurations, node types,
  members, users) share one state machine (\<open>features/common/crud\<close>). All requests go through
  one session (\<open>lib/apiClient.ts\<close>, \<open>app/auth.tsx\<close>).

  \<^bold>\<open>Foundations.\<close>
  \<^item> \<open>Prelude\<close>: JavaScript strings as lists of UTF-16 code units (numbers), \<open>trim\<close>, \<open>split\<close> and
    the numeric formats the code uses, seen-set loops, list and relation lemmas.
  \<^item> \<open>JS_Object\<close>, \<open>JS_Number\<close>, \<open>JS_JSON\<close>: objects used as dictionaries (integer-like keys
    first, then insertion order), \<open>Number(s)\<close>, \<open>JSON.parse\<close> and \<open>JSON.stringify\<close>.
  \<^item> \<open>Event_System\<close>: labelled runs of a step relation or step function, invariants (locale
    \<open>trace_invariant\<close>) and simulations (locale \<open>state_refinement\<close>); the event-driven components
    below interpret these.
  \<^item> \<open>Dag\<close>: longest paths of finite acyclic relations, the specification of the layered layout.
  \<^item> \<open>Wire_Types\<close>: the records of \<open>lib/types.ts\<close> and \<open>lib/projectState.ts\<close>.

  \<^bold>\<open>The editor.\<close>
  \<^item> \<open>Graph_Check\<close> (\<open>projects/WorkflowDialog.schema.ts\<close>): Kahn's algorithm accepts exactly the
    acyclic closed graphs. \<open>Graph_Layout\<close> (\<open>lib/graphLayout.ts\<close>, \<open>lib/autoLayout.ts\<close>): the
    layers are longest paths.
  \<^item> \<open>Node_Color\<close>, \<open>Canvas_Model\<close>, \<open>Canvas_Facts\<close> (\<open>canvasModel.ts\<close>): loading, saving,
    cloning, splitting an edge, fresh ids (locale \<open>fresh_names\<close>), helper lines.
  \<^item> \<open>Undo_Redo\<close> (\<open>useUndoRedo.ts\<close>, locale \<open>document_history\<close>); \<open>Canvas_Editor\<close> and
    \<open>Editor_Safety\<close> (\<open>WorkflowCanvas.tsx\<close>): the record of the editor's state, one function per
    handler, the step over all of them, the invariant that every document stays a valid graph,
    and the save protocol with its version check.
  \<^item> \<open>Template_Vars\<close>, \<open>Type_Dialog\<close>: template variables and bindings, the node type dialog and
    what a user without administration rights can submit.
  \<^item> \<open>Node_Desc\<close> (\<open>internal/nodedesc\<close>, \<open>internal/customnodetype/validate.go\<close>, the handlers that use
    them): descriptions of node types, the catalogue of an organisation, the merge of a node's
    parameters over its registered type, the check at saving, the resolution at running.
    \<open>Properties_Panel\<close> (\<open>PropertiesPanel.tsx\<close>, \<open>PropertiesForm.tsx\<close>): the widgets of the form and the
    handlers of the panel, and what an edited node becomes on the server.

  \<^bold>\<open>Runs.\<close>
  \<^item> \<open>Run_Inputs\<close> (\<open>inputsSchema.ts\<close>, \<open>RunInputsDialog.tsx\<close>) and \<open>Server_Contract\<close>
    (\<open>internal/runinputs\<close>, \<open>internal/storageconfig\<close>, \<open>internal/project\<close>): declared inputs from the
    panel through the dialog to the variables of the run, on both sides of the wire.
  \<^item> \<open>Event_Log\<close> (\<open>lib/timeline.ts\<close>, locale \<open>absorbing_reducer\<close>), \<open>Run_Stream\<close> (\<open>lib/sse.ts\<close>,
    \<open>useProductionTimeline.ts\<close>, \<open>useNodeTiming.ts\<close>): replay and live frames fold to one log
    without repetition.
  \<^item> \<open>Run_Overlay\<close>, \<open>Topology_Settings\<close>, \<open>Run_Fanout\<close>, \<open>Run_View\<close>, \<open>Run_Canvas\<close>: the join of
    canvas nodes with run nodes, the grouping of assets, the stored preferences, what the run
    canvas shows, and its state machine (run, cancel, confirm, select, complete).
  \<^item> \<open>Run_Preview\<close>, \<open>Export_Dialog\<close>: the reader of a finished run and its export jobs.

  \<^bold>\<open>Assets, costs, administration.\<close>
  \<^item> \<open>Library\<close> (keyset pages, filters, statuses), \<open>Review_Board\<close> (keyboard, roles, batches),
    \<open>Cost\<close> (formats, ledger, CSV export).
  \<^item> \<open>Session\<close>: token, marker, single refresh, retry once. \<open>Crud\<close>: the management hook and its
    abstract machine. \<open>Config_Forms\<close>: the forms of model and storage configurations and projects.
  \<^item> \<open>Org_Server\<close>, \<open>Org_Safety\<close> (\<open>internal/studiosvc\<close>, \<open>internal/orginvite\<close>): members,
    invitations, platform administrators, and the guards of the last administrator;
    \<open>Members_Page\<close>: the pages that call them. \<open>Org_Access\<close> (\<open>app/nav.ts\<close>, \<open>app/rbac.ts\<close>,
    \<open>app/org.ts\<close>, the routes of \<open>httpapi.go\<close>): what is shown to whom, and what the server admits.
  \<^item> \<open>Task_Center\<close> (\<open>features/tasks\<close>, \<open>internal/studiosvc/taskboard.go\<close>): the board of runs, its tabs,
    polling and times, and the rows the server sends. \<open>Workflow_Page\<close> (\<open>features/workflow\<close>): the
    page of a project's workflow, its unsaved edits, run and delete dialogs, links between routes.
  \<^item> \<open>Theme\<close> (\<open>app/theme.tsx\<close>, \<open>index.html\<close>): the chosen theme and the first paint.
  \<^item> \<open>Auth_Pages\<close> (\<open>routes/login.tsx\<close>, \<open>routes/register.tsx\<close>, \<open>internal/studiosvc/register.go\<close>): log in,
    registration, verification codes and their resends.
  \<^item> \<open>Api_Client\<close> (\<open>features/*/api.ts\<close> and the other callers, \<open>internal/httpapi/httpapi.go\<close>): every
    request of the client with its cache keys, the route table of the server and its dispatch; what
    each request reaches, and which cached reads each change refreshes.

  \<^bold>\<open>Correspondence and abstractions.\<close> An interface or React state becomes a \<open>record\<close>, a union a
  \<open>datatype\<close>; absent fields are \<open>None\<close>. A handler is a function from state to state and the
  list of requests it sends; answers, timers and clicks are events, and a run is any sequence
  of events, so every interleaving of user and network is covered. A request is handled by the
  service at one point between its sending and its answer. Numbers are integers or rationals
  where the code only adds, compares, scales and rounds; fields of objects do not clash with
  members of \<open>Object.prototype\<close>. Code that is not in the repository (the authorisation
  library, password hashes, random tokens, locale formatting, clocks) is a parameter of the
  definitions that use it.

  \<^bold>\<open>Bounds and fuel.\<close> The layout pass is bounded by the number of nodes plus one, as in the
  code, and proved to be enough; \<open>JSON.parse\<close> and the CSV reader recurse on fuel above the length of
  the text, with the round trips proved at that fuel; paged fetches carry fuel, and the theorems on
  them give an amount that suffices.

  \<^bold>\<open>Not modelled.\<close> Rendering (markup, styles, focus, drag gestures of the graph library),
  query caching beyond what the pages observe, the server outside the packages above (the
  workers, providers of models, storage drivers, persistence), the end-to-end scripts.
\<close>

end
